(* ===== verification/Prelude.thy ===== *)
theory Prelude
  imports
    Main
    "HOL-Library.Char_ord"
    "HOL-Library.List_Lexorder"
    "HOL-Library.Product_Lexorder"
    "HOL-Library.Sublist"
    "HOL-Library.Multiset"
begin

text \<open>
  The part of Go and of its standard library that the components share.

  A Go \<open>string\<close> (and a \<open>[]byte\<close>) is a sequence of bytes: \<open>gostring\<close> is the
  list of its bytes, \<open>char\<close> being the 8-bit type of HOL.  Go's \<open><\<close> on strings is the
  lexicographic order on bytes, which is the order of the library's List\_Lexorder and Char\_ord,
  so \<open>sort\<close> is \<open>sort.Strings\<close> and \<open>sort_key\<close>, which is stable, is
  \<open>sort.SliceStable\<close> for a less-function that compares keys.

  A Go error or report text that is only carried around is a \<open>gomsg\<close>: the format it was
  built from, its arguments, and the error it wraps (\<open>%w\<close>).  Two messages built by the same
  format from the same arguments are the same text, so nothing the code observes is lost.
\<close>

section \<open>Collections of facts\<close>

named_theorems go_simps \<open>evaluation rules for the modelled standard library\<close>
named_theorems effects \<open>what an operation does to the state it is given\<close>

section \<open>Bytes, strings and messages\<close>

type_synonym gostring = string

abbreviation NL :: char where "NL \<equiv> CHR 0x0A"
abbreviation TAB :: char where "TAB \<equiv> CHR 0x09"
abbreviation CR :: char where "CR \<equiv> CHR 0x0D"
abbreviation NUL :: char where "NUL \<equiv> CHR 0x00"
abbreviation QUOT :: char where "QUOT \<equiv> CHR 0x22"
abbreviation APOS :: char where "APOS \<equiv> CHR 0x27"
abbreviation BACKQUOTE :: char where "BACKQUOTE \<equiv> CHR 0x60"
abbreviation BSLASH :: char where "BSLASH \<equiv> CHR 0x5C"

text \<open>The UTF-8 bytes of the two non-ASCII characters of the program's literals.\<close>

abbreviation em_dash :: gostring where "em_dash \<equiv> [CHR 0xE2, CHR 0x80, CHR 0x94]"
abbreviation right_arrow :: gostring where "right_arrow \<equiv> [CHR 0xE2, CHR 0x86, CHR 0x92]"

datatype gomsg = Msg (msg_format: gostring) (msg_args: "gostring list") (msg_cause: "gomsg option")

abbreviation errorf :: "gostring \<Rightarrow> gostring list \<Rightarrow> gomsg" where
  "errorf f as \<equiv> Msg f as None"

abbreviation wrapf :: "gostring \<Rightarrow> gostring list \<Rightarrow> gomsg \<Rightarrow> gomsg" where
  "wrapf f as e \<equiv> Msg f as (Some e)"

type_synonym 'a res = "gomsg + 'a"

section \<open>Package strings\<close>

fun strip_prefix :: "gostring \<Rightarrow> gostring \<Rightarrow> gostring option" where
  "strip_prefix [] s = Some s"
| "strip_prefix (p # ps) [] = None"
| "strip_prefix (p # ps) (c # cs) = (if p = c then strip_prefix ps cs else None)"

definition HasPrefix :: "gostring \<Rightarrow> gostring \<Rightarrow> bool" where
  "HasPrefix s p = (strip_prefix p s \<noteq> None)"

definition HasSuffix :: "gostring \<Rightarrow> gostring \<Rightarrow> bool" where
  "HasSuffix s p = (strip_prefix (rev p) (rev s) \<noteq> None)"

definition TrimPrefix :: "gostring \<Rightarrow> gostring \<Rightarrow> gostring" where
  "TrimPrefix s p = (case strip_prefix p s of Some r \<Rightarrow> r | None \<Rightarrow> s)"

definition TrimSuffix :: "gostring \<Rightarrow> gostring \<Rightarrow> gostring" where
  "TrimSuffix s p = (case strip_prefix (rev p) (rev s) of Some r \<Rightarrow> rev r | None \<Rightarrow> s)"

text \<open>\<open>strings.TrimRight(s, cutset)\<close> and \<open>TrimLeft\<close>, for a cutset of ASCII bytes.\<close>

definition TrimRight :: "gostring \<Rightarrow> gostring \<Rightarrow> gostring" where
  "TrimRight s cutset = rev (dropWhile (\<lambda>c. c \<in> set cutset) (rev s))"

definition TrimLeft :: "gostring \<Rightarrow> gostring \<Rightarrow> gostring" where
  "TrimLeft s cutset = dropWhile (\<lambda>c. c \<in> set cutset) s"

fun Contains :: "gostring \<Rightarrow> gostring \<Rightarrow> bool" where
  "Contains [] p = (p = [])"
| "Contains (c # cs) p = (HasPrefix (c # cs) p \<or> Contains cs p)"

fun IndexByte :: "gostring \<Rightarrow> char \<Rightarrow> nat option" where
  "IndexByte [] x = None"
| "IndexByte (c # cs) x = (if c = x then Some 0 else map_option Suc (IndexByte cs x))"

fun LastIndexByte :: "gostring \<Rightarrow> char \<Rightarrow> nat option" where
  "LastIndexByte [] x = None"
| "LastIndexByte (c # cs) x =
     (case LastIndexByte cs x of
        Some i \<Rightarrow> Some (Suc i)
      | None \<Rightarrow> if c = x then Some 0 else None)"

text \<open>\<open>strings.Index(s, sep)\<close>.\<close>

fun IndexStr :: "gostring \<Rightarrow> gostring \<Rightarrow> nat option" where
  "IndexStr [] p = (if p = [] then Some 0 else None)"
| "IndexStr (c # cs) p =
     (if HasPrefix (c # cs) p then Some 0 else map_option Suc (IndexStr cs p))"

text \<open>\<open>strings.ReplaceAll\<close> of one byte by a string, and of a non-empty string by a string.\<close>

definition replace_byte :: "char \<Rightarrow> gostring \<Rightarrow> gostring \<Rightarrow> gostring" where
  "replace_byte x new s = concat (map (\<lambda>c. if c = x then new else [c]) s)"

lemma strip_prefix_length: "strip_prefix p s = Some r \<Longrightarrow> length s = length p + length r"
  by (induction p s rule: strip_prefix.induct) (auto split: if_splits)

lemma strip_prefix_Some: "strip_prefix p s = Some r \<longleftrightarrow> s = p @ r"
  by (induction p s rule: strip_prefix.induct) auto

function ReplaceAll :: "gostring \<Rightarrow> gostring \<Rightarrow> gostring \<Rightarrow> gostring" where
  "ReplaceAll [] old new = []"
| "ReplaceAll (c # cs) old new =
     (case (if old = [] then None else strip_prefix old (c # cs)) of
        Some r \<Rightarrow> new @ ReplaceAll r old new
      | None \<Rightarrow> c # ReplaceAll cs old new)"
  by pat_completeness auto
termination
  by (relation "measure (\<lambda>(s, old, new). length s)")
     (auto split: if_splits dest!: strip_prefix_length simp: Suc_le_eq)

text \<open>\<open>strings.Split\<close> on a one-byte separator, and \<open>strings.Join\<close>.\<close>

fun Split :: "char \<Rightarrow> gostring \<Rightarrow> gostring list" where
  "Split x [] = [[]]"
| "Split x (c # cs) =
     (if c = x then [] # Split x cs
      else (case Split x cs of [] \<Rightarrow> [[c]] | l # ls \<Rightarrow> (c # l) # ls))"

fun Join :: "gostring \<Rightarrow> gostring list \<Rightarrow> gostring" where
  "Join sep [] = []"
| "Join sep [x] = x"
| "Join sep (x # y # ys) = x @ sep @ Join sep (y # ys)"

text \<open>\<open>strings.Cut(s, "=")\<close> on a one-byte separator.\<close>

fun Cut :: "char \<Rightarrow> gostring \<Rightarrow> gostring \<times> gostring \<times> bool" where
  "Cut x [] = ([], [], False)"
| "Cut x (c # cs) =
     (if c = x then ([], cs, True)
      else (case Cut x cs of (b, a, f) \<Rightarrow> (c # b, a, f)))"

subsection \<open>Unicode white space\<close>

text \<open>
  \<open>unicode.IsSpace\<close>: the six ASCII spaces, U+0085, U+00A0, and the UTF-8 encodings of
  U+1680, U+2000 to U+200A, U+2028, U+2029, U+202F, U+205F and U+3000.  \<open>space_len s\<close>
  is the number of bytes of the space \<open>s\<close> starts with, 0 when there is none;
  \<open>space_len_rev\<close> does the same for the last rune of the reversed argument.  The first byte
  of these encodings is never a continuation byte, so reading byte by byte finds exactly the runes
  Go decodes, on invalid UTF-8 as well.
\<close>

definition ascii_space :: "char \<Rightarrow> bool" where
  "ascii_space c = (c = CHR '' '' \<or> c = TAB \<or> c = NL \<or> c = CHR 0x0B \<or> c = CHR 0x0C \<or> c = CR)"

definition space2 :: "char \<Rightarrow> char \<Rightarrow> bool" where
  "space2 a b = (a = CHR 0xC2 \<and> (b = CHR 0x85 \<or> b = CHR 0xA0))"

definition space3 :: "char \<Rightarrow> char \<Rightarrow> char \<Rightarrow> bool" where
  "space3 a b c =
     (a = CHR 0xE1 \<and> b = CHR 0x9A \<and> c = CHR 0x80 \<or>
      a = CHR 0xE2 \<and> b = CHR 0x80 \<and>
        (CHR 0x80 \<le> c \<and> c \<le> CHR 0x8A \<or> c = CHR 0xA8 \<or> c = CHR 0xA9 \<or> c = CHR 0xAF) \<or>
      a = CHR 0xE2 \<and> b = CHR 0x81 \<and> c = CHR 0x9F \<or>
      a = CHR 0xE3 \<and> b = CHR 0x80 \<and> c = CHR 0x80)"

fun space_len :: "gostring \<Rightarrow> nat" where
  "space_len [] = 0"
| "space_len (a # s) =
     (if ascii_space a then 1
      else (case s of
              [] \<Rightarrow> 0
            | b # t \<Rightarrow> if space2 a b then 2
                else (case t of [] \<Rightarrow> 0 | c # _ \<Rightarrow> if space3 a b c then 3 else 0)))"

fun space_len_rev :: "gostring \<Rightarrow> nat" where
  "space_len_rev [] = 0"
| "space_len_rev (a # s) =
     (if ascii_space a then 1
      else (case s of
              [] \<Rightarrow> 0
            | b # t \<Rightarrow> if space2 b a then 2
                else (case t of [] \<Rightarrow> 0 | c # _ \<Rightarrow> if space3 c b a then 3 else 0)))"

function trim_left_space :: "gostring \<Rightarrow> gostring" where
  "trim_left_space s =
     (if s = [] \<or> space_len s = 0 then s else trim_left_space (drop (space_len s) s))"
  by pat_completeness auto
termination
  by (relation "measure length") auto

function trim_left_rev :: "gostring \<Rightarrow> gostring" where
  "trim_left_rev s =
     (if s = [] \<or> space_len_rev s = 0 then s else trim_left_rev (drop (space_len_rev s) s))"
  by pat_completeness auto
termination
  by (relation "measure length") auto

declare trim_left_space.simps [simp del] trim_left_rev.simps [simp del]

definition TrimSpace :: "gostring \<Rightarrow> gostring" where
  "TrimSpace s = rev (trim_left_rev (rev (trim_left_space s)))"

text \<open>
  \<open>strings.Fields\<close>: the maximal runs of non-space bytes.  The accumulator \<open>acc\<close> holds
  the current field, reversed.
\<close>

function fields_from :: "gostring \<Rightarrow> gostring \<Rightarrow> gostring list" where
  "fields_from acc s =
     (if s = [] then (if acc = [] then [] else [rev acc])
      else if 0 < space_len s
      then (if acc = [] then [] else [rev acc]) @ fields_from [] (drop (space_len s) s)
      else fields_from (hd s # acc) (tl s))"
  by pat_completeness auto
termination
  by (relation "measure (\<lambda>(acc, s). length s)") auto

declare fields_from.simps [simp del]

definition Fields :: "gostring \<Rightarrow> gostring list" where
  "Fields s = fields_from [] s"

text \<open>\<open>strings.FieldsFunc\<close> for a predicate that holds of ASCII bytes only.\<close>

fun fields_func_from :: "(char \<Rightarrow> bool) \<Rightarrow> gostring \<Rightarrow> gostring \<Rightarrow> gostring list" where
  "fields_func_from p acc [] = (if acc = [] then [] else [rev acc])"
| "fields_func_from p acc (c # cs) =
     (if p c then (if acc = [] then [] else [rev acc]) @ fields_func_from p [] cs
      else fields_func_from p (c # acc) cs)"

definition FieldsFunc :: "(char \<Rightarrow> bool) \<Rightarrow> gostring \<Rightarrow> gostring list" where
  "FieldsFunc p s = fields_func_from p [] s"

subsection \<open>Decimal numbers\<close>

fun nat_dec :: "nat \<Rightarrow> gostring" where
  "nat_dec n =
     (if n < 10 then [char_of (48 + n)] else nat_dec (n div 10) @ [char_of (48 + n mod 10)])"

declare nat_dec.simps [simp del]

definition int_dec :: "int \<Rightarrow> gostring" where
  "int_dec i = (if i < 0 then CHR ''-'' # nat_dec (nat (- i)) else nat_dec (nat i))"

text \<open>\<open>%0wd\<close>: padded with zeros to width \<open>w\<close>.\<close>

definition pad_dec :: "nat \<Rightarrow> nat \<Rightarrow> gostring" where
  "pad_dec w n = (let d = nat_dec n in replicate (w - length d) (CHR ''0'') @ d)"

section \<open>Time\<close>

text \<open>
  A \<open>time.Time\<close> is the number of seconds since the zero time (0001-01-01 00:00:00 UTC), so
  \<open>IsZero\<close> is equality with 0.  \<open>format_utc\<close> is
  \<open>t.UTC().Format("2006-01-02T15:04:05Z")\<close> for times from the zero time on (the years that
  do not fit four digits print in full, as in Go).  The year is found from the number of days by
  the 400-year cycle of the Gregorian calendar.
\<close>

type_synonym gotime = int

definition zero_time :: gotime where "zero_time = 0"

definition year_of_days :: "nat \<Rightarrow> nat \<times> nat" where
  \<comment> \<open>(years since year 1, day of that year), both from 0\<close>
  "year_of_days d =
     (let n400 = d div 146097; d1 = d mod 146097;
          n100 = min 3 (d1 div 36524); d2 = d1 - 36524 * n100;
          n4 = d2 div 1461; d3 = d2 mod 1461;
          n1 = min 3 (d3 div 365); d4 = d3 - 365 * n1
      in (400 * n400 + 100 * n100 + 4 * n4 + n1, d4))"

definition leap_year :: "nat \<Rightarrow> bool" where
  "leap_year y = (4 dvd y \<and> (\<not> 100 dvd y \<or> 400 dvd y))"

fun month_of_day :: "nat list \<Rightarrow> nat \<Rightarrow> nat \<Rightarrow> nat \<times> nat" where
  "month_of_day [] m d = (m, d)"
| "month_of_day (l # ls) m d = (if d < l then (m, d) else month_of_day ls (Suc m) (d - l))"

definition civil_of_days :: "nat \<Rightarrow> nat \<times> nat \<times> nat" where
  "civil_of_days d =
     (case year_of_days d of (y, yd) \<Rightarrow>
        (case month_of_day
                [31, if leap_year (Suc y) then 29 else 28, 31, 30, 31, 30, 31, 31, 30, 31, 30, 31]
                1 yd of
           (m, md) \<Rightarrow> (Suc y, m, Suc md)))"

definition format_utc :: "gotime \<Rightarrow> gostring" where
  "format_utc t =
     (let n = nat t; s = n mod 86400 in
      case civil_of_days (n div 86400) of (y, m, d) \<Rightarrow>
        pad_dec 4 y @ ''-'' @ pad_dec 2 m @ ''-'' @ pad_dec 2 d @ ''T'' @
        pad_dec 2 (s div 3600) @ '':'' @ pad_dec 2 (s mod 3600 div 60) @ '':'' @
        pad_dec 2 (s mod 60) @ ''Z'')"

section \<open>Facts on strings\<close>

lemma HasPrefix_iff: "HasPrefix s p \<longleftrightarrow> prefix p s"
  by (auto simp: HasPrefix_def strip_prefix_Some prefix_def)

lemma HasPrefix_append [simp]: "HasPrefix (p @ s) p"
  by (simp add: HasPrefix_iff)

lemma TrimPrefix_append [simp]: "TrimPrefix (p @ s) p = s"
  using strip_prefix_Some [of p "p @ s" s] by (simp add: TrimPrefix_def)

lemma TrimSuffix_append [simp]: "TrimSuffix (s @ p) p = s"
  using strip_prefix_Some [of "rev p" "rev p @ rev s" "rev s"] by (simp add: TrimSuffix_def)

lemma LastIndexByte_None: "LastIndexByte s x = None \<longleftrightarrow> x \<notin> set s"
  by (induction s) (auto split: option.splits)

lemma LastIndexByte_split:
  "LastIndexByte s x = Some i \<Longrightarrow>
     s = take i s @ x # drop (Suc i) s \<and> x \<notin> set (drop (Suc i) s) \<and> i < length s"
  by (induction s arbitrary: i) (auto simp: LastIndexByte_None split: option.splits if_splits)

lemma LastIndexByte_append:
  "x \<notin> set b \<Longrightarrow> LastIndexByte (a @ x # b) x = Some (length a)"
  by (induction a) (auto simp: LastIndexByte_None split: option.splits)

lemma Contains_iff: "Contains s p \<longleftrightarrow> (\<exists>a b. s = a @ p @ b)"
proof (induction s)
  case (Cons c s)
  then show ?case
    by (auto simp: HasPrefix_iff prefix_def Cons_eq_append_conv)
qed simp

lemma Split_not_Nil [simp]: "Split x s \<noteq> []"
  by (induction s) (auto split: list.splits)

lemma Join_snoc: "Join sep (es @ [n]) = (if es = [] then n else Join sep es @ sep @ n)"
  by (induction sep es rule: Join.induct) auto

lemma Join_Split: "Join [x] (Split x s) = s"
proof (induction s)
  case (Cons c s)
  obtain l ls where s: "Split x s = l # ls" by (cases "Split x s") auto
  with Cons show ?case by (cases ls) auto
qed simp

lemma Split_no_sep: "l \<in> set (Split x s) \<Longrightarrow> x \<notin> set l"
  by (induction s arbitrary: l) (auto split: list.splits if_splits)

lemma Split_Join: "ls \<noteq> [] \<Longrightarrow> list_all (\<lambda>l. x \<notin> set l) ls \<Longrightarrow> Split x (Join [x] ls) = ls"
proof (induction "[x]" ls rule: Join.induct)
  case (2 l)
  then have "x \<notin> set l" by simp
  then show ?case by (induction l) auto
next
  case (3 l k ls)
  have "Split x (l @ x # s) = l # Split x s" if "x \<notin> set l" for s
    using that by (induction l) auto
  with 3 show ?case by simp
qed simp

lemma replace_byte_simps [simp]:
  "replace_byte x new [] = []"
  "replace_byte x new (c # cs) = (if c = x then new else [c]) @ replace_byte x new cs"
  by (simp_all add: replace_byte_def)

lemma replace_byte_absent: "x \<notin> set new \<Longrightarrow> x \<notin> set (replace_byte x new s)"
  by (induction s) auto

lemma replace_byte_idem: "x \<notin> set s \<Longrightarrow> replace_byte x new s = s"
  by (induction s) auto

subsection \<open>White space\<close>

lemma trim_left_space_suffix: "suffix (trim_left_space s) s"
proof (induction s rule: trim_left_space.induct)
  case (1 s)
  then show ?case
    by (subst trim_left_space.simps) (auto intro: suffix_order.trans suffix_drop)
qed

lemma trim_left_rev_suffix: "suffix (trim_left_rev s) s"
proof (induction s rule: trim_left_rev.induct)
  case (1 s)
  then show ?case
    by (subst trim_left_rev.simps) (auto intro: suffix_order.trans suffix_drop)
qed

lemma TrimSpace_sublist: "sublist (TrimSpace s) s"
proof -
  have "prefix (TrimSpace s) (trim_left_space s)"
    using trim_left_rev_suffix [of "rev (trim_left_space s)"]
    by (simp add: TrimSpace_def suffix_to_prefix)
  then show ?thesis
    by (meson prefix_imp_sublist suffix_imp_sublist sublist_order.order_trans trim_left_space_suffix)
qed

lemma TrimSpace_Nil [simp]: "TrimSpace [] = []"
  by (simp add: TrimSpace_def trim_left_space.simps trim_left_rev.simps)

text \<open>Bytes that no Unicode space starts with: a text of such bytes is one field.\<close>

definition plain_byte :: "char \<Rightarrow> bool" where
  "plain_byte c = (\<not> ascii_space c \<and> c \<notin> {CHR 0xC2, CHR 0xE1, CHR 0xE2, CHR 0xE3})"

lemma space_len_plain: "plain_byte c \<Longrightarrow> space_len (c # s) = 0"
  by (auto simp: plain_byte_def space2_def space3_def split: list.splits)

lemma fields_from_plain:
  "list_all plain_byte s \<Longrightarrow> fields_from acc s = (if acc = [] \<and> s = [] then [] else [rev acc @ s])"
proof (induction s arbitrary: acc)
  case Nil
  show ?case by (subst fields_from.simps) simp
next
  case (Cons c s)
  then show ?case by (subst fields_from.simps) (simp add: space_len_plain del: space_len.simps)
qed

lemma Fields_plain: "list_all plain_byte s \<Longrightarrow> s \<noteq> [] \<Longrightarrow> Fields s = [s]"
  by (simp add: Fields_def fields_from_plain)

text \<open>ASCII bytes that are not spaces stop the trimming on either side.\<close>

definition solid_byte :: "char \<Rightarrow> bool" where
  "solid_byte c = (\<not> ascii_space c \<and> of_char c < (128 :: nat))"

lemma solid_plain: "solid_byte c \<Longrightarrow> plain_byte c"
  by (auto simp: solid_byte_def plain_byte_def)

lemma space2_high: "space2 b a \<Longrightarrow> \<not> solid_byte a"
  unfolding space2_def solid_byte_def by (elim conjE disjE) simp_all

lemma space3_high: "space3 c b a \<Longrightarrow> \<not> solid_byte a"
  unfolding space3_def solid_byte_def by (elim conjE disjE) (simp_all add: less_eq_char_def)

lemma space_len_rev_solid: "solid_byte c \<Longrightarrow> space_len_rev (c # s) = 0"
proof -
  assume c: "solid_byte c"
  then have "\<not> space2 b c" "\<not> space3 a b c" for a b
    using space2_high space3_high by blast+
  moreover have "\<not> ascii_space c" using c by (simp add: solid_byte_def)
  ultimately show "space_len_rev (c # s) = 0" by (simp split: list.splits)
qed

lemma trim_left_space_step: "ascii_space c \<Longrightarrow> trim_left_space (c # s) = trim_left_space s"
  by (subst trim_left_space.simps) simp

lemma trim_left_space_stop: "plain_byte c \<Longrightarrow> trim_left_space (c # s) = c # s"
  by (subst trim_left_space.simps) (simp add: space_len_plain del: space_len.simps)

lemma trim_left_rev_step: "ascii_space c \<Longrightarrow> trim_left_rev (c # s) = trim_left_rev s"
  by (subst trim_left_rev.simps) simp

lemma trim_left_rev_stop: "solid_byte c \<Longrightarrow> trim_left_rev (c # s) = c # s"
  by (subst trim_left_rev.simps) (simp add: space_len_rev_solid del: space_len_rev.simps)

lemma TrimSpace_solid: "s \<noteq> [] \<Longrightarrow> solid_byte (hd s) \<Longrightarrow> solid_byte (last s) \<Longrightarrow> TrimSpace s = s"
proof -
  assume s: "s \<noteq> []" "solid_byte (hd s)" "solid_byte (last s)"
  then have "trim_left_space s = s" by (cases s) (simp_all add: trim_left_space_stop solid_plain)
  moreover have "trim_left_rev (rev s) = rev s"
    using s by (cases s rule: rev_cases) (simp_all add: trim_left_rev_stop)
  ultimately show "TrimSpace s = s" by (simp add: TrimSpace_def)
qed

subsection \<open>Decimal numbers are injective\<close>

lemma nat_dec_nonempty [simp]: "nat_dec n \<noteq> []"
  by (subst nat_dec.simps) simp

lemma digit_code: "k < 10 \<Longrightarrow> of_char (char_of (48 + k :: nat)) = (48 + k :: nat)"
  by (simp add: take_bit_eq_mod)

lemma nat_dec_digits: "c \<in> set (nat_dec n) \<Longrightarrow> CHR ''0'' \<le> c \<and> c \<le> CHR ''9''"
proof (induction n rule: nat_dec.induct)
  case (1 n)
  have dig: "k < 10 \<Longrightarrow> CHR ''0'' \<le> (char_of (48 + k :: nat)) \<and> char_of (48 + k) \<le> CHR ''9''" for k :: nat
    using digit_code [of k] by (simp add: less_eq_char_def)
  from 1 show ?case
    by (subst (asm) nat_dec.simps) (auto split: if_splits simp: dig)
qed

fun dec_value :: "gostring \<Rightarrow> nat" where
  "dec_value [] = 0"
| "dec_value (c # cs) = (of_char c - 48) * 10 ^ length cs + dec_value cs"

lemma dec_value_append: "dec_value (a @ b) = dec_value a * 10 ^ length b + dec_value b"
  by (induction a) (auto simp: algebra_simps power_add)

lemma dec_value_nat_dec: "dec_value (nat_dec n) = n"
proof (induction n rule: nat_dec.induct)
  case (1 n)
  then show ?case
    by (subst nat_dec.simps) (auto simp: dec_value_append digit_code simp del: of_char_of)
qed

lemma nat_dec_inject [simp]: "nat_dec m = nat_dec n \<longleftrightarrow> m = n"
  by (metis dec_value_nat_dec)

section \<open>Grouping\<close>

text \<open>The elements of a list grouped by a key, and those without one of the keys.\<close>

lemma partition_by_key:
  "distinct ts \<Longrightarrow>
     mset (concat (map (\<lambda>t. filter (\<lambda>x. f x = t) xs) ts)) + mset (filter (\<lambda>x. f x \<notin> set ts) xs) = mset xs"
proof (induction ts)
  case (Cons t ts)
  have "filter_mset (\<lambda>x. f x = t) M + filter_mset (\<lambda>x. f x \<notin> insert t (set ts)) M =
        filter_mset (\<lambda>x. f x \<notin> set ts) M" for M
    using Cons.prems by (induction M) auto
  from this [of "mset xs"] Cons show ?case
    by (simp add: add.assoc [symmetric] add.commute)
qed simp

end
