(* ===== verification/Go_Regexp.thy ===== *)
theory Go_Regexp
  imports Prelude
begin

text \<open>
  Package \<open>regexp\<close>, as far as the program uses it: a pattern is a term of \<open>re\<close>, and
  \<open>matches\<close> lists every way the pattern matches a prefix of the input, in the order of
  preference of Go's leftmost-first semantics (greedy repetitions try to go on first, an
  alternative tries its left side first).  The first element is the match Go reports.  A match is
  the list of captured groups (a later capture of the same group wins, as in Go) and the rest of
  the input; the matched text is what the rest leaves of the input.

  Patterns are matched byte by byte.  Every class of the program's patterns either holds only
  ASCII characters or is the complement of such a class and is followed by an ASCII character or
  by the end of the pattern, so matching by bytes finds the same text as matching by runes.
\<close>

section \<open>Patterns and their matches\<close>

datatype re =
    Eps
  | Cls "char \<Rightarrow> bool"
  | Seq re re
  | Alt re re
  | Star re
  | LazyStar re
  | Group nat re
  | WordBoundary

type_synonym caps = "(nat \<times> gostring) list"

definition digit_char :: "char \<Rightarrow> bool" where
  "digit_char c = (c \<in> set ''0123456789'')"

definition upper_char :: "char \<Rightarrow> bool" where
  "upper_char c = (let n = (of_char c :: nat) in 65 \<le> n \<and> n \<le> 90)"

definition lower_char :: "char \<Rightarrow> bool" where
  "lower_char c = (let n = (of_char c :: nat) in 97 \<le> n \<and> n \<le> 122)"

definition word_char :: "char \<Rightarrow> bool" where
  "word_char c = (c = CHR ''_'' \<or> digit_char c \<or> upper_char c \<or> lower_char c)"

lemmas char_class_defs = word_char_def digit_char_def upper_char_def lower_char_def

text \<open>\<open>\<backslash>s\<close> is \<open>[\<backslash>t\<backslash>n\<backslash>f\<backslash>r ]\<close> in RE2 syntax.\<close>

definition re_space :: "char \<Rightarrow> bool" where
  "re_space c = (c = CHR '' '' \<or> c = TAB \<or> c = NL \<or> c = CHR 0x0C \<or> c = CR)"

text \<open>
  The input is given with the byte before it (\<open>None\<close> at the start of the text), which the word
  boundary \<open>\<backslash>b\<close> looks at.
\<close>

definition at_boundary :: "char option \<Rightarrow> gostring \<Rightarrow> bool" where
  "at_boundary p s =
     ((case p of None \<Rightarrow> False | Some c \<Rightarrow> word_char c) \<noteq>
      (case s of [] \<Rightarrow> False | c # _ \<Rightarrow> word_char c))"

definition before :: "char option \<Rightarrow> gostring \<Rightarrow> gostring \<Rightarrow> char option" where
  \<comment> \<open>the byte before \<open>t\<close>, a suffix of \<open>s\<close> that has \<open>p\<close> before it\<close>
  "before p s t = (if length t < length s then Some (s ! (length s - length t - 1)) else p)"

function matches :: "re \<Rightarrow> char option \<Rightarrow> gostring \<Rightarrow> (caps \<times> gostring) list" where
  "matches Eps p s = [([], s)]"
| "matches (Cls P) p s = (case s of [] \<Rightarrow> [] | c # cs \<Rightarrow> if P c then [([], cs)] else [])"
| "matches (Seq a b) p s =
     concat (map (\<lambda>(c, t). if length t \<le> length s
                           then map (\<lambda>(d, u). (c @ d, u)) (matches b (before p s t) t)
                           else []) (matches a p s))"
| "matches (Alt a b) p s = matches a p s @ matches b p s"
| "matches (Star a) p s =
     concat (map (\<lambda>(c, t). if length t < length s
                           then map (\<lambda>(d, u). (c @ d, u)) (matches (Star a) (before p s t) t)
                           else []) (matches a p s)) @ [([], s)]"
| "matches (LazyStar a) p s =
     ([], s) # concat (map (\<lambda>(c, t). if length t < length s
                           then map (\<lambda>(d, u). (c @ d, u)) (matches (LazyStar a) (before p s t) t)
                           else []) (matches a p s))"
| "matches (Group n a) p s =
     map (\<lambda>(c, t). (c @ [(n, take (length s - length t) s)], t)) (matches a p s)"
| "matches WordBoundary p s = (if at_boundary p s then [([], s)] else [])"
  by pat_completeness auto
termination
  by (relation "measures [\<lambda>(r, p, s). length s, \<lambda>(r, p, s). size r]") auto

declare matches.simps(5,6) [simp del]

text \<open>Derived patterns: literals, \<open>a+\<close>, \<open>a+?\<close>, \<open>a?\<close> and sequences.\<close>

fun Lit :: "gostring \<Rightarrow> re" where
  "Lit [] = Eps"
| "Lit (c # cs) = Seq (Cls (\<lambda>x. x = c)) (Lit cs)"

definition Plus :: "re \<Rightarrow> re" where "Plus a = Seq a (Star a)"

definition LazyPlus :: "re \<Rightarrow> re" where "LazyPlus a = Seq a (LazyStar a)"

definition Opt :: "re \<Rightarrow> re" where "Opt a = Alt a Eps"

fun Seqs :: "re list \<Rightarrow> re" where
  "Seqs [] = Eps"
| "Seqs (r # rs) = Seq r (Seqs rs)"

section \<open>Finding\<close>

text \<open>
  \<open>find_from\<close> is \<open>FindStringSubmatchIndex\<close> on \<open>s\<close>: the number of bytes before the
  leftmost match, the captures of the preferred match there, and the rest after it.
\<close>

fun find_from :: "re \<Rightarrow> char option \<Rightarrow> gostring \<Rightarrow> (nat \<times> caps \<times> gostring) option" where
  "find_from r p [] = (case matches r p [] of [] \<Rightarrow> None | (c, t) # _ \<Rightarrow> Some (0, c, t))"
| "find_from r p (x # xs) =
     (case matches r p (x # xs) of
        (c, t) # _ \<Rightarrow> Some (0, c, t)
      | [] \<Rightarrow> map_option (\<lambda>(i, c, t). (Suc i, c, t)) (find_from r (Some x) xs))"

abbreviation find_re :: "re \<Rightarrow> gostring \<Rightarrow> (nat \<times> caps \<times> gostring) option" where
  "find_re r s \<equiv> find_from r None s"

text \<open>The text of a group in a match; \<open>[]\<close> when the group did not take part.\<close>

definition group_text :: "caps \<Rightarrow> nat \<Rightarrow> gostring" where
  "group_text c n = (case map_of (rev c) n of Some t \<Rightarrow> t | None \<Rightarrow> [])"

text \<open>
  \<open>FindAllStringSubmatch(s, -1)\<close> and \<open>ReplaceAllStringFunc\<close> for patterns that never
  match the empty string: the next search starts where the match ended.
\<close>

lemma matches_length: "(c, t) \<in> set (matches r p s) \<Longrightarrow> length t \<le> length s"
proof (induction r p s arbitrary: c t rule: matches.induct)
  case (2 P p s)
  then show ?case by (auto split: list.splits if_splits)
next
  case (3 a b p s)
  from "3.prems" obtain c1 t1 d where
    "(c1, t1) \<in> set (matches a p s)" "length t1 \<le> length s"
    "(d, t) \<in> set (matches b (before p s t1) t1)"
    by (auto split: if_splits)
  with "3.IH"(2)[of "(c1, t1)" c1 t1 d t] show ?case by auto
next
  case (5 a p s)
  from "5.prems" consider "t = s"
    | c1 t1 d where "(c1, t1) \<in> set (matches a p s)" "length t1 < length s"
        "(d, t) \<in> set (matches (Star a) (before p s t1) t1)"
    by (subst (asm) matches.simps(5)) (auto split: if_splits)
  then show ?case
  proof cases
    case 2
    with "5.IH"(2)[of "(c1, t1)" c1 t1 d t] show ?thesis by auto
  qed simp
next
  case (6 a p s)
  from "6.prems" consider "t = s"
    | c1 t1 d where "(c1, t1) \<in> set (matches a p s)" "length t1 < length s"
        "(d, t) \<in> set (matches (LazyStar a) (before p s t1) t1)"
    by (subst (asm) matches.simps(6)) (auto split: if_splits)
  then show ?case
  proof cases
    case 2
    with "6.IH"(2)[of "(c1, t1)" c1 t1 d t] show ?thesis by auto
  qed simp
qed (auto split: if_splits)

lemma matches_nil_rest: "matches r p [] = (c, t) # ms \<Longrightarrow> t = []"
  using matches_length [of c t r p "[]"] by simp

lemma find_from_length:
  "find_from r p s = Some (i, c, t) \<Longrightarrow> i + length t \<le> length s"
proof (induction r p s arbitrary: i rule: find_from.induct)
  case (1 r p)
  then show ?case
    by (auto split: list.splits prod.splits dest: matches_nil_rest)
next
  case (2 r p x xs)
  show ?case
  proof (cases "matches r p (x # xs)")
    case Nil
    with 2 show ?thesis by (auto split: option.splits)
  next
    case (Cons m ms)
    with 2 matches_length [of "fst m" "snd m" r p "x # xs"] show ?thesis
      by (auto split: prod.splits)
  qed
qed

function find_all_from :: "re \<Rightarrow> char option \<Rightarrow> gostring \<Rightarrow> (gostring \<times> caps \<times> gostring) list" where
  \<comment> \<open>for each match: the text skipped before it, its captures, the matched text\<close>
  "find_all_from r p s =
     (case find_from r p s of
        None \<Rightarrow> []
      | Some (i, c, t) \<Rightarrow>
          if length t < length s \<and> s \<noteq> []
          then (take i s, c, take (length s - i - length t) (drop i s)) #
               find_all_from r (before p s t) t
          else [])"
  by pat_completeness auto
termination
  by (relation "measure (\<lambda>(r, p, s). length s)") auto

declare find_all_from.simps [simp del]

definition find_all :: "re \<Rightarrow> gostring \<Rightarrow> caps list" where
  "find_all r s = map (\<lambda>(_, c, _). c) (find_all_from r None s)"

function replace_from :: "re \<Rightarrow> (caps \<Rightarrow> gostring) \<Rightarrow> char option \<Rightarrow> gostring \<Rightarrow> gostring" where
  "replace_from r f p s =
     (case find_from r p s of
        None \<Rightarrow> s
      | Some (i, c, t) \<Rightarrow>
          if length t < length s \<and> s \<noteq> []
          then take i s @ f c @ replace_from r f (before p s t) t
          else s)"
  by pat_completeness auto
termination
  by (relation "measure (\<lambda>(r, f, p, s). length s)") auto

declare replace_from.simps [simp del]

definition replace_all_func :: "re \<Rightarrow> (caps \<Rightarrow> gostring) \<Rightarrow> gostring \<Rightarrow> gostring" where
  "replace_all_func r f s = replace_from r f None s"

section \<open>Reasoning about the preferred match\<close>

definition first_match :: "re \<Rightarrow> char option \<Rightarrow> gostring \<Rightarrow> caps \<Rightarrow> gostring \<Rightarrow> bool" where
  "first_match r p s c t = (\<exists>ms. matches r p s = (c, t) # ms)"

lemma first_matchI: "matches r p s = (c, t) # ms \<Longrightarrow> first_match r p s c t"
  by (auto simp: first_match_def)

lemma first_match_Eps [simp]: "first_match Eps p s c t \<longleftrightarrow> c = [] \<and> t = s"
  by (auto simp: first_match_def)

lemma matches_Lit:
  "matches (Lit l) p s = (case strip_prefix l s of Some t \<Rightarrow> [([], t)] | None \<Rightarrow> [])"
proof (induction l arbitrary: p s)
  case (Cons x l)
  then show ?case by (cases s) (auto split: option.splits dest: strip_prefix_length)
qed simp

declare Lit.simps [simp del]

lemma first_match_Lit [simp]: "first_match (Lit l) p (l @ s) [] s"
  using strip_prefix_Some [of l "l @ s" s] by (simp add: first_match_def matches_Lit)

lemma first_match_Seq:
  assumes "first_match a p s c t" and "first_match b (before p s t) t d u"
  shows "first_match (Seq a b) p s (c @ d) u"
proof -
  obtain ms ns where m: "matches a p s = (c, t) # ms" "matches b (before p s t) t = (d, u) # ns"
    using assms by (auto simp: first_match_def)
  then have "length t \<le> length s" using matches_length [of c t a p s] by simp
  with m show ?thesis by (auto simp: first_match_def)
qed

lemma first_match_Seq_all:
  assumes "\<And>q. first_match a q s c t" and "\<And>q. first_match b q t d u"
  shows "first_match (Seq a b) p s (c @ d) u"
  using assms by (rule first_match_Seq)

lemma first_match_Seq_plain:
  assumes "\<And>q. first_match a q s [] t" and "\<And>q. first_match b q t d u"
  shows "first_match (Seq a b) p s d u"
  using first_match_Seq_all [OF assms] by simp

lemma first_match_Group:
  "first_match a p s c t \<Longrightarrow>
     first_match (Group n a) p s (c @ [(n, take (length s - length t) s)]) t"
  by (auto simp: first_match_def)

lemma first_match_Star_step:
  assumes "first_match a p s c t" and "length t < length s"
    and "first_match (Star a) (before p s t) t d u"
  shows "first_match (Star a) p s (c @ d) u"
  using assms by (auto simp: first_match_def matches.simps(5) [of a p s])

lemma first_match_Star_stop: "matches a p s = [] \<Longrightarrow> first_match (Star a) p s [] s"
  by (simp add: first_match_def matches.simps(5))

lemma first_match_Star_Cls: "first_match (Star (Cls P)) p s [] (dropWhile P s)"
proof (induction s arbitrary: p)
  case Nil
  show ?case by (rule first_matchI) (simp add: matches.simps(5))
next
  case (Cons x s)
  show ?case
  proof (cases "P x")
    case True
    then have "first_match (Cls P) p (x # s) [] s" by (simp add: first_match_def)
    from first_match_Star_step [OF this _ Cons.IH] True show ?thesis by simp
  next
    case False
    then show ?thesis by (simp add: first_match_Star_stop)
  qed
qed

lemma first_match_Plus_Cls:
  assumes "s \<noteq> []" and "P (hd s)"
  shows "first_match (Plus (Cls P)) p s [] (dropWhile P s)"
proof -
  obtain x xs where s: "s = x # xs" using assms(1) by (cases s) auto
  have "first_match (Cls P) p s [] xs" using assms s by (simp add: first_match_def)
  from first_match_Seq [OF this first_match_Star_Cls] show ?thesis
    using assms s by (simp add: Plus_def)
qed

lemma dropWhile_run: "\<forall>c \<in> set w. P c \<Longrightarrow> t = [] \<or> \<not> P (hd t) \<Longrightarrow> dropWhile P (w @ t) = t"
  by (induction w) (auto simp: dropWhile_eq_self_iff)

lemma first_match_Plus_run:
  assumes "w \<noteq> []" and "\<forall>c \<in> set w. P c" and "t = [] \<or> \<not> P (hd t)"
  shows "first_match (Plus (Cls P)) p (w @ t) [] t"
proof -
  have "w @ t \<noteq> []" "P (hd (w @ t))" using assms(1,2) by auto
  from first_match_Plus_Cls [of "w @ t" P p, OF this] show ?thesis
    by (simp only: dropWhile_run [OF assms(2,3)])
qed

lemma first_match_Star_run:
  assumes "\<forall>c \<in> set w. P c" and "t = [] \<or> \<not> P (hd t)"
  shows "first_match (Star (Cls P)) p (w @ t) [] t"
  using first_match_Star_Cls [of P p "w @ t"] by (simp only: dropWhile_run [OF assms])

subsection \<open>Members of the list of matches\<close>

lemma matches_SeqE:
  assumes "(c, t) \<in> set (matches (Seq a b) p s)"
  obtains c1 t1 d where "(c1, t1) \<in> set (matches a p s)"
    "(d, t) \<in> set (matches b (before p s t1) t1)" "c = c1 @ d"
  using assms by (auto split: if_splits)

lemma matches_Star_Cls_set:
  "(c, t) \<in> set (matches (Star (Cls P)) p s) \<Longrightarrow> c = [] \<and> (\<exists>w. s = w @ t \<and> (\<forall>x \<in> set w. P x))"
proof (induction s arbitrary: p c)
  case (Cons x s)
  show ?case
  proof (cases "P x")
    case True
    then have "matches (Star (Cls P)) p (x # s) =
        matches (Star (Cls P)) (Some x) s @ [([], x # s)]"
      by (subst matches.simps(5)) (simp add: before_def)
    with Cons.prems consider "c = []" "t = x # s" | "(c, t) \<in> set (matches (Star (Cls P)) (Some x) s)"
      by auto
    then show ?thesis
    proof cases
      case 2
      then obtain w where "c = []" "s = w @ t" "\<forall>y \<in> set w. P y" using Cons.IH by blast
      with True show ?thesis by (intro conjI exI [of _ "x # w"]) auto
    qed simp
  next
    case False
    then have "matches (Star (Cls P)) p (x # s) = [([], x # s)]"
      by (subst matches.simps(5)) simp
    with Cons.prems show ?thesis by simp
  qed
qed (simp add: matches.simps(5))

lemma matches_Lit_set: "(c, t) \<in> set (matches (Lit l) p s) \<longleftrightarrow> c = [] \<and> s = l @ t"
proof (cases "strip_prefix l s")
  case None
  then have "s \<noteq> l @ t" using strip_prefix_Some [of l s t] by auto
  with None show ?thesis by (simp add: matches_Lit)
next
  case (Some u)
  then have "s = l @ u" by (simp add: strip_prefix_Some)
  with Some show ?thesis by (auto simp: matches_Lit)
qed

text \<open>A pattern that starts with a non-empty literal consumes something.\<close>

lemma matches_Seq_Lit_shorter:
  assumes "(c, t) \<in> set (matches (Seq (Lit l) b) p s)" and "l \<noteq> []"
  shows "length t < length s"
proof -
  obtain t1 d where "s = l @ t1" "(d, t) \<in> set (matches b (before p s t1) t1)"
    using assms(1) by (elim matches_SeqE) (simp add: matches_Lit_set)
  then have "s = l @ t1" "length t \<le> length t1" using matches_length by blast+
  with assms(2) show ?thesis by (cases l) auto
qed

lemma find_from_matches:
  "find_from r p s = Some (i, c, t) \<Longrightarrow> \<exists>q. (c, t) \<in> set (matches r q (drop i s)) \<and> i \<le> length s"
proof (induction r p s arbitrary: i rule: find_from.induct)
  case (1 r p)
  then show ?case by (auto split: list.splits prod.splits intro!: exI [of _ p])
next
  case (2 r p x xs)
  then show ?case
  proof (cases "matches r p (x # xs)")
    case (Cons m ms)
    with 2 show ?thesis by (auto intro!: exI [of _ p] split: prod.splits)
  qed (auto)
qed

subsection \<open>Where the leftmost match is\<close>

lemma find_from_Seq_Lit_shorter:
  assumes "find_from (Seq (Lit l) b) p s = Some (i, c, t)" and "l \<noteq> []"
  shows "length t < length s"
proof -
  obtain q where "(c, t) \<in> set (matches (Seq (Lit l) b) q (drop i s))"
    using find_from_matches [OF assms(1)] by blast
  from matches_Seq_Lit_shorter [OF this assms(2)] show ?thesis by simp
qed

text \<open>
  A string \<open>x\<close> that starts inside \<open>f\<close> and does not have the first byte of \<open>m\<close> after its
  own first byte cannot reach into \<open>m\<close>.
\<close>

lemma no_crossing:
  assumes "f @ m = x @ y" and "f \<noteq> []" and "m \<noteq> []" and "hd m \<notin> set (tl x)"
  shows "prefix x f"
proof -
  from assms(1) obtain us where "f = x @ us \<or> x = f @ us \<and> m = us @ y"
    by (auto simp: append_eq_append_conv2)
  then consider "f = x @ us" | "x = f @ us" "us \<noteq> []" "m = us @ y"
    by (cases "us = []") auto
  then show ?thesis
  proof cases
    case 2
    then have "hd m \<in> set us" by (cases us) auto
    with 2 assms(2,4) show ?thesis by (cases f) auto
  qed simp
qed

lemma find_from_skip:
  assumes "\<And>f' q. suffix f' f \<Longrightarrow> f' \<noteq> [] \<Longrightarrow> matches r q (f' @ m) = []"
    and "\<And>q. first_match r q m c t"
  shows "find_from r p (f @ m) = Some (length f, c, t)"
  using assms(1)
proof (induction f arbitrary: p)
  case Nil
  obtain ms where "matches r p m = (c, t) # ms" using assms(2) by (auto simp: first_match_def)
  then show ?case by (cases m) auto
next
  case (Cons x f)
  have "matches r p ((x # f) @ m) = []" by (rule Cons.prems) auto
  moreover have "find_from r (Some x) (f @ m) = Some (length f, c, t)"
    using Cons.prems by (intro Cons.IH) (auto simp: suffix_Cons)
  ultimately show ?case by simp
qed

lemma find_from_none:
  assumes "\<And>f' q. suffix f' f \<Longrightarrow> matches r q f' = []"
  shows "find_from r p f = None"
  using assms
proof (induction f arbitrary: p)
  case (Cons x f)
  have "matches r p (x # f) = []" by (rule Cons.prems) auto
  moreover have "find_from r (Some x) f = None"
    using Cons.prems by (intro Cons.IH) (auto simp: suffix_Cons)
  ultimately show ?case by simp
qed (auto split: list.splits)

end
