(* ===== verification/WikiParse.thy ===== *)
theory WikiParse
  imports Go_Regexp
begin

text \<open>
  Extraction of the blocks between CURATOR markers from a page's text
  (reconciler/wikiparse/wikiparse.go).  \<open>Parse\<close> is the parser of the code; \<open>page_text\<close>
  writes the text of a parsed page, and the round trip says that the parser recovers it.
\<close>

section \<open>The parser\<close>

record wiki_block =
  wb_ID :: gostring
  wb_Zone :: gostring
  wb_Provenance :: gostring
  Body :: gostring
  FollowingText :: gostring

record parsed_doc =
  Prologue :: gostring
  pd_Blocks :: "wiki_block list"
  Epilogue :: gostring

definition BlockByID :: "parsed_doc \<Rightarrow> gostring \<Rightarrow> wiki_block option" where
  "BlockByID d ident = List.find (\<lambda>b. wb_ID b = ident) (pd_Blocks d)"

abbreviation nonspace :: "char \<Rightarrow> bool" where "nonspace c \<equiv> \<not> re_space c"

definition attr_item :: re where
  "attr_item = Seqs [Plus (Cls re_space), Plus (Cls word_char), Lit ''='', Plus (Cls nonspace)]"

definition beginRE :: re where
  "beginRE =
     Seqs [Lit ''<!--'', Star (Cls re_space), Lit ''CURATOR:BEGIN'', Plus (Cls re_space),
           Lit ''block='', Group 1 (Plus (Cls nonspace)), Group 2 (Star attr_item),
           Star (Cls re_space), Lit ''-->'']"

definition attrRE :: re where
  "attrRE = Seqs [Group 1 (Plus (Cls word_char)), Lit ''='', Group 2 (Plus (Cls nonspace))]"

definition endREFor :: "gostring \<Rightarrow> re" where
  "endREFor ident =
     Seqs [Lit ''<!--'', Star (Cls re_space), Lit ''CURATOR:END'', Plus (Cls re_space),
           Lit ''block='', Lit ident, Star (Cls re_space), Lit ''-->'']"

text \<open>
  The attribute loop: the value of the last attribute of that name, \<open>[]\<close> when there is none.
\<close>

definition attr_value :: "gostring \<Rightarrow> gostring \<Rightarrow> gostring" where
  "attr_value key attrs =
     fold (\<lambda>a v. if group_text a 1 = key then group_text a 2 else v) (find_all attrRE attrs) []"

text \<open>Text outside blocks goes to the prologue or to the last block's following text.\<close>

definition add_text :: "parsed_doc \<Rightarrow> gostring \<Rightarrow> parsed_doc" where
  "add_text doc t =
     (if pd_Blocks doc = [] then doc\<lparr>Prologue := Prologue doc @ t\<rparr>
      else doc\<lparr>pd_Blocks := butlast (pd_Blocks doc) @
                 [(last (pd_Blocks doc))\<lparr>FollowingText := FollowingText (last (pd_Blocks doc)) @ t\<rparr>]\<rparr>)"

definition finish_text :: "parsed_doc \<Rightarrow> gostring \<Rightarrow> parsed_doc" where
  "finish_text doc t =
     (if pd_Blocks doc = [] then doc\<lparr>Prologue := t\<rparr>
      else doc\<lparr>Epilogue := t,
               pd_Blocks := butlast (pd_Blocks doc) @
                              [(last (pd_Blocks doc))\<lparr>FollowingText := []\<rparr>]\<rparr>)"

lemma beginRE_shorter:
  assumes "find_re beginRE s = Some (i, c, t)"
  shows "length t < length s"
  using find_from_Seq_Lit_shorter [OF assms [unfolded beginRE_def Seqs.simps(2)]] by simp

function parse_loop :: "gostring \<Rightarrow> parsed_doc \<Rightarrow> parsed_doc" where
  "parse_loop text doc =
     (case find_re beginRE text of
        None \<Rightarrow> finish_text doc text
      | Some (i, c, after) \<Rightarrow>
          (let ident = group_text c 1; attrs = group_text c 2;
               doc1 = add_text doc (take i text) in
           case find_re (endREFor ident) after of
             None \<Rightarrow> add_text doc1 (drop i text)
           | Some (j, _, rest) \<Rightarrow>
               parse_loop rest
                 (doc1\<lparr>pd_Blocks := pd_Blocks doc1 @
                    [\<lparr>wb_ID = ident, wb_Zone = attr_value ''zone'' attrs,
                      wb_Provenance = attr_value ''provenance'' attrs,
                      Body = TrimSuffix (TrimPrefix (take j after) [NL]) [NL],
                      FollowingText = []\<rparr>]\<rparr>)))"
  by pat_completeness auto
termination
proof (relation "measure (\<lambda>(txt, doc). length txt)", goal_cases)
  case (2 s d m i z c af n at d1 m2 j y cs r)
  then have "length af < length s" using beginRE_shorter by auto
  moreover have "j + length r \<le> length af"
    using 2 find_from_length [of "endREFor n" None af j cs r] by auto
  ultimately show ?case by simp
qed simp

declare parse_loop.simps [simp del]

definition empty_parsed :: parsed_doc where
  "empty_parsed = \<lparr>Prologue = [], pd_Blocks = [], Epilogue = []\<rparr>"

definition Parse :: "gostring \<Rightarrow> parsed_doc" where
  "Parse content = (if content = [] then empty_parsed else parse_loop content empty_parsed)"

section \<open>The text of a parsed page\<close>

text \<open>
  \<open>page_text d\<close> is the text that has the blocks of \<open>d\<close> between markers, as the backends
  write them: each marker's body stands on lines of its own.
\<close>

definition attrs_of :: "wiki_block \<Rightarrow> (gostring \<times> gostring) list" where
  "attrs_of b =
     (if wb_Zone b = [] then [] else [(''zone'', wb_Zone b)]) @
     (if wb_Provenance b = [] then [] else [(''provenance'', wb_Provenance b)])"

definition attr_text :: "(gostring \<times> gostring) list \<Rightarrow> gostring" where
  "attr_text kvs = concat (map (\<lambda>(k, v). '' '' @ k @ ''='' @ v) kvs)"

definition begin_text :: "wiki_block \<Rightarrow> gostring" where
  "begin_text b = ''<!-- CURATOR:BEGIN block='' @ wb_ID b @ attr_text (attrs_of b) @ '' -->''"

definition end_text :: "wiki_block \<Rightarrow> gostring" where
  "end_text b = ''<!-- CURATOR:END block='' @ wb_ID b @ '' -->''"

definition wb_text :: "wiki_block \<Rightarrow> gostring" where
  "wb_text b = begin_text b @ [NL] @ Body b @ [NL] @ end_text b @ FollowingText b"

definition page_text :: "parsed_doc \<Rightarrow> gostring" where
  "page_text d = Prologue d @ concat (map wb_text (pd_Blocks d)) @ Epilogue d"

definition no_begin :: "gostring \<Rightarrow> bool" where
  "no_begin t = (\<not> Contains t ''CURATOR:BEGIN'')"

definition clean_block :: "wiki_block \<Rightarrow> bool" where
  "clean_block b =
     (wb_ID b \<noteq> [] \<and> list_all nonspace (wb_ID b) \<and> list_all nonspace (wb_Zone b) \<and>
      list_all nonspace (wb_Provenance b) \<and> \<not> Contains (Body b) ''CURATOR:END'' \<and>
      no_begin (FollowingText b))"

text \<open>
  A page is clean when its markers can be read back and its free text holds no marker; the text
  after the last block is the epilogue, and a page without blocks is all prologue.
\<close>

definition clean_page :: "parsed_doc \<Rightarrow> bool" where
  "clean_page d =
     (list_all clean_block (pd_Blocks d) \<and> no_begin (Prologue d) \<and> no_begin (Epilogue d) \<and>
      (if pd_Blocks d = [] then Epilogue d = [] else FollowingText (last (pd_Blocks d)) = []))"

section \<open>The markers are found where they are\<close>

lemma re_space_blank [simp]: "re_space CHR '' ''" "\<not> re_space CHR ''-''" "\<not> re_space CHR ''C''" "\<not> re_space CHR ''b''"
  by (simp_all add: re_space_def)

lemma word_char_sep [simp]: "\<not> word_char CHR ''=''" "\<not> word_char CHR ''-''" "\<not> word_char CHR '' ''"
  by (simp_all add: char_class_defs)

lemma word_keys [simp]: "list_all word_char ''zone''" "list_all word_char ''provenance''"
  by (simp_all add: char_class_defs)

lemma word_char_not_space: "word_char c \<Longrightarrow> \<not> re_space c"
proof -
  have "\<not> word_char CHR '' ''" "\<not> word_char TAB" "\<not> word_char NL" "\<not> word_char CHR 0x0C" "\<not> word_char CR"
    by (simp_all add: char_class_defs)
  then show "word_char c \<Longrightarrow> \<not> re_space c" unfolding re_space_def by blast
qed

definition good_attr :: "gostring \<times> gostring \<Rightarrow> bool" where
  "good_attr kv = (fst kv \<noteq> [] \<and> list_all word_char (fst kv) \<and> snd kv \<noteq> [] \<and> list_all nonspace (snd kv))"

lemma good_attrs_of: "clean_block b \<Longrightarrow> list_all good_attr (attrs_of b)"
  by (auto simp: clean_block_def attrs_of_def good_attr_def char_class_defs)

lemma attr_text_simps [simp]:
  "attr_text [] = []"
  "attr_text ((k, v) # kvs) = '' '' @ k @ ''='' @ v @ attr_text kvs"
  by (simp_all add: attr_text_def)

lemma attr_text_blank: "attr_text kvs \<noteq> [] \<Longrightarrow> hd (attr_text kvs) = CHR '' ''"
  by (cases kvs) (auto simp: attr_text_def)

lemma first_match_attr_item:
  assumes "good_attr (k, v)" and "t = [] \<or> re_space (hd t)"
  shows "first_match attr_item p ('' '' @ k @ ''='' @ v @ t) [] t"
proof -
  have k: "k \<noteq> []" "\<forall>c \<in> set k. word_char c" and v: "v \<noteq> []" "\<forall>c \<in> set v. nonspace c"
    using assms(1) by (auto simp: good_attr_def list_all_iff)
  have "\<not> re_space (hd k)" using k word_char_not_space [of "hd k"] by auto
  then have 1: "first_match (Plus (Cls re_space)) q ('' '' @ k @ ''='' @ v @ t) [] (k @ ''='' @ v @ t)" for q
    using k by (intro first_match_Plus_run) auto
  have 2: "first_match (Plus (Cls word_char)) q (k @ ''='' @ v @ t) [] (''='' @ v @ t)" for q
    using k by (intro first_match_Plus_run) auto
  have 3: "first_match (Plus (Cls nonspace)) q (v @ t) [] t" for q
    using v assms(2) by (intro first_match_Plus_run) auto
  show ?thesis
    unfolding attr_item_def Seqs.simps
    by (intro first_match_Seq_plain, rule 1, rule 2, rule first_match_Lit, rule 3) simp
qed


text \<open>A blank followed by \<open>-->\<close> is not an attribute.\<close>

lemma attr_item_stop: "matches attr_item p ('' -->'' @ t) = []"
proof -
  have "matches (Star (Cls re_space)) q (''-->'' @ t) = [([], ''-->'' @ t)]" for q
    by (subst matches.simps(5)) simp
  then show ?thesis by (simp add: attr_item_def Plus_def)
qed

lemma first_match_attrs:
  "list_all good_attr kvs \<Longrightarrow> first_match (Star attr_item) p (attr_text kvs @ '' -->'' @ t) [] ('' -->'' @ t)"
proof (induction kvs arbitrary: p)
  case Nil
  show ?case using first_match_Star_stop [OF attr_item_stop] by simp
next
  case (Cons kv kvs)
  obtain k v where kv: "kv = (k, v)" by (cases kv)
  let ?t = "attr_text kvs @ '' -->'' @ t"
  have "re_space (hd ?t)" using attr_text_blank [of kvs] by (cases "attr_text kvs = []") (auto simp: hd_append)
  then have "first_match attr_item p ('' '' @ k @ ''='' @ v @ ?t) [] ?t"
    using Cons.prems kv by (intro first_match_attr_item) auto
  from first_match_Star_step [OF this] Cons kv show ?case by simp
qed

lemma first_match_spaces_arrow:
  "first_match (Seq (Star (Cls re_space)) (Seq (Lit ''-->'') Eps)) p ('' -->'' @ t) [] t"
proof (intro first_match_Seq_plain)
  show "first_match (Star (Cls re_space)) q ('' -->'' @ t) [] (''-->'' @ t)" for q
    using first_match_Star_run [of "'' ''" re_space "''-->'' @ t" q] by simp
  show "first_match (Lit ''-->'') q (''-->'' @ t) [] t" for q by (rule first_match_Lit)
qed simp

lemma first_match_one_space:
  assumes "t \<noteq> []" and "nonspace (hd t)"
  shows "first_match (Plus (Cls re_space)) p ('' '' @ t) [] t"
  using first_match_Plus_run [of "'' ''" re_space t p] assms by simp

lemma first_match_star_space:
  assumes "t \<noteq> []" and "nonspace (hd t)"
  shows "first_match (Star (Cls re_space)) p ('' '' @ t) [] t"
  using first_match_Star_run [of "'' ''" re_space t p] assms by simp

lemma first_match_marker:
  assumes "\<And>q. first_match r q u c t" and "name \<noteq> []" and "nonspace (hd name)"
  shows "first_match (Seq (Lit ''<!--'') (Seq (Star (Cls re_space)) (Seq (Lit name)
           (Seq (Plus (Cls re_space)) (Seq (Lit ''block='') r))))) p
           (''<!--'' @ '' '' @ name @ '' '' @ ''block='' @ u) c t"
  by (rule first_match_Seq_plain, rule first_match_Lit, rule first_match_Seq_plain,
      rule first_match_star_space, use assms in simp, use assms in simp,
      rule first_match_Seq_plain, rule first_match_Lit, rule first_match_Seq_plain,
      rule first_match_one_space, simp, simp, rule first_match_Seq_plain, rule first_match_Lit,
      rule assms)

text \<open>The begin marker of a clean block is matched whole, with its identifier and attributes.\<close>

lemma first_match_begin:
  assumes "clean_block b"
  shows "first_match beginRE p (begin_text b @ t) [(1, wb_ID b), (2, attr_text (attrs_of b))] t"
proof -
  have ident: "wb_ID b \<noteq> []" "\<forall>c \<in> set (wb_ID b). nonspace c"
    using assms by (auto simp: clean_block_def list_all_iff)
  let ?as = "attr_text (attrs_of b)"
  let ?u = "?as @ '' -->'' @ t"
  have "re_space (hd ?u)"
    using attr_text_blank [of "attrs_of b"] by (cases "?as = []") (auto simp: hd_append)
  then have "first_match (Plus (Cls nonspace)) q (wb_ID b @ ?u) [] ?u" for q
    using ident by (intro first_match_Plus_run) auto
  from first_match_Group [where n = 1, OF this] have 1:
    "first_match (Group 1 (Plus (Cls nonspace))) q (wb_ID b @ ?u) [(1, wb_ID b)] ?u" for q by simp
  from first_match_Group [where n = 2, OF first_match_attrs [OF good_attrs_of [OF assms]]] have 2:
    "first_match (Group 2 (Star attr_item)) q ?u [(2, ?as)] ('' -->'' @ t)" for q by simp
  have tail: "first_match (Seq (Group 1 (Plus (Cls nonspace))) (Seq (Group 2 (Star attr_item))
      (Seq (Star (Cls re_space)) (Seq (Lit ''-->'') Eps)))) q (wb_ID b @ ?u)
      [(1, wb_ID b), (2, ?as)] t" for q
    using first_match_Seq_all [OF 1 first_match_Seq_all [OF 2 first_match_spaces_arrow]] by simp
  have "first_match beginRE p (''<!--'' @ '' '' @ ''CURATOR:BEGIN'' @ '' '' @ ''block='' @ wb_ID b @ ?u)
      [(1, wb_ID b), (2, ?as)] t"
    unfolding beginRE_def Seqs.simps by (rule first_match_marker [OF tail]) simp_all
  then show ?thesis by (simp add: begin_text_def)
qed

lemma first_match_end:
  assumes "clean_block b"
  shows "first_match (endREFor (wb_ID b)) p (end_text b @ t) [] t"
proof -
  have tail: "first_match (Seq (Lit (wb_ID b)) (Seq (Star (Cls re_space)) (Seq (Lit ''-->'') Eps))) q
      (wb_ID b @ '' -->'' @ t) [] t" for q
    using first_match_Seq_plain [OF first_match_Lit first_match_spaces_arrow] .
  have "first_match (endREFor (wb_ID b)) p
      (''<!--'' @ '' '' @ ''CURATOR:END'' @ '' '' @ ''block='' @ wb_ID b @ '' -->'' @ t) [] t"
    unfolding endREFor_def Seqs.simps by (rule first_match_marker [OF tail]) simp_all
  then show ?thesis by (simp add: end_text_def)
qed

text \<open>The parser's attribute loop reads the attributes back.\<close>

lemma attrRE_at:
  assumes "good_attr (k, v)" and "t = [] \<or> re_space (hd t)"
  shows "first_match attrRE p (k @ ''='' @ v @ t) [(1, k), (2, v)] t"
proof -
  have k: "k \<noteq> []" "\<forall>c \<in> set k. word_char c" and v: "v \<noteq> []" "\<forall>c \<in> set v. nonspace c"
    using assms(1) by (auto simp: good_attr_def list_all_iff)
  have "first_match (Plus (Cls word_char)) q (k @ ''='' @ v @ t) [] (''='' @ v @ t)" for q
    using k by (intro first_match_Plus_run) auto
  from first_match_Group [where n = 1, OF this] have 1:
    "first_match (Group 1 (Plus (Cls word_char))) q (k @ ''='' @ v @ t) [(1, k)] (''='' @ v @ t)" for q
    by simp
  have "first_match (Plus (Cls nonspace)) q (v @ t) [] t" for q
    using v assms(2) by (intro first_match_Plus_run) auto
  from first_match_Group [where n = 2, OF this] have 2:
    "first_match (Group 2 (Plus (Cls nonspace))) q (v @ t) [(2, v)] t" for q by simp
  have 3: "first_match (Seq (Group 2 (Plus (Cls nonspace))) Eps) q (v @ t) ([(2, v)] @ []) t" for q
    by (rule first_match_Seq_all [OF 2]) simp
  show ?thesis
    unfolding attrRE_def Seqs.simps
    using first_match_Seq_all [OF 1 first_match_Seq_plain [OF first_match_Lit 3]] by simp
qed

lemma find_attr:
  assumes "good_attr (k, v)" and "t = [] \<or> re_space (hd t)"
  shows "find_from attrRE p ('' '' @ k @ ''='' @ v @ t) = Some (1, [(1, k), (2, v)], t)"
proof -
  have "matches attrRE q ('' '' @ k @ ''='' @ v @ t) = []" for q
    by (simp add: attrRE_def Plus_def)
  moreover obtain ms where "matches attrRE (Some (CHR '' '')) (k @ ''='' @ v @ t) = ([(1, k), (2, v)], t) # ms"
    using attrRE_at [OF assms] by (auto simp: first_match_def)
  ultimately show ?thesis
    by (cases k) auto
qed

lemma find_all_attrs:
  "list_all good_attr kvs \<Longrightarrow>
     find_all_from attrRE p (attr_text kvs) = map (\<lambda>(k, v). ('' '', [(1, k), (2, v)], k @ ''='' @ v)) kvs"
proof (induction kvs arbitrary: p)
  case Nil
  show ?case by (subst find_all_from.simps) (simp add: attrRE_def Plus_def)
next
  case (Cons kv kvs)
  obtain k v where kv: "kv = (k, v)" by (cases kv)
  have "attr_text kvs = [] \<or> re_space (hd (attr_text kvs))" using attr_text_blank by fastforce
  then have "find_from attrRE p (attr_text (kv # kvs)) = Some (1, [(1, k), (2, v)], attr_text kvs)"
    using find_attr [of k v "attr_text kvs" p] Cons.prems kv by simp
  then show ?case
    using Cons kv by (subst find_all_from.simps) simp
qed

lemma attr_value_of:
  assumes "clean_block b"
  shows "attr_value ''zone'' (attr_text (attrs_of b)) = wb_Zone b"
    and "attr_value ''provenance'' (attr_text (attrs_of b)) = wb_Provenance b"
  using find_all_attrs [OF good_attrs_of [OF assms], of None]
  by (auto simp: attr_value_def find_all_def attrs_of_def group_text_def)

section \<open>The parser reads pages back\<close>

lemma matches_marker_set:
  assumes "(c, t) \<in> set (matches (Seq (Lit l) (Seq (Star (Cls P)) (Seq (Lit k) r))) q s)"
  shows "\<exists>w y. s = (l @ w @ k) @ y \<and> (\<forall>x \<in> set w. P x)"
proof -
  from assms obtain c1 t1 d where 1: "(c1, t1) \<in> set (matches (Lit l) q s)"
    "(d, t) \<in> set (matches (Seq (Star (Cls P)) (Seq (Lit k) r)) (before q s t1) t1)"
    by (rule matches_SeqE)
  from 1(2) obtain c2 t2 e where 2: "(c2, t2) \<in> set (matches (Star (Cls P)) (before q s t1) t1)"
    "(e, t) \<in> set (matches (Seq (Lit k) r) (before (before q s t1) t1 t2) t2)"
    by (rule matches_SeqE)
  from 2(2) obtain c3 t3 where 3: "(c3, t3) \<in> set (matches (Lit k) (before (before q s t1) t1 t2) t2)"
    by (rule matches_SeqE)
  obtain w where w: "t1 = w @ t2" "\<forall>x \<in> set w. P x" using matches_Star_Cls_set [OF 2(1)] by blast
  have "s = (l @ w @ k) @ t3" using 1(1) 3 w(1) by (simp add: matches_Lit_set del: matches_Lit)
  with w(2) show ?thesis by blast
qed

lemma begin_match_contains:
  assumes "(c, t) \<in> set (matches beginRE q s)"
  obtains w y where "s = (''<!--'' @ w @ ''CURATOR:BEGIN'') @ y" "\<forall>x \<in> set w. re_space x"
  using matches_marker_set [OF assms [unfolded beginRE_def Seqs.simps]] by blast

lemma end_match_contains:
  assumes "(c, t) \<in> set (matches (endREFor ident) q s)"
  obtains w y where "s = (''<!--'' @ w @ ''CURATOR:END'') @ y" "\<forall>x \<in> set w. re_space x"
  using matches_marker_set [OF assms [unfolded endREFor_def Seqs.simps]] by blast

lemma no_marker_in_front:
  assumes "f @ m = (''<!--'' @ w @ key) @ y" and "f \<noteq> []" and "m \<noteq> []" and "hd m = CHR ''<''"
    and "\<forall>x \<in> set w. re_space x" and "CHR ''<'' \<notin> set key"
  shows "Contains f key"
proof -
  have "\<not> re_space CHR ''<''" by (simp add: re_space_def)
  then have "CHR ''<'' \<notin> set w" using assms(5) by blast
  then have "hd m \<notin> set (tl (''<!--'' @ w @ key))" using assms(4,6) by simp
  from no_crossing [OF assms(1-3) this] obtain z where "f = (''<!--'' @ w @ key) @ z"
    unfolding prefix_def by blast
  then have "f = (''<!--'' @ w) @ key @ z" by simp
  then show ?thesis unfolding Contains_iff by blast
qed

lemma Contains_suffix:
  assumes "suffix f' f" and "Contains f' k"
  shows "Contains f k"
proof -
  obtain x a b where "f = x @ f'" "f' = a @ k @ b"
    using assms by (auto simp: suffix_def Contains_iff)
  then have "f = (x @ a) @ k @ b" by simp
  then show ?thesis unfolding Contains_iff by blast
qed

lemma no_begin_matches:
  assumes "no_begin f" and "suffix f' f" and "f' \<noteq> []" and "m \<noteq> []" and "hd m = CHR ''<''"
  shows "matches beginRE q (f' @ m) = []"
proof (rule ccontr)
  assume "matches beginRE q (f' @ m) \<noteq> []"
  then obtain c t where "(c, t) \<in> set (matches beginRE q (f' @ m))"
    by (cases "matches beginRE q (f' @ m)") auto
  from begin_match_contains [OF this] obtain w y where
    "f' @ m = (''<!--'' @ w @ ''CURATOR:BEGIN'') @ y" "\<forall>x \<in> set w. re_space x" by blast
  from no_marker_in_front [OF this(1) assms(3-5) this(2)] have "Contains f' ''CURATOR:BEGIN''" by simp
  with assms(1,2) show False by (simp add: no_begin_def Contains_suffix)
qed

lemma no_end_matches:
  assumes "\<not> Contains f ''CURATOR:END''" and "suffix f' f" and "f' \<noteq> []" and "m \<noteq> []"
    and "hd m = CHR ''<''"
  shows "matches (endREFor ident) q (f' @ m) = []"
proof (rule ccontr)
  assume "matches (endREFor ident) q (f' @ m) \<noteq> []"
  then obtain c t where "(c, t) \<in> set (matches (endREFor ident) q (f' @ m))"
    by (cases "matches (endREFor ident) q (f' @ m)") auto
  from end_match_contains [OF this] obtain w y where
    "f' @ m = (''<!--'' @ w @ ''CURATOR:END'') @ y" "\<forall>x \<in> set w. re_space x" by blast
  from no_marker_in_front [OF this(1) assms(3-5) this(2)] have "Contains f' ''CURATOR:END''" by simp
  with assms(1,2) show False by (simp add: Contains_suffix)
qed

lemma find_begin_none: "no_begin f \<Longrightarrow> find_from beginRE p f = None"
proof (rule find_from_none, rule ccontr)
  fix f' q
  assume f: "no_begin f" "suffix f' f" and "matches beginRE q f' \<noteq> []"
  then obtain c t where "(c, t) \<in> set (matches beginRE q f')" by (cases "matches beginRE q f'") auto
  from begin_match_contains [OF this] obtain w y where "f' = (''<!--'' @ w @ ''CURATOR:BEGIN'') @ y"
    by blast
  then have "f' = (''<!--'' @ w) @ ''CURATOR:BEGIN'' @ y" by simp
  then have "Contains f' ''CURATOR:BEGIN''" unfolding Contains_iff by blast
  with f show False by (simp add: no_begin_def Contains_suffix)
qed

lemma find_begin:
  assumes "no_begin f" and "clean_block b"
  shows "find_from beginRE p (f @ begin_text b @ t) =
           Some (length f, [(1, wb_ID b), (2, attr_text (attrs_of b))], t)"
  using assms by (intro find_from_skip no_begin_matches first_match_begin)
    (auto simp: begin_text_def)

lemma Contains_NL_frame:
  "NL \<notin> set k \<Longrightarrow> k \<noteq> [] \<Longrightarrow> Contains ([NL] @ s @ [NL]) k \<Longrightarrow> Contains s k"
  unfolding Contains_iff
proof (elim exE, goal_cases)
  case (1 a b)
  then obtain a' where a: "a = NL # a'" by (cases a; cases k) auto
  with 1 have eq: "s @ [NL] = a' @ k @ b" by simp
  with 1 obtain b' where "b = b' @ [NL]" by (cases b rule: rev_cases; cases k rule: rev_cases) auto
  with eq show ?case by auto
qed

lemma find_end:
  assumes "clean_block b"
  shows "find_from (endREFor (wb_ID b)) p (([NL] @ Body b @ [NL]) @ end_text b @ t) =
           Some (length (Body b) + 2, [], t)"
proof -
  have "\<not> Contains ([NL] @ Body b @ [NL]) ''CURATOR:END''"
    using assms Contains_NL_frame [of "''CURATOR:END''" "Body b"] by (auto simp: clean_block_def)
  then have "find_from (endREFor (wb_ID b)) p (([NL] @ Body b @ [NL]) @ end_text b @ t) =
           Some (length ([NL] @ Body b @ [NL]), [], t)"
    using assms by (intro find_from_skip no_end_matches first_match_end) (auto simp: end_text_def)
  then show ?thesis by simp
qed

text \<open>One turn of the loop reads one block.\<close>

lemma parse_loop_block:
  assumes "no_begin f" and "clean_block b"
  shows "parse_loop (f @ begin_text b @ [NL] @ Body b @ [NL] @ end_text b @ rest) doc =
         parse_loop rest (add_text doc f
           \<lparr>pd_Blocks := pd_Blocks (add_text doc f) @ [b\<lparr>FollowingText := []\<rparr>]\<rparr>)"
proof -
  let ?af = "[NL] @ Body b @ [NL] @ end_text b @ rest"
  have 1: "find_re beginRE (f @ begin_text b @ ?af) =
      Some (length f, [(1, wb_ID b), (2, attr_text (attrs_of b))], ?af)"
    using find_begin [OF assms] .
  have 2: "find_re (endREFor (wb_ID b)) ?af = Some (length (Body b) + 2, [], rest)"
    using find_end [OF assms(2), of None rest] by simp
  have 3: "take (length (Body b) + 2) ?af = [NL] @ Body b @ [NL]" by simp
  have 4: "TrimSuffix (TrimPrefix ([NL] @ Body b @ [NL]) [NL]) [NL] = Body b"
    by (simp only: TrimPrefix_append TrimSuffix_append)
  have g: "group_text [(1, wb_ID b), (2, attr_text (attrs_of b))] 1 = wb_ID b"
    "group_text [(1, wb_ID b), (2, attr_text (attrs_of b))] 2 = attr_text (attrs_of b)"
    by (simp_all add: group_text_def)
  have 5: "take (length f) (f @ begin_text b @ ?af) = f" by simp
  show ?thesis
    unfolding parse_loop.simps [of "f @ begin_text b @ ?af"] 1 option.case prod.case Let_def g 2 3 4 5
      attr_value_of [OF assms(2)]
    by (cases b) simp
qed

text \<open>
  The blocks after the text \<open>f\<close>: \<open>f\<close> goes to the last block read so far (or to the
  prologue), each block's following text to that block.
\<close>

lemma parse_loop_blocks:
  assumes "no_begin f" and "list_all clean_block bs" and "bs \<noteq> []"
    and "FollowingText (last bs) = []" and "no_begin ep"
  shows "parse_loop (f @ concat (map wb_text bs) @ ep) doc =
         (add_text doc f)\<lparr>pd_Blocks := pd_Blocks (add_text doc f) @ bs, Epilogue := ep\<rparr>"
  using assms
proof (induction bs arbitrary: f doc)
  case (Cons b bs)
  let ?rest = "FollowingText b @ concat (map wb_text bs) @ ep"
  let ?doc = "add_text doc f\<lparr>pd_Blocks := pd_Blocks (add_text doc f) @ [b\<lparr>FollowingText := []\<rparr>]\<rparr>"
  have step: "parse_loop (f @ concat (map wb_text (b # bs)) @ ep) doc = parse_loop ?rest ?doc"
    using parse_loop_block [of f b ?rest doc] Cons.prems by (simp add: wb_text_def)
  show ?case
  proof (cases "bs = []")
    case True
    with Cons.prems have "FollowingText b = []" by simp
    then have b: "b\<lparr>FollowingText := []\<rparr> = b" by (cases b) simp
    have "parse_loop ep ?doc = finish_text ?doc ep"
      using Cons.prems by (subst parse_loop.simps) (simp add: find_begin_none)
    moreover have "finish_text ?doc ep =
        add_text doc f\<lparr>pd_Blocks := pd_Blocks (add_text doc f) @ [b], Epilogue := ep\<rparr>"
      using b by (simp add: finish_text_def)
    ultimately show ?thesis using True step \<open>FollowingText b = []\<close> b by simp
  next
    case False
    have nb: "no_begin (FollowingText b)" using Cons.prems by (simp add: clean_block_def)
    have b: "b\<lparr>FollowingText := [] @ FollowingText b\<rparr> = b" by (cases b) simp
    have "parse_loop ?rest ?doc =
        (add_text ?doc (FollowingText b))\<lparr>pd_Blocks := pd_Blocks (add_text ?doc (FollowingText b)) @ bs,
          Epilogue := ep\<rparr>"
      using Cons False nb by simp
    with step b show ?thesis by (simp add: add_text_def [of ?doc])
  qed
qed simp

lemma parse_page_text: "clean_page d \<Longrightarrow> Parse (page_text d) = d"
proof (cases "pd_Blocks d = []")
  case True
  assume "clean_page d"
  with True have d: "no_begin (Prologue d)" "Epilogue d = []" by (simp_all add: clean_page_def)
  have "parse_loop (Prologue d) empty_parsed = d"
    using d True
    by (subst parse_loop.simps) (cases d, simp add: find_begin_none finish_text_def empty_parsed_def)
  moreover have "Prologue d = [] \<Longrightarrow> empty_parsed = d"
    using True d by (cases d) (simp add: empty_parsed_def)
  ultimately show ?thesis using True d by (simp add: page_text_def Parse_def)
next
  case False
  assume c: "clean_page d"
  have "page_text d \<noteq> []"
    using False by (cases "pd_Blocks d") (auto simp: page_text_def wb_text_def)
  moreover have "parse_loop (page_text d) empty_parsed = d"
    unfolding page_text_def using c False
    by (subst parse_loop_blocks) (cases d, auto simp: clean_page_def add_text_def empty_parsed_def)
  ultimately show ?thesis by (simp add: Parse_def)
qed

text \<open>
  C18. The parser reads back every page the backends' marker format can write: for a clean page,
  parsing its text gives exactly its prologue, its blocks with their identifiers, zones,
  provenances, bodies and the text between them, and its epilogue.
\<close>

theorem wikiparse_roundtrip:
  assumes "clean_page d"
  shows "Parse (page_text d) = d"
  by (rule parse_page_text [OF assms])

definition example_page :: parsed_doc where
  "example_page =
     \<lparr>Prologue = ''# T'' @ [NL],
      pd_Blocks =
        [\<lparr>wb_ID = ''a'', wb_Zone = ''editorial'', wb_Provenance = ''p1'', Body = ''x'',
          FollowingText = [NL]\<rparr>,
         \<lparr>wb_ID = ''b'', wb_Zone = ''machine'', wb_Provenance = [], Body = [], FollowingText = []\<rparr>],
      Epilogue = [NL]\<rparr>"

lemma example_page_clean: "clean_page example_page"
  by (simp add: example_page_def clean_page_def clean_block_def no_begin_def HasPrefix_def re_space_def)

theorem wikiparse_roundtrip_witness:
  "Parse (page_text example_page) = example_page \<and> length (pd_Blocks example_page) = 2"
proof
  show "Parse (page_text example_page) = example_page"
    by (rule wikiparse_roundtrip) (rule example_page_clean)
qed (simp add: example_page_def)

end
