(* ===== verification/Merge.thy ===== *)
theory Merge
  imports WikiParse
begin

text \<open>
  Block-level merge of the wiki's page and a new render (reconciler/merge.go).  The functions work
  on text, as in the code; \<open>merge_spec\<close> states on the parsed pages what they mean.
\<close>

section \<open>The code\<close>

definition chooseBody :: "wiki_block \<Rightarrow> parsed_doc \<Rightarrow> gostring" where
  "chooseBody nb existing =
     (if wb_Zone nb \<noteq> ''editorial'' then Body nb
      else (case BlockByID existing (wb_ID nb) of
              None \<Rightarrow> Body nb
            | Some matching \<Rightarrow>
                if wb_Provenance matching = [] \<or> wb_Provenance matching \<noteq> wb_Provenance nb
                then Body nb
                else Body matching))"

definition writeBlock :: "wiki_block \<Rightarrow> gostring \<Rightarrow> gostring" where
  "writeBlock nb body =
     (if wb_Zone nb \<noteq> [] \<or> wb_Provenance nb \<noteq> []
      then ''<!-- CURATOR:BEGIN block='' @ wb_ID nb @
           (if wb_Zone nb \<noteq> [] then '' zone='' @ wb_Zone nb else []) @
           (if wb_Provenance nb \<noteq> [] then '' provenance='' @ wb_Provenance nb else []) @
           '' -->'' @ [NL]
      else ''<!-- CURATOR:BEGIN block='' @ wb_ID nb @ '' -->'' @ [NL]) @
     body @ [NL] @ ''<!-- CURATOR:END block='' @ wb_ID nb @ '' -->'' @ [NL]"

definition MergeBlocks :: "gostring \<Rightarrow> gostring \<Rightarrow> gostring" where
  "MergeBlocks existing newContent =
     (let newDoc = Parse newContent; exDoc = Parse existing in
      Prologue newDoc @
      concat (map (\<lambda>nb. writeBlock nb (chooseBody nb exDoc) @ FollowingText nb) (pd_Blocks newDoc)) @
      Epilogue newDoc)"

section \<open>What the merge means\<close>

text \<open>
  The merged page has the prologue, the epilogue and the blocks of the new render; the body of a
  block is the one of \<open>chooseBody\<close>, and a newline stands in front of the text that follows each
  block (the code writes it after the end marker).
\<close>

definition merged_block :: "parsed_doc \<Rightarrow> wiki_block \<Rightarrow> wiki_block" where
  "merged_block ex b = b\<lparr>Body := chooseBody b ex, FollowingText := NL # FollowingText b\<rparr>"

definition merge_spec :: "parsed_doc \<Rightarrow> parsed_doc \<Rightarrow> parsed_doc" where
  "merge_spec ex d =
     (if pd_Blocks d = [] then d
      else d\<lparr>pd_Blocks := map (merged_block ex) (butlast (pd_Blocks d)) @
                            [(merged_block ex (last (pd_Blocks d)))\<lparr>FollowingText := []\<rparr>],
             Epilogue := NL # Epilogue d\<rparr>)"

lemma writeBlock_text:
  "writeBlock b body = begin_text b @ [NL] @ body @ [NL] @ end_text b @ [NL]"
  by (simp add: writeBlock_def begin_text_def end_text_def attrs_of_def)

lemma wb_text_merged:
  "wb_text (merged_block ex b) = writeBlock b (chooseBody b ex) @ FollowingText b"
proof -
  have "attrs_of (merged_block ex b) = attrs_of b" by (simp add: attrs_of_def merged_block_def)
  then show ?thesis
    by (simp add: wb_text_def writeBlock_text begin_text_def end_text_def) (simp add: merged_block_def)
qed

lemma wb_text_last:
  "FollowingText b = [] \<Longrightarrow>
     wb_text ((merged_block ex b)\<lparr>FollowingText := []\<rparr>) @ [NL] = writeBlock b (chooseBody b ex)"
  by (simp add: wb_text_def writeBlock_text begin_text_def end_text_def attrs_of_def merged_block_def)

lemma page_text_merge_spec:
  assumes "clean_page d"
  shows "page_text (merge_spec ex d) =
    Prologue d @ concat (map (\<lambda>nb. writeBlock nb (chooseBody nb ex) @ FollowingText nb) (pd_Blocks d)) @
    Epilogue d"
proof (cases "pd_Blocks d" rule: rev_cases)
  case Nil
  then show ?thesis by (simp add: merge_spec_def page_text_def)
next
  case (snoc bs b)
  with assms have "FollowingText b = []" by (simp add: clean_page_def)
  from wb_text_last [OF this, of ex] this snoc show ?thesis
    by (simp add: merge_spec_def page_text_def wb_text_merged comp_def)
qed

lemma merge_text: "clean_page d \<Longrightarrow> clean_page ex \<Longrightarrow>
    MergeBlocks (page_text ex) (page_text d) = page_text (merge_spec ex d)"
  by (simp add: MergeBlocks_def parse_page_text page_text_merge_spec)

lemma BlockByID_Some: "BlockByID d i = Some b \<Longrightarrow> b \<in> set (pd_Blocks d) \<and> wb_ID b = i"
  by (auto simp: BlockByID_def find_Some_iff)

lemma Contains_NL_Cons: "k \<noteq> [] \<Longrightarrow> hd k \<noteq> NL \<Longrightarrow> Contains (NL # s) k \<longleftrightarrow> Contains s k"
  by (cases k) (auto simp: HasPrefix_def)

lemma no_begin_NL [simp]: "no_begin (NL # s) \<longleftrightarrow> no_begin s" "no_begin []"
  by (simp_all add: no_begin_def Contains_NL_Cons HasPrefix_def)

lemma chooseBody_from:
  "chooseBody b ex = Body b \<or> (\<exists>m \<in> set (pd_Blocks ex). chooseBody b ex = Body m)"
  by (cases "BlockByID ex (wb_ID b)") (auto simp: chooseBody_def dest: BlockByID_Some)

lemma clean_block_text:
  "clean_block (b\<lparr>Body := x, FollowingText := f\<rparr>) \<longleftrightarrow>
     clean_block (b\<lparr>Body := [], FollowingText := []\<rparr>) \<and> \<not> Contains x ''CURATOR:END'' \<and> no_begin f"
  by (simp add: clean_block_def HasPrefix_def)

lemma clean_block_parts:
  "clean_block b \<longleftrightarrow>
     clean_block (b\<lparr>Body := [], FollowingText := []\<rparr>) \<and> \<not> Contains (Body b) ''CURATOR:END'' \<and>
     no_begin (FollowingText b)"
  using clean_block_text [where b = b and x = "Body b" and f = "FollowingText b"] by simp

lemma clean_merged:
  assumes "clean_block b" and "clean_page ex"
  shows "clean_block (merged_block ex b)"
proof -
  have b: "\<not> Contains (Body b) ''CURATOR:END''" using assms(1) unfolding clean_block_parts [of b] by blast
  have m: "\<not> Contains (Body m) ''CURATOR:END''" if "m \<in> set (pd_Blocks ex)" for m
  proof -
    have "clean_block m" using assms(2) that by (simp add: clean_page_def list_all_iff)
    then show ?thesis unfolding clean_block_parts [of m] by blast
  qed
  from chooseBody_from [of b ex] have "\<not> Contains (chooseBody b ex) ''CURATOR:END''"
  proof (elim disjE bexE)
    show "\<not> Contains (chooseBody b ex) ''CURATOR:END''" if "chooseBody b ex = Body b"
      unfolding that by (rule b)
    show "\<not> Contains (chooseBody b ex) ''CURATOR:END''"
      if "x \<in> set (pd_Blocks ex)" "chooseBody b ex = Body x" for x
      unfolding that(2) by (rule m [OF that(1)])
  qed
  with assms(1) show ?thesis
    unfolding merged_block_def clean_block_text [where b = b and x = "chooseBody b ex"]
    by (simp add: clean_block_parts [of b])
qed

lemma clean_merge_spec:
  assumes "clean_page d" and "clean_page ex"
  shows "clean_page (merge_spec ex d)"
proof (cases "pd_Blocks d" rule: rev_cases)
  case Nil
  with assms(1) show ?thesis by (simp add: merge_spec_def)
next
  case (snoc bs b)
  have last: "clean_block ((merged_block ex b)\<lparr>FollowingText := []\<rparr>)"
    using clean_merged [of b ex] assms snoc
    by (simp add: clean_page_def clean_block_def)
  from snoc assms have bs: "list_all clean_block bs" by (simp add: clean_page_def)
  have "list_all clean_block (map (merged_block ex) bs)"
    using bs assms(2) by (simp add: list_all_iff clean_merged)
  with snoc last assms show ?thesis
    by (simp add: clean_page_def merge_spec_def)
qed

section \<open>Merging again\<close>

text \<open>
  A second merge with the same render finds the first merge's blocks and chooses the same bodies,
  so the page does not change any more, provided identifiers are not repeated.
\<close>

lemma find_map_distinct:
  assumes "distinct (map wb_ID bs)" and "b \<in> set bs"
    and "\<And>x. wb_ID (g x) = wb_ID x"
  shows "List.find (\<lambda>x. wb_ID x = wb_ID b) (map g bs) = Some (g b)"
  using assms by (induction bs) auto

lemma BlockByID_merge_spec:
  assumes "distinct (map wb_ID (pd_Blocks d))" and "b \<in> set (pd_Blocks d)"
  shows "\<exists>m. BlockByID (merge_spec ex d) (wb_ID b) = Some m \<and> Body m = chooseBody b ex \<and>
             wb_Provenance m = wb_Provenance b"
proof -
  obtain bs l where d: "pd_Blocks d = bs @ [l]" using assms(2) by (cases "pd_Blocks d" rule: rev_cases) auto
  let ?l = "(merged_block ex l)\<lparr>FollowingText := []\<rparr>"
  have blocks: "pd_Blocks (merge_spec ex d) = map (merged_block ex) bs @ [?l]"
    using d by (simp add: merge_spec_def)
  show ?thesis
  proof (cases "b = l")
    case True
    have "List.find (\<lambda>x. wb_ID x = wb_ID l) (map (merged_block ex) bs) = None"
      using assms(1) d by (force simp: find_None_iff merged_block_def image_iff)
    then have "List.find (\<lambda>x. wb_ID x = wb_ID l) (map (merged_block ex) bs @ [?l]) = Some ?l"
      by (induction bs) (auto simp: merged_block_def)
    with True blocks show ?thesis by (simp add: BlockByID_def merged_block_def)
  next
    case False
    with assms d have b: "b \<in> set bs" "distinct (map wb_ID bs)" by auto
    have "List.find (\<lambda>x. wb_ID x = wb_ID b) (map (merged_block ex) bs) = Some (merged_block ex b)"
      by (rule find_map_distinct [OF b(2,1)]) (simp add: merged_block_def)
    then have "List.find (\<lambda>x. wb_ID x = wb_ID b) (map (merged_block ex) bs @ [?l]) =
        Some (merged_block ex b)"
      by (induction bs) auto
    with blocks show ?thesis by (simp add: BlockByID_def merged_block_def)
  qed
qed

lemma chooseBody_merge_spec:
  assumes "distinct (map wb_ID (pd_Blocks d))" and "b \<in> set (pd_Blocks d)"
  shows "chooseBody b (merge_spec ex d) = chooseBody b ex"
proof -
  obtain m where "BlockByID (merge_spec ex d) (wb_ID b) = Some m" "Body m = chooseBody b ex"
    "wb_Provenance m = wb_Provenance b"
    using BlockByID_merge_spec [OF assms] by blast
  then show ?thesis by (auto simp: chooseBody_def split: option.splits)
qed

lemma merge_spec_again:
  assumes "distinct (map wb_ID (pd_Blocks d))"
  shows "merge_spec (merge_spec ex d) d = merge_spec ex d"
proof -
  have b: "merged_block (merge_spec ex d) b = merged_block ex b" if "b \<in> set (pd_Blocks d)" for b
    using chooseBody_merge_spec [OF assms that] by (simp add: merged_block_def)
  show ?thesis
  proof (cases "pd_Blocks d" rule: rev_cases)
    case Nil
    then show ?thesis by (simp add: merge_spec_def)
  next
    case (snoc bs l)
    then have "map (merged_block (merge_spec ex d)) bs = map (merged_block ex) bs"
      "merged_block (merge_spec ex d) l = merged_block ex l"
      using b by simp_all
    with snoc show ?thesis by (simp add: merge_spec_def [of _ d])
  qed
qed

section \<open>A render merged with itself\<close>

lemma BlockByID_distinct:
  assumes "distinct (map wb_ID (pd_Blocks d))" and "b \<in> set (pd_Blocks d)"
  shows "BlockByID d (wb_ID b) = Some b"
  using find_map_distinct [OF assms, of id] by (simp add: BlockByID_def)

lemma chooseBody_self:
  assumes "distinct (map wb_ID (pd_Blocks d))" and "b \<in> set (pd_Blocks d)"
  shows "chooseBody b d = Body b"
  using BlockByID_distinct [OF assms] by (simp add: chooseBody_def)

lemma length_merge_self:
  assumes "clean_page d" and "distinct (map wb_ID (pd_Blocks d))"
  shows "length (page_text (merge_spec d d)) = length (page_text d) + length (pd_Blocks d)"
proof -
  have one: "length (writeBlock b (chooseBody b d)) + length (FollowingText b) = Suc (length (wb_text b))"
    if "b \<in> set (pd_Blocks d)" for b
    using chooseBody_self [OF assms(2) that] by (simp add: writeBlock_text wb_text_def)
  have "length (concat (map (\<lambda>b. writeBlock b (chooseBody b d) @ FollowingText b) bs)) =
        length (concat (map wb_text bs)) + length bs" if "set bs \<subseteq> set (pd_Blocks d)" for bs
    using that by (induction bs) (auto simp: one)
  from this [of "pd_Blocks d"] show ?thesis
    by (simp add: page_text_merge_spec [OF assms(1)]) (simp add: page_text_def)
qed

section \<open>The properties of the merge\<close>

text \<open>
  C7. The merge on page texts refines the merge on parsed pages: for clean pages, the text that
  MergeBlocks composes is the text of the page that has the new render's prologue, epilogue and
  blocks, in the new render's order, each with the body the merge rules choose and a newline after
  its end marker; blocks that are only on the wiki are dropped.
\<close>

theorem merge_refines_spec:
  assumes "clean_page ex" and "clean_page d"
  shows "MergeBlocks (page_text ex) (page_text d) = page_text (merge_spec ex d)"
  by (rule merge_text [OF assms(2,1)])

text \<open>
  C16. Human polish survives and machine content does not: in the merged text, as a later run
  parses it, a block of the new render has the wiki's body exactly when it is editorial and the
  wiki has a block of that identifier with the same non-empty provenance; in every other case (a
  machine block, no such block, other inputs) it has the body of the new render.
\<close>

theorem merge_keeps_human_polish:
  assumes "clean_page ex" and "clean_page d" and "distinct (map wb_ID (pd_Blocks d))"
    and "b \<in> set (pd_Blocks d)"
  shows "\<exists>m. BlockByID (Parse (MergeBlocks (page_text ex) (page_text d))) (wb_ID b) = Some m \<and>
     wb_Provenance m = wb_Provenance b \<and>
     Body m = (case BlockByID ex (wb_ID b) of
                 Some h \<Rightarrow> if wb_Zone b = ''editorial'' \<and> wb_Provenance h \<noteq> [] \<and>
                              wb_Provenance h = wb_Provenance b then Body h else Body b
               | None \<Rightarrow> Body b)"
proof -
  have "Parse (MergeBlocks (page_text ex) (page_text d)) = merge_spec ex d"
    using assms(1,2) by (simp add: merge_text parse_page_text clean_merge_spec)
  then show ?thesis
    using BlockByID_merge_spec [OF assms(3,4), of ex]
    by (auto simp: chooseBody_def split: option.splits)
qed

text \<open>
  Merging is idempotent for a fixed render: once a page has been merged with a render, merging
  the result with the same render again changes nothing, so an unchanged render is not pushed a
  third time.
\<close>

theorem merge_idempotent:
  assumes "clean_page ex" and "clean_page d" and "distinct (map wb_ID (pd_Blocks d))"
  shows "MergeBlocks (MergeBlocks (page_text ex) (page_text d)) (page_text d) =
         MergeBlocks (page_text ex) (page_text d)"
  using assms by (simp add: merge_text clean_merge_spec merge_spec_again)

text \<open>
  The merge of a render with the page that holds exactly that render is longer than the page by
  one byte per block: the newline written after each end marker comes in addition to the one the
  render already has there.  A page created from a render is therefore pushed once more on the
  next run, although nothing changed.
\<close>

theorem merge_with_itself_grows:
  assumes "clean_page d" and "distinct (map wb_ID (pd_Blocks d))"
  shows "length (MergeBlocks (page_text d) (page_text d)) =
         length (page_text d) + length (pd_Blocks d)"
  using assms by (simp add: merge_text length_merge_self)

definition wiki_page :: parsed_doc where
  "wiki_page =
     \<lparr>Prologue = [],
      pd_Blocks =
        [\<lparr>wb_ID = ''a'', wb_Zone = ''editorial'', wb_Provenance = ''p1'', Body = ''polished'',
          FollowingText = [NL]\<rparr>,
         \<lparr>wb_ID = ''b'', wb_Zone = ''machine'', wb_Provenance = [], Body = ''edited'',
          FollowingText = []\<rparr>],
      Epilogue = []\<rparr>"

lemma wiki_page_clean: "clean_page wiki_page" "distinct (map wb_ID (pd_Blocks example_page))"
  by (simp_all add: wiki_page_def example_page_def clean_page_def clean_block_def no_begin_def
        HasPrefix_def re_space_def)

theorem merge_refines_spec_witness:
  "MergeBlocks (page_text wiki_page) (page_text example_page) =
     page_text (merge_spec wiki_page example_page) \<and>
   map Body (pd_Blocks (merge_spec wiki_page example_page)) = [''polished'', []]"
proof
  show "MergeBlocks (page_text wiki_page) (page_text example_page) =
     page_text (merge_spec wiki_page example_page)"
    by (rule merge_refines_spec [OF wiki_page_clean(1) example_page_clean])
qed (simp add: merge_spec_def merged_block_def chooseBody_def BlockByID_def wiki_page_def example_page_def)

theorem merge_keeps_human_polish_witness:
  "\<exists>m. BlockByID (Parse (MergeBlocks (page_text wiki_page) (page_text example_page))) ''a'' = Some m \<and>
       Body m = ''polished''"
  using merge_keeps_human_polish [OF wiki_page_clean(1) example_page_clean wiki_page_clean(2),
          of "hd (pd_Blocks example_page)"]
  by (auto simp: BlockByID_def [of wiki_page] wiki_page_def [THEN arg_cong [of _ _ pd_Blocks]]
           simp: example_page_def [THEN arg_cong [of _ _ pd_Blocks]])

theorem merge_idempotent_witness:
  "MergeBlocks (MergeBlocks (page_text wiki_page) (page_text example_page)) (page_text example_page) =
   MergeBlocks (page_text wiki_page) (page_text example_page)"
  by (rule merge_idempotent [OF wiki_page_clean(1) example_page_clean wiki_page_clean(2)])

theorem merge_with_itself_grows_witness:
  "length (MergeBlocks (page_text example_page) (page_text example_page)) =
   length (page_text example_page) + 2"
  using merge_with_itself_grows [OF example_page_clean wiki_page_clean(2)]
  by (simp add: example_page_def [THEN arg_cong [of _ _ pd_Blocks]])

end
