(* ===== verification/Sha256.thy ===== *)
theory Sha256
  imports Prelude "HOL-Library.Word"
begin

text \<open>
  Package \<open>crypto/sha256\<close> and \<open>encoding/hex\<close>, which the cache keys are built from: SHA-256 on
  32-bit words, computed as FIPS 180-4 specifies it, and lower-case hexadecimal text.
\<close>

section \<open>SHA-256\<close>

type_synonym w32 = "32 word"

definition rotr :: "nat \<Rightarrow> w32 \<Rightarrow> w32" where
  "rotr n x = word_rotr n x"

definition big_sigma0 :: "w32 \<Rightarrow> w32" where
  "big_sigma0 x = xor (xor (rotr 2 x) (rotr 13 x)) (rotr 22 x)"

definition big_sigma1 :: "w32 \<Rightarrow> w32" where
  "big_sigma1 x = xor (xor (rotr 6 x) (rotr 11 x)) (rotr 25 x)"

definition small_sigma0 :: "w32 \<Rightarrow> w32" where
  "small_sigma0 x = xor (xor (rotr 7 x) (rotr 18 x)) (drop_bit 3 x)"

definition small_sigma1 :: "w32 \<Rightarrow> w32" where
  "small_sigma1 x = xor (xor (rotr 17 x) (rotr 19 x)) (drop_bit 10 x)"

definition choose_bits :: "w32 \<Rightarrow> w32 \<Rightarrow> w32 \<Rightarrow> w32" where
  "choose_bits x y z = xor (and x y) (and (not x) z)"

definition majority :: "w32 \<Rightarrow> w32 \<Rightarrow> w32 \<Rightarrow> w32" where
  "majority x y z = xor (xor (and x y) (and x z)) (and y z)"

text \<open>
  The constants as the standard derives them: the first 32 fractional bits of the square and the
  cube roots of the first primes.  \<open>int_root k n b r\<close> extends the approximation \<open>r\<close> of the \<open>k\<close>-th
  root of \<open>n\<close> by the bits below \<open>b\<close>, the highest first.
\<close>

fun int_root :: "nat \<Rightarrow> nat \<Rightarrow> nat \<Rightarrow> nat \<Rightarrow> nat" where
  "int_root k n 0 r = r"
| "int_root k n (Suc b) r = int_root k n b (if (r + 2 ^ b) ^ k \<le> n then r + 2 ^ b else r)"

definition root_bits :: "nat \<Rightarrow> nat \<Rightarrow> w32" where
  "root_bits k p = word_of_nat (int_root k (p * 2 ^ (32 * k)) 40 0)"

definition small_primes :: "nat list" where
  "small_primes =
    [2, 3, 5, 7, 11, 13, 17, 19, 23, 29, 31, 37, 41, 43, 47, 53, 59, 61, 67, 71, 73, 79, 83, 89,
     97, 101, 103, 107, 109, 113, 127, 131, 137, 139, 149, 151, 157, 163, 167, 173, 179, 181,
     191, 193, 197, 199, 211, 223, 227, 229, 233, 239, 241, 251, 257, 263, 269, 271, 277, 281,
     283, 293, 307, 311]"

definition round_constants :: "w32 list" where
  "round_constants = map (root_bits 3) small_primes"

definition initial_hash :: "w32 list" where
  "initial_hash = map (root_bits 2) (take 8 small_primes)"

text \<open>The message schedule: sixteen words of the block, then forty-eight computed ones.\<close>

fun extend_schedule :: "nat \<Rightarrow> w32 list \<Rightarrow> w32 list" where
  "extend_schedule 0 ws = ws"
| "extend_schedule (Suc n) ws =
     (let t = length ws in
      extend_schedule n
        (ws @ [small_sigma1 (ws ! (t - 2)) + ws ! (t - 7) + small_sigma0 (ws ! (t - 15)) + ws ! (t - 16)]))"

fun sha_round :: "w32 \<times> w32 \<Rightarrow> w32 list \<Rightarrow> w32 list" where
  "sha_round (k, wt) [a, b, c, d, e, f, g, h] =
     (let t1 = h + big_sigma1 e + choose_bits e f g + k + wt;
          t2 = big_sigma0 a + majority a b c
      in [t1 + t2, a, b, c, d + t1, e, f, g])"
| "sha_round _ st = st"

definition compress :: "w32 list \<Rightarrow> w32 list \<Rightarrow> w32 list" where
  "compress st blk =
     map (\<lambda>(x, y). x + y) (zip st (fold sha_round (zip round_constants (extend_schedule 48 blk)) st))"

section \<open>Bytes\<close>

definition be_bytes :: "nat \<Rightarrow> nat \<Rightarrow> char list" where
  \<comment> \<open>the \<open>k\<close> low bytes of \<open>n\<close>, most significant first\<close>
  "be_bytes k n = map (\<lambda>i. char_of (n div 256 ^ i)) (rev [0..<k])"

definition pad_message :: "gostring \<Rightarrow> gostring" where
  "pad_message m =
     m @ [CHR 0x80] @ replicate ((119 - length m mod 64) mod 64) NUL @ be_bytes 8 (8 * length m)"

fun words_of_bytes :: "char list \<Rightarrow> w32 list" where
  "words_of_bytes (a # b # c # d # bs) =
     word_of_nat (((of_char a * 256 + of_char b) * 256 + of_char c) * 256 + of_char d) #
       words_of_bytes bs"
| "words_of_bytes _ = []"

function blocks_of :: "w32 list \<Rightarrow> w32 list list" where
  "blocks_of ws = (if length ws < 16 then [] else take 16 ws # blocks_of (drop 16 ws))"
  by pat_completeness auto
termination
  by (relation "measure length") auto

declare blocks_of.simps [simp del]

definition sha256 :: "gostring \<Rightarrow> gostring" where
  "sha256 m =
     concat (map (\<lambda>x. be_bytes 4 (unat x))
       (fold (\<lambda>blk st. compress st blk) (blocks_of (words_of_bytes (pad_message m))) initial_hash))"

section \<open>Hexadecimal text\<close>

definition hex_digit :: "nat \<Rightarrow> char" where
  "hex_digit n = ''0123456789abcdef'' ! n"

definition hex_encode :: "gostring \<Rightarrow> gostring" where
  "hex_encode s = concat (map (\<lambda>c. [hex_digit (of_char c div 16), hex_digit (of_char c mod 16)]) s)"

text \<open>\<open>hex.EncodeToString\<close> of the digest, as every key of the program is written.\<close>

definition sha256_hex :: "gostring \<Rightarrow> gostring" where
  "sha256_hex m = hex_encode (sha256 m)"

lemma hex_digit_inject: "a < 16 \<Longrightarrow> b < 16 \<Longrightarrow> hex_digit a = hex_digit b \<longleftrightarrow> a = b"
proof -
  have "distinct ''0123456789abcdef''" "length ''0123456789abcdef'' = 16" by simp_all
  then show "a < 16 \<Longrightarrow> b < 16 \<Longrightarrow> ?thesis"
    unfolding hex_digit_def by (metis nth_eq_iff_index_eq)
qed

lemma of_char_lt: "of_char c < (256 :: nat)"
  by simp

lemma hex_pair_inject:
  "hex_digit (of_char c div 16) = hex_digit (of_char d div 16) \<Longrightarrow>
   hex_digit (of_char c mod 16) = hex_digit (of_char d mod 16) \<Longrightarrow> c = d"
proof -
  assume "hex_digit (of_char c div 16) = hex_digit (of_char d div 16)"
    and "hex_digit (of_char c mod 16) = hex_digit (of_char d mod 16)"
  then have "(of_char c :: nat) div 16 = of_char d div 16" "(of_char c :: nat) mod 16 = of_char d mod 16"
    using of_char_lt [of c] of_char_lt [of d]
      hex_digit_inject [of "of_char c div 16" "of_char d div 16"]
      hex_digit_inject [of "of_char c mod 16" "of_char d mod 16"] by (simp_all del: of_char_of)
  then have "(of_char c :: nat) = of_char d" by (metis div_mult_mod_eq)
  then show "c = d" by simp
qed

lemma hex_encode_inject: "length a = length b \<Longrightarrow> hex_encode a = hex_encode b \<Longrightarrow> a = b"
  by (induction a b rule: list_induct2) (auto simp: hex_encode_def dest: hex_pair_inject)

lemma hex_encode_Nil: "hex_encode a = [] \<longleftrightarrow> a = []"
  by (cases a) (simp_all add: hex_encode_def)

end
