(* ===== verification/WikiTarget.thy ===== *)
theory WikiTarget
  imports Sha256
begin

text \<open>
  The wiki boundary (internal/adapters/wiki): the \<open>Target\<close> interface as a record of
  operations on a world \<open>'w\<close>, its contract as a locale (the behaviours the repository's contract
  test suite asserts of every implementation), the in-memory implementation with its proof of the
  contract, and the MediaWiki adapter over a client that is a parameter.

  Every operation takes the world and returns its result with the world after it.
\<close>

section \<open>The interface\<close>

record revision =
  rev_ID :: gostring
  User :: gostring
  Timestamp :: gotime
  Comment :: gostring
  IsBot :: bool

record page =
  pg_Title :: gostring
  pg_Content :: gostring
  LatestRevision :: revision

record human_edit =
  he_Revision :: revision
  he_Diff :: gostring

definition no_revision :: revision where
  "no_revision = \<lparr>rev_ID = [], User = [], Timestamp = zero_time, Comment = [], IsBot = False\<rparr>"

record 'w wiki_target =
  Whoami :: "'w \<Rightarrow> gostring res \<times> 'w"
  GetPage :: "gostring \<Rightarrow> 'w \<Rightarrow> page option res \<times> 'w"
  UpsertPage :: "gostring \<Rightarrow> gostring \<Rightarrow> gostring \<Rightarrow> 'w \<Rightarrow> revision res \<times> 'w"
  History :: "gostring \<Rightarrow> gostring \<Rightarrow> 'w \<Rightarrow> revision list res \<times> 'w"
  HumanEditsSinceBot :: "gostring \<Rightarrow> gostring \<Rightarrow> 'w \<Rightarrow> human_edit option res \<times> 'w"
  UploadFile :: "gostring \<Rightarrow> gostring \<Rightarrow> gostring \<Rightarrow> gostring \<Rightarrow> 'w \<Rightarrow> gostring res \<times> 'w"

section \<open>The contract\<close>

text \<open>
  \<open>view w t\<close> is the history of the page \<open>t\<close>, newest first, each revision with its content;
  titles with the same \<open>norm\<close> name the same page.  \<open>ok\<close> is what the implementation keeps of its
  own state, \<open>fresh\<close> says that the next revision identifier it draws is a new one.
\<close>

locale wiki_contract =
  fixes T :: "'w wiki_target"
    and view :: "'w \<Rightarrow> gostring \<Rightarrow> (revision \<times> gostring) list"
    and ok :: "'w \<Rightarrow> bool"
    and fresh :: "'w \<Rightarrow> bool"
    and norm :: "gostring \<Rightarrow> gostring"
  assumes view_norm: "norm t = norm u \<Longrightarrow> view w t = view w u"
    and get_page: "ok w \<Longrightarrow> GetPage T t w =
      (Inr (case view w t of
              [] \<Rightarrow> None
            | (r, c) # _ \<Rightarrow> Some \<lparr>pg_Title = t, pg_Content = c, LatestRevision = r\<rparr>), w)"
    and upsert: "ok w \<Longrightarrow> fresh w \<Longrightarrow> \<exists>r w'. UpsertPage T t c s w = (Inr r, w') \<and> ok w' \<and> IsBot r \<and>
      rev_ID r \<noteq> [] \<and> rev_ID r \<notin> (rev_ID \<circ> fst) ` set (view w t) \<and>
      (\<forall>u. view w' u = (if norm u = norm t then (r, c) # view w t else view w u))"
    and history: "ok w \<Longrightarrow> History T t since w =
      (Inr (if since = [] then map fst (view w t)
            else takeWhile (\<lambda>r. rev_ID r \<noteq> since) (map fst (view w t))), w)"
    and human_edits: "ok w \<Longrightarrow> HumanEditsSinceBot T t lastBot w =
      (Inr (map_option (\<lambda>r. \<lparr>he_Revision = r, he_Diff = []\<rparr>)
              (List.find (\<lambda>r. \<not> IsBot r) (takeWhile (\<lambda>r. rev_ID r \<noteq> lastBot) (map fst (view w t))))), w)"
    and distinct_ids: "ok w \<Longrightarrow> distinct (map (rev_ID \<circ> fst) (view w t))"
begin

lemma get_after_upsert:
  assumes "ok w" and "fresh w" and "UpsertPage T t c s w = (Inr r, w')"
  shows "GetPage T t w' = (Inr (Some \<lparr>pg_Title = t, pg_Content = c, LatestRevision = r\<rparr>), w')"
  using upsert [OF assms(1,2), of t c s] assms(3) get_page [of w' t] by auto

lemma get_other_after_upsert:
  assumes "ok w" and "fresh w" and "UpsertPage T t c s w = (res, w')" and "norm u \<noteq> norm t"
  shows "fst (GetPage T u w') = fst (GetPage T u w)"
  using upsert [OF assms(1,2), of t c s] assms get_page [of w' u] get_page [of w u] by auto

lemma no_human_edit_after_upsert:
  assumes "ok w" and "fresh w" and "UpsertPage T t c s w = (Inr r, w')"
  shows "HumanEditsSinceBot T t (rev_ID r) w' = (Inr None, w')"
  using upsert [OF assms(1,2), of t c s] assms(3) human_edits [of w' t "rev_ID r"] by auto

lemma human_edit_seen:
  assumes "ok w" and "view w t = (h, c) # rest" and "\<not> IsBot h" and "rev_ID h \<noteq> lastBot"
  shows "HumanEditsSinceBot T t lastBot w = (Inr (Some \<lparr>he_Revision = h, he_Diff = []\<rparr>), w)"
  using human_edits [OF assms(1), of t lastBot] assms(2-4) by simp

end

section \<open>The in-memory target\<close>

text \<open>
  memory.go.  \<open>entropy\<close> is what \<open>crypto/rand\<close> delivers on the successive calls of
  \<open>newRevID\<close>, \<open>clock\<close> what \<open>time.Now().UTC()\<close> returns at them; \<open>draws\<close> counts the calls.
\<close>

record page_state =
  revisions :: "revision list"
  contents :: "gostring list"

record mem_target =
  identity :: gostring
  pages :: "gostring \<rightharpoonup> page_state"
  assets :: "gostring \<rightharpoonup> gostring"
  entropy :: "nat \<Rightarrow> gostring"
  clock :: "nat \<Rightarrow> gotime"
  draws :: nat

definition New :: "gostring \<Rightarrow> (nat \<Rightarrow> gostring) \<Rightarrow> (nat \<Rightarrow> gotime) \<Rightarrow> mem_target" where
  "New ident ent clk =
     \<lparr>identity = ident, pages = Map.empty, assets = Map.empty, entropy = ent, clock = clk, draws = 0\<rparr>"

definition normTitle :: "gostring \<Rightarrow> gostring" where
  "normTitle t = replace_byte (CHR '' '') ''_'' t"

definition newRevID :: "mem_target \<Rightarrow> gostring" where
  "newRevID m = hex_encode (entropy m (draws m))"

definition getOrCreate :: "mem_target \<Rightarrow> gostring \<Rightarrow> page_state" where
  "getOrCreate m title =
     (case pages m (normTitle title) of Some p \<Rightarrow> p | None \<Rightarrow> \<lparr>revisions = [], contents = []\<rparr>)"

definition prepend :: "page_state \<Rightarrow> revision \<Rightarrow> gostring \<Rightarrow> page_state" where
  "prepend p r content = \<lparr>revisions = r # revisions p, contents = content # contents p\<rparr>"

definition mem_write :: "gostring \<Rightarrow> bool \<Rightarrow> gostring \<Rightarrow> gostring \<Rightarrow> gostring \<Rightarrow> mem_target \<Rightarrow> revision \<times> mem_target" where
  "mem_write user isbot title content summary m =
     (let p = getOrCreate m title;
          rv = \<lparr>rev_ID = newRevID m, User = user, Timestamp = clock m (draws m),
                 Comment = summary, IsBot = isbot\<rparr>
      in (rv, m\<lparr>pages := (pages m)(normTitle title \<mapsto> prepend p rv content),
                 draws := Suc (draws m)\<rparr>))"

definition mem_UpsertPage :: "gostring \<Rightarrow> gostring \<Rightarrow> gostring \<Rightarrow> mem_target \<Rightarrow> revision res \<times> mem_target" where
  "mem_UpsertPage title content summary m =
     (case mem_write (identity m) True title content summary m of (rv, m') \<Rightarrow> (Inr rv, m'))"

definition SimulateHumanEdit :: "gostring \<Rightarrow> gostring \<Rightarrow> gostring \<Rightarrow> gostring \<Rightarrow> mem_target \<Rightarrow> mem_target" where
  "SimulateHumanEdit title user content summary m = snd (mem_write user False title content summary m)"

definition mem_GetPage :: "gostring \<Rightarrow> mem_target \<Rightarrow> page option res \<times> mem_target" where
  "mem_GetPage title m =
     (case pages m (normTitle title) of
        None \<Rightarrow> (Inr None, m)
      | Some p \<Rightarrow>
          if revisions p = [] then (Inr None, m)
          else (Inr (Some \<lparr>pg_Title = title, pg_Content = contents p ! 0,
                           LatestRevision = revisions p ! 0\<rparr>), m))"

definition mem_History :: "gostring \<Rightarrow> gostring \<Rightarrow> mem_target \<Rightarrow> revision list res \<times> mem_target" where
  "mem_History title sinceRevID m =
     (case pages m (normTitle title) of
        None \<Rightarrow> (Inr [], m)
      | Some p \<Rightarrow>
          if sinceRevID = [] then (Inr (revisions p), m)
          else (Inr (takeWhile (\<lambda>r. rev_ID r \<noteq> sinceRevID) (revisions p)), m))"

fun first_human :: "gostring \<Rightarrow> revision list \<Rightarrow> human_edit option" where
  "first_human lastBotRevID [] = None"
| "first_human lastBotRevID (r # rs) =
     (if rev_ID r = lastBotRevID then None
      else if \<not> IsBot r then Some \<lparr>he_Revision = r, he_Diff = []\<rparr>
      else first_human lastBotRevID rs)"

definition mem_HumanEditsSinceBot :: "gostring \<Rightarrow> gostring \<Rightarrow> mem_target \<Rightarrow> human_edit option res \<times> mem_target" where
  "mem_HumanEditsSinceBot title lastBotRevID m =
     (case pages m (normTitle title) of
        None \<Rightarrow> (Inr None, m)
      | Some p \<Rightarrow> (Inr (first_human lastBotRevID (revisions p)), m))"

definition mem_UploadFile :: "gostring \<Rightarrow> gostring \<Rightarrow> gostring \<Rightarrow> gostring \<Rightarrow> mem_target \<Rightarrow> gostring res \<times> mem_target" where
  "mem_UploadFile filename content contentType summary m =
     (Inr (''File:'' @ filename), m\<lparr>assets := (assets m)(filename \<mapsto> content)\<rparr>)"

definition mem_Whoami :: "mem_target \<Rightarrow> gostring res \<times> mem_target" where
  "mem_Whoami m = (Inr (identity m), m)"

definition memory_target :: "mem_target wiki_target" where
  "memory_target =
     \<lparr>Whoami = mem_Whoami, GetPage = mem_GetPage, UpsertPage = mem_UpsertPage,
      History = mem_History, HumanEditsSinceBot = mem_HumanEditsSinceBot,
      UploadFile = mem_UploadFile\<rparr>"

section \<open>The in-memory target keeps the contract\<close>

definition mem_view :: "mem_target \<Rightarrow> gostring \<Rightarrow> (revision \<times> gostring) list" where
  "mem_view m t =
     (case pages m (normTitle t) of None \<Rightarrow> [] | Some p \<Rightarrow> zip (revisions p) (contents p))"

text \<open>
  The invariant: a page's two slices are aligned, and its revision identifiers are distinct ones of
  those drawn so far.  Identifiers repeat only when the random bytes do; \<open>mem_fresh\<close> says that
  the next draw differs from the earlier ones.
\<close>

definition page_ok :: "gostring set \<Rightarrow> page_state \<Rightarrow> bool" where
  "page_ok ids p =
     (length (revisions p) = length (contents p) \<and> distinct (map rev_ID (revisions p)) \<and>
      rev_ID ` set (revisions p) \<subseteq> ids)"

definition mem_ok :: "mem_target \<Rightarrow> bool" where
  "mem_ok m =
     ((\<forall>n. length (entropy m n) = 8) \<and>
      (\<forall>p \<in> ran (pages m). page_ok ((\<lambda>n. hex_encode (entropy m n)) ` {..<draws m}) p))"

definition mem_fresh :: "mem_target \<Rightarrow> bool" where
  "mem_fresh m = (\<forall>n < draws m. entropy m n \<noteq> entropy m (draws m))"

lemma mem_fresh_id:
  assumes "mem_ok m" and "mem_fresh m"
  shows "newRevID m \<notin> (\<lambda>n. hex_encode (entropy m n)) ` {..<draws m}"
proof
  assume "newRevID m \<in> (\<lambda>n. hex_encode (entropy m n)) ` {..<draws m}"
  then obtain n where n: "n < draws m" "hex_encode (entropy m (draws m)) = hex_encode (entropy m n)"
    by (auto simp: newRevID_def)
  have "length (entropy m (draws m)) = length (entropy m n)"
    using assms(1) by (simp add: mem_ok_def)
  with n(2) have "entropy m (draws m) = entropy m n" using hex_encode_inject by metis
  with n(1) assms(2) show False unfolding mem_fresh_def by metis
qed

lemma mem_ok_page:
  "mem_ok m \<Longrightarrow> pages m k = Some p \<Longrightarrow> page_ok ((\<lambda>n. hex_encode (entropy m n)) ` {..<draws m}) p"
  unfolding mem_ok_def ran_def by blast

lemma getOrCreate_ok:
  assumes "mem_ok m"
  shows "page_ok ((\<lambda>n. hex_encode (entropy m n)) ` {..<draws m}) (getOrCreate m t)"
proof (cases "pages m (normTitle t)")
  case None
  then show ?thesis by (simp add: getOrCreate_def page_ok_def)
next
  case (Some p)
  with mem_ok_page [OF assms Some] show ?thesis by (simp add: getOrCreate_def)
qed

lemma mem_write_ok [effects]:
  assumes "mem_ok m" and "mem_fresh m" and "mem_write user isbot t c s m = (r, m')"
  shows "mem_ok m'"
proof -
  let ?ids = "\<lambda>k. (\<lambda>n. hex_encode (entropy m n)) ` {..<k}"
  have mono: "page_ok (?ids (draws m)) p \<Longrightarrow> page_ok (?ids (Suc (draws m))) p" for p
    by (auto simp: page_ok_def lessThan_Suc)
  have new: "page_ok (?ids (Suc (draws m))) (prepend (getOrCreate m t) r c)"
    using getOrCreate_ok [OF assms(1), of t] mem_fresh_id [OF assms(1,2)] assms(3)
    by (auto simp: page_ok_def prepend_def mem_write_def Let_def newRevID_def lessThan_Suc)
  from assms(3) have m': "m' = m\<lparr>pages := (pages m)(normTitle t \<mapsto> prepend (getOrCreate m t) r c),
      draws := Suc (draws m)\<rparr>"
    by (auto simp: mem_write_def Let_def)
  show ?thesis
    using assms(1) mono new unfolding m' mem_ok_def by (auto simp: ran_def)
qed

lemma mem_view_write [effects]:
  assumes "mem_write user isbot t c s m = (r, m')"
  shows "mem_view m' u = (if normTitle u = normTitle t then (r, c) # mem_view m t else mem_view m u)"
  using assms
  by (auto simp: mem_view_def mem_write_def Let_def prepend_def getOrCreate_def split: option.splits)

lemma mem_view_revisions:
  "mem_ok m \<Longrightarrow> map fst (mem_view m t) =
     (case pages m (normTitle t) of None \<Rightarrow> [] | Some p \<Rightarrow> revisions p)"
  by (auto simp: mem_view_def mem_ok_def page_ok_def ran_def split: option.splits)

lemma first_human_find:
  "first_human lastBot rs =
     map_option (\<lambda>r. \<lparr>he_Revision = r, he_Diff = []\<rparr>)
       (List.find (\<lambda>r. \<not> IsBot r) (takeWhile (\<lambda>r. rev_ID r \<noteq> lastBot) rs))"
  by (induction rs) auto

lemma mem_revisions: "mem_ok m \<Longrightarrow> map fst (mem_view m t) = revisions (getOrCreate m t)"
  by (simp add: mem_view_revisions getOrCreate_def split: option.splits)

lemma mem_ids:
  assumes "mem_ok m"
  shows "(rev_ID \<circ> fst) ` set (mem_view m t) \<subseteq> (\<lambda>n. hex_encode (entropy m n)) ` {..<draws m}"
    and "distinct (map (rev_ID \<circ> fst) (mem_view m t))"
proof -
  have r: "map (rev_ID \<circ> fst) (mem_view m t) = map rev_ID (revisions (getOrCreate m t))"
    using arg_cong [OF mem_revisions [OF assms, of t], of "map rev_ID"] by simp
  have ok: "page_ok ((\<lambda>n. hex_encode (entropy m n)) ` {..<draws m}) (getOrCreate m t)"
    by (rule getOrCreate_ok [OF assms])
  from r ok show "distinct (map (rev_ID \<circ> fst) (mem_view m t))" by (simp add: page_ok_def)
  have "set (map (rev_ID \<circ> fst) (mem_view m t)) = rev_ID ` set (revisions (getOrCreate m t))"
    unfolding r by simp
  with ok show "(rev_ID \<circ> fst) ` set (mem_view m t) \<subseteq> (\<lambda>n. hex_encode (entropy m n)) ` {..<draws m}"
    by (simp add: page_ok_def)
qed

lemma mem_get_page:
  assumes "mem_ok m"
  shows "mem_GetPage t m =
      (Inr (case mem_view m t of [] \<Rightarrow> None
            | (r, c) # _ \<Rightarrow> Some \<lparr>pg_Title = t, pg_Content = c, LatestRevision = r\<rparr>), m)"
proof (cases "pages m (normTitle t)")
  case None
  then show ?thesis by (simp add: mem_GetPage_def mem_view_def)
next
  case (Some p)
  from mem_ok_page [OF assms Some] have "length (revisions p) = length (contents p)"
    by (simp add: page_ok_def)
  with Some show ?thesis
    by (cases "revisions p"; cases "contents p") (simp_all add: mem_GetPage_def mem_view_def)
qed

lemma mem_upsert:
  assumes ok: "mem_ok m" and fr: "mem_fresh m"
  shows "\<exists>r w'. mem_UpsertPage t c s m = (Inr r, w') \<and> mem_ok w' \<and> IsBot r \<and>
      rev_ID r \<noteq> [] \<and> rev_ID r \<notin> (rev_ID \<circ> fst) ` set (mem_view m t) \<and>
      (\<forall>u. mem_view w' u = (if normTitle u = normTitle t then (r, c) # mem_view m t else mem_view m u))"
proof -
  obtain r m' where w: "mem_write (identity m) True t c s m = (r, m')" by fastforce
  have r: "IsBot r" "rev_ID r = newRevID m" using w by (auto simp: mem_write_def Let_def)
  have "length (entropy m (draws m)) = 8" using ok by (simp add: mem_ok_def)
  then have "newRevID m \<noteq> []" by (auto simp: newRevID_def hex_encode_Nil)
  moreover have "rev_ID r \<notin> (rev_ID \<circ> fst) ` set (mem_view m t)"
    using r(2) mem_fresh_id [OF ok fr] mem_ids(1) [OF ok, of t] by (metis subsetD)
  moreover have "mem_UpsertPage t c s m = (Inr r, m')" using w by (simp add: mem_UpsertPage_def)
  ultimately show ?thesis
    using r mem_write_ok [OF ok fr w] mem_view_write [OF w] by (intro exI [of _ r] exI [of _ m']) simp
qed

lemma mem_history:
  assumes "mem_ok m"
  shows "mem_History t since m =
      (Inr (if since = [] then map fst (mem_view m t)
            else takeWhile (\<lambda>r. rev_ID r \<noteq> since) (map fst (mem_view m t))), m)"
  by (simp add: mem_History_def mem_view_revisions [OF assms] split: option.splits)

lemma mem_human_edits:
  assumes "mem_ok m"
  shows "mem_HumanEditsSinceBot t lastBot m =
      (Inr (map_option (\<lambda>r. \<lparr>he_Revision = r, he_Diff = []\<rparr>)
              (List.find (\<lambda>r. \<not> IsBot r) (takeWhile (\<lambda>r. rev_ID r \<noteq> lastBot) (map fst (mem_view m t))))), m)"
  by (simp add: mem_HumanEditsSinceBot_def mem_view_revisions [OF assms] first_human_find split: option.splits)

lemma mem_view_norm: "normTitle t = normTitle u \<Longrightarrow> mem_view m t = mem_view m u"
  by (simp add: mem_view_def)

lemma memory_target_ops [simp]:
  "Whoami memory_target = mem_Whoami" "GetPage memory_target = mem_GetPage"
  "UpsertPage memory_target = mem_UpsertPage" "History memory_target = mem_History"
  "HumanEditsSinceBot memory_target = mem_HumanEditsSinceBot"
  "UploadFile memory_target = mem_UploadFile"
  by (simp_all add: memory_target_def)

interpretation mem: wiki_contract memory_target mem_view mem_ok mem_fresh normTitle
  by (unfold_locales; (unfold memory_target_ops)?;
      (rule mem_view_norm mem_get_page mem_upsert mem_history mem_human_edits mem_ids(2)); assumption)

text \<open>A fresh target keeps the invariant, and so does a human edit.\<close>

lemma mem_ok_New: "(\<And>n. length (ent n) = 8) \<Longrightarrow> mem_ok (New ident ent clk)"
  by (simp add: mem_ok_def New_def)

lemma mem_fresh_New: "mem_fresh (New ident ent clk)"
  by (simp add: mem_fresh_def New_def)

lemma mem_ok_SimulateHumanEdit:
  "mem_ok m \<Longrightarrow> mem_fresh m \<Longrightarrow> mem_ok (SimulateHumanEdit t u c s m)"
  using mem_write_ok [of m u False t c s] by (simp add: SimulateHumanEdit_def prod_eq_iff)

section \<open>The MediaWiki adapter\<close>

text \<open>
  mediawiki.go, over the go-mwclient client and the HTTP post of the upload, which are the
  operations of \<open>mw_client\<close>.  What \<open>encoding/json\<close> decodes a response to is a field as well:
  the decoded struct of the code, or the decoding error.
\<close>

datatype login_result = LoginOK | LoginWarnings | LoginFailed gomsg

datatype edit_result = EditOK | EditNoChange | EditFailed gomsg

record parse_response =
  Wikitext :: gostring
  pr_Error :: "(gostring \<times> gostring) option"   \<comment> \<open>code, info\<close>

record upload_response =
  Result :: gostring
  up_Filename :: gostring
  up_Error :: "(gostring \<times> gostring) option"

record raw_revision =
  raw_user :: "gostring option"
  raw_comment :: "gostring option"
  raw_timestamp :: "gotime option"
  raw_revid :: "int option"
  raw_bot :: "bool option"

record 'w mw_client =
  Login :: "gostring \<Rightarrow> gostring \<Rightarrow> 'w \<Rightarrow> login_result \<times> 'w"
  GetRaw :: "(gostring \<times> gostring) list \<Rightarrow> 'w \<Rightarrow> gostring res \<times> 'w"
  decode_parse :: "gostring \<Rightarrow> parse_response res"
  drop_csrf :: "'w \<Rightarrow> 'w"
  Edit :: "(gostring \<times> gostring) list \<Rightarrow> 'w \<Rightarrow> edit_result \<times> 'w"
  GetToken :: "gostring \<Rightarrow> 'w \<Rightarrow> gostring res \<times> 'w"
  Post :: "(gostring \<times> gostring) list \<Rightarrow> gostring \<Rightarrow> gostring \<Rightarrow> 'w \<Rightarrow> gostring res \<times> 'w"
  decode_upload :: "gostring \<Rightarrow> upload_response res"
  Get_revisions :: "(gostring \<times> gostring) list \<Rightarrow> 'w \<Rightarrow> raw_revision list option list option res \<times> 'w"
  Now :: "'w \<Rightarrow> gotime"

record mw_config =
  BotUser :: gostring
  BotPass :: gostring

definition ensureAuth :: "'w mw_client \<Rightarrow> mw_config \<Rightarrow> 'w \<Rightarrow> gomsg option \<times> 'w" where
  "ensureAuth cl cfg w =
     (if BotUser cfg = [] then (None, w)
      else (case Login cl (BotUser cfg) (BotPass cfg) w of
              (LoginOK, w) \<Rightarrow> (None, w)
            | (LoginWarnings, w) \<Rightarrow> (None, w)
            | (LoginFailed e, w) \<Rightarrow> (Some e, w)))"

definition mw_Whoami :: "mw_config \<Rightarrow> 'w \<Rightarrow> gostring res \<times> 'w" where
  "mw_Whoami cfg w =
     (if BotUser cfg = [] then (Inl (errorf ''mediawiki: no bot user configured'' []), w)
      else (Inr (BotUser cfg), w))"

definition mw_GetPage :: "'w mw_client \<Rightarrow> mw_config \<Rightarrow> gostring \<Rightarrow> 'w \<Rightarrow> page option res \<times> 'w" where
  "mw_GetPage cl cfg title w =
     (case ensureAuth cl cfg w of
        (Some e, w) \<Rightarrow> (Inl (wrapf ''mediawiki: auth: %w'' [] e), w)
      | (None, w) \<Rightarrow>
          (case GetRaw cl [(''action'', ''parse''), (''page'', title), (''prop'', ''wikitext''),
                           (''formatversion'', ''2'')] w of
             (Inl e, w) \<Rightarrow> (Inl (wrapf ''mediawiki: get page: %w'' [] e), w)
           | (Inr raw, w) \<Rightarrow>
               (case decode_parse cl raw of
                  Inl e \<Rightarrow> (Inl (wrapf ''mediawiki: decode parse response: %w; body=%s'' [raw] e), w)
                | Inr resp \<Rightarrow>
                    (case pr_Error resp of
                       Some (code, info) \<Rightarrow>
                         if code = ''missingtitle'' then (Inr None, w)
                         else (Inl (errorf ''mediawiki: parse error %s: %s'' [code, info]), w)
                     | None \<Rightarrow>
                         (Inr (Some \<lparr>pg_Title = title, pg_Content = Wikitext resp,
                                     LatestRevision = no_revision\<rparr>), w)))))"

definition mw_UpsertPage :: "'w mw_client \<Rightarrow> mw_config \<Rightarrow> gostring \<Rightarrow> gostring \<Rightarrow> gostring \<Rightarrow> 'w \<Rightarrow> revision res \<times> 'w" where
  "mw_UpsertPage cl cfg title content summary w =
     (case ensureAuth cl cfg w of
        (Some e, w) \<Rightarrow> (Inl (wrapf ''mediawiki: auth: %w'' [] e), w)
      | (None, w) \<Rightarrow>
          (let done = \<lparr>rev_ID = [], User = BotUser cfg, Timestamp = zero_time, Comment = summary, IsBot = True\<rparr> in
           case Edit cl [(''title'', title), (''text'', content), (''summary'', summary), (''bot'', ''1'')]
                  (drop_csrf cl w) of
             (EditFailed e, w) \<Rightarrow> (Inl (wrapf ''mediawiki: edit %q: %w'' [title] e), w)
           | (EditOK, w) \<Rightarrow> (Inr (done\<lparr>Timestamp := Now cl w\<rparr>), w)
           | (EditNoChange, w) \<Rightarrow> (Inr (done\<lparr>Timestamp := Now cl w\<rparr>), w)))"

definition mw_UploadFile :: "'w mw_client \<Rightarrow> mw_config \<Rightarrow> gostring \<Rightarrow> gostring \<Rightarrow> gostring \<Rightarrow> gostring \<Rightarrow> 'w \<Rightarrow> gostring res \<times> 'w" where
  "mw_UploadFile cl cfg filename content contentType summary w =
     (case ensureAuth cl cfg w of
        (Some e, w) \<Rightarrow> (Inl (wrapf ''mediawiki: auth: %w'' [] e), w)
      | (None, w) \<Rightarrow>
          (case GetToken cl ''csrf'' (drop_csrf cl w) of
             (Inl e, w) \<Rightarrow> (Inl (wrapf ''mediawiki: csrf token: %w'' [] e), w)
           | (Inr token, w) \<Rightarrow>
               (case Post cl [(''action'', ''upload''), (''filename'', filename), (''token'', token),
                              (''ignorewarnings'', ''1''), (''comment'', summary), (''format'', ''json'')]
                       filename content w of
                  (Inl e, w) \<Rightarrow> (Inl (wrapf ''mediawiki: upload POST: %w'' [] e), w)
                | (Inr raw, w) \<Rightarrow>
                    (case decode_upload cl raw of
                       Inl e \<Rightarrow> (Inl (wrapf ''mediawiki: decode upload response: %w; body=%s'' [raw] e), w)
                     | Inr p \<Rightarrow>
                         (case up_Error p of
                            Some (code, info) \<Rightarrow>
                              if code = ''fileexists-no-change'' then (Inr (''File:'' @ filename), w)
                              else (Inl (errorf ''mediawiki: upload error %s: %s'' [code, info]), w)
                          | None \<Rightarrow>
                              if Result p \<noteq> ''Success''
                              then (Inl (errorf ''mediawiki: upload result %q (not Success); body=%s'' [Result p, raw]), w)
                              else (Inr (''File:'' @ (if up_Filename p = [] then filename else up_Filename p)), w))))))"

definition decodeRevision :: "raw_revision \<Rightarrow> revision" where
  "decodeRevision r =
     \<lparr>rev_ID = int_dec (case raw_revid r of Some i \<Rightarrow> i | None \<Rightarrow> 0),
      User = (case raw_user r of Some u \<Rightarrow> u | None \<Rightarrow> []),
      Timestamp = (case raw_timestamp r of Some t \<Rightarrow> t | None \<Rightarrow> zero_time),
      Comment = (case raw_comment r of Some c \<Rightarrow> c | None \<Rightarrow> []),
      IsBot = (raw_bot r = Some True)\<rparr>"

text \<open>The two nested loops: over the pages (those that do not decode are skipped) and their revisions.\<close>

fun collect_revisions :: "gostring \<Rightarrow> revision list \<Rightarrow> raw_revision list \<Rightarrow> revision list \<times> bool" where
  "collect_revisions since out [] = (out, False)"
| "collect_revisions since out (r # rs) =
     (let rv = decodeRevision r in
      if since \<noteq> [] \<and> rev_ID rv = since then (out, True)
      else collect_revisions since (out @ [rv]) rs)"

fun collect_pages :: "gostring \<Rightarrow> revision list \<Rightarrow> raw_revision list option list \<Rightarrow> revision list" where
  "collect_pages since out [] = out"
| "collect_pages since out (None # ps) = collect_pages since out ps"
| "collect_pages since out (Some revs # ps) =
     (case collect_revisions since out revs of
        (out', True) \<Rightarrow> out'
      | (out', False) \<Rightarrow> collect_pages since out' ps)"

definition mw_History :: "'w mw_client \<Rightarrow> mw_config \<Rightarrow> gostring \<Rightarrow> gostring \<Rightarrow> 'w \<Rightarrow> revision list res \<times> 'w" where
  "mw_History cl cfg title sinceRevID w =
     (case ensureAuth cl cfg w of
        (Some e, w) \<Rightarrow> (Inl (wrapf ''mediawiki: auth: %w'' [] e), w)
      | (None, w) \<Rightarrow>
          (case Get_revisions cl [(''action'', ''query''), (''prop'', ''revisions''), (''titles'', title),
                  (''rvprop'', ''ids|user|timestamp|comment|flags''), (''rvlimit'', ''50'')] w of
             (Inl e, w) \<Rightarrow> (Inl (wrapf ''mediawiki: history: %w'' [] e), w)
           | (Inr None, w) \<Rightarrow> (Inr [], w)
           | (Inr (Some ps), w) \<Rightarrow> (Inr (collect_pages sinceRevID [] ps), w)))"

definition mw_HumanEditsSinceBot :: "'w mw_client \<Rightarrow> mw_config \<Rightarrow> gostring \<Rightarrow> gostring \<Rightarrow> 'w \<Rightarrow> human_edit option res \<times> 'w" where
  "mw_HumanEditsSinceBot cl cfg title lastBotRevID w =
     (case mw_History cl cfg title [] w of
        (Inl e, w) \<Rightarrow> (Inl e, w)
      | (Inr hist, w) \<Rightarrow> (Inr (first_human lastBotRevID hist), w))"

definition mediawiki_target :: "'w mw_client \<Rightarrow> mw_config \<Rightarrow> 'w wiki_target" where
  "mediawiki_target cl cfg =
     \<lparr>Whoami = mw_Whoami cfg, GetPage = mw_GetPage cl cfg, UpsertPage = mw_UpsertPage cl cfg,
      History = mw_History cl cfg, HumanEditsSinceBot = mw_HumanEditsSinceBot cl cfg,
      UploadFile = mw_UploadFile cl cfg\<rparr>"

lemma mediawiki_target_ops [simp]:
  "Whoami (mediawiki_target cl cfg) = mw_Whoami cfg" "GetPage (mediawiki_target cl cfg) = mw_GetPage cl cfg"
  "UpsertPage (mediawiki_target cl cfg) = mw_UpsertPage cl cfg"
  "History (mediawiki_target cl cfg) = mw_History cl cfg"
  "HumanEditsSinceBot (mediawiki_target cl cfg) = mw_HumanEditsSinceBot cl cfg"
  "UploadFile (mediawiki_target cl cfg) = mw_UploadFile cl cfg"
  by (simp_all add: mediawiki_target_def)

lemma collect_revisions_result:
  "collect_revisions since out revs =
     (if since = [] then (out @ map decodeRevision revs, False)
      else (out @ takeWhile (\<lambda>r. rev_ID r \<noteq> since) (map decodeRevision revs),
            since \<in> rev_ID ` decodeRevision ` set revs))"
  by (induction revs arbitrary: out) (auto simp: Let_def)

lemma collect_pages_one:
  "collect_pages since [] [Some revs] =
     (if since = [] then map decodeRevision revs
      else takeWhile (\<lambda>r. rev_ID r \<noteq> since) (map decodeRevision revs))"
  by (auto simp: collect_revisions_result split: bool.splits)

lemma int_dec_nonempty: "int_dec i \<noteq> []"
  by (simp add: int_dec_def)

section \<open>Properties of the targets\<close>

text \<open>
  The in-memory target behaves as the contract suite asks: after a successful upsert the page
  reads back with exactly the pushed content and a bot revision whose identifier no earlier
  revision of the page has; the history starts with that revision and goes on with the old one; a
  page of another normalised title is not touched; and no human edit is reported since that
  revision.
\<close>

theorem memory_target_contract:
  assumes "mem_ok m" and "mem_fresh m" and "UpsertPage memory_target t c s m = (res, m')"
  shows "\<exists>r. res = Inr r \<and> mem_ok m' \<and> IsBot r \<and>
     GetPage memory_target t m' = (Inr (Some \<lparr>pg_Title = t, pg_Content = c, LatestRevision = r\<rparr>), m') \<and>
     (\<exists>old. fst (History memory_target t [] m) = Inr old \<and> rev_ID r \<notin> rev_ID ` set old \<and>
            History memory_target t [] m' = (Inr (r # old), m')) \<and>
     (\<forall>u. normTitle u \<noteq> normTitle t \<longrightarrow> fst (GetPage memory_target u m') = fst (GetPage memory_target u m)) \<and>
     HumanEditsSinceBot memory_target t (rev_ID r) m' = (Inr None, m')"
proof -
  obtain r where r: "res = Inr r" "mem_ok m'" "IsBot r"
    "rev_ID r \<notin> (rev_ID \<circ> fst) ` set (mem_view m t)" "mem_view m' t = (r, c) # mem_view m t"
    using mem.upsert [OF assms(1,2), of t c s] assms(3) by auto
  then have up: "UpsertPage memory_target t c s m = (Inr r, m')" using assms(3) by simp
  have "rev_ID r \<notin> rev_ID ` set (map fst (mem_view m t))" using r(4) by (simp add: image_comp)
  moreover have "History memory_target t [] m' = (Inr (r # map fst (mem_view m t)), m')"
    using mem.history [OF r(2), of t "[]"] r(5) by simp
  moreover have "fst (History memory_target t [] m) = Inr (map fst (mem_view m t))"
    using mem.history [OF assms(1), of t "[]"] by simp
  ultimately show ?thesis
    using r mem.get_after_upsert [OF assms(1,2) up] mem.no_human_edit_after_upsert [OF assms(1,2) up]
      mem.get_other_after_upsert [OF assms] by blast
qed

text \<open>
  A human edit is seen: on the in-memory target, a human revision made after the bot's revision
  is what HumanEditsSinceBot reports for that bot revision.
\<close>

theorem memory_human_edit_detected:
  assumes "mem_ok m" and "mem_fresh m" and "UpsertPage memory_target t c s m = (Inr r, m1)"
    and "mem_fresh m1" and "m2 = SimulateHumanEdit t user c2 s2 m1"
  shows "\<exists>h. HumanEditsSinceBot memory_target t (rev_ID r) m2 =
               (Inr (Some \<lparr>he_Revision = h, he_Diff = []\<rparr>), m2) \<and>
             User h = user \<and> Comment h = s2 \<and> \<not> IsBot h"
proof -
  obtain h where w: "mem_write user False t c2 s2 m1 = (h, m2)"
    using assms(5) by (simp add: SimulateHumanEdit_def prod_eq_iff)
  then have h: "User h = user" "Comment h = s2" "\<not> IsBot h" "rev_ID h = newRevID m1"
    by (auto simp: mem_write_def Let_def)
  have m1: "mem_ok m1" "mem_view m1 t = (r, c) # mem_view m t"
    using mem.upsert [OF assms(1,2), of t c s] assms(3) by auto
  have "rev_ID r \<in> (rev_ID \<circ> fst) ` set (mem_view m1 t)" using m1(2) by simp
  then have ne: "rev_ID h \<noteq> rev_ID r"
    using mem_fresh_id [OF m1(1) assms(4)] mem_ids(1) [OF m1(1), of t] h(4) by (metis subsetD)
  have "mem_view m2 t = (h, c2) # mem_view m1 t" using mem_view_write [OF w] by simp
  from mem.human_edit_seen [OF mem_write_ok [OF m1(1) assms(4) w] this h(3) ne] h show ?thesis by blast
qed

text \<open>
  The MediaWiki adapter never returns the identifier of the revision it wrote: every successful
  UpsertPage returns a bot revision with the empty identifier, whereas every revision of its
  History has a non-empty one.  The revision a caller stores therefore never matches the history.
\<close>

theorem mediawiki_upsert_has_no_revision_id:
  "(case fst (UpsertPage (mediawiki_target cl cfg) t c s w) of
      Inl e \<Rightarrow> True
    | Inr r \<Rightarrow> rev_ID r = [] \<and> IsBot r \<and> User r = BotUser cfg \<and> Comment r = s) \<and>
   (case fst (History (mediawiki_target cl cfg) t since w) of
      Inl e \<Rightarrow> True
    | Inr h \<Rightarrow> [] \<notin> rev_ID ` set h)"
proof
  show "case fst (UpsertPage (mediawiki_target cl cfg) t c s w) of
      Inl e \<Rightarrow> True
    | Inr r \<Rightarrow> rev_ID r = [] \<and> IsBot r \<and> User r = BotUser cfg \<and> Comment r = s"
    by (auto simp: mw_UpsertPage_def Let_def split: prod.splits option.splits edit_result.splits)
  have dec: "rev_ID (decodeRevision x) \<noteq> []" for x
    using int_dec_nonempty by (simp add: decodeRevision_def)
  have one: "[] \<notin> rev_ID ` set out \<Longrightarrow> [] \<notin> rev_ID ` set (fst (collect_revisions since out revs))"
    for out revs
    using dec by (auto simp: collect_revisions_result image_iff dest!: set_takeWhileD) metis+
  have "[] \<notin> rev_ID ` set out \<Longrightarrow> [] \<notin> rev_ID ` set (collect_pages since out ps)" for out ps
  proof (induction ps arbitrary: out)
    case (Cons p ps)
    show ?case
    proof (cases p)
      case None
      with Cons show ?thesis by simp
    next
      case (Some revs)
      obtain o1 b where o1: "collect_revisions since out revs = (o1, b)" by fastforce
      then have "[] \<notin> rev_ID ` set o1" using one [OF Cons.prems, of revs] by simp
      with Some o1 Cons.IH show ?thesis by (cases b) simp_all
    qed
  qed simp
  from this [of "[]"] show "case fst (History (mediawiki_target cl cfg) t since w) of
      Inl e \<Rightarrow> True
    | Inr h \<Rightarrow> [] \<notin> rev_ID ` set h"
    by (auto simp: mw_History_def split: prod.splits option.splits sum.splits)
qed

text \<open>A target whose random bytes count the calls.\<close>

definition counting_entropy :: "nat \<Rightarrow> gostring" where
  "counting_entropy n = map (\<lambda>i. char_of (n div 256 ^ i)) [0..<8]"

definition example_target :: mem_target where
  "example_target = New ''User:Bot'' counting_entropy (\<lambda>n. int n)"

lemma example_target_ok: "mem_ok example_target" "mem_fresh example_target"
  unfolding example_target_def
  by (rule mem_ok_New, simp add: counting_entropy_def) (rule mem_fresh_New)

lemma counting_fresh: "draws m = 1 \<Longrightarrow> entropy m = counting_entropy \<Longrightarrow> mem_fresh m"
  by (simp add: mem_fresh_def counting_entropy_def upt_rec)

theorem memory_target_contract_witness:
  "GetPage memory_target ''A B'' (snd (UpsertPage memory_target ''A_B'' ''x'' ''s'' example_target)) =
     (Inr (Some \<lparr>pg_Title = ''A B'', pg_Content = ''x'',
        LatestRevision = projr (fst (UpsertPage memory_target ''A_B'' ''x'' ''s'' example_target))\<rparr>),
      snd (UpsertPage memory_target ''A_B'' ''x'' ''s'' example_target)) \<and>
   normTitle ''A B'' = normTitle ''A_B''"
proof -
  have n: "normTitle ''A B'' = normTitle ''A_B''" by (simp add: normTitle_def)
  obtain res m' where u: "UpsertPage memory_target ''A_B'' ''x'' ''s'' example_target = (res, m')"
    by fastforce
  obtain r where "res = Inr r" "mem_ok m'"
    "GetPage memory_target ''A_B'' m' =
       (Inr (Some \<lparr>pg_Title = ''A_B'', pg_Content = ''x'', LatestRevision = r\<rparr>), m')"
    using memory_target_contract [OF example_target_ok u] by blast
  with u n show ?thesis
    by (auto simp: mem_GetPage_def split: option.splits if_splits)
qed

theorem memory_human_edit_detected_witness:
  "\<exists>r m1 h m2. UpsertPage memory_target ''P'' ''x'' ''s'' example_target = (Inr r, m1) \<and>
     HumanEditsSinceBot memory_target ''P'' (rev_ID r)
       (SimulateHumanEdit ''P'' ''alice'' ''y'' ''fix'' m1) =
       (Inr (Some \<lparr>he_Revision = h, he_Diff = []\<rparr>), m2) \<and> User h = ''alice''"
proof -
  obtain r m1 where u: "UpsertPage memory_target ''P'' ''x'' ''s'' example_target = (Inr r, m1)"
    using mem.upsert [OF example_target_ok] by metis
  have "mem_fresh m1"
    using u by (intro counting_fresh)
      (auto simp: mem_UpsertPage_def mem_write_def Let_def example_target_def New_def)
  from memory_human_edit_detected [OF example_target_ok u this refl, of "''alice''" "''y''" "''fix''"] u
  show ?thesis by blast
qed

end
