(* ===== verification/Reconciler.thy ===== *)
theory Reconciler
  imports Merge WikiTarget
begin

text \<open>
  The reconciler (reconciler/reconciler.go): what to do at the wiki boundary for a rendered page.
  \<open>Reconcile\<close> works over any target; \<open>decide\<close> is its specification on the page's history, and
  the two agree for every target that keeps the wiki contract.
\<close>

section \<open>The code\<close>

datatype action = ActionCreate | ActionUpsert | ActionNoOp

record human_detection =
  hd_Revision :: revision
  hd_Diff :: gomsg

record decision =
  Action :: action
  CurrentRevisionID :: gostring
  MergedContent :: gostring
  HumanEdits :: "human_detection list"
  PreExistingContent :: bool

definition detection :: "revision \<Rightarrow> human_detection" where
  "detection r =
     \<lparr>hd_Revision = r, hd_Diff = errorf ''revision %s by %s: %s'' [rev_ID r, User r, Comment r]\<rparr>"

fun edits_until :: "gostring \<Rightarrow> revision list \<Rightarrow> human_detection list" where
  "edits_until lastBotRevID [] = []"
| "edits_until lastBotRevID (r # rs) =
     (if rev_ID r = lastBotRevID then []
      else (if \<not> IsBot r then [detection r] else []) @ edits_until lastBotRevID rs)"

definition detectHumanEdits ::
  "'w wiki_target \<Rightarrow> gostring \<Rightarrow> gostring \<Rightarrow> 'w \<Rightarrow> (human_detection list \<times> bool) res \<times> 'w" where
  "detectHumanEdits T title lastBotRevID w =
     (case History T title [] w of
        (Inl e, w) \<Rightarrow> (Inl (wrapf ''reconciler: history %q: %w'' [title] e), w)
      | (Inr hist, w) \<Rightarrow>
          if lastBotRevID = [] then (Inr ([], \<exists>r \<in> set hist. \<not> IsBot r), w)
          else (Inr (edits_until lastBotRevID hist, False), w))"

definition Reconcile ::
  "'w wiki_target \<Rightarrow> gostring \<Rightarrow> gostring \<Rightarrow> gostring \<Rightarrow> 'w \<Rightarrow> decision res \<times> 'w" where
  "Reconcile T title rendered lastBotRevID w =
     (case GetPage T title w of
        (Inl e, w) \<Rightarrow> (Inl (wrapf ''reconciler: get page %q: %w'' [title] e), w)
      | (Inr None, w) \<Rightarrow>
          (Inr \<lparr>Action = ActionCreate, CurrentRevisionID = [], MergedContent = rendered,
                HumanEdits = [], PreExistingContent = False\<rparr>, w)
      | (Inr (Some current), w) \<Rightarrow>
          (let merged = MergeBlocks (pg_Content current) rendered;
               d = \<lparr>Action = ActionNoOp, CurrentRevisionID = rev_ID (LatestRevision current),
                    MergedContent = merged, HumanEdits = [], PreExistingContent = False\<rparr> in
           if merged = pg_Content current then (Inr d, w)
           else (case detectHumanEdits T title lastBotRevID w of
                   (Inl e, w) \<Rightarrow> (Inl e, w)
                 | (Inr (humans, preExisting), w) \<Rightarrow>
                     (Inr (d\<lparr>HumanEdits := humans, PreExistingContent := preExisting,
                            Action := ActionUpsert\<rparr>), w))))"

section \<open>The specification\<close>

text \<open>The human revisions since the bot's last one, newest first.\<close>

definition humans_since :: "gostring \<Rightarrow> revision list \<Rightarrow> revision list" where
  "humans_since lastBot rs = filter (\<lambda>r. \<not> IsBot r) (takeWhile (\<lambda>r. rev_ID r \<noteq> lastBot) rs)"

lemma edits_until_spec: "edits_until lastBot rs = map detection (humans_since lastBot rs)"
  by (induction rs) (simp_all add: humans_since_def)

definition decide :: "(revision \<times> gostring) list \<Rightarrow> gostring \<Rightarrow> gostring \<Rightarrow> decision" where
  "decide hist rendered lastBot =
     (case hist of
        [] \<Rightarrow> \<lparr>Action = ActionCreate, CurrentRevisionID = [], MergedContent = rendered,
               HumanEdits = [], PreExistingContent = False\<rparr>
      | (r, c) # _ \<Rightarrow>
          (let merged = MergeBlocks c rendered; revs = map fst hist in
           if merged = c
           then \<lparr>Action = ActionNoOp, CurrentRevisionID = rev_ID r, MergedContent = merged,
                 HumanEdits = [], PreExistingContent = False\<rparr>
           else \<lparr>Action = ActionUpsert, CurrentRevisionID = rev_ID r, MergedContent = merged,
                 HumanEdits = (if lastBot = [] then [] else map detection (humans_since lastBot revs)),
                 PreExistingContent = (lastBot = [] \<and> (\<exists>r \<in> set revs. \<not> IsBot r))\<rparr>))"

lemma decide_nil [simp]: "Action (decide [] rendered lastBot) = ActionCreate"
  "MergedContent (decide [] rendered lastBot) = rendered"
  by (simp_all add: decide_def)

lemma decide_action:
  "Action (decide ((r, c) # h) rendered lastBot) =
     (if MergeBlocks c rendered = c then ActionNoOp else ActionUpsert)"
  "MergedContent (decide ((r, c) # h) rendered lastBot) = MergeBlocks c rendered"
  by (simp_all add: decide_def Let_def)

context wiki_contract
begin

lemma Reconcile_decide:
  assumes "ok w"
  shows "Reconcile T title rendered lastBot w = (Inr (decide (view w title) rendered lastBot), w)"
proof (cases "view w title")
  case Nil
  then show ?thesis by (simp add: Reconcile_def decide_def get_page [OF assms])
next
  case (Cons rc h)
  obtain r c where rc: "rc = (r, c)" by fastforce
  have hist: "History T title [] w = (Inr (map fst (view w title)), w)"
    using history [OF assms, of title "[]"] by simp
  show ?thesis
    using Cons rc
    by (simp add: Reconcile_def decide_def get_page [OF assms] Let_def detectHumanEdits_def hist
                  edits_until_spec)
qed

text \<open>After the decision's content has been pushed, the same render is decided by that content.\<close>

lemma Reconcile_after_push:
  assumes "ok w" and "fresh w"
    and "UpsertPage T title (MergedContent (decide (view w title) rendered lastBot)) s w = (Inr r, w')"
  shows "Reconcile T title rendered (rev_ID r) w' =
    (Inr (decide ((r, MergedContent (decide (view w title) rendered lastBot)) # view w title)
            rendered (rev_ID r)), w')"
  using upsert [OF assms(1,2), of title "MergedContent (decide (view w title) rendered lastBot)" s]
    assms(3) by (auto simp: Reconcile_decide)

text \<open>The bot's own last write is not reported as a human edit.\<close>

lemma humans_since_own_write: "humans_since (rev_ID r) (r # rs) = []"
  by (simp add: humans_since_def)

end

section \<open>Properties\<close>



text \<open>
  A no-op comes with the text of the page; the comment of \<open>Decision.MergedContent\<close> says that it is empty then.
\<close>

lemma noop_carries_text:
  "Reconcile T title rendered lastBot w = (Inr d, w') \<Longrightarrow> Action d = ActionNoOp \<Longrightarrow>
     \<exists>p. fst (GetPage T title w) = Inr (Some p) \<and> MergedContent d = pg_Content p"
  by (auto simp: Reconcile_def Let_def split: prod.splits sum.splits option.splits if_splits)


text \<open>
  C29. The run that follows a push settles: when a page whose text was last composed by the curator
  has been pushed after a merge with a render, reconciling the same render again is a no-op.
\<close>

theorem reconcile_settles:
  assumes "mem_ok m" and "mem_fresh m"
    and "mem_view m title = (r0, page_text ex) # h"
    and "clean_page ex" and "clean_page d" and "distinct (map wb_ID (pd_Blocks d))"
    and "UpsertPage memory_target title
           (MergedContent (decide (mem_view m title) (page_text d) lastBot)) s m = (Inr r, m')"
  shows "\<exists>dec. Reconcile memory_target title (page_text d) (rev_ID r) m' = (Inr dec, m') \<and>
               Action dec = ActionNoOp \<and> HumanEdits dec = []"
proof -
  let ?c = "MergeBlocks (page_text ex) (page_text d)"
  let ?dec = "decide ((r, ?c) # mem_view m title) (page_text d) (rev_ID r)"
  have "MergedContent (decide (mem_view m title) (page_text d) lastBot) = ?c"
    using assms(3) decide_action(2) by metis
  with mem.Reconcile_after_push [OF assms(1,2,7)]
  have "Reconcile memory_target title (page_text d) (rev_ID r) m' = (Inr ?dec, m')" by simp
  moreover have "MergeBlocks ?c (page_text d) = ?c"
    using assms(4-6) by (simp add: merge_text clean_merge_spec merge_spec_again)
  ultimately show ?thesis by (auto simp: decide_def)
qed

text \<open>
  The first run after a page was created is not settled: a page that holds exactly the render
  it was created from, with at least one block, is upserted again by the same render, although
  nothing changed on either side.
\<close>

theorem reconcile_repeats_after_create:
  assumes "mem_ok m" and "mem_fresh m" and "mem_view m title = []"
    and "clean_page d" and "distinct (map wb_ID (pd_Blocks d))" and "pd_Blocks d \<noteq> []"
    and "UpsertPage memory_target title
           (MergedContent (decide (mem_view m title) (page_text d) [])) s m = (Inr r, m')"
  shows "\<exists>dec. Reconcile memory_target title (page_text d) (rev_ID r) m' = (Inr dec, m') \<and>
               Action dec = ActionUpsert \<and> HumanEdits dec = []"
proof -
  let ?dec = "decide [(r, page_text d)] (page_text d) (rev_ID r)"
  have "Reconcile memory_target title (page_text d) (rev_ID r) m' = (Inr ?dec, m')"
    using mem.Reconcile_after_push [OF assms(1,2,7)] assms(3) by simp
  moreover have "length (MergeBlocks (page_text d) (page_text d)) \<noteq> length (page_text d)"
    using assms(4-6) by (simp add: merge_text length_merge_self)
  then have "MergeBlocks (page_text d) (page_text d) \<noteq> page_text d" by metis
  ultimately show ?thesis by (auto simp: decide_def Let_def humans_since_def)
qed

section \<open>The properties at work\<close>

definition created :: "revision res \<times> mem_target" where
  "created = UpsertPage memory_target ''P'' (page_text example_page) ''s'' example_target"

lemma example_target_view: "mem_view example_target t = []"
  by (simp add: mem_view_def example_target_def New_def)

lemma created_facts:
  "\<exists>r m. created = (Inr r, m) \<and> mem_ok m \<and> mem_fresh m \<and>
         mem_view m ''P'' = [(r, page_text example_page)]"
proof -
  obtain r m where c: "created = (Inr r, m)" "mem_ok m"
    "\<forall>u. mem_view m u = (if normTitle u = normTitle ''P'' then (r, page_text example_page) #
       mem_view example_target ''P'' else mem_view example_target u)"
    using mem.upsert [OF example_target_ok, of "''P''" "page_text example_page" "''s''"]
    unfolding created_def by metis
  moreover have "mem_fresh m"
    using c(1) by (intro counting_fresh)
      (auto simp: created_def mem_UpsertPage_def mem_write_def Let_def example_target_def New_def)
  ultimately show ?thesis by (intro exI [of _ r] exI [of _ m]) (simp add: example_target_view)
qed



theorem reconcile_settles_witness:
  "\<exists>r m r' m' dec. created = (Inr r, m) \<and>
     UpsertPage memory_target ''P''
       (MergedContent (decide (mem_view m ''P'') (page_text example_page) [])) ''s'' m = (Inr r', m') \<and>
     Reconcile memory_target ''P'' (page_text example_page) (rev_ID r') m' = (Inr dec, m') \<and>
     Action dec = ActionNoOp"
proof -
  obtain r m where m: "created = (Inr r, m)" "mem_ok m" "mem_fresh m"
    "mem_view m ''P'' = [(r, page_text example_page)]"
    using created_facts by blast
  obtain r' m' where u: "UpsertPage memory_target ''P''
      (MergedContent (decide (mem_view m ''P'') (page_text example_page) [])) ''s'' m = (Inr r', m')"
    using mem.upsert [OF m(2,3)] by metis
  from reconcile_settles [OF m(2-4) example_page_clean example_page_clean wiki_page_clean(2) u] m(1) u
  show ?thesis by blast
qed

theorem reconcile_repeats_after_create_witness:
  "\<exists>r m dec. created = (Inr r, m) \<and>
     Reconcile memory_target ''P'' (page_text example_page) (rev_ID r) m = (Inr dec, m) \<and>
     Action dec = ActionUpsert"
proof -
  obtain r m where m: "created = (Inr r, m)" using created_facts by blast
  then have "UpsertPage memory_target ''P''
      (MergedContent (decide (mem_view example_target ''P'') (page_text example_page) [])) ''s''
      example_target = (Inr r, m)"
    by (simp add: created_def example_target_view)
  from reconcile_repeats_after_create [OF example_target_ok example_target_view example_page_clean
      wiki_page_clean(2) _ this] m
  show ?thesis by (auto simp: example_page_def [THEN arg_cong [of _ _ pd_Blocks]])
qed

end
