(* ===== verification/Llm.thy ===== *)
theory Llm
  imports Sha256
begin

text \<open>
  The LLM boundary (internal/llm): requests, responses, the \<open>Client\<close> interface as a function on
  the world, the request hash, and the three file-backed clients, cache (cache.go), replay
  (replay.go) and recording (recording.go), over a directory of files.  What \<open>encoding/json\<close>
  writes and reads for a response is a parameter of the clients.
\<close>

section \<open>Requests and clients\<close>

record request =
  Model :: gostring
  Prompt :: gostring
  System :: gostring
  MaxTokens :: int
  Stop :: "gostring list"

record response =
  Text :: gostring
  TokensIn :: int
  TokensOut :: int
  CacheHit :: bool

type_synonym 'w llm_client = "request \<Rightarrow> 'w \<Rightarrow> response res \<times> 'w"

definition ask :: "gostring \<Rightarrow> gostring \<Rightarrow> gostring \<Rightarrow> int \<Rightarrow> request" where
  "ask model sys prompt maxTokens =
     \<lparr>Model = model, Prompt = prompt, System = sys, MaxTokens = maxTokens, Stop = []\<rparr>"

text \<open>Requests one after the other, up to the first error.\<close>

fun complete_all :: "'w llm_client \<Rightarrow> request list \<Rightarrow> 'w \<Rightarrow> response list res \<times> 'w" where
  "complete_all client [] w = (Inr [], w)"
| "complete_all client (req # reqs) w =
     (case client req w of
        (Inl e, w) \<Rightarrow> (Inl e, w)
      | (Inr r, w) \<Rightarrow>
          (case complete_all client reqs w of
             (Inl e, w) \<Rightarrow> (Inl e, w)
           | (Inr rs, w) \<Rightarrow> (Inr (r # rs), w)))"

definition requestHash :: "request \<Rightarrow> gostring" where
  "requestHash req =
     sha256_hex (Model req @ ''|'' @ Prompt req @ ''|'' @ System req @ ''|'' @ int_dec (MaxTokens req) @
                 concat (map (\<lambda>s. ''|stop:'' @ s) (Stop req)))"

section \<open>The cache directory\<close>

text \<open>
  The files below the client's directory, by name, with what they hold (for the clients here: a
  text); \<open>write_fault\<close> is the error the next persist
  meets, if any: at making the directory, at writing the temporary file (which then holds an
  arbitrary content) or at renaming it.
\<close>

datatype 'c write_fault = FaultMkdir gomsg | FaultWrite gomsg 'c | FaultRename gomsg

record 'c files =
  stored :: "gostring \<rightharpoonup> 'c"
  unreadable :: "gostring \<Rightarrow> gomsg option"

datatype codec = Codec (json_encode: "response \<Rightarrow> gostring") (json_decode: "gostring \<Rightarrow> response res")

definition write_atomically ::
  "'c write_fault option \<Rightarrow> gostring \<Rightarrow> 'c \<Rightarrow> 'c files \<Rightarrow> gomsg option \<times> 'c files" where
  "write_atomically fault path data fs =
     (case fault of
        Some (FaultMkdir e) \<Rightarrow> (Some e, fs)
      | Some (FaultWrite e torn) \<Rightarrow> (Some e, fs\<lparr>stored := (stored fs)(path @ ''.tmp'' \<mapsto> torn)\<rparr>)
      | Some (FaultRename e) \<Rightarrow> (Some e, fs\<lparr>stored := (stored fs)(path @ ''.tmp'' \<mapsto> data)\<rparr>)
      | None \<Rightarrow> (None, fs\<lparr>stored := (stored fs)(path @ ''.tmp'' := None, path \<mapsto> data)\<rparr>))"

definition response_path :: "request \<Rightarrow> gostring" where
  "response_path req = requestHash req @ ''.json''"

definition read_response :: "codec \<Rightarrow> gostring \<Rightarrow> gostring files \<Rightarrow> response option" where
  "read_response cd path fs =
     (case unreadable fs path of
        Some e \<Rightarrow> None
      | None \<Rightarrow> (case stored fs path of
                   None \<Rightarrow> None
                 | Some data \<Rightarrow> (case json_decode cd data of Inl e \<Rightarrow> None | Inr r \<Rightarrow> Some r)))"

text \<open>
  The clients thread the files beside the inner client's world; \<open>fault\<close> is the persist's fault.
  \<open>CacheDecorator.Complete\<close>, \<open>RecordingClient.Complete\<close> and \<open>ReplayClient.Complete\<close>.
\<close>

definition cache_Complete ::
  "codec \<Rightarrow> 'w llm_client \<Rightarrow> gostring write_fault option \<Rightarrow> request \<Rightarrow> gostring files \<times> 'w \<Rightarrow>
   response res \<times> (gostring files \<times> 'w)" where
  "cache_Complete cd inner fault req s =
     (case s of (fs, w) \<Rightarrow>
        (case read_response cd (response_path req) fs of
           Some cached \<Rightarrow> (Inr (cached\<lparr>CacheHit := True\<rparr>), (fs, w))
         | None \<Rightarrow>
             (case inner req w of
                (Inl e, w) \<Rightarrow> (Inl e, (fs, w))
              | (Inr resp, w) \<Rightarrow>
                  (case write_atomically fault (response_path req)
                          (json_encode cd (resp\<lparr>CacheHit := False\<rparr>)) fs of
                     (_, fs) \<Rightarrow> (Inr resp, (fs, w))))))"

definition recording_Complete ::
  "codec \<Rightarrow> 'w llm_client \<Rightarrow> gostring write_fault option \<Rightarrow> request \<Rightarrow> gostring files \<times> 'w \<Rightarrow>
   response res \<times> (gostring files \<times> 'w)" where
  "recording_Complete cd inner fault req s =
     (case s of (fs, w) \<Rightarrow>
        (case inner req w of
           (Inl e, w) \<Rightarrow> (Inl e, (fs, w))
         | (Inr resp, w) \<Rightarrow>
             (case write_atomically fault (response_path req)
                     (json_encode cd (resp\<lparr>CacheHit := False\<rparr>)) fs of
                (_, fs) \<Rightarrow> (Inr resp, (fs, w)))))"

definition replay_Complete :: "codec \<Rightarrow> gostring \<Rightarrow> request \<Rightarrow> gostring files \<Rightarrow> response res \<times> gostring files" where
  "replay_Complete cd dir req fs =
     (let fixture_missing = errorf ''llm replay: fixture not found for key %s (request: model=%q tokens=%d): %w''
            [requestHash req, Model req, int_dec (MaxTokens req)] in
      case unreadable fs (response_path req) of
        Some e \<Rightarrow> (Inl (Msg (msg_format fixture_missing) (msg_args fixture_missing) (Some e)), fs)
      | None \<Rightarrow> (case stored fs (response_path req) of
                   None \<Rightarrow> (Inl fixture_missing, fs)
                 | Some data \<Rightarrow>
                     (case json_decode cd data of
                        Inl e \<Rightarrow> (Inl (wrapf ''llm replay: decode fixture %s: %w'' [dir @ ''/'' @ response_path req] e), fs)
                      | Inr r \<Rightarrow> (Inr (r\<lparr>CacheHit := True\<rparr>), fs))))"

section \<open>Properties of the file-backed clients\<close>

lemma write_atomically_target:
  "write_atomically fault path data fs = (err, fs') \<Longrightarrow>
     stored fs' path = (if fault = None then Some data else stored fs path) \<and>
     unreadable fs' = unreadable fs \<and>
     (\<forall>p. p \<noteq> path \<and> p \<noteq> path @ ''.tmp'' \<longrightarrow> stored fs' p = stored fs p)"
  by (auto simp: write_atomically_def split: option.splits write_fault.splits)

text \<open>
  The LLM cache memoises successes only and never changes an answer.  A hit answers from the
  file, marked as a hit, without calling the inner client.  On a miss the inner client's answer is
  returned as it is, whatever happens to the file; an inner error is returned and nothing is
  stored; a failed persist leaves the entry as it was; and after a persist without fault the same
  request is answered from the file with the same text, the inner client's world untouched.
\<close>

theorem llm_cache_transparent:
  assumes "\<And>r. json_decode cd (json_encode cd r) = Inr r"
    and "cache_Complete cd inner fault req (fs, w) = (res, (fs', w'))"
  shows "(case read_response cd (response_path req) fs of
       Some r \<Rightarrow> res = Inr (r\<lparr>CacheHit := True\<rparr>) \<and> fs' = fs \<and> w' = w
     | None \<Rightarrow>
         (res, w') = inner req w \<and>
         (case res of
            Inl e \<Rightarrow> fs' = fs
          | Inr r \<Rightarrow>
              (fault \<noteq> None \<longrightarrow> stored fs' (response_path req) = stored fs (response_path req)) \<and>
              (fault = None \<and> unreadable fs (response_path req) = None \<longrightarrow>
                 cache_Complete cd inner fault2 req (fs', w') =
                   (Inr (r\<lparr>CacheHit := True\<rparr>), (fs', w')))))"
proof (cases "read_response cd (response_path req) fs")
  case (Some r)
  with assms(2) show ?thesis by (simp add: cache_Complete_def)
next
  case None
  obtain ir iw where inner: "inner req w = (ir, iw)" by fastforce
  show ?thesis
  proof (cases ir)
    case (Inl e)
    with None inner assms(2) show ?thesis by (auto simp: cache_Complete_def)
  next
    case (Inr r)
    obtain err fs2 where wr: "write_atomically fault (response_path req)
        (json_encode cd (r\<lparr>CacheHit := False\<rparr>)) fs = (err, fs2)" by fastforce
    with None inner Inr assms(2) have eq: "res = Inr r" "fs' = fs2" "w' = iw"
      by (simp_all add: cache_Complete_def)
    note target = write_atomically_target [OF wr]
    have "cache_Complete cd inner fault2 req (fs', w') = (Inr (r\<lparr>CacheHit := True\<rparr>), (fs', w'))"
      if "fault = None" "unreadable fs (response_path req) = None"
      using target that eq assms(1)
      by (simp add: cache_Complete_def read_response_def)
    with None inner Inr eq target show ?thesis by simp
  qed
qed

text \<open>
  A recorded exchange replays: after the recording client has answered a request without a
  fault, the replay client answers the same request with the same response, marked as a hit.
\<close>

theorem llm_recording_replays:
  assumes "\<And>r. json_decode cd (json_encode cd r) = Inr r"
    and "recording_Complete cd inner None req (fs, w) = (Inr r, (fs', w'))"
    and "unreadable fs (response_path req) = None"
  shows "replay_Complete cd dir req fs' = (Inr (r\<lparr>CacheHit := True\<rparr>), fs')"
proof -
  from assms(2) obtain err where
    "write_atomically None (response_path req) (json_encode cd (r\<lparr>CacheHit := False\<rparr>)) fs = (err, fs')"
    by (auto simp: recording_Complete_def split: prod.splits sum.splits)
  from write_atomically_target [OF this] assms(1,3) show ?thesis
    by (simp add: replay_Complete_def Let_def)
qed

text \<open>A codec for the witnesses: text and flag in full, token counts in unary with their sign.\<close>

definition unary :: "int \<Rightarrow> gostring" where
  "unary i = (if i < 0 then CHR ''-'' # replicate (nat (- i)) (CHR ''1'') else replicate (nat i) (CHR ''1'')) @ [NL]"

definition unary_value :: "gostring \<Rightarrow> int" where
  "unary_value s = (case s of c # cs \<Rightarrow> if c = CHR ''-'' then - int (length cs) else int (length s) | [] \<Rightarrow> 0)"

definition plain_codec :: codec where
  "plain_codec = Codec
     (\<lambda>r. unary (TokensIn r) @ unary (TokensOut r) @ (if CacheHit r then ''t'' else ''f'') @ Text r)
     (\<lambda>s. let a = takeWhile (\<lambda>c. c \<noteq> NL) s; s1 = tl (dropWhile (\<lambda>c. c \<noteq> NL) s);
              b = takeWhile (\<lambda>c. c \<noteq> NL) s1; s2 = tl (dropWhile (\<lambda>c. c \<noteq> NL) s1)
          in Inr \<lparr>Text = tl s2, TokensIn = unary_value a, TokensOut = unary_value b,
                  CacheHit = (hd s2 = CHR ''t'')\<rparr>)"

lemma unary_split:
  "takeWhile (\<lambda>c. c \<noteq> NL) (unary i @ s) = butlast (unary i)"
  "tl (dropWhile (\<lambda>c. c \<noteq> NL) (unary i @ s)) = s"
  by (auto simp: unary_def takeWhile_append dropWhile_append)

lemma unary_value_unary: "unary_value (butlast (unary i)) = i"
  by (cases "nat i") (auto simp: unary_def unary_value_def)

lemma plain_codec_roundtrip: "json_decode plain_codec (json_encode plain_codec r) = Inr r"
  by (simp add: plain_codec_def unary_split unary_value_unary Let_def)

definition echo :: "nat llm_client" where
  "echo req n = (Inr \<lparr>Text = Prompt req, TokensIn = 1, TokensOut = 2, CacheHit = False\<rparr>, Suc n)"

definition no_files :: "'c files" where
  "no_files = \<lparr>stored = Map.empty, unreadable = Map.empty\<rparr>"

theorem llm_cache_transparent_witness:
  "\<exists>fs w. cache_Complete plain_codec echo None (ask ''m'' [] ''hi'' 5) (no_files, 0) =
            (Inr \<lparr>Text = ''hi'', TokensIn = 1, TokensOut = 2, CacheHit = False\<rparr>, (fs, w)) \<and> w = 1 \<and>
          cache_Complete plain_codec echo None (ask ''m'' [] ''hi'' 5) (fs, w) =
            (Inr \<lparr>Text = ''hi'', TokensIn = 1, TokensOut = 2, CacheHit = True\<rparr>, (fs, w))"
proof -
  let ?req = "ask ''m'' [] ''hi'' 5"
  obtain res fs w where c: "cache_Complete plain_codec echo None ?req (no_files, 0) = (res, (fs, w))"
    by (metis surj_pair)
  from llm_cache_transparent [OF plain_codec_roundtrip c, of None] c show ?thesis
    by (auto simp: read_response_def no_files_def echo_def ask_def)
qed

theorem llm_recording_replays_witness:
  "\<exists>fs w. recording_Complete plain_codec echo None (ask ''m'' [] ''hi'' 5) (no_files, 0) =
            (Inr \<lparr>Text = ''hi'', TokensIn = 1, TokensOut = 2, CacheHit = False\<rparr>, (fs, w)) \<and>
          replay_Complete plain_codec ''d'' (ask ''m'' [] ''hi'' 5) fs =
            (Inr \<lparr>Text = ''hi'', TokensIn = 1, TokensOut = 2, CacheHit = True\<rparr>, fs)"
proof -
  let ?req = "ask ''m'' [] ''hi'' 5"
  obtain fs w where c: "recording_Complete plain_codec echo None ?req (no_files, 0) =
      (Inr \<lparr>Text = ''hi'', TokensIn = 1, TokensOut = 2, CacheHit = False\<rparr>, (fs, w))"
    by (cases "write_atomically None (response_path ?req) (json_encode plain_codec
          \<lparr>Text = ''hi'', TokensIn = 1, TokensOut = 2, CacheHit = False\<rparr>) no_files")
       (auto simp: recording_Complete_def echo_def ask_def)
  from llm_recording_replays [OF plain_codec_roundtrip c] c show ?thesis
    by (auto simp: no_files_def)
qed

end
