(* ===== verification/IR.thy ===== *)
theory IR
  imports Prelude
begin

text \<open>
  The intermediate representation (internal/pipelines/rendering/ir/ir.go): the document tree that
  frontends build, passes transform and backends render.  The Go interface \<open>Block\<close> with its
  ten implementations is the datatype \<open>block\<close>; its methods \<open>Kind\<close>, \<open>Zone\<close> and
  \<open>Provenance\<close> are \<open>block_Kind\<close>, \<open>block_Zone\<close> and \<open>block_Provenance\<close>.
  The iota constants of \<open>Zone\<close> and \<open>MarkerPosition\<close> are enumerations.
\<close>

section \<open>Provenance and zones\<close>

datatype zone = ZoneMachine | ZoneEditorial

record provenance =
  SpecSection :: gostring
  Sources :: "gostring list"
  InputHash :: gostring

text \<open>The zero value of the struct, from which the code's literals start.\<close>

definition no_prov :: provenance where
  "no_prov = \<lparr>SpecSection = [], Sources = [], InputHash = []\<rparr>"

record index_entry =
  ie_Page :: gostring
  ie_Label :: gostring
  ie_Desc :: gostring

datatype marker_position = MarkerBegin | MarkerEnd

section \<open>Blocks\<close>

datatype block =
    ProseBlock (prose_Text: gostring) provenance
  | MachineBlock (mb_BlockID: gostring) (mb_Kind: gostring) (mb_Body: gostring) provenance
  | KBRefBlock (ref_Area: gostring) (ref_ID: gostring) (ref_Mode: gostring) provenance
  | TableBlock (tb_Columns: "gostring list") (tb_Rows: "gostring list list") provenance
  | IndexBlock (ib_Entries: "index_entry list") provenance
  | CategoryBlock (cb_Names: "gostring list") provenance
  | DiagramBlock (db_Lang: gostring) (db_Source: gostring) (db_AssetRef: gostring) provenance
  | Callout (co_Severity: gostring) (co_Body: gostring) (co_IsMachine: bool) provenance
  | EscapeHatch (eh_Backend: gostring) (eh_Raw: gostring) provenance
  | MarkerBlock (mk_Position: marker_position) (mk_BlockID: gostring) provenance
      (mk_OfZone: gostring)

fun block_Kind :: "block \<Rightarrow> gostring" where
  "block_Kind (ProseBlock _ _) = ''prose''"
| "block_Kind (MachineBlock _ _ _ _) = ''machine''"
| "block_Kind (KBRefBlock _ _ _ _) = ''kbref''"
| "block_Kind (TableBlock _ _ _) = ''table''"
| "block_Kind (IndexBlock _ _) = ''index''"
| "block_Kind (CategoryBlock _ _) = ''category''"
| "block_Kind (DiagramBlock _ _ _ _) = ''diagram''"
| "block_Kind (Callout _ _ _ _) = ''callout''"
| "block_Kind (EscapeHatch _ _ _) = ''escape-hatch''"
| "block_Kind (MarkerBlock _ _ _ _) = ''marker''"

fun block_Zone :: "block \<Rightarrow> zone" where
  "block_Zone (ProseBlock _ _) = ZoneEditorial"
| "block_Zone (Callout _ _ isMachine _) = (if isMachine then ZoneMachine else ZoneEditorial)"
| "block_Zone _ = ZoneMachine"

fun block_Provenance :: "block \<Rightarrow> provenance" where
  "block_Provenance (ProseBlock _ p) = p"
| "block_Provenance (MachineBlock _ _ _ p) = p"
| "block_Provenance (KBRefBlock _ _ _ p) = p"
| "block_Provenance (TableBlock _ _ p) = p"
| "block_Provenance (IndexBlock _ p) = p"
| "block_Provenance (CategoryBlock _ p) = p"
| "block_Provenance (DiagramBlock _ _ _ p) = p"
| "block_Provenance (Callout _ _ _ p) = p"
| "block_Provenance (EscapeHatch _ _ p) = p"
| "block_Provenance (MarkerBlock _ _ p _) = p"

section \<open>Documents\<close>

record frontmatter =
  Title :: gostring
  SpecHash :: gostring
  KBCommit :: gostring
  GeneratedAt :: gotime

record ir_section =
  Heading :: gostring
  Blocks :: "block list"

record footer =
  LastCurated :: gotime
  RunID :: gostring
  ft_KBCommit :: gostring

record ir_document =
  Frontmatter :: frontmatter
  Sections :: "ir_section list"
  Footer :: footer

definition no_footer :: footer where
  "no_footer = \<lparr>LastCurated = zero_time, RunID = [], ft_KBCommit = []\<rparr>"

text \<open>The document literal every frontend starts from: title, spec hash and kb commit only.\<close>

definition new_document :: "gostring \<Rightarrow> gostring \<Rightarrow> gostring \<Rightarrow> ir_document" where
  "new_document title spechash commit =
     \<lparr>Frontmatter = \<lparr>Title = title, SpecHash = spechash, KBCommit = commit,
                     GeneratedAt = zero_time\<rparr>,
      Sections = [], Footer = no_footer\<rparr>"

section \<open>Facts shared by the passes\<close>

definition is_marker :: "block \<Rightarrow> bool" where
  "is_marker b = (case b of MarkerBlock _ _ _ _ \<Rightarrow> True | _ \<Rightarrow> False)"

lemma is_marker_iff [simp]:
  "is_marker (MarkerBlock p i v z)"
  "\<not> is_marker (ProseBlock t v)" "\<not> is_marker (MachineBlock i k bd v)"
  "\<not> is_marker (KBRefBlock a i m v)" "\<not> is_marker (TableBlock c r v)"
  "\<not> is_marker (IndexBlock e v)" "\<not> is_marker (CategoryBlock n v)"
  "\<not> is_marker (DiagramBlock l s a v)" "\<not> is_marker (Callout s bd mach v)"
  "\<not> is_marker (EscapeHatch bk raw v)"
  by (simp_all add: is_marker_def)

text \<open>Editorial blocks are prose and the call-outs that are not machine-made.\<close>

lemma block_Zone_editorial:
  "block_Zone b = ZoneEditorial \<longleftrightarrow>
     (\<exists>t v. b = ProseBlock t v) \<or> (\<exists>s t v. b = Callout s t False v)"
  by (cases b) auto

lemma marker_machine: "is_marker b \<Longrightarrow> block_Zone b = ZoneMachine"
  by (cases b) auto

text \<open>Applying a function to the blocks of every section, in place.\<close>

definition map_blocks :: "(block list \<Rightarrow> block list) \<Rightarrow> ir_document \<Rightarrow> ir_document" where
  "map_blocks f doc = doc\<lparr>Sections := map (\<lambda>s. s\<lparr>Blocks := f (Blocks s)\<rparr>) (Sections doc)\<rparr>"

definition doc_blocks :: "ir_document \<Rightarrow> block list" where
  "doc_blocks doc = concat (map Blocks (Sections doc))"

lemma map_blocks_simps [simp]:
  "Frontmatter (map_blocks f doc) = Frontmatter doc"
  "Footer (map_blocks f doc) = Footer doc"
  "length (Sections (map_blocks f doc)) = length (Sections doc)"
  "map Heading (Sections (map_blocks f doc)) = map Heading (Sections doc)"
  by (simp_all add: map_blocks_def comp_def)

lemma doc_blocks_map_blocks:
  "doc_blocks (map_blocks f doc) = concat (map (f \<circ> Blocks) (Sections doc))"
  by (simp add: doc_blocks_def map_blocks_def comp_def)

end
