(* ===== verification/Mdir.thy ===== *)
theory Mdir
  imports IR
begin

text \<open>
  Markdown to sections (mdir/mdir.go), shared by the LLM-driven frontends.  The closures of
  \<open>Parse\<close> and the variables they capture are operations on one state record.
\<close>

section \<open>The parser\<close>

record md_state =
  sections :: "ir_section list"
  current :: ir_section
  buf :: gostring
  inFence :: bool
  fenceLang :: gostring
  fenceBuf :: gostring

definition md_start :: md_state where
  "md_start =
     \<lparr>sections = [], current = \<lparr>Heading = [], Blocks = []\<rparr>, buf = [], inFence = False,
      fenceLang = [], fenceBuf = []\<rparr>"

definition FENCE :: gostring where "FENCE = [BACKQUOTE, BACKQUOTE, BACKQUOTE]"

definition add_block :: "block \<Rightarrow> md_state \<Rightarrow> md_state" where
  "add_block b st = st\<lparr>current := (current st)\<lparr>Blocks := Blocks (current st) @ [b]\<rparr>\<rparr>"

definition flush :: "gostring \<Rightarrow> gostring \<Rightarrow> md_state \<Rightarrow> md_state" where
  "flush provPrefix inputHash st =
     (let t = TrimSpace (buf st) in
      (if t \<noteq> []
       then add_block (ProseBlock t (no_prov\<lparr>SpecSection := provPrefix @ ''-section'', InputHash := inputHash\<rparr>)) st
       else st)\<lparr>buf := []\<rparr>)"

definition push_current :: "md_state \<Rightarrow> ir_section list" where
  "push_current st =
     sections st @ (if Heading (current st) \<noteq> [] \<or> Blocks (current st) \<noteq> [] then [current st] else [])"

definition startSection :: "gostring \<Rightarrow> gostring \<Rightarrow> gostring \<Rightarrow> md_state \<Rightarrow> md_state" where
  "startSection provPrefix inputHash heading st =
     (let st = flush provPrefix inputHash st in
      st\<lparr>sections := push_current st, current := \<lparr>Heading = heading, Blocks = []\<rparr>\<rparr>)"

definition addDiagram :: "gostring \<Rightarrow> gostring \<Rightarrow> md_state \<Rightarrow> md_state" where
  "addDiagram provPrefix inputHash st =
     (add_block (DiagramBlock (fenceLang st) (TrimRight (fenceBuf st) [NL]) []
        (no_prov\<lparr>SpecSection := provPrefix @ ''-diagram'', InputHash := inputHash\<rparr>)) st)
     \<lparr>fenceBuf := [], fenceLang := []\<rparr>"

definition atxHeading :: "gostring \<Rightarrow> gostring option" where
  "atxHeading line =
     (let s = TrimRight line [CHR '' '', TAB]; n = length (takeWhile (\<lambda>c. c = CHR ''#'') s) in
      if n < 2 \<or> n > 6 \<or> n \<ge> length s \<or> s ! n \<noteq> CHR '' '' then None
      else Some (TrimSpace (drop (Suc n) s)))"

definition md_line :: "gostring \<Rightarrow> gostring \<Rightarrow> gostring \<Rightarrow> md_state \<Rightarrow> md_state" where
  "md_line provPrefix inputHash line st =
     (if HasPrefix line FENCE
      then (if inFence st then (addDiagram provPrefix inputHash st)\<lparr>inFence := False\<rparr>
            else (let lang = TrimSpace (TrimPrefix line FENCE) in
                  (flush provPrefix inputHash st)
                    \<lparr>fenceLang := (if lang = [] then ''text'' else lang), inFence := True\<rparr>))
      else if inFence st then st\<lparr>fenceBuf := fenceBuf st @ line @ [NL]\<rparr>
      else (case atxHeading line of
              Some h \<Rightarrow> startSection provPrefix inputHash h st
            | None \<Rightarrow> st\<lparr>buf := buf st @ line @ [NL]\<rparr>))"

definition md_finish :: "gostring \<Rightarrow> gostring \<Rightarrow> md_state \<Rightarrow> ir_section list" where
  "md_finish provPrefix inputHash st =
     (let st = (if inFence st then addDiagram provPrefix inputHash st else st);
          st = flush provPrefix inputHash st
      in push_current st)"

definition mdir_Parse :: "gostring \<Rightarrow> gostring \<Rightarrow> gostring \<Rightarrow> ir_section list" where
  "mdir_Parse md provPrefix inputHash =
     md_finish provPrefix inputHash (fold (md_line provPrefix inputHash) (Split NL md) md_start)"

section \<open>What the result looks like\<close>

text \<open>The headings outside fences, and the number of fences opened, read from the lines alone.\<close>

fun outline :: "bool \<Rightarrow> gostring list \<Rightarrow> gostring list" where
  "outline fenced [] = []"
| "outline fenced (l # ls) =
     (if HasPrefix l FENCE then outline (\<not> fenced) ls
      else if fenced then outline fenced ls
      else (case atxHeading l of Some h \<Rightarrow> h # outline fenced ls | None \<Rightarrow> outline fenced ls))"

fun fences_opened :: "bool \<Rightarrow> gostring list \<Rightarrow> nat" where
  "fences_opened fenced [] = 0"
| "fences_opened fenced (l # ls) =
     (if HasPrefix l FENCE then (if fenced then 0 else 1) + fences_opened (\<not> fenced) ls
      else fences_opened fenced ls)"

definition is_diagram :: "block \<Rightarrow> bool" where
  "is_diagram b = (case b of DiagramBlock _ _ _ _ \<Rightarrow> True | _ \<Rightarrow> False)"

definition md_block_ok :: "gostring \<Rightarrow> gostring \<Rightarrow> block \<Rightarrow> bool" where
  "md_block_ok provPrefix inputHash b =
     (case b of
        ProseBlock t p \<Rightarrow> t \<noteq> [] \<and>
          p = \<lparr>SpecSection = provPrefix @ ''-section'', Sources = [], InputHash = inputHash\<rparr>
      | DiagramBlock lang s r p \<Rightarrow> lang \<noteq> [] \<and> r = [] \<and>
          p = \<lparr>SpecSection = provPrefix @ ''-diagram'', Sources = [], InputHash = inputHash\<rparr>
      | _ \<Rightarrow> False)"

definition sections_ok :: "gostring \<Rightarrow> gostring \<Rightarrow> ir_section list \<Rightarrow> bool" where
  "sections_ok p h ss = list_all (\<lambda>s. (Heading s \<noteq> [] \<or> Blocks s \<noteq> []) \<and> list_all (md_block_ok p h) (Blocks s)) ss"

definition md_ok :: "gostring \<Rightarrow> gostring \<Rightarrow> md_state \<Rightarrow> bool" where
  "md_ok p h st =
     (sections_ok p h (sections st) \<and> list_all (md_block_ok p h) (Blocks (current st)) \<and>
      (inFence st \<longrightarrow> fenceLang st \<noteq> []))"

definition all_headings :: "md_state \<Rightarrow> gostring list" where
  "all_headings st = filter (\<lambda>h. h \<noteq> []) (map Heading (sections st @ [current st]))"

definition diagrams :: "ir_section list \<Rightarrow> nat" where
  "diagrams ss = length (filter is_diagram (concat (map Blocks ss)))"

definition all_diagrams :: "md_state \<Rightarrow> nat" where
  "all_diagrams st = diagrams (sections st @ [current st])"

lemma diagrams_append [simp]: "diagrams (a @ b) = diagrams a + diagrams b"
  by (simp add: diagrams_def)

lemma diagrams_Nil [simp]: "diagrams [] = 0"
  by (simp add: diagrams_def)

lemma diagrams_one: "diagrams [s] = length (filter is_diagram (Blocks s))"
  by (simp add: diagrams_def)

lemma flush_facts:
  "sections (flush p h st) = sections st" "Heading (current (flush p h st)) = Heading (current st)"
  "inFence (flush p h st) = inFence st" "fenceLang (flush p h st) = fenceLang st"
  "fenceBuf (flush p h st) = fenceBuf st"
  "md_ok p h st \<Longrightarrow> md_ok p h (flush p h st)"
  "all_headings (flush p h st) = all_headings st" "all_diagrams (flush p h st) = all_diagrams st"
  by (auto simp: flush_def add_block_def Let_def md_ok_def md_block_ok_def no_prov_def
        all_headings_def all_diagrams_def diagrams_one is_diagram_def)

lemma addDiagram_facts:
  "sections (addDiagram p h st) = sections st"
  "Heading (current (addDiagram p h st)) = Heading (current st)"
  "inFence st \<Longrightarrow> md_ok p h st \<Longrightarrow> md_ok p h ((addDiagram p h st)\<lparr>inFence := False\<rparr>)"
  "all_headings ((addDiagram p h st)\<lparr>inFence := b\<rparr>) = all_headings st"
  "all_diagrams ((addDiagram p h st)\<lparr>inFence := b\<rparr>) = Suc (all_diagrams st)"
  "all_headings (addDiagram p h st) = all_headings st"
  "all_diagrams (addDiagram p h st) = Suc (all_diagrams st)"
  by (auto simp: addDiagram_def add_block_def md_ok_def md_block_ok_def no_prov_def
        all_headings_def all_diagrams_def diagrams_one is_diagram_def)

lemma push_current_facts:
  "md_ok p h st \<Longrightarrow> sections_ok p h (push_current st)"
  "filter (\<lambda>x. x \<noteq> []) (map Heading (push_current st)) = all_headings st"
  "diagrams (push_current st) = all_diagrams st"
  by (auto simp: push_current_def md_ok_def sections_ok_def all_headings_def all_diagrams_def diagrams_one)

lemma startSection_facts:
  "inFence (startSection p h x st) = inFence st"
  "md_ok p h st \<Longrightarrow> md_ok p h (startSection p h x st)"
  "all_headings (startSection p h x st) = all_headings st @ filter (\<lambda>y. y \<noteq> []) [x]"
  "all_diagrams (startSection p h x st) = all_diagrams st"
proof -
  show "inFence (startSection p h x st) = inFence st"
    by (simp add: startSection_def Let_def flush_facts)
  show "md_ok p h st \<Longrightarrow> md_ok p h (startSection p h x st)"
    using push_current_facts(1) [of p h "flush p h st"] flush_facts(6) [of p h st]
    by (auto simp: startSection_def Let_def md_ok_def flush_facts)
  show "all_headings (startSection p h x st) = all_headings st @ filter (\<lambda>y. y \<noteq> []) [x]"
    using push_current_facts(2) [of "flush p h st"]
    by (simp add: startSection_def Let_def all_headings_def [of "_\<lparr>current := _\<rparr>"] flush_facts)
  show "all_diagrams (startSection p h x st) = all_diagrams st"
    using push_current_facts(3) [of "flush p h st"]
    by (simp add: startSection_def Let_def all_diagrams_def [of "_\<lparr>current := _\<rparr>"] diagrams_one flush_facts)
qed

text \<open>One line keeps the invariant and accounts for its heading or fence.\<close>

lemma md_line_facts:
  assumes "md_ok p h st"
  shows "md_ok p h (md_line p h l st)"
    and "inFence (md_line p h l st) = (if HasPrefix l FENCE then \<not> inFence st else inFence st)"
    and "all_headings (md_line p h l st) = all_headings st @ filter (\<lambda>x. x \<noteq> []) (outline (inFence st) [l])"
    and "all_diagrams (md_line p h l st) =
           all_diagrams st + (if HasPrefix l FENCE \<and> inFence st then 1 else 0)"
proof -
  have upd: "md_ok p h (st\<lparr>buf := x\<rparr>) = md_ok p h st" "md_ok p h (st\<lparr>fenceBuf := x\<rparr>) = md_ok p h st"
    "all_headings (st\<lparr>buf := x\<rparr>) = all_headings st" "all_headings (st\<lparr>fenceBuf := x\<rparr>) = all_headings st"
    "all_diagrams (st\<lparr>buf := x\<rparr>) = all_diagrams st" "all_diagrams (st\<lparr>fenceBuf := x\<rparr>) = all_diagrams st" for st x
    by (simp_all add: md_ok_def all_headings_def all_diagrams_def)
  have fence: "lang \<noteq> [] \<Longrightarrow> md_ok p h st \<Longrightarrow> md_ok p h (st\<lparr>fenceLang := lang, inFence := True\<rparr>)"
    "all_headings (st\<lparr>fenceLang := lang, inFence := b\<rparr>) = all_headings st"
    "all_diagrams (st\<lparr>fenceLang := lang, inFence := b\<rparr>) = all_diagrams st" for st lang b
    by (simp_all add: md_ok_def all_headings_def all_diagrams_def)
  note facts = upd fence flush_facts addDiagram_facts startSection_facts
  show "md_ok p h (md_line p h l st)"
    using assms by (auto simp: md_line_def Let_def facts split: option.splits)
  show "inFence (md_line p h l st) = (if HasPrefix l FENCE then \<not> inFence st else inFence st)"
    by (auto simp: md_line_def Let_def facts split: option.splits)
  show "all_headings (md_line p h l st) = all_headings st @ filter (\<lambda>x. x \<noteq> []) (outline (inFence st) [l])"
    by (auto simp: md_line_def Let_def facts split: option.splits)
  show "all_diagrams (md_line p h l st) =
           all_diagrams st + (if HasPrefix l FENCE \<and> inFence st then 1 else 0)"
    by (auto simp: md_line_def Let_def facts split: option.splits)
qed

lemma outline_Cons: "outline f (l # ls) = outline f [l] @ outline (if HasPrefix l FENCE then \<not> f else f) ls"
  by (auto split: option.splits)

lemma md_lines_facts:
  "md_ok p h st \<Longrightarrow> md_ok p h (fold (md_line p h) ls st) \<and>
     all_headings (fold (md_line p h) ls st) = all_headings st @ filter (\<lambda>x. x \<noteq> []) (outline (inFence st) ls) \<and>
     all_diagrams (fold (md_line p h) ls st) + (if inFence (fold (md_line p h) ls st) then 1 else 0) =
       all_diagrams st + (if inFence st then 1 else 0) + fences_opened (inFence st) ls"
proof (induction ls arbitrary: st)
  case (Cons l ls)
  note one = md_line_facts [OF Cons.prems, of l]
  show ?case
    using Cons.IH [OF one(1)] by (subst outline_Cons) (auto simp: one(2-4) simp del: outline.simps(2))
qed simp

lemma md_finish_facts:
  assumes "md_ok p h st"
  shows "sections_ok p h (md_finish p h st)"
    and "filter (\<lambda>x. x \<noteq> []) (map Heading (md_finish p h st)) = all_headings st"
    and "diagrams (md_finish p h st) = all_diagrams st + (if inFence st then 1 else 0)"
proof -
  have fin: "md_ok p h (if inFence st then (addDiagram p h st)\<lparr>inFence := False\<rparr> else st)"
    using assms by (simp add: addDiagram_facts)
  have push: "push_current (flush p h (x\<lparr>inFence := b\<rparr>)) = push_current (flush p h x)" for x b
    by (simp add: push_current_def flush_def add_block_def Let_def)
  have eq: "md_finish p h st =
      push_current (flush p h (if inFence st then (addDiagram p h st)\<lparr>inFence := False\<rparr> else st))"
    by (simp add: md_finish_def push)
  show "sections_ok p h (md_finish p h st)"
    unfolding eq by (rule push_current_facts(1) [OF flush_facts(6) [OF fin]])
  show "filter (\<lambda>x. x \<noteq> []) (map Heading (md_finish p h st)) = all_headings st"
    unfolding eq push_current_facts(2) by (simp add: flush_facts addDiagram_facts)
  show "diagrams (md_finish p h st) = all_diagrams st + (if inFence st then 1 else 0)"
    unfolding eq push_current_facts(3) by (simp add: flush_facts addDiagram_facts)
qed

text \<open>
  The markdown parser keeps the structure of the text: the non-empty headings of its sections
  are exactly the level 2 to 6 headings outside fences, in order; there is exactly one diagram
  block for every fence opened, closed or not; no section is empty (without heading and blocks);
  and every block is a non-empty prose block or a diagram block with a language, labelled with the
  caller's prefix and input hash.
\<close>

theorem mdir_structure:
  "filter (\<lambda>h. h \<noteq> []) (map Heading (mdir_Parse md p h)) =
     filter (\<lambda>h. h \<noteq> []) (outline False (Split NL md)) \<and>
   diagrams (mdir_Parse md p h) = fences_opened False (Split NL md) \<and>
   list_all (\<lambda>s. \<not> (Heading s = [] \<and> Blocks s = []) \<and> list_all (md_block_ok p h) (Blocks s)) (mdir_Parse md p h)"
proof -
  have start: "md_ok p h md_start" "all_headings md_start = []" "all_diagrams md_start = 0"
    "\<not> inFence md_start"
    by (simp_all add: md_ok_def sections_ok_def md_start_def all_headings_def all_diagrams_def diagrams_def)
  from md_lines_facts [OF start(1), of "Split NL md"] start
  show ?thesis
    using md_finish_facts [of p h "fold (md_line p h) (Split NL md) md_start"]
    by (simp add: mdir_Parse_def sections_ok_def)
qed

text \<open>
  A fence that is indented is not recognised: the text of an indented mermaid fence comes out
  as one prose block that starts with the fence itself, and no diagram block is made of it.
\<close>

theorem mdir_indented_fence_leaks:
  "mdir_Parse (''  '' @ FENCE @ ''mermaid'' @ [NL] @ ''graph TD'' @ [NL] @ ''  '' @ FENCE) p h =
     [\<lparr>Heading = [],
       Blocks = [ProseBlock (FENCE @ ''mermaid'' @ [NL] @ ''graph TD'' @ [NL] @ ''  '' @ FENCE)
         \<lparr>SpecSection = p @ ''-section'', Sources = [], InputHash = h\<rparr>]\<rparr>]"
proof -
  let ?t = "''  '' @ FENCE @ ''mermaid'' @ [NL] @ ''graph TD'' @ [NL] @ ''  '' @ FENCE @ [NL]"
  have blank: "ascii_space CHR '' ''" "ascii_space NL" "solid_byte BACKQUOTE"
    by (simp_all add: ascii_space_def solid_byte_def)
  have l: "trim_left_space ?t = drop 2 ?t"
    by (simp add: FENCE_def trim_left_space_step trim_left_space_stop solid_plain blank)
  have r: "trim_left_rev (rev (drop 2 ?t)) = tl (rev (drop 2 ?t))"
    by (simp add: FENCE_def trim_left_rev_step trim_left_rev_stop blank)
  have t: "TrimSpace ?t = FENCE @ ''mermaid'' @ [NL] @ ''graph TD'' @ [NL] @ ''  '' @ FENCE"
    unfolding TrimSpace_def l r by (simp add: FENCE_def)
  have lines: "Split NL (''  '' @ FENCE @ ''mermaid'' @ [NL] @ ''graph TD'' @ [NL] @ ''  '' @ FENCE) =
      [''  '' @ FENCE @ ''mermaid'', ''graph TD'', ''  '' @ FENCE]"
    by (simp add: FENCE_def)
  show ?thesis
    unfolding mdir_Parse_def lines
    by (simp add: md_line_def HasPrefix_def FENCE_def atxHeading_def TrimRight_def md_start_def
          md_finish_def flush_def add_block_def push_current_def no_prov_def Let_def
          t [unfolded FENCE_def, simplified])
qed

end
