(* ===== verification/Nav.thy ===== *)
theory Nav
  imports Prelude
begin

text \<open>
  Placement of pages in the hub hierarchy (internal/nav/nav.go, navmap.go).  The result of
  \<open>Build\<close>, a Go map from hub title to members, is a function from the title to the member
  list; a key that the Go map does not hold reads as the empty slice there, as here.
\<close>

section \<open>Placements\<close>

record placement =
  Parent :: gostring
  Section :: gostring
  Order :: int
  Label :: gostring
  Blurb :: gostring
  nav_Area :: gostring

definition no_placement :: placement where
  "no_placement = \<lparr>Parent = [], Section = [], Order = 0, Label = [], Blurb = [], nav_Area = []\<rparr>"

definition subpathParent :: "gostring \<Rightarrow> gostring" where
  "subpathParent title = (case LastIndexByte title (CHR ''/'') of Some i \<Rightarrow> take i title | None \<Rightarrow> [])"

definition SubpathParent :: "gostring \<Rightarrow> gostring" where
  "SubpathParent title = subpathParent title"

definition lastSegment :: "gostring \<Rightarrow> gostring" where
  "lastSegment title =
     (case LastIndexByte title (CHR ''/'') of Some i \<Rightarrow> drop (Suc i) title | None \<Rightarrow> title)"

definition deUnderscore :: "gostring \<Rightarrow> gostring" where
  "deUnderscore s = replace_byte (CHR ''_'') '' '' s"

definition Resolve :: "gostring \<Rightarrow> placement \<Rightarrow> placement" where
  "Resolve page declared =
     (let out = declared;
          out = (if Parent out = [] then out\<lparr>Parent := subpathParent page\<rparr> else out);
          out = (if Label out = [] then out\<lparr>Label := deUnderscore (lastSegment page)\<rparr> else out)
      in out)"

section \<open>The navigation map\<close>

record page_nav =
  pn_Page :: gostring
  pn_Nav :: placement

record nav_member =
  m_Page :: gostring
  m_Section :: gostring
  m_Order :: int
  m_Label :: gostring
  m_Blurb :: gostring
  m_Area :: gostring

type_synonym nav_map = "gostring \<Rightarrow> nav_member list"

definition nav_member_of :: "page_nav \<Rightarrow> nav_member" where
  "nav_member_of p =
     (let r = Resolve (pn_Page p) (pn_Nav p) in
      \<lparr>m_Page = pn_Page p, m_Section = Section r, m_Order = Order r, m_Label = Label r,
       m_Blurb = Blurb r, m_Area = nav_Area r\<rparr>)"

text \<open>
  The first loop of \<open>Build\<close> appends each page to its parent's slice; the second sorts every
  slice.  The less-function of \<open>sort.SliceStable\<close> compares (section, order, label)
  lexicographically.
\<close>

definition member_key :: "nav_member \<Rightarrow> gostring \<times> int \<times> gostring" where
  "member_key m = (m_Section m, m_Order m, m_Label m)"

definition group_step :: "nav_map \<Rightarrow> page_nav \<Rightarrow> nav_map" where
  "group_step m p =
     (let parent = Parent (Resolve (pn_Page p) (pn_Nav p)) in
      m(parent := m parent @ [nav_member_of p]))"

definition Build :: "page_nav list \<Rightarrow> nav_map" where
  "Build pages = (\<lambda>parent. sort_key member_key (foldl group_step (\<lambda>_. []) pages parent))"

section \<open>Correctness\<close>

lemma group_fold:
  "foldl group_step m pages parent =
     m parent @ map nav_member_of
       (filter (\<lambda>p. Parent (Resolve (pn_Page p) (pn_Nav p)) = parent) pages)"
  by (induction pages arbitrary: m) (auto simp: group_step_def Let_def)

lemma Build_eq:
  "Build pages parent =
     sort_key member_key (map nav_member_of
       (filter (\<lambda>p. Parent (Resolve (pn_Page p) (pn_Nav p)) = parent) pages))"
  by (simp add: Build_def group_fold)

text \<open>A title with a slash is its parent path, the slash, and its last segment.\<close>

lemma title_split:
  "CHR ''/'' \<in> set title \<Longrightarrow> title = subpathParent title @ ''/'' @ lastSegment title"
  by (cases "LastIndexByte title (CHR ''/'')")
     (auto simp: subpathParent_def lastSegment_def LastIndexByte_None dest: LastIndexByte_split)

lemma lastSegment_no_slash: "CHR ''/'' \<notin> set (lastSegment title)"
  by (auto simp: lastSegment_def LastIndexByte_None dest: LastIndexByte_split split: option.splits)

lemma subpathParent_shorter: "title \<noteq> [] \<Longrightarrow> length (subpathParent title) < length title"
  by (auto simp: subpathParent_def split: option.splits dest!: LastIndexByte_split)

lemma Resolve_declared:
  "Parent d \<noteq> [] \<Longrightarrow> Parent (Resolve page d) = Parent d"
  "Label d \<noteq> [] \<Longrightarrow> Label (Resolve page d) = Label d"
  "Section (Resolve page d) = Section d"
  "Order (Resolve page d) = Order d"
  "Blurb (Resolve page d) = Blurb d"
  "nav_Area (Resolve page d) = nav_Area d"
  by (auto simp: Resolve_def Let_def)

lemma Resolve_idem: "Resolve page (Resolve page d) = Resolve page d"
  by (auto simp: Resolve_def Let_def)

end
