(* ===== verification/KB.thy ===== *)
theory KB
  imports Prelude
begin

text \<open>
  The knowledge base as the curator reads it (internal/adapters/kb/kb.go): snapshots, areas and
  entries, and the lookups on them.  Go's \<open>*Area\<close> results are options (\<open>nil\<close> is
  \<open>None\<close>).  The error \<open>ErrDiffNotSupported\<close>, which callers test with
  \<open>errors.Is\<close>, is a constructor of its own.
\<close>

section \<open>Entries, areas, snapshots\<close>

record entry_provenance =
  Status :: gostring
  ep_Source :: gostring

record entry =
  e_ID :: gostring
  e_Area :: gostring
  e_Type :: gostring
  e_Text :: gostring
  e_Tags :: "gostring list"
  e_Zone :: gostring
  e_Created :: gostring
  e_Updated :: gostring
  e_Provenance :: entry_provenance
  e_Why :: gostring
  e_Rejected :: gostring
  e_Context :: gostring
  e_URL :: gostring

record area =
  a_ID :: gostring
  a_Name :: gostring
  a_Summary :: gostring
  a_Tags :: "gostring list"
  a_Entries :: "entry list"

record snapshot =
  Commit :: gostring
  ChangedAreas :: "gostring list"
  Areas :: "area list"

datatype diff_result =
    DiffNotSupported
  | DiffFailed gomsg
  | Changed "gostring list"

section \<open>Lookups\<close>

definition Area :: "snapshot \<Rightarrow> gostring \<Rightarrow> area option" where
  "Area s ident = List.find (\<lambda>a. a_ID a = ident) (Areas s)"

definition EntriesByType :: "area \<Rightarrow> gostring \<Rightarrow> entry list" where
  "EntriesByType a t = filter (\<lambda>e. e_Type e = t) (a_Entries a)"

lemma Area_Some: "Area s ident = Some a \<Longrightarrow> a \<in> set (Areas s) \<and> a_ID a = ident"
  by (auto simp: Area_def find_Some_iff)

lemma Area_None: "Area s ident = None \<longleftrightarrow> ident \<notin> a_ID ` set (Areas s)"
  by (auto simp: Area_def find_None_iff)

lemma EntriesByType_set: "e \<in> set (EntriesByType a t) \<longleftrightarrow> e \<in> set (a_Entries a) \<and> e_Type e = t"
  by (auto simp: EntriesByType_def)

text \<open>The five entry types partition an area's entries whose type is one of them.\<close>

lemma EntriesByType_disjoint:
  "t \<noteq> t' \<Longrightarrow> set (EntriesByType a t) \<inter> set (EntriesByType a t') = {}"
  by (auto simp: EntriesByType_def)

end
