(* ===== verification/Specs.thy ===== *)
theory Specs
  imports Nav KB IR
begin

text \<open>
  The spec types (internal/adapters/specs/specs.go), the two directory-backed stores
  (internal/adapters/specs/localfs, internal/adapters/docspecs/localfs) over an abstract directory
  walk, and the doc-spec language (internal/specs/docspec/docspec.go): its types, its parser on
  decoded YAML and its validation.
\<close>

section \<open>Page specs\<close>

record hub_link =
  hl_Page :: gostring
  hl_Label :: gostring
  hl_Desc :: gostring
  hl_Area :: gostring

record hub_section =
  hs_Title :: gostring
  hs_Desc :: gostring
  hs_Links :: "hub_link list"

record hub_spec =
  hub_Sections :: "hub_section list"
  Auto :: bool

record include_filter =
  inc_Areas :: "gostring list"
  Workspaces :: "gostring list"
  ExcludeZones :: "gostring list"

record spec =
  sp_ID :: gostring
  Wiki :: gostring
  sp_Page :: gostring
  sp_Kind :: gostring
  Include :: include_filter
  FactCheck :: "(gostring \<times> gostring) list"
  sp_Body :: gostring
  Hash :: gostring
  Hub :: "hub_spec option"
  sp_Nav :: placement

section \<open>Doc-specs\<close>

record source =
  Scheme :: gostring
  src_Spec :: gostring
  Raw :: gostring

record doc_section =
  ds_Title :: gostring
  ds_Intent :: gostring
  Render :: gostring
  ds_Sources :: "source list"

record doc_page =
  dp_Page :: gostring
  dp_Kind :: gostring
  Audience :: gostring
  dp_Intent :: gostring
  dp_Sections :: "doc_section list"
  dp_Sources :: "source list"
  Related :: "gostring list"
  Categories :: "gostring list"
  dp_Nav :: placement
  Supersedes :: "gostring list"

record doc_spec =
  Topic :: gostring
  ParentPage :: doc_page
  Children :: "doc_page list"

definition knownKinds :: "gostring list" where
  "knownKinds = [''architecture'', ''runbook'', ''reference'', ''integration'', ''index'']"

definition knownAudiences :: "gostring list" where
  "knownAudiences = [[], ''human-operator'', ''newcomer'', ''llm-reference'']"

definition knownRenders :: "gostring list" where
  "knownRenders = [[], ''table'', ''child-index'']"

definition knownSchemes :: "gostring list" where
  "knownSchemes = [''kb'', ''git'', ''cmd'', ''ssh'', ''file'']"

subsection \<open>The decoded YAML document\<close>

record section_yaml =
  sy_Title :: gostring
  sy_Intent :: gostring
  sy_Render :: gostring
  sy_Sources :: "gostring list"

record page_yaml =
  py_Page :: gostring
  py_Kind :: gostring
  py_Audience :: gostring
  py_Intent :: gostring
  py_Sections :: "section_yaml list"
  py_Sources :: "gostring list"
  py_Related :: "gostring list"
  py_Categories :: "gostring list"
  py_Nav :: placement
  py_Supersedes :: "gostring list"

record doc_yaml =
  dy_Topic :: gostring
  dy_Parent :: page_yaml
  dy_Children :: "page_yaml list"

subsection \<open>Parsing\<close>

text \<open>The label \<open>name[i]\<close> that errors carry.\<close>

definition indexed :: "gostring \<Rightarrow> nat \<Rightarrow> gostring" where
  "indexed name i = name @ ''['' @ nat_dec i @ '']''"

fun parseSources :: "gostring list \<Rightarrow> gostring \<Rightarrow> source list res" where
  "parseSources [] pos = Inr []"
| "parseSources (r0 # rs) pos =
     (let r = TrimSpace r0 in
      if r = [] then parseSources rs pos
      else (case IndexByte r (CHR '':'') of
              None \<Rightarrow> Inl (errorf ''docspec: %s: source %q missing scheme (want scheme:spec)'' [pos, r])
            | Some i \<Rightarrow>
                if i = 0
                then Inl (errorf ''docspec: %s: source %q missing scheme (want scheme:spec)'' [pos, r])
                else if take i r \<notin> set knownSchemes
                then Inl (errorf ''docspec: %s: unknown source scheme %q (known: kb, git, cmd, ssh, file)''
                            [pos, take i r])
                else (case parseSources rs pos of
                        Inl e \<Rightarrow> Inl e
                      | Inr out \<Rightarrow>
                          Inr (\<lparr>Scheme = take i r, src_Spec = TrimSpace (drop (Suc i) r), Raw = r\<rparr> # out))))"

fun parseSections :: "gostring \<Rightarrow> nat \<Rightarrow> section_yaml list \<Rightarrow> doc_section list res" where
  "parseSections pos i [] = Inr []"
| "parseSections pos i (s # ss) =
     (case parseSources (sy_Sources s) (pos @ indexed ''.sections'' i) of
        Inl e \<Rightarrow> Inl e
      | Inr srcs \<Rightarrow>
          (case parseSections pos (Suc i) ss of
             Inl e \<Rightarrow> Inl e
           | Inr rest \<Rightarrow>
               Inr (\<lparr>ds_Title = TrimSpace (sy_Title s), ds_Intent = TrimSpace (sy_Intent s),
                     Render = sy_Render s, ds_Sources = srcs\<rparr> # rest)))"

definition toPage :: "page_yaml \<Rightarrow> gostring \<Rightarrow> doc_page res" where
  "toPage p pos =
     (case parseSources (py_Sources p) pos of
        Inl e \<Rightarrow> Inl e
      | Inr srcs \<Rightarrow>
          (case parseSections pos 0 (py_Sections p) of
             Inl e \<Rightarrow> Inl e
           | Inr secs \<Rightarrow>
               Inr \<lparr>dp_Page = TrimSpace (py_Page p), dp_Kind = py_Kind p, Audience = py_Audience p,
                    dp_Intent = TrimSpace (py_Intent p), dp_Sections = secs, dp_Sources = srcs,
                    Related = py_Related p, Categories = py_Categories p, dp_Nav = py_Nav p,
                    Supersedes = py_Supersedes p\<rparr>))"

fun toPages :: "nat \<Rightarrow> page_yaml list \<Rightarrow> doc_page list res" where
  "toPages i [] = Inr []"
| "toPages i (c # cs) =
     (case toPage c (indexed ''children'' i) of
        Inl e \<Rightarrow> Inl e
      | Inr cp \<Rightarrow> (case toPages (Suc i) cs of Inl e \<Rightarrow> Inl e | Inr rest \<Rightarrow> Inr (cp # rest)))"

subsection \<open>Validation\<close>

fun check_sections :: "gostring \<Rightarrow> nat \<Rightarrow> doc_section list \<Rightarrow> gomsg option" where
  "check_sections pos i [] = None"
| "check_sections pos i (s # ss) =
     (if ds_Title s = []
      then Some (errorf ''docspec: %s.sections[%d]: title required'' [pos, nat_dec i])
      else if Render s \<notin> set knownRenders
      then Some (errorf ''docspec: %s.sections[%d] (%q): render %q invalid (table|child-index)''
                   [pos, nat_dec i, ds_Title s, Render s])
      else check_sections pos (Suc i) ss)"

text \<open>The closure \<open>check\<close>, with the pages seen so far threaded through.\<close>

definition check_page :: "gostring list \<Rightarrow> doc_page \<Rightarrow> gostring \<Rightarrow> (gostring list) res" where
  "check_page seen p pos =
     (if dp_Page p = [] then Inl (errorf ''docspec: %s.page: required'' [pos])
      else if dp_Page p \<in> set seen then Inl (errorf ''docspec: duplicate page %q'' [dp_Page p])
      else if dp_Kind p \<notin> set knownKinds
      then Inl (errorf ''docspec: %s.kind: %q invalid (architecture|runbook|reference|integration|index)''
                  [pos, dp_Kind p])
      else if Audience p \<notin> set knownAudiences
      then Inl (errorf ''docspec: %s.audience: %q invalid (human-operator|newcomer|llm-reference)''
                  [pos, Audience p])
      else (case check_sections pos 0 (dp_Sections p) of
              Some e \<Rightarrow> Inl e
            | None \<Rightarrow> Inr (dp_Page p # seen)))"

fun check_children :: "gostring list \<Rightarrow> nat \<Rightarrow> doc_page list \<Rightarrow> gomsg option" where
  "check_children seen i [] = None"
| "check_children seen i (p # ps) =
     (case check_page seen p (indexed ''children'' i) of
        Inl e \<Rightarrow> Some e
      | Inr seen' \<Rightarrow> check_children seen' (Suc i) ps)"

definition validate :: "doc_spec \<Rightarrow> gomsg option" where
  "validate d =
     (if Topic d = [] then Some (errorf ''docspec: topic: required'' [])
      else (case check_page [] (ParentPage d) ''parent'' of
              Inl e \<Rightarrow> Some e
            | Inr seen \<Rightarrow> check_children seen 0 (Children d)))"

text \<open>\<open>Parse\<close> on what the YAML library decodes the file to.\<close>

definition docspec_Parse :: "doc_yaml res \<Rightarrow> doc_spec res" where
  "docspec_Parse y =
     (case y of
        Inl e \<Rightarrow> Inl (wrapf ''docspec: yaml: %w'' [] e)
      | Inr y \<Rightarrow>
          (case toPage (dy_Parent y) ''parent'' of
             Inl e \<Rightarrow> Inl e
           | Inr parent \<Rightarrow>
               (case toPages 0 (dy_Children y) of
                  Inl e \<Rightarrow> Inl e
                | Inr children \<Rightarrow>
                    (let d = \<lparr>Topic = TrimSpace (dy_Topic y), ParentPage = parent, Children = children\<rparr> in
                     case validate d of Some e \<Rightarrow> Inl e | None \<Rightarrow> Inr d))))"

section \<open>What validation accepts\<close>

definition valid_section :: "doc_section \<Rightarrow> bool" where
  "valid_section s = (ds_Title s \<noteq> [] \<and> Render s \<in> set knownRenders)"

definition valid_page :: "doc_page \<Rightarrow> bool" where
  "valid_page p =
     (dp_Page p \<noteq> [] \<and> dp_Kind p \<in> set knownKinds \<and> Audience p \<in> set knownAudiences \<and>
      list_all valid_section (dp_Sections p))"

definition spec_pages :: "doc_spec \<Rightarrow> doc_page list" where
  "spec_pages d = ParentPage d # Children d"

definition valid_doc :: "doc_spec \<Rightarrow> bool" where
  "valid_doc d =
     (Topic d \<noteq> [] \<and> list_all valid_page (spec_pages d) \<and> distinct (map dp_Page (spec_pages d)))"

lemma check_sections_None: "check_sections pos i ss = None \<longleftrightarrow> list_all valid_section ss"
  by (induction ss arbitrary: i) (auto simp: valid_section_def)

lemma check_page_Inr:
  "check_page seen p pos = Inr s \<longleftrightarrow> valid_page p \<and> dp_Page p \<notin> set seen \<and> s = dp_Page p # seen"
  by (auto simp: check_page_def valid_page_def check_sections_None [of pos 0, symmetric]
           split: option.splits)

lemma check_children_None:
  "check_children seen i ps = None \<longleftrightarrow>
     list_all valid_page ps \<and> distinct (map dp_Page ps) \<and> set seen \<inter> dp_Page ` set ps = {}"
proof (induction ps arbitrary: seen i)
  case (Cons p ps)
  show ?case
  proof (cases "check_page seen p (indexed ''children'' i)")
    case (Inl e)
    then have "\<not> (valid_page p \<and> dp_Page p \<notin> set seen)"
      using check_page_Inr [of seen p "indexed ''children'' i" "dp_Page p # seen"] by simp
    with Inl show ?thesis by auto
  next
    case (Inr s)
    then have "valid_page p" "dp_Page p \<notin> set seen" "s = dp_Page p # seen"
      by (simp_all add: check_page_Inr)
    with Inr Cons.IH [of s] show ?thesis by auto
  qed
qed simp

lemma validate_None: "validate d = None \<longleftrightarrow> valid_doc d"
proof (cases "check_page [] (ParentPage d) ''parent''")
  case (Inl e)
  then have "\<not> valid_page (ParentPage d)"
    using check_page_Inr [of "[]" "ParentPage d" "''parent''" "[dp_Page (ParentPage d)]"] by simp
  with Inl show ?thesis by (simp add: validate_def valid_doc_def spec_pages_def)
next
  case (Inr s)
  then have "valid_page (ParentPage d)" "s = [dp_Page (ParentPage d)]" by (simp_all add: check_page_Inr)
  with Inr show ?thesis
    by (auto simp: validate_def valid_doc_def spec_pages_def check_children_None)
qed

definition source_ok :: "source \<Rightarrow> bool" where
  "source_ok s = (Scheme s \<in> set knownSchemes \<and> HasPrefix (Raw s) (Scheme s @ '':''))"

lemma IndexByte_prefix: "IndexByte r x = Some i \<Longrightarrow> prefix (take i r @ [x]) r"
  by (induction r arbitrary: i) (auto split: if_splits)

lemma parseSources_Cons_Inr:
  "parseSources (r0 # rs) pos = Inr out \<Longrightarrow>
     TrimSpace r0 = [] \<and> parseSources rs pos = Inr out \<or>
     (\<exists>i rest. IndexByte (TrimSpace r0) (CHR '':'') = Some i \<and> take i (TrimSpace r0) \<in> set knownSchemes \<and>
        parseSources rs pos = Inr rest \<and>
        out = \<lparr>Scheme = take i (TrimSpace r0), src_Spec = TrimSpace (drop (Suc i) (TrimSpace r0)),
               Raw = TrimSpace r0\<rparr> # rest)"
  by (cases "TrimSpace r0 = []"; cases "IndexByte (TrimSpace r0) (CHR '':'')";
      cases "parseSources rs pos") (simp_all add: Let_def split: if_splits)

lemma parseSources_ok: "parseSources raw pos = Inr srcs \<Longrightarrow> list_all source_ok srcs"
proof (induction raw arbitrary: srcs)
  case (Cons r0 rs)
  from parseSources_Cons_Inr [OF Cons.prems] show ?case
  proof (elim disjE exE conjE)
    fix i rest
    assume "IndexByte (TrimSpace r0) (CHR '':'') = Some i" "take i (TrimSpace r0) \<in> set knownSchemes"
      "parseSources rs pos = Inr rest"
      "srcs = \<lparr>Scheme = take i (TrimSpace r0), src_Spec = TrimSpace (drop (Suc i) (TrimSpace r0)),
               Raw = TrimSpace r0\<rparr> # rest"
    with Cons.IH [of rest] show ?thesis by (simp add: source_ok_def HasPrefix_iff IndexByte_prefix)
  qed (rule Cons.IH)
qed simp

lemma parseSections_ok:
  "parseSections pos i ss = Inr secs \<Longrightarrow> list_all (\<lambda>s. list_all source_ok (ds_Sources s)) secs"
proof (induction ss arbitrary: i secs)
  case (Cons s ss)
  then obtain srcs rest where "parseSources (sy_Sources s) (pos @ indexed ''.sections'' i) = Inr srcs"
    "parseSections pos (Suc i) ss = Inr rest" "ds_Sources (hd secs) = srcs" "secs \<noteq> []" "tl secs = rest"
    by (simp split: sum.splits) (metis doc_section.select_convs(4) list.distinct(1) list.sel(1,3))
  with Cons.IH [of "Suc i" rest] parseSources_ok show ?case by (cases secs) auto
qed simp

definition sources_ok :: "doc_page \<Rightarrow> bool" where
  "sources_ok p =
     (list_all source_ok (dp_Sources p) \<and> list_all (\<lambda>s. list_all source_ok (ds_Sources s)) (dp_Sections p))"

lemma toPage_ok: "toPage p pos = Inr dp \<Longrightarrow> sources_ok dp"
  by (auto simp: toPage_def sources_ok_def split: sum.splits dest: parseSources_ok parseSections_ok)

lemma toPages_ok: "toPages i ps = Inr dps \<Longrightarrow> list_all sources_ok dps \<and> length dps = length ps"
  by (induction ps arbitrary: i dps) (auto split: sum.splits dest: toPage_ok)

lemma docspec_Parse_Inr:
  assumes "docspec_Parse y = Inr d"
  shows "valid_doc d \<and> list_all sources_ok (spec_pages d)"
proof -
  from assms obtain y' where y: "y = Inr y'" by (cases y) (auto simp: docspec_Parse_def)
  with assms obtain parent children where
    *: "toPage (dy_Parent y') ''parent'' = Inr parent" "toPages 0 (dy_Children y') = Inr children"
    by (auto simp: docspec_Parse_def split: sum.splits)
  with assms y have d: "d = \<lparr>Topic = TrimSpace (dy_Topic y'), ParentPage = parent, Children = children\<rparr>"
    "validate d = None"
    by (auto simp: docspec_Parse_def Let_def split: option.splits)
  with * toPage_ok toPages_ok show ?thesis by (auto simp: validate_None spec_pages_def)
qed

text \<open>
  C27. A doc-spec file is accepted only when it is well formed: the topic and every page title are
  not empty, no page title is declared twice in the cluster, kinds, audiences and render modes are
  known ones, every section has a title, and every source carries a known scheme, which is the
  text before its first colon; and the validation rejects nothing else.
\<close>

theorem docspec_parse_valid:
  "(validate d = None \<longleftrightarrow> valid_doc d) \<and>
   (case docspec_Parse y of
      Inl e \<Rightarrow> True
    | Inr d \<Rightarrow> valid_doc d \<and> list_all sources_ok (spec_pages d))"
  using docspec_Parse_Inr by (auto simp: validate_None split: sum.splits)

section \<open>The directory-backed stores\<close>

text \<open>
  A directory walk is the list of what it visits: the regular files, each with its path relative to
  the root and what reading it returns, and the errors the walk itself meets, which abort it.  The
  suffix holds no slash, so the code's test of the base name is the test of the relative path.
  \<open>parse\<close> is the parser of the format.
\<close>

datatype walk_entry = File gostring "gostring res" | WalkFault gomsg

datatype stat_result = StatNotExist gomsg | StatError gomsg | NotDirectory | Directory "walk_entry list"

fun walk_specs :: "gostring \<Rightarrow> (gostring \<Rightarrow> gostring \<Rightarrow> 'a res) \<Rightarrow> walk_entry list \<Rightarrow> 'a list res" where
  "walk_specs suf parse [] = Inr []"
| "walk_specs suf parse (WalkFault e # fs) = Inl e"
| "walk_specs suf parse (File rel content # fs) =
     (if \<not> HasSuffix rel suf then walk_specs suf parse fs
      else (case content of
              Inl e \<Rightarrow> Inl (wrapf ''read %s: %w'' [rel] e)
            | Inr c \<Rightarrow>
                (case parse rel c of
                   Inl e \<Rightarrow> Inl e
                 | Inr s \<Rightarrow> (case walk_specs suf parse fs of Inl e \<Rightarrow> Inl e | Inr ss \<Rightarrow> Inr (s # ss)))))"

definition specs_Pull :: "gostring \<Rightarrow> (gostring \<Rightarrow> gostring \<Rightarrow> spec res) \<Rightarrow> stat_result \<Rightarrow> spec list res" where
  "specs_Pull root parse st =
     (case st of
        StatNotExist e \<Rightarrow> Inl (wrapf ''localfs specs: stat %q: %w'' [root] e)
      | StatError e \<Rightarrow> Inl (wrapf ''localfs specs: stat %q: %w'' [root] e)
      | NotDirectory \<Rightarrow> Inl (errorf ''localfs specs: %q is not a directory'' [root])
      | Directory fs \<Rightarrow>
          (case walk_specs ''.spec.md'' parse fs of
             Inl e \<Rightarrow> Inl (wrapf ''localfs specs (root=%s): %w'' [root] e)
           | Inr out \<Rightarrow> Inr (sort_key sp_ID out)))"

record doc_file =
  df_ID :: gostring
  df_Spec :: doc_spec

definition parse_doc_file :: "(gostring \<Rightarrow> doc_yaml res) \<Rightarrow> gostring \<Rightarrow> gostring \<Rightarrow> doc_file res" where
  "parse_doc_file decode rel c =
     (case docspec_Parse (decode c) of
        Inl e \<Rightarrow> Inl (wrapf ''%s: %w'' [rel] e)
      | Inr d \<Rightarrow> Inr \<lparr>df_ID = rel, df_Spec = d\<rparr>)"

definition docspecs_Pull :: "gostring \<Rightarrow> (gostring \<Rightarrow> doc_yaml res) \<Rightarrow> stat_result \<Rightarrow> doc_file list res" where
  "docspecs_Pull root decode st =
     (case st of
        StatNotExist e \<Rightarrow> Inr []
      | StatError e \<Rightarrow> Inl (wrapf ''localfs docspecs: stat %q: %w'' [root] e)
      | NotDirectory \<Rightarrow> Inl (errorf ''localfs docspecs: %q is not a directory'' [root])
      | Directory fs \<Rightarrow>
          (case walk_specs ''.doc.yaml'' (parse_doc_file decode) fs of
             Inl e \<Rightarrow> Inl (wrapf ''localfs docspecs (root=%s): %w'' [root] e)
           | Inr out \<Rightarrow> Inr (sort_key df_ID out)))"

text \<open>The files a walk takes, and those that make it fail.\<close>

fun taken :: "gostring \<Rightarrow> walk_entry list \<Rightarrow> gostring list" where
  "taken suf [] = []"
| "taken suf (WalkFault e # fs) = taken suf fs"
| "taken suf (File rel c # fs) = (if HasSuffix rel suf then rel # taken suf fs else taken suf fs)"

definition fails :: "gostring \<Rightarrow> (gostring \<Rightarrow> gostring \<Rightarrow> 'a res) \<Rightarrow> walk_entry \<Rightarrow> bool" where
  "fails suf parse f =
     (case f of
        WalkFault e \<Rightarrow> True
      | File rel c \<Rightarrow>
          HasSuffix rel suf \<and>
          (case c of Inl e \<Rightarrow> True | Inr t \<Rightarrow> (case parse rel t of Inl e \<Rightarrow> True | Inr _ \<Rightarrow> False)))"

lemma fails_simps [simp]:
  "fails suf parse (WalkFault e)"
  "fails suf parse (File rel (Inl e)) \<longleftrightarrow> HasSuffix rel suf"
  "fails suf parse (File rel (Inr t)) \<longleftrightarrow> HasSuffix rel suf \<and> (\<exists>e. parse rel t = Inl e)"
  by (simp_all add: fails_def split: sum.splits)

lemma walk_specs_fails:
  "(\<exists>e. walk_specs suf parse fs = Inl e) \<longleftrightarrow> (\<exists>f \<in> set fs. fails suf parse f)"
proof (induction fs)
  case (Cons f fs)
  show ?case
  proof (cases f)
    case (File rel c)
    with Cons.IH show ?thesis
      by (cases c; cases "walk_specs suf parse fs") (auto split: sum.splits)
  qed simp
qed simp

lemma walk_specs_parsed:
  "walk_specs suf parse fs = Inr out \<Longrightarrow>
     list_all2 (\<lambda>rel s. \<exists>t. parse rel t = Inr s) (taken suf fs) out"
  by (induction suf parse fs arbitrary: out rule: walk_specs.induct)
     (auto split: if_splits sum.splits)

lemma parse_doc_file_Inr:
  "parse_doc_file decode rel t = Inr f \<Longrightarrow> df_ID f = rel \<and> docspec_Parse (decode t) = Inr (df_Spec f)"
  by (auto simp: parse_doc_file_def split: sum.splits)

text \<open>
  A pull of doc-spec files is all or nothing: it fails exactly when the walk meets an error or
  some visited file with the doc-spec suffix cannot be read or parsed; otherwise the files come
  sorted by their relative path, there is exactly one for every visited file with the suffix, and
  each holds a valid cluster.
\<close>

theorem docspecs_pull_all_or_nothing:
  "case docspecs_Pull root decode (Directory fs) of
     Inl e \<Rightarrow> (\<exists>f \<in> set fs. fails ''.doc.yaml'' (parse_doc_file decode) f)
   | Inr files \<Rightarrow>
        (\<forall>f \<in> set fs. \<not> fails ''.doc.yaml'' (parse_doc_file decode) f) \<and>
        sorted (map df_ID files) \<and>
        mset (map df_ID files) = mset (taken ''.doc.yaml'' fs) \<and>
        (\<forall>f \<in> set files. valid_doc (df_Spec f) \<and> list_all sources_ok (spec_pages (df_Spec f)))"
proof (cases "walk_specs ''.doc.yaml'' (parse_doc_file decode) fs")
  case (Inl e)
  then show ?thesis using walk_specs_fails [of "''.doc.yaml''" "parse_doc_file decode" fs]
    by (simp add: docspecs_Pull_def)
next
  case (Inr out)
  have ids: "map df_ID out = taken ''.doc.yaml'' fs"
    using walk_specs_parsed [OF Inr]
    by (induction rule: list_all2_induct) (auto dest: parse_doc_file_Inr)
  have "\<exists>y. docspec_Parse y = Inr (df_Spec f)" if "f \<in> set out" for f
    using walk_specs_parsed [OF Inr] that
    by (induction rule: list_all2_induct) (auto dest: parse_doc_file_Inr)
  then have "valid_doc (df_Spec f) \<and> list_all sources_ok (spec_pages (df_Spec f))" if "f \<in> set out" for f
    using docspec_Parse_Inr that by blast
  moreover have "\<forall>f \<in> set fs. \<not> fails ''.doc.yaml'' (parse_doc_file decode) f"
    using walk_specs_fails [of "''.doc.yaml''" "parse_doc_file decode" fs] Inr by auto
  moreover have "mset (map df_ID (sort_key df_ID out)) = mset (taken ''.doc.yaml'' fs)"
    by (simp only: mset_map mset_sort flip: ids)
  ultimately show ?thesis using Inr by (simp add: docspecs_Pull_def)
qed

end
