(* ===== verification/Frontends.thy ===== *)
theory Frontends
  imports Specs Sha256
begin

text \<open>
  The frontend registry (frontends/frontends.go) and the two deterministic frontends: hub pages
  with their auto-membership (frontends/hub/hub.go, autohub.go) and projections
  (frontends/projection/projection.go).
\<close>

section \<open>The registry\<close>

record 'w frontend =
  fe_Name :: gostring
  fe_Kind :: gostring
  fe_Build :: "spec \<Rightarrow> snapshot \<Rightarrow> 'w \<Rightarrow> ir_document res \<times> 'w"

type_synonym 'w fe_registry = "gostring \<rightharpoonup> 'w frontend"

text \<open>\<open>None\<close> is the panic on a duplicate kind.\<close>

definition Register :: "'w frontend \<Rightarrow> 'w fe_registry \<Rightarrow> 'w fe_registry option" where
  "Register f r = (if fe_Kind f \<in> dom r then None else Some (r(fe_Kind f \<mapsto> f)))"

definition For :: "'w fe_registry \<Rightarrow> gostring \<Rightarrow> 'w frontend res" where
  "For r kind =
     (case r kind of
        None \<Rightarrow> Inl (errorf ''frontends: no frontend registered for kind %q'' [kind])
      | Some f \<Rightarrow> Inr f)"

text \<open>A registered frontend is found under its kind and stays so under further registrations.\<close>

lemma For_Register:
  "Register f r = Some r' \<Longrightarrow> For r' (fe_Kind f) = Inr f \<and>
     (\<forall>k g. For r k = Inr g \<longrightarrow> For r' k = Inr g)"
  by (auto simp: Register_def For_def split: if_splits option.splits)

section \<open>The hub frontend\<close>

definition hashStr :: "gostring \<Rightarrow> gostring" where
  "hashStr s = take 16 (sha256_hex s)"

definition hashEntries :: "index_entry list \<Rightarrow> gostring" where
  "hashEntries es =
     hashStr (concat (map (\<lambda>e. ie_Page e @ [NUL] @ ie_Label e @ [NUL] @ ie_Desc e @ [NL]) es))"

text \<open>One link: its entry, and the kb reference when the description comes from an area.\<close>

definition hub_entry :: "snapshot \<Rightarrow> hub_link \<Rightarrow> index_entry \<times> gostring list" where
  "hub_entry snap l =
     (case (if hl_Desc l = [] \<and> hl_Area l \<noteq> [] then Area snap (hl_Area l) else None) of
        Some a \<Rightarrow> (\<lparr>ie_Page = hl_Page l, ie_Label = hl_Label l, ie_Desc = a_Summary a\<rparr>,
                   [''area/'' @ a_ID a])
      | None \<Rightarrow> (\<lparr>ie_Page = hl_Page l, ie_Label = hl_Label l, ie_Desc = hl_Desc l\<rparr>, []))"

definition hub_section_name :: "nat \<Rightarrow> gostring" where
  "hub_section_name i = ''hub.section['' @ nat_dec i @ '']''"

definition hub_section_of :: "snapshot \<Rightarrow> nat \<Rightarrow> hub_section \<Rightarrow> ir_section" where
  "hub_section_of snap i sec =
     (let es = map (hub_entry snap) (hs_Links sec);
          entries = map fst es; sources = concat (map snd es);
          d = TrimSpace (hs_Desc sec) in
      \<lparr>Heading = hs_Title sec,
       Blocks =
         (if d \<noteq> []
          then [ProseBlock d (no_prov\<lparr>SpecSection := hub_section_name i @ ''.desc'', InputHash := hashStr d\<rparr>)]
          else []) @
         [IndexBlock entries \<lparr>SpecSection = hub_section_name i, Sources = sources,
                              InputHash = hashEntries entries\<rparr>]\<rparr>)"

definition hub_Build :: "spec \<Rightarrow> snapshot \<Rightarrow> ir_document res" where
  "hub_Build sp snap =
     (case Hub sp of
        None \<Rightarrow> Inl (errorf ''hub: spec %q has kind=hub but no hub structure'' [sp_ID sp])
      | Some hub \<Rightarrow>
          (let body = TrimSpace (sp_Body sp) in
           Inr ((new_document (sp_Page sp) (Hash sp) (Commit snap))
             \<lparr>Sections :=
                (if body \<noteq> []
                 then [\<lparr>Heading = [], Blocks = [ProseBlock body
                         (no_prov\<lparr>SpecSection := ''hub.intro'', InputHash := hashStr body\<rparr>)]\<rparr>]
                 else []) @
                map (\<lambda>(i, sec). hub_section_of snap i sec) (List.enumerate 0 (hub_Sections hub))\<rparr>)))"

definition hub_frontend :: "'w frontend" where
  "hub_frontend =
     \<lparr>fe_Name = ''hub-frontend'', fe_Kind = ''hub'', fe_Build = (\<lambda>sp snap w. (hub_Build sp snap, w))\<rparr>"

subsection \<open>Auto-membership\<close>

definition otherSection :: gostring where "otherSection = ''Other''"

definition memberLink :: "nav_member \<Rightarrow> hub_link" where
  "memberLink m = \<lparr>hl_Page = m_Page m, hl_Label = m_Label m, hl_Desc = m_Blurb m, hl_Area = m_Area m\<rparr>"

text \<open>
  \<open>placed[i]\<close> is true exactly when the i-th member's section is the title of some declared
  section.
\<close>

definition ExpandAuto :: "spec \<Rightarrow> nav_map \<Rightarrow> spec" where
  "ExpandAuto sp m =
     (case Hub sp of
        None \<Rightarrow> sp
      | Some hub \<Rightarrow>
          if \<not> Auto hub then sp
          else
            (let members = m (sp_Page sp);
                 declared = map (\<lambda>sec. \<lparr>hs_Title = hs_Title sec, hs_Desc = hs_Desc sec,
                     hs_Links = map memberLink (filter (\<lambda>mem. m_Section mem = hs_Title sec) members)\<rparr>)
                   (hub_Sections hub);
                 others = map memberLink
                   (filter (\<lambda>mem. m_Section mem \<notin> hs_Title ` set (hub_Sections hub)) members)
             in sp\<lparr>Hub := Some (hub\<lparr>hub_Sections :=
                  declared @ (if others \<noteq> []
                              then [\<lparr>hs_Title = otherSection, hs_Desc = [], hs_Links = others\<rparr>]
                              else [])\<rparr>)\<rparr>))"


subsection \<open>Every member is listed once\<close>

text \<open>
  Auto-membership is complete and exact: for an auto hub whose declared sections have distinct
  titles, the expanded hub lists every page that named the hub as its parent exactly once and no
  other page; the declared sections keep their order, titles and blurbs, each holds exactly the
  members that declare it, in the map's order, and only the members of no declared section are in
  an extra section at the end.
\<close>

theorem hub_auto_complete:
  assumes "Hub sp = Some hub" and "Auto hub" and "distinct (map hs_Title (hub_Sections hub))"
  shows "\<exists>hub'. Hub (ExpandAuto sp m) = Some hub' \<and>
     mset (concat (map hs_Links (hub_Sections hub'))) = mset (map memberLink (m (sp_Page sp))) \<and>
     list_all2 (\<lambda>old new. hs_Title new = hs_Title old \<and> hs_Desc new = hs_Desc old \<and>
         hs_Links new = map memberLink (filter (\<lambda>x. m_Section x = hs_Title old) (m (sp_Page sp))))
       (hub_Sections hub) (take (length (hub_Sections hub)) (hub_Sections hub')) \<and>
     length (hub_Sections hub') \<le> Suc (length (hub_Sections hub))"
proof -
  let ?ms = "m (sp_Page sp)" and ?ts = "map hs_Title (hub_Sections hub)"
  let ?decl = "map (\<lambda>sec. \<lparr>hs_Title = hs_Title sec, hs_Desc = hs_Desc sec,
      hs_Links = map memberLink (filter (\<lambda>mem. m_Section mem = hs_Title sec) ?ms)\<rparr>) (hub_Sections hub)"
  let ?others = "map memberLink (filter (\<lambda>mem. m_Section mem \<notin> hs_Title ` set (hub_Sections hub)) ?ms)"
  let ?hub = "hub\<lparr>hub_Sections := ?decl @ (if ?others \<noteq> []
      then [\<lparr>hs_Title = otherSection, hs_Desc = [], hs_Links = ?others\<rparr>] else [])\<rparr>"
  have hub: "Hub (ExpandAuto sp m) = Some ?hub" using assms by (simp add: ExpandAuto_def Let_def)
  have "concat (map hs_Links (hub_Sections ?hub)) =
      map memberLink (concat (map (\<lambda>t. filter (\<lambda>x. m_Section x = t) ?ms) ?ts) @
                      filter (\<lambda>x. m_Section x \<notin> set ?ts) ?ms)"
    by (simp add: map_concat comp_def)
  also have "mset \<dots> = image_mset memberLink (mset ?ms)"
    using partition_by_key [OF assms(3), of m_Section ?ms] by (simp only: mset_map mset_append)
  finally have "mset (concat (map hs_Links (hub_Sections ?hub))) = mset (map memberLink ?ms)" by simp
  moreover have "list_all2 (\<lambda>old new. hs_Title new = hs_Title old \<and> hs_Desc new = hs_Desc old \<and>
         hs_Links new = map memberLink (filter (\<lambda>x. m_Section x = hs_Title old) ?ms))
       (hub_Sections hub) (take (length (hub_Sections hub)) (hub_Sections ?hub))"
    by (simp add: list_all2_conv_all_nth)
  ultimately show ?thesis using hub by auto
qed

text \<open>A hub without \<open>members: auto\<close>, and a spec that is not a hub, stay as they are.\<close>

lemma ExpandAuto_id: "Hub sp = None \<or> (\<exists>hub. Hub sp = Some hub \<and> \<not> Auto hub) \<Longrightarrow> ExpandAuto sp m = sp"
  by (auto simp: ExpandAuto_def)

section \<open>The projection frontend\<close>

definition entryTypes :: "(gostring \<times> gostring) list" where
  "entryTypes = [(''fact'', ''Facts''), (''decision'', ''Decisions''), (''gotcha'', ''Gotchas''),
                 (''pattern'', ''Patterns''), (''link'', ''Links'')]"

definition areaHeading :: "area \<Rightarrow> gostring" where
  "areaHeading a = (if a_Name a \<noteq> [] then a_Name a else a_ID a)"

definition entry_text :: "entry \<Rightarrow> gostring" where
  "entry_text e =
     e_Text e @
     (if e_Type e = ''decision''
      then (if e_Why e \<noteq> [] then [NL] @ ''Why: '' @ e_Why e else []) @
           (if e_Rejected e \<noteq> [] then [NL] @ ''Rejected: '' @ e_Rejected e else []) @
           (if e_Context e \<noteq> [] then [NL] @ ''Context: '' @ e_Context e else [])
      else if e_Type e = ''link''
      then (if e_URL e \<noteq> [] then [NL] @ right_arrow @ '' '' @ e_URL e else [])
      else [])"

definition entryToBlock :: "entry \<Rightarrow> spec \<Rightarrow> block" where
  "entryToBlock e sp =
     ProseBlock (entry_text e)
       \<lparr>SpecSection = ''entry/'' @ e_Type e,
        Sources = [''area/'' @ e_Area e @ ''/'' @ e_Type e @ ''/'' @ e_ID e],
        InputHash = Hash sp @ '':'' @ e_ID e @ '':'' @ e_Updated e\<rparr>"

definition area_header :: "area \<Rightarrow> ir_section" where
  "area_header a =
     \<lparr>Heading = areaHeading a,
      Blocks = [ProseBlock (a_Summary a)
                  (no_prov\<lparr>SpecSection := ''area-header'', Sources := [''area/'' @ a_ID a]\<rparr>)]\<rparr>"

definition buildAreaSections :: "area \<Rightarrow> spec \<Rightarrow> ir_section list" where
  "buildAreaSections a sp =
     area_header a #
     concat (map (\<lambda>(tag, heading).
       (let entries = EntriesByType a tag in
        if entries = [] then []
        else [\<lparr>Heading = heading, Blocks = map (\<lambda>e. entryToBlock e sp) entries\<rparr>])) entryTypes)"

fun projection_sections :: "spec \<Rightarrow> snapshot \<Rightarrow> gostring list \<Rightarrow> ir_section list res" where
  "projection_sections sp snap [] = Inr []"
| "projection_sections sp snap (areaID # ids) =
     (case Area snap areaID of
        None \<Rightarrow> Inl (errorf ''projection: area %q from spec include list not present in kb snapshot'' [areaID])
      | Some a \<Rightarrow>
          (case projection_sections sp snap ids of
             Inl e \<Rightarrow> Inl e
           | Inr rest \<Rightarrow> Inr (buildAreaSections a sp @ rest)))"

definition projection_Build :: "spec \<Rightarrow> snapshot \<Rightarrow> ir_document res" where
  "projection_Build sp snap =
     (case projection_sections sp snap (inc_Areas (Include sp)) of
        Inl e \<Rightarrow> Inl e
      | Inr secs \<Rightarrow> Inr ((new_document (sp_Page sp) (Hash sp) (Commit snap))\<lparr>Sections := secs\<rparr>))"

definition projection_frontend :: "'w frontend" where
  "projection_frontend =
     \<lparr>fe_Name = ''projection-frontend'', fe_Kind = ''projection'',
      fe_Build = (\<lambda>sp snap w. (projection_Build sp snap, w))\<rparr>"

subsection \<open>Every entry is projected once\<close>

definition header_block :: "area \<Rightarrow> block" where
  "header_block a = hd (Blocks (area_header a))"

lemma buildAreaSections_blocks:
  "concat (map Blocks (buildAreaSections a sp)) =
     header_block a # map (\<lambda>e. entryToBlock e sp)
       (concat (map (EntriesByType a) (map fst entryTypes)))"
  by (simp add: buildAreaSections_def entryTypes_def Let_def header_block_def area_header_def)

lemma entries_by_types:
  "mset (concat (map (EntriesByType a) (map fst entryTypes))) =
     mset (filter (\<lambda>e. e_Type e \<in> set (map fst entryTypes)) (a_Entries a))"
proof -
  have "distinct (map fst entryTypes)" by (simp add: entryTypes_def)
  from partition_by_key [OF this, of e_Type "a_Entries a"]
  have "mset (concat (map (EntriesByType a) (map fst entryTypes))) +
        filter_mset (\<lambda>e. e_Type e \<notin> set (map fst entryTypes)) (mset (a_Entries a)) = mset (a_Entries a)"
    by (simp add: EntriesByType_def [abs_def])
  also have "\<dots> = filter_mset (\<lambda>e. e_Type e \<in> set (map fst entryTypes)) (mset (a_Entries a)) +
        filter_mset (\<lambda>e. e_Type e \<notin> set (map fst entryTypes)) (mset (a_Entries a))"
    by (rule multiset_partition)
  finally show ?thesis by (simp only: add_right_cancel mset_filter)
qed

lemma projection_sections_Inr:
  "projection_sections sp snap ids = Inr secs \<Longrightarrow>
     (\<forall>i \<in> set ids. Area snap i \<noteq> None) \<and>
     mset (concat (map Blocks secs)) =
       (\<Sum>i\<leftarrow>ids. {#header_block (the (Area snap i))#} +
          image_mset (\<lambda>e. entryToBlock e sp)
            (mset (filter (\<lambda>e. e_Type e \<in> set (map fst entryTypes)) (a_Entries (the (Area snap i))))))"
proof (induction ids arbitrary: secs)
  case (Cons i ids)
  then obtain a rest where a: "Area snap i = Some a" "projection_sections sp snap ids = Inr rest"
    "secs = buildAreaSections a sp @ rest"
    by (auto split: option.splits sum.splits)
  have "mset (concat (map Blocks (buildAreaSections a sp))) = {#header_block a#} +
      image_mset (\<lambda>e. entryToBlock e sp) (mset (filter (\<lambda>e. e_Type e \<in> set (map fst entryTypes)) (a_Entries a)))"
    unfolding buildAreaSections_blocks by (simp only: mset.simps mset_map entries_by_types) simp
  with a Cons.IH [OF a(2)] show ?case by simp
qed simp

lemma projection_sections_Inl:
  "(\<exists>e. projection_sections sp snap ids = Inl e) \<longleftrightarrow> (\<exists>i \<in> set ids. Area snap i = None)"
  by (induction ids) (auto split: option.splits sum.splits)

text \<open>
  A projection page shows the whole of every included area, once: it fails exactly when an
  included area is not in the snapshot; otherwise its blocks are, for every occurrence of an area
  in the include list, the area's header block and one block per entry of the five known types,
  with nothing lost, repeated or added.
\<close>

theorem projection_complete:
  "case projection_Build sp snap of
     Inl e \<Rightarrow> list_ex (\<lambda>i. Area snap i = None) (inc_Areas (Include sp))
   | Inr doc \<Rightarrow>
       list_all (\<lambda>i. Area snap i \<noteq> None) (inc_Areas (Include sp)) \<and>
       Title (Frontmatter doc) = sp_Page sp \<and>
       mset (doc_blocks doc) =
         (\<Sum>i\<leftarrow>inc_Areas (Include sp). {#header_block (the (Area snap i))#} +
            image_mset (\<lambda>e. entryToBlock e sp)
              (mset (filter (\<lambda>e. e_Type e \<in> set (map fst entryTypes)) (a_Entries (the (Area snap i))))))"
proof (cases "projection_sections sp snap (inc_Areas (Include sp))")
  case (Inl e)
  then show ?thesis using projection_sections_Inl [of sp snap "inc_Areas (Include sp)"]
    by (simp add: projection_Build_def list_ex_iff)
next
  case (Inr secs)
  from projection_sections_Inr [OF this] Inr show ?thesis
    by (simp add: projection_Build_def new_document_def doc_blocks_def list_all_iff)
qed

definition auto_hub_spec :: spec where
  "auto_hub_spec =
     \<lparr>sp_ID = ''hub'', Wiki = ''w'', sp_Page = ''H'', sp_Kind = ''hub'',
      Include = \<lparr>inc_Areas = [], Workspaces = [], ExcludeZones = []\<rparr>, FactCheck = [], sp_Body = [],
      Hash = ''h'',
      Hub = Some \<lparr>hub_Sections = [\<lparr>hs_Title = ''Ops'', hs_Desc = [], hs_Links = []\<rparr>], Auto = True\<rparr>,
      sp_Nav = no_placement\<rparr>"

definition two_members :: nav_map where
  "two_members =
     Build [\<lparr>pn_Page = ''H/Vault'', pn_Nav = no_placement\<lparr>Section := ''Ops''\<rparr>\<rparr>,
            \<lparr>pn_Page = ''H/Net'', pn_Nav = no_placement\<rparr>]"

theorem hub_auto_complete_witness:
  "\<exists>hub'. Hub (ExpandAuto auto_hub_spec two_members) = Some hub' \<and>
     mset (concat (map hs_Links (hub_Sections hub'))) = mset (map memberLink (two_members ''H'')) \<and>
     length (hub_Sections hub') \<le> 2"
  using hub_auto_complete [of auto_hub_spec
          "\<lparr>hub_Sections = [\<lparr>hs_Title = ''Ops'', hs_Desc = [], hs_Links = []\<rparr>], Auto = True\<rparr>" two_members]
  by (auto simp: auto_hub_spec_def)

end
