(* ===== verification/Architecture.thy ===== *)
theory Architecture
  imports Llm Mdir Frontends
begin

text \<open>
  The doc-spec page frontend (frontends/architecture/architecture.go) and the editorial frontend
  (frontends/editorial/editorial.go): resolution of kb sources, deterministic tables, the prompts,
  and the folding of the model's markdown into declared sections.  The LLM and the resolvers of
  non-kb sources are functions on the world.
\<close>

section \<open>Source resolution\<close>

record resolved =
  Digest :: gostring
  Rows :: "gostring list list"
  Refs :: "gostring list"

text \<open>\<open>Resolve\<close>: \<open>Inr None\<close> is \<open>ok=false\<close>, declared but not resolvable.\<close>

type_synonym 'w resolver = "source \<Rightarrow> 'w \<Rightarrow> resolved option res \<times> 'w"

record 'w arch_frontend =
  fe_llm :: "'w llm_client"
  fe_model :: gostring
  resolvers :: "gostring \<rightharpoonup> 'w resolver"

text \<open>The tokens of a kb source: the last area, and the sets of tags and zones.\<close>

definition clean_parts :: "gostring \<Rightarrow> gostring list" where
  "clean_parts v = filter (\<lambda>t. t \<noteq> []) (map TrimSpace (Split (CHR '','') v))"

definition kb_token :: "gostring \<Rightarrow> gostring \<times> gostring list \<times> gostring list \<Rightarrow> gostring \<times> gostring list \<times> gostring list" where
  "kb_token tok acc =
     (case (Cut (CHR ''='') tok, acc) of
        ((k, v, found), (areaID, tags, zones)) \<Rightarrow>
          if \<not> found then acc
          else if k = ''area'' then (v, tags, zones)
          else if k = ''tag'' then (areaID, tags @ clean_parts v, zones)
          else if k = ''zone'' then (areaID, tags, zones @ clean_parts v)
          else acc)"

definition entry_selected :: "gostring list \<Rightarrow> gostring list \<Rightarrow> entry \<Rightarrow> bool" where
  "entry_selected tags zones e =
     ((zones = [] \<or> e_Zone e \<in> set zones) \<and> (tags = [] \<or> (\<exists>t \<in> set (e_Tags e). t \<in> set tags)))"

definition ResolveKB :: "snapshot \<Rightarrow> source \<Rightarrow> (area \<times> entry list) option" where
  "ResolveKB snap s =
     (if Scheme s \<noteq> ''kb'' then None
      else (case fold kb_token (Fields (src_Spec s)) ([], [], []) of
              (areaID, tags, zones) \<Rightarrow>
                if areaID = [] then None
                else (case Area snap areaID of
                        None \<Rightarrow> None
                      | Some a \<Rightarrow>
                          if tags = [] \<and> zones = [] then Some (a, a_Entries a)
                          else Some (a, filter (entry_selected tags zones) (a_Entries a)))))"

definition resolveNonKB :: "'w arch_frontend \<Rightarrow> source \<Rightarrow> 'w \<Rightarrow> resolved option res \<times> 'w" where
  "resolveNonKB f s w =
     (case resolvers f (Scheme s) of None \<Rightarrow> (Inr None, w) | Some r \<Rightarrow> r s w)"

definition firstLine :: "gostring \<Rightarrow> gostring" where
  "firstLine s = (case IndexByte s NL of Some i \<Rightarrow> TrimSpace (take i s) | None \<Rightarrow> TrimSpace s)"

section \<open>Tables\<close>

definition entry_row :: "area \<Rightarrow> entry \<Rightarrow> gostring list" where
  "entry_row a e = [e_Type e, a_ID a @ ''/'' @ e_ID e, firstLine (e_Text e)]"

definition pending_row :: "source \<Rightarrow> gostring list" where
  "pending_row s =
     [Scheme s, src_Spec s,
      ''pending '' @ em_dash @ '' no resolver configured for this scheme'']"

fun table_rows :: "'w arch_frontend \<Rightarrow> snapshot \<Rightarrow> source list \<Rightarrow> gostring list list \<Rightarrow> 'w \<Rightarrow> gostring list list res \<times> 'w" where
  "table_rows f snap [] rows w = (Inr rows, w)"
| "table_rows f snap (s # ss) rows w =
     (if Scheme s \<noteq> ''kb''
      then (case resolveNonKB f s w of
              (Inl e, w) \<Rightarrow> (Inl e, w)
            | (Inr (Some r), w) \<Rightarrow> table_rows f snap ss (rows @ Rows r) w
            | (Inr None, w) \<Rightarrow> table_rows f snap ss (rows @ [pending_row s]) w)
      else (case ResolveKB snap s of
              None \<Rightarrow> table_rows f snap ss rows w
            | Some (a, es) \<Rightarrow> table_rows f snap ss (rows @ map (entry_row a) es) w))"

definition tableFromSources :: "'w arch_frontend \<Rightarrow> doc_section \<Rightarrow> snapshot \<Rightarrow> gostring \<Rightarrow> 'w \<Rightarrow> block res \<times> 'w" where
  "tableFromSources f sec snap hash w =
     (case table_rows f snap (ds_Sources sec) [] w of
        (Inl e, w) \<Rightarrow> (Inl e, w)
      | (Inr rows, w) \<Rightarrow>
          (Inr (TableBlock [''Type'', ''Ref'', ''Summary''] rows
             (no_prov\<lparr>SpecSection := ''architecture-table'', InputHash := hash\<rparr>)), w))"

section \<open>Grounding\<close>

definition entry_digest :: "entry \<Rightarrow> gostring" where
  "entry_digest e =
     ''- ['' @ e_Type e @ ''/'' @ e_ID e @ ''] '' @ e_Text e @ [NL] @
     (if e_Why e \<noteq> [] then ''    Why: '' @ e_Why e @ [NL] else [])"

definition writeKBDigest :: "area \<Rightarrow> entry list \<Rightarrow> gostring" where
  "writeKBDigest a entries =
     ''### Area: '' @ a_ID a @ '' '' @ em_dash @ '' '' @ a_Name a @ [NL] @
     (if a_Summary a \<noteq> [] then ''Summary: '' @ a_Summary a @ [NL] else []) @
     concat (map entry_digest entries) @ [NL]"

definition kb_digest_of :: "snapshot \<Rightarrow> source \<Rightarrow> gostring" where
  "kb_digest_of snap s = (case ResolveKB snap s of None \<Rightarrow> [] | Some (a, es) \<Rightarrow> writeKBDigest a es)"

definition SectionGrounding :: "snapshot \<Rightarrow> doc_section \<Rightarrow> gostring" where
  "SectionGrounding snap sec =
     concat (map (\<lambda>s. if Scheme s \<noteq> ''kb'' then [] else kb_digest_of snap s) (ds_Sources sec))"

fun resolveSources :: "'w arch_frontend \<Rightarrow> snapshot \<Rightarrow> source list \<Rightarrow> 'w \<Rightarrow> (gostring \<times> gostring list) res \<times> 'w" where
  "resolveSources f snap [] w = (Inr ([], []), w)"
| "resolveSources f snap (s # ss) w =
     (if Scheme s \<noteq> ''kb''
      then (case resolveNonKB f s w of
              (Inl e, w) \<Rightarrow> (Inl e, w)
            | (Inr r, w) \<Rightarrow>
                (case resolveSources f snap ss w of
                   (Inl e, w) \<Rightarrow> (Inl e, w)
                 | (Inr (digest, nonKB), w) \<Rightarrow>
                     (case r of
                        Some r \<Rightarrow> (Inr (Digest r @ (if HasSuffix (Digest r) [NL] then [] else [NL]) @ [NL] @ digest,
                                        nonKB), w)
                      | None \<Rightarrow> (Inr (digest, Raw s # nonKB), w))))
      else (case resolveSources f snap ss w of
              (Inl e, w) \<Rightarrow> (Inl e, w)
            | (Inr (digest, nonKB), w) \<Rightarrow> (Inr (kb_digest_of snap s @ digest, nonKB), w)))"

section \<open>Prompts\<close>

text \<open>
  \<open>strings.ToLower\<close>, as far as searching the result for an ASCII word without the letter k sees
  it: of the other characters only U+0130 lowers to an ASCII letter of such a word.
\<close>

definition lower_byte :: "char \<Rightarrow> char" where
  "lower_byte c = (let n = (of_char c :: nat) in if 65 \<le> n \<and> n \<le> 90 then char_of (n + 32) else c)"

fun lower_text :: "gostring \<Rightarrow> gostring" where
  "lower_text [] = []"
| "lower_text [c] = [lower_byte c]"
| "lower_text (c # d # s) =
     (if c = CHR 0xC4 \<and> d = CHR 0xB0 then CHR ''i'' # lower_text s
      else lower_byte c # lower_text (d # s))"

definition wantsDiagram :: "gostring \<Rightarrow> bool" where
  "wantsDiagram intent = Contains (lower_text intent) ''diagram''"

text \<open>\<open>%q\<close> of a section title is left to \<open>quote\<close> (\<open>strconv.Quote\<close>).\<close>

definition requirements :: gostring where
  "requirements =
     [NL] @ ''Requirements '' @ em_dash @ '' all mandatory:'' @ [NL] @
     ''- Treat the contract as an explicit checklist. Deliver every distinct item it calls '' @
     ''for: when it asks for a procedure, enumerate the concrete steps or phases; when it '' @
     ''asks for a model or list, lay it out in full. Do not stop at a preamble or a generic overview.'' @
     [NL] @
     ''- The substance MUST be the organisation-specific specifics in the supplied knowledge '' @
     ''base content (versions, topology, hosts, decisions, procedures). Surface them; never '' @
     ''substitute generic, textbook description of the technology for the organisation'' @ [APOS] @
     ''s own details.'' @ [NL] @
     ''- If and only if the supplied sources do not support a required contract item, state '' @
     ''that explicitly and briefly for that item as '' @ [BACKQUOTE] @
     ''_Not covered by current sources: <item>._'' @ [BACKQUOTE] @
     '' Never omit a required item silently and never invent organisation specifics to fill it.'' @
     [NL] @
     ''- Before finishing, reconcile your text against the contract item by item: EACH item '' @
     ''must be either delivered with the supplied specifics OR carry its own '' @ [BACKQUOTE] @
     ''_Not covered by current sources: <item>._'' @ [BACKQUOTE] @
     '' line. Writing fluent but off-contract prose about the topic in general '' @ em_dash @
     '' covering adjacent material the grounding happens to be rich in while a contract item '' @
     ''goes unaddressed '' @ em_dash @
     '' is the single most common failure here and is NOT acceptable; a present-in-grounding '' @
     ''item must never be left out because other material was easier to write.'' @ [NL] @ [NL] @
     ''Do NOT output the section heading. Do NOT use # or ## headings. ''"

definition diagram_demand :: "bool \<Rightarrow> gostring" where
  "diagram_demand wants =
     (if wants
      then ''Use ### sparingly only for genuine sub-points. The section contract calls for a '' @
      ''diagram, so you MUST include exactly one small mermaid fenced block capturing the '' @
      ''architecture/flow (grounded in the supplied specifics).'' @ [NL] @ [NL]
      else ''Use ### sparingly only for genuine sub-points. You MAY include one mermaid fenced '' @
      ''block if it aids understanding.'' @ [NL] @ [NL])"

definition composeSectionPrompt :: "(gostring \<Rightarrow> gostring) \<Rightarrow> doc_page \<Rightarrow> doc_section \<Rightarrow> gostring \<Rightarrow> gostring list \<Rightarrow> gostring" where
  "composeSectionPrompt quote page sec kbDigest nonKB =
     ''Page: '' @ dp_Page page @ [NL] @ ''Page intent: '' @ dp_Intent page @ [NL, NL] @
     ''Write ONLY the prose body for the section titled '' @ quote (ds_Title sec) @ ''.'' @ [NL] @
     (if ds_Intent sec \<noteq> []
      then ''Section contract (you MUST satisfy every item it calls for): '' @ ds_Intent sec @ [NL] else []) @
     requirements @
     diagram_demand (wantsDiagram (dp_Intent page) \<or> wantsDiagram (ds_Intent sec)) @
     (if TrimSpace kbDigest \<noteq> []
      then ''Ground every organisation-specific claim ONLY in the following knowledge base '' @
      ''content. Do not invent organisation specifics.'' @ [NL] @ [NL] @
           kbDigest
      else ''(No kb content resolved for this section'' @ [APOS] @ ''s sources.)'' @ [NL]) @
     (if nonKB \<noteq> []
      then [NL] @
           ''Declared sources not yet machine-resolvable (mention only if essential, do not '' @
           ''fabricate their contents): '' @
           Join '', '' nonKB @ [NL]
      else [])"

definition personaBase :: gostring where
  "personaBase =
     ''You are an infrastructure documentation writer. You produce accurate, well-structured '' @
     ''prose for an engineering wiki.'' @ [NL] @ [NL] @ ''Rules:'' @ [NL] @
     ''- Markdown only. No preamble, no postscript, no wrapping code fence.'' @ [NL] @
     ''- No # or ## headings (the page/section headings are set for you).'' @ [NL] @
     ''- Ground every organisation-specific claim (versions, hosts, topology, decisions) ONLY '' @
     ''in the supplied kb content. Do not invent organisation specifics.'' @ [NL] @
     ''- Deliver the section'' @ [APOS] @
     ''s full declared contract: every item it calls for, built from the supplied sources'' @
     [APOS] @
     '' specifics. Generic technology background never substitutes for the organisation'' @
     [APOS] @
     ''s own details, and a required item the sources cannot support must be flagged explicitly '' @
     em_dash @ '' never silently dropped or invented.'' @ [NL] @
     ''- Mermaid (if used): one statement per line; diagram type on its own first line; no '' @
     ''parentheses/slashes/colons/backticks inside node labels; quote subgraph titles; keep it small.''"

definition persona :: "gostring \<Rightarrow> gostring" where
  "persona audience =
     (if audience = ''newcomer''
      then personaBase @ [NL] @
        ''- Audience: a reader with ZERO prior knowledge. Briefly explain the concepts needed '' @
        ''before the specifics.''
      else if audience = ''llm-reference''
      then personaBase @ [NL] @
        ''- Audience: a machine/reference reader. Be terse, dense, and exhaustive over the '' @
        ''supplied facts; minimal narrative.''
      else personaBase @ [NL] @
        ''- Audience: an engineer operating this system. Be precise and operational: where it '' @
        ''runs, how it is built, how to reach it.'')"

record section_feedback =
  Reason :: gostring
  UngroundedClaims :: "gostring list"

definition composeFeedback :: "section_feedback \<Rightarrow> gostring" where
  "composeFeedback fb =
     [NL, NL] @ ''--- REVISION ---'' @ [NL] @
     ''A prior draft of this section was rejected by a reviewer. Rewrite it to fix the '' @
     ''problems below, using ONLY the grounding shown above; do not repeat the draft'' @ [APOS] @
     ''s mistakes.'' @ [NL] @
     (if TrimSpace (Reason fb) \<noteq> []
      then ''Reviewer reason the draft failed its contract: '' @ TrimSpace (Reason fb) @ [NL] else []) @
     (if UngroundedClaims fb \<noteq> []
      then ''Claims the reviewer flagged as unsupported by the grounding '' @ em_dash @
      '' remove each one, or restate it ONLY if the grounding above actually supports it:'' @ [NL] @
           concat (map (\<lambda>c. if TrimSpace c \<noteq> [] then ''- '' @ TrimSpace c @ [NL] else [])
                       (UngroundedClaims fb))
      else [])"

section \<open>Sections\<close>

definition ChildIndexProv :: gostring where "ChildIndexProv = ''architecture-child-index''"

definition arch_rawSources :: "source list \<Rightarrow> gostring" where
  "arch_rawSources srcs = Join ''|'' (map Raw srcs)"

definition section_hash :: "doc_page \<Rightarrow> doc_section \<Rightarrow> gostring" where
  "section_hash page sec =
     hashStr (dp_Page page @ [NUL] @ ds_Title sec @ [NUL] @ ds_Intent sec @ [NUL] @
              arch_rawSources (ds_Sources sec))"

definition foldSection :: "gostring \<Rightarrow> ir_section list \<Rightarrow> gostring \<Rightarrow> ir_section" where
  "foldSection title parsed hash =
     (let blocks = concat (map (\<lambda>p.
            (if Heading p \<noteq> []
             then [ProseBlock (''**'' @ Heading p @ ''**'')
                     (no_prov\<lparr>SpecSection := ''architecture-subhead'', InputHash := hash\<rparr>)]
             else []) @ Blocks p) parsed)
      in \<lparr>Heading = title,
          Blocks = (if blocks = []
            then [ProseBlock
                    (''_No content was available for this section from the declared sources._'')
                    (no_prov\<lparr>SpecSection := ''architecture-gap'', InputHash := hash\<rparr>)]
            else blocks)\<rparr>)"

definition section_error :: "doc_section \<Rightarrow> gomsg \<Rightarrow> gomsg" where
  "section_error sec e = wrapf ''architecture: section %q: %w'' [ds_Title sec] e"

definition synthProse ::
  "(gostring \<Rightarrow> gostring) \<Rightarrow> 'w arch_frontend \<Rightarrow> doc_page \<Rightarrow> doc_section \<Rightarrow> snapshot \<Rightarrow> gostring \<Rightarrow> gostring \<Rightarrow>
   section_feedback option \<Rightarrow> 'w \<Rightarrow> ir_section res \<times> 'w" where
  "synthProse quote f page sec snap sys secHash fb w =
     (case resolveSources f snap (ds_Sources sec) w of
        (Inl e, w) \<Rightarrow> (Inl (section_error sec e), w)
      | (Inr (kbDigest, nonKB), w) \<Rightarrow>
          (let prompt = composeSectionPrompt quote page sec kbDigest nonKB @
                        (case fb of None \<Rightarrow> [] | Some fb \<Rightarrow> composeFeedback fb) in
           case fe_llm f (ask (fe_model f) sys prompt 3072) w of
             (Inl e, w) \<Rightarrow> (Inl (wrapf ''architecture: section %q: llm: %w'' [ds_Title sec] e), w)
           | (Inr resp, w) \<Rightarrow>
               (Inr (foldSection (ds_Title sec)
                       (mdir_Parse (TrimSpace (Text resp)) ''architecture'' secHash) secHash), w)))"

definition render_section ::
  "(gostring \<Rightarrow> gostring) \<Rightarrow> 'w arch_frontend \<Rightarrow> doc_page \<Rightarrow> doc_section \<Rightarrow> snapshot \<Rightarrow> 'w \<Rightarrow> ir_section res \<times> 'w" where
  "render_section quote f page sec snap w =
     (if Render sec = ''child-index''
      then (Inr \<lparr>Heading = ds_Title sec,
                 Blocks = [IndexBlock []
                   (no_prov\<lparr>SpecSection := ChildIndexProv, InputHash := section_hash page sec\<rparr>)]\<rparr>, w)
      else if Render sec = ''table''
      then (case tableFromSources f sec snap (section_hash page sec) w of
              (Inl e, w) \<Rightarrow> (Inl (section_error sec e), w)
            | (Inr tbl, w) \<Rightarrow> (Inr \<lparr>Heading = ds_Title sec, Blocks = [tbl]\<rparr>, w))
      else synthProse quote f page sec snap (persona (Audience page)) (section_hash page sec) None w)"

fun render_sections ::
  "(gostring \<Rightarrow> gostring) \<Rightarrow> 'w arch_frontend \<Rightarrow> doc_page \<Rightarrow> snapshot \<Rightarrow> doc_section list \<Rightarrow> 'w \<Rightarrow> ir_section list res \<times> 'w" where
  "render_sections quote f page snap [] w = (Inr [], w)"
| "render_sections quote f page snap (sec # secs) w =
     (case render_section quote f page sec snap w of
        (Inl e, w) \<Rightarrow> (Inl e, w)
      | (Inr s, w) \<Rightarrow>
          (case render_sections quote f page snap secs w of
             (Inl e, w) \<Rightarrow> (Inl e, w)
           | (Inr ss, w) \<Rightarrow> (Inr (s # ss), w)))"

definition arch_Render ::
  "(gostring \<Rightarrow> gostring) \<Rightarrow> 'w arch_frontend \<Rightarrow> doc_page \<Rightarrow> snapshot \<Rightarrow> 'w \<Rightarrow> ir_document res \<times> 'w" where
  "arch_Render quote f page snap w =
     (case render_sections quote f page snap (dp_Sections page) w of
        (Inl e, w) \<Rightarrow> (Inl e, w)
      | (Inr secs, w) \<Rightarrow>
          (Inr ((new_document (dp_Page page) (hashStr (dp_Page page @ [NUL] @ dp_Intent page)) (Commit snap))
             \<lparr>Sections := secs\<rparr>), w))"

definition ReviseSection ::
  "(gostring \<Rightarrow> gostring) \<Rightarrow> 'w arch_frontend \<Rightarrow> doc_page \<Rightarrow> doc_section \<Rightarrow> snapshot \<Rightarrow> section_feedback \<Rightarrow> 'w \<Rightarrow>
   ir_section res \<times> 'w" where
  "ReviseSection quote f page sec snap fb w =
     synthProse quote f page sec snap (persona (Audience page)) (section_hash page sec) (Some fb) w"

section \<open>The editorial frontend\<close>

definition editorial_systemPrompt :: gostring where
  "editorial_systemPrompt =
     ''You are a wiki editor for an engineering organisation. You write clear wiki pages that '' @
     ''capture institutional knowledge and are understandable by a reader with ZERO prior '' @
     ''knowledge of the subject.'' @ [NL] @ [NL] @ ''Style:'' @ [NL] @
     ''- Markdown output only. No preamble, no postscript. Do not wrap the whole response in '' @
     ''a code fence.'' @ [NL] @ ''- Use ## (and ### for sub-topics) for headings. Do not use # '' @
     em_dash @ '' the page title is set separately.'' @ [NL] @
     ''- Lead a newcomer in: briefly explain what the technology is and the concepts needed '' @
     ''to understand it, THEN the organisation'' @ [APOS] @ ''s specifics.'' @ [NL] @
     ''- Prefer clear prose paragraphs. Include diagrams where they aid understanding using fenced '' @
     [BACKQUOTE] @ [BACKQUOTE] @ [BACKQUOTE] @ ''mermaid blocks (flowchart/sequence/etc.) '' @
     em_dash @ '' diagrams are rendered to images automatically.'' @ [NL] @
     ''- Mermaid rules (diagrams that break do not render '' @ em_dash @ '' follow exactly):'' @
     [NL] @
     ''  * One statement per line. Put the diagram type (e.g. graph TD) on its own first '' @
     ''line; never put node/edge statements on the same line as it or as a subgraph.'' @ [NL] @
     ''  * Node/edge label text must contain NO parentheses, slashes, colons or backticks. '' @
     ''Rephrase instead (write '' @ [QUOT] @ ''Leader'' @ [QUOT] @ '' not '' @ [QUOT] @
     ''(Leader)'' @ [QUOT] @ '', '' @ [QUOT] @ ''vault dot acme dot internal'' @ [QUOT] @
     '' or just '' @ [QUOT] @ ''Vault endpoint'' @ [QUOT] @ '' not a URL).'' @ [NL] @
     ''  * Quote every subgraph title: subgraph '' @ [QUOT] @ ''My Title'' @ [QUOT] @
     ''. Keep titles short and plain.'' @ [NL] @
     ''  * Keep diagrams small (a dozen nodes max); prefer several simple diagrams over one '' @
     ''dense one.'' @ [NL] @
     ''- Ground every organisation-specific claim (versions, topology, decisions) in the '' @
     ''supplied kb content; do not invent organisation specifics. General, well-known '' @
     ''background about the technology itself may be explained to orient the reader.''"

definition editorial_area :: "area \<Rightarrow> gostring" where
  "editorial_area a =
     ''### Area: '' @ a_ID a @ '' '' @ em_dash @ '' '' @ a_Name a @ [NL, NL] @
     (if a_Summary a \<noteq> [] then ''Summary: '' @ a_Summary a @ [NL, NL] else []) @
     concat (map (\<lambda>e. ''- ['' @ e_Type e @ ''/'' @ e_ID e @ ''] '' @ e_Text e @ [NL] @
        (if e_Why e \<noteq> [] then ''    Why: '' @ e_Why e @ [NL] else []) @
        (if e_Rejected e \<noteq> [] then ''    Rejected: '' @ e_Rejected e @ [NL] else [])) (a_Entries a)) @ [NL]"

definition editorial_composePrompt :: "spec \<Rightarrow> snapshot \<Rightarrow> gostring" where
  "editorial_composePrompt sp snap =
     ''# Page: '' @ sp_Page sp @ [NL, NL] @
     (if TrimSpace (sp_Body sp) \<noteq> []
      then ''## Intent'' @ [NL, NL] @ TrimSpace (sp_Body sp) @ [NL, NL] else []) @
     ''## Available kb content'' @ [NL, NL] @
     ''Use only the following knowledge to write the page. Do not invent facts beyond this.'' @
     [NL] @ [NL] @
     concat (map (\<lambda>areaID. case Area snap areaID of None \<Rightarrow> [] | Some a \<Rightarrow> editorial_area a)
                 (inc_Areas (Include sp))) @
     ''Now write the page body, starting with the first ## section heading.'' @ [NL]"

definition editorial_Build :: "'w llm_client \<Rightarrow> gostring \<Rightarrow> spec \<Rightarrow> snapshot \<Rightarrow> 'w \<Rightarrow> ir_document res \<times> 'w" where
  "editorial_Build llm model sp snap w =
     (case llm (ask model editorial_systemPrompt (editorial_composePrompt sp snap) 4096) w of
        (Inl e, w) \<Rightarrow> (Inl (wrapf ''editorial: llm: %w'' [] e), w)
      | (Inr resp, w) \<Rightarrow>
          if TrimSpace (Text resp) = []
          then (Inl (errorf (''editorial: llm returned empty response '' @ em_dash @ '' refusing to push empty page'') []), w)
          else (Inr ((new_document (sp_Page sp) (Hash sp) (Commit snap))
                  \<lparr>Sections := mdir_Parse (Text resp) ''editorial'' (Hash sp)\<rparr>), w))"

definition editorial_frontend :: "'w llm_client \<Rightarrow> gostring \<Rightarrow> 'w frontend" where
  "editorial_frontend llm model =
     \<lparr>fe_Name = ''editorial-frontend'', fe_Kind = ''editorial'', fe_Build = editorial_Build llm model\<rparr>"


section \<open>Properties\<close>

lemma foldSection_facts: "Heading (foldSection t p h) = t" "Blocks (foldSection t p h) \<noteq> []"
  by (simp_all add: foldSection_def Let_def)

lemma synthProse_facts:
  "synthProse quote f page sec snap sys h fb w = (Inr s, w') \<Longrightarrow> Heading s = ds_Title sec \<and> Blocks s \<noteq> []"
  by (auto simp: synthProse_def Let_def foldSection_facts split: prod.splits sum.splits)

lemma render_section_facts:
  "render_section quote f page sec snap w = (Inr s, w') \<Longrightarrow> Heading s = ds_Title sec \<and> Blocks s \<noteq> []"
  by (auto simp: render_section_def dest: synthProse_facts split: if_splits prod.splits sum.splits)

lemma render_sections_facts:
  "render_sections quote f page snap secs w = (Inr ss, w') \<Longrightarrow>
     map Heading ss = map ds_Title secs \<and> list_all (\<lambda>s. Blocks s \<noteq> []) ss"
proof (induction secs arbitrary: ss w w')
  case (Cons sec secs)
  then obtain s w1 ss' w2 where "render_section quote f page sec snap w = (Inr s, w1)"
    "render_sections quote f page snap secs w1 = (Inr ss', w2)" "ss = s # ss'"
    by (auto split: prod.splits sum.splits)
  with Cons.IH render_section_facts show ?case by fastforce
qed simp

text \<open>
  A rendered page has the spec's information architecture: whatever the model answers, the
  sections of the page are exactly the declared ones, in the declared order and under the declared
  titles, and none is empty (a section the model left empty holds the visible gap marker).
\<close>

theorem architecture_sections_as_declared:
  "case fst (arch_Render quote f page snap w) of
     Inl e \<Rightarrow> True
   | Inr doc \<Rightarrow>
       map Heading (Sections doc) = map ds_Title (dp_Sections page) \<and>
       list_all (\<lambda>s. Blocks s \<noteq> []) (Sections doc) \<and>
       Title (Frontmatter doc) = dp_Page page \<and> KBCommit (Frontmatter doc) = Commit snap"
  by (auto simp: arch_Render_def new_document_def dest!: render_sections_facts
           split: prod.splits sum.splits)

lemma resolveSources_kb:
  "list_all (\<lambda>s. Scheme s = ''kb'') srcs \<Longrightarrow>
     resolveSources f snap srcs w = (Inr (concat (map (kb_digest_of snap) srcs), []), w)"
  by (induction srcs) simp_all

lemma SectionGrounding_filter:
  "SectionGrounding snap sec =
     concat (map (kb_digest_of snap) (filter (\<lambda>s. Scheme s = ''kb'') (ds_Sources sec)))"
proof -
  have "concat (map (\<lambda>s. if Scheme s \<noteq> ''kb'' then [] else kb_digest_of snap s) ss) =
        concat (map (kb_digest_of snap) (filter (\<lambda>s. Scheme s = ''kb'') ss))" for ss
    by (induction ss) auto
  then show ?thesis by (simp add: SectionGrounding_def)
qed

text \<open>
  The reviewer sees the grounding the writer saw: for a section whose sources are all kb
  sources, the digest that the synthesis prompt is built from is byte for byte the grounding given
  to the judge, and resolving it asks no resolver.
\<close>

theorem grounding_identical:
  assumes "list_all (\<lambda>s. Scheme s = ''kb'') (ds_Sources sec)"
  shows "resolveSources f snap (ds_Sources sec) w = (Inr (SectionGrounding snap sec, []), w)"
  using assms by (simp add: resolveSources_kb SectionGrounding_filter filter_id_conv list_all_iff)

definition vault_snapshot :: "gostring list \<Rightarrow> snapshot" where
  "vault_snapshot tags =
     \<lparr>Commit = ''c'', ChangedAreas = [],
      Areas = [\<lparr>a_ID = ''vault'', a_Name = ''Vault'', a_Summary = [], a_Tags = [],
                a_Entries = [\<lparr>e_ID = ''1'', e_Area = ''vault'', e_Type = ''fact'', e_Text = ''x'', e_Tags = tags,
                  e_Zone = [], e_Created = [], e_Updated = [],
                  e_Provenance = \<lparr>Status = [], ep_Source = []\<rparr>, e_Why = [], e_Rejected = [],
                  e_Context = [], e_URL = []\<rparr>]\<rparr>]\<rparr>"

definition kb_source :: "gostring \<Rightarrow> source" where
  "kb_source t = \<lparr>Scheme = ''kb'', src_Spec = t, Raw = ''kb:'' @ t\<rparr>"

definition vault_section :: "gostring \<Rightarrow> doc_section" where
  "vault_section t = \<lparr>ds_Title = ''S'', ds_Intent = ''i'', Render = [], ds_Sources = [kb_source t]\<rparr>"

theorem grounding_identical_witness:
  "resolveSources \<lparr>fe_llm = echo, fe_model = [], resolvers = Map.empty\<rparr> (vault_snapshot [])
     (ds_Sources (vault_section ''area=vault'')) 0 =
   (Inr (SectionGrounding (vault_snapshot []) (vault_section ''area=vault''), []), 0)"
  by (rule grounding_identical) (simp add: vault_section_def kb_source_def)

text \<open>
  A kb source resolves to what it declares: it needs the kb scheme and an area of the snapshot,
  and then yields exactly the area's entries, in order, that carry one of the declared tags (when
  there are any) and lie in one of the declared zones (when there are any).
\<close>

theorem resolve_kb_selects:
  "case ResolveKB snap s of
     None \<Rightarrow> Scheme s \<noteq> ''kb'' \<or>
       (let areaID = fst (fold kb_token (Fields (src_Spec s)) ([], [], [])) in
        areaID = [] \<or> areaID \<notin> a_ID ` set (Areas snap))
   | Some (a, es) \<Rightarrow>
       Scheme s = ''kb'' \<and> a \<in> set (Areas snap) \<and> a_ID a \<noteq> [] \<and>
       (case fold kb_token (Fields (src_Spec s)) ([], [], []) of
          (areaID, tags, zones) \<Rightarrow> a_ID a = areaID \<and> es = filter (entry_selected tags zones) (a_Entries a))"
  using Area_Some [of snap] Area_None [of snap]
  by (auto simp: ResolveKB_def entry_selected_def Let_def split: prod.splits option.splits)

text \<open>
  The editorial frontend never yields an empty page silently: an answer that is blank is an
  error, and otherwise the document has the spec's title and hash and the sections of the parsed
  answer.
\<close>

theorem editorial_refuses_empty:
  "case editorial_Build llm model sp snap w of
     (Inl e, w') \<Rightarrow>
       (case llm (ask model editorial_systemPrompt (editorial_composePrompt sp snap) 4096) w of
          (Inl e', _) \<Rightarrow> True | (Inr r, _) \<Rightarrow> TrimSpace (Text r) = [])
   | (Inr doc, w') \<Rightarrow>
       Title (Frontmatter doc) = sp_Page sp \<and> SpecHash (Frontmatter doc) = Hash sp \<and>
       (\<exists>r. llm (ask model editorial_systemPrompt (editorial_composePrompt sp snap) 4096) w = (Inr r, w') \<and>
            TrimSpace (Text r) \<noteq> [] \<and> Sections doc = mdir_Parse (Text r) ''editorial'' (Hash sp))"
  by (auto simp: editorial_Build_def new_document_def split: prod.splits sum.splits)

end
