(* ===== verification/Cluster.thy ===== *)
theory Cluster
  imports Architecture
begin

text \<open>
  Expansion of a doc-spec cluster into rendered pages with their cross-links
  (cluster/cluster.go).  The page renderer is a function on the world.
\<close>

section \<open>The code\<close>

type_synonym 'w renderer = "doc_page \<Rightarrow> snapshot \<Rightarrow> 'w \<Rightarrow> ir_document res \<times> 'w"

record rendered_page =
  rp_Page :: gostring
  rp_Kind :: gostring
  rp_Doc :: ir_document

definition pageLabel :: "gostring \<Rightarrow> gostring" where
  "pageLabel page =
     replace_byte (CHR ''_'') '' ''
       (case LastIndexByte page (CHR ''/'') of Some i \<Rightarrow> drop (Suc i) page | None \<Rightarrow> page)"

definition child_entries :: "doc_spec \<Rightarrow> index_entry list" where
  "child_entries sp =
     map (\<lambda>ch. \<lparr>ie_Page = dp_Page ch, ie_Label = pageLabel (dp_Page ch), ie_Desc = dp_Intent ch\<rparr>) (Children sp)"

definition fill_block :: "index_entry list \<Rightarrow> block \<Rightarrow> block" where
  "fill_block entries b =
     (case b of
        IndexBlock es p \<Rightarrow> if SpecSection p \<noteq> ChildIndexProv then b else IndexBlock entries p
      | _ \<Rightarrow> b)"

definition fillChildIndex :: "ir_document \<Rightarrow> doc_spec \<Rightarrow> ir_document" where
  "fillChildIndex doc sp = map_blocks (map (fill_block (child_entries sp))) doc"

definition prependPartOf :: "ir_document \<Rightarrow> gostring \<Rightarrow> gostring \<Rightarrow> ir_document" where
  "prependPartOf doc topic parentPage =
     doc\<lparr>Sections :=
       \<lparr>Heading = ''Part of'',
        Blocks = [IndexBlock [\<lparr>ie_Page = parentPage, ie_Label = topic, ie_Desc = []\<rparr>]
                    (no_prov\<lparr>SpecSection := ''cluster-part-of''\<rparr>)]\<rparr> # Sections doc\<rparr>"

definition clean_titles :: "gostring list \<Rightarrow> gostring list" where
  "clean_titles ts = filter (\<lambda>t. t \<noteq> []) (map TrimSpace ts)"

definition appendRelated :: "ir_document \<Rightarrow> gostring list \<Rightarrow> ir_document" where
  "appendRelated doc related =
     (let entries = map (\<lambda>r. \<lparr>ie_Page = r, ie_Label = pageLabel r, ie_Desc = []\<rparr>) (clean_titles related) in
      if entries = [] then doc
      else doc\<lparr>Sections := Sections doc @
             [\<lparr>Heading = ''Related pages'',
               Blocks = [IndexBlock entries (no_prov\<lparr>SpecSection := ''cluster-related''\<rparr>)]\<rparr>]\<rparr>)"

definition appendCategories :: "ir_document \<Rightarrow> gostring list \<Rightarrow> ir_document" where
  "appendCategories doc cats =
     (let names = clean_titles cats in
      if names = [] then doc
      else doc\<lparr>Sections := Sections doc @
             [\<lparr>Heading = [], Blocks = [CategoryBlock names (no_prov\<lparr>SpecSection := ''cluster-categories''\<rparr>)]\<rparr>]\<rparr>)"

definition link_page :: "doc_spec \<Rightarrow> nat \<Rightarrow> doc_page \<Rightarrow> ir_document \<Rightarrow> ir_document" where
  "link_page sp idx p doc =
     appendCategories
       (appendRelated
         (if idx = 0 then fillChildIndex doc sp
          else prependPartOf doc (Topic sp) (dp_Page (ParentPage sp)))
         (Related p))
       (Categories p)"

fun render_pages :: "'w renderer \<Rightarrow> doc_spec \<Rightarrow> snapshot \<Rightarrow> nat \<Rightarrow> doc_page list \<Rightarrow> 'w \<Rightarrow> rendered_page list res \<times> 'w" where
  "render_pages fe sp snap idx [] w = (Inr [], w)"
| "render_pages fe sp snap idx (p # ps) w =
     (case fe p snap w of
        (Inl e, w) \<Rightarrow> (Inl e, w)
      | (Inr doc, w) \<Rightarrow>
          (case render_pages fe sp snap (Suc idx) ps w of
             (Inl e, w) \<Rightarrow> (Inl e, w)
           | (Inr rest, w) \<Rightarrow>
               (Inr (\<lparr>rp_Page = dp_Page p, rp_Kind = dp_Kind p, rp_Doc = link_page sp idx p doc\<rparr> # rest), w)))"

definition cluster_Render :: "'w renderer \<Rightarrow> doc_spec \<Rightarrow> snapshot \<Rightarrow> 'w \<Rightarrow> rendered_page list res \<times> 'w" where
  "cluster_Render fe sp snap w = render_pages fe sp snap 0 (spec_pages sp) w"

section \<open>Cross-links\<close>

definition is_placeholder :: "block \<Rightarrow> bool" where
  "is_placeholder b = (case b of IndexBlock es p \<Rightarrow> SpecSection p = ChildIndexProv | _ \<Rightarrow> False)"

definition block_entries :: "block \<Rightarrow> index_entry list" where
  "block_entries b = (case b of IndexBlock es p \<Rightarrow> es | _ \<Rightarrow> [])"

lemma is_placeholder_iff [simp]:
  "is_placeholder (IndexBlock es p) \<longleftrightarrow> SpecSection p = ChildIndexProv"
  "\<not> is_placeholder (CategoryBlock ns p)"
  by (simp_all add: is_placeholder_def)

lemma fill_block_facts:
  "is_placeholder (fill_block es b) = is_placeholder b"
  "is_placeholder b \<Longrightarrow> block_entries (fill_block es b) = es"
  "\<not> is_placeholder b \<Longrightarrow> fill_block es b = b"
  by (auto simp: fill_block_def is_placeholder_def block_entries_def split: block.splits)

text \<open>
  The links of a page: its filled child index or its backlink, and, at the end, the related pages
  and the categories; what the renderer produced stays in between, in order.
\<close>

definition linked_ok :: "doc_spec \<Rightarrow> bool \<Rightarrow> doc_page \<Rightarrow> ir_document \<Rightarrow> ir_document \<Rightarrow> bool" where
  "linked_ok sp is_parent p doc out =
     (Frontmatter out = Frontmatter doc \<and>
      (\<exists>front body back. Sections out = front @ body @ back \<and>
         map Heading body = map Heading (Sections doc) \<and>
         (if is_parent
          then front = [] \<and>
               map (map is_placeholder \<circ> Blocks) body = map (map is_placeholder \<circ> Blocks) (Sections doc) \<and>
               (\<forall>s \<in> set body. \<forall>b \<in> set (Blocks s). is_placeholder b \<longrightarrow>
                  map ie_Page (block_entries b) = map dp_Page (Children sp)) \<and>
               map (filter (\<lambda>b. \<not> is_placeholder b) \<circ> Blocks) body =
                 map (filter (\<lambda>b. \<not> is_placeholder b) \<circ> Blocks) (Sections doc)
          else body = Sections doc \<and> map Heading front = [''Part of''] \<and>
               concat (map (map ie_Page \<circ> block_entries) (concat (map Blocks front))) =
                 [dp_Page (ParentPage sp)]) \<and>
         concat (map (map ie_Page \<circ> block_entries) (concat (map Blocks back))) = clean_titles (Related p) \<and>
         (clean_titles (Categories p) \<noteq> [] \<longrightarrow>
            Blocks (last back) = [CategoryBlock (clean_titles (Categories p))
                                    (no_prov\<lparr>SpecSection := ''cluster-categories''\<rparr>)])))"

definition related_back :: "gostring list \<Rightarrow> ir_section list" where
  "related_back related = Sections (appendRelated ((new_document [] [] [])\<lparr>Sections := []\<rparr>) related)"

definition category_back :: "gostring list \<Rightarrow> ir_section list" where
  "category_back cats = Sections (appendCategories ((new_document [] [] [])\<lparr>Sections := []\<rparr>) cats)"

lemma appendRelated_back:
  "appendRelated doc r = doc\<lparr>Sections := Sections doc @ related_back r\<rparr>"
  by (simp add: appendRelated_def related_back_def Let_def)

lemma appendCategories_back:
  "appendCategories doc c = doc\<lparr>Sections := Sections doc @ category_back c\<rparr>"
  by (simp add: appendCategories_def category_back_def Let_def)

lemma back_facts:
  "concat (map (map ie_Page \<circ> block_entries) (concat (map Blocks (related_back r @ category_back c)))) =
     clean_titles r"
  "clean_titles c \<noteq> [] \<Longrightarrow>
     Blocks (last (related_back r @ category_back c)) =
       [CategoryBlock (clean_titles c) (no_prov\<lparr>SpecSection := ''cluster-categories''\<rparr>)]"
  by (auto simp: related_back_def category_back_def appendRelated_def appendCategories_def Let_def
        block_entries_def comp_def)

lemma linked_okI:
  assumes "Frontmatter out = Frontmatter doc" and "Sections out = front @ body @ back"
    and "map Heading body = map Heading (Sections doc)"
    and "if is_parent
          then front = [] \<and>
               map (map is_placeholder \<circ> Blocks) body = map (map is_placeholder \<circ> Blocks) (Sections doc) \<and>
               (\<forall>s \<in> set body. \<forall>b \<in> set (Blocks s). is_placeholder b \<longrightarrow>
                  map ie_Page (block_entries b) = map dp_Page (Children sp)) \<and>
               map (filter (\<lambda>b. \<not> is_placeholder b) \<circ> Blocks) body =
                 map (filter (\<lambda>b. \<not> is_placeholder b) \<circ> Blocks) (Sections doc)
          else body = Sections doc \<and> map Heading front = [''Part of''] \<and>
               concat (map (map ie_Page \<circ> block_entries) (concat (map Blocks front))) =
                 [dp_Page (ParentPage sp)]"
    and "back = related_back (Related p) @ category_back (Categories p)"
  shows "linked_ok sp is_parent p doc out"
  unfolding linked_ok_def
  by (intro conjI exI [of _ front] exI [of _ body] exI [of _ "back"] impI assms)
     (unfold assms(5), rule back_facts(1), erule back_facts(2))

lemma link_page_ok: "linked_ok sp (idx = 0) p doc (link_page sp idx p doc)"
proof (cases "idx = 0")
  case True
  let ?body = "Sections (fillChildIndex doc sp)"
  have entries: "map ie_Page (child_entries sp) = map dp_Page (Children sp)"
    by (simp add: child_entries_def)
  have "Sections (link_page sp idx p doc) = [] @ ?body @ (related_back (Related p) @ category_back (Categories p))"
    using True by (simp add: link_page_def appendRelated_back appendCategories_back)
  moreover have "map Heading ?body = map Heading (Sections doc)" by (simp add: fillChildIndex_def)
  moreover have "map (map is_placeholder \<circ> Blocks) ?body = map (map is_placeholder \<circ> Blocks) (Sections doc)"
    by (simp add: fillChildIndex_def map_blocks_def comp_def fill_block_facts)
  moreover have "\<forall>s \<in> set ?body. \<forall>b \<in> set (Blocks s). is_placeholder b \<longrightarrow>
      map ie_Page (block_entries b) = map dp_Page (Children sp)"
    by (auto simp: fillChildIndex_def map_blocks_def fill_block_facts entries)
  moreover have "filter (\<lambda>b. \<not> is_placeholder b) (map (fill_block es) bs) = filter (\<lambda>b. \<not> is_placeholder b) bs" for es bs
    by (induction bs) (auto simp: fill_block_facts)
  then have "map (filter (\<lambda>b. \<not> is_placeholder b) \<circ> Blocks) ?body =
      map (filter (\<lambda>b. \<not> is_placeholder b) \<circ> Blocks) (Sections doc)"
    by (simp add: fillChildIndex_def map_blocks_def comp_def)
  moreover have "Frontmatter (link_page sp idx p doc) = Frontmatter doc"
    using True by (simp add: link_page_def appendRelated_back appendCategories_back fillChildIndex_def)
  ultimately show ?thesis using True by (intro linked_okI [where body = "?body"]) simp_all
next
  case False
  let ?front = "[\<lparr>Heading = ''Part of'',
        Blocks = [IndexBlock [\<lparr>ie_Page = dp_Page (ParentPage sp), ie_Label = Topic sp, ie_Desc = []\<rparr>]
                    (no_prov\<lparr>SpecSection := ''cluster-part-of''\<rparr>)]\<rparr>]"
  have "Sections (link_page sp idx p doc) =
      ?front @ Sections doc @ (related_back (Related p) @ category_back (Categories p))"
    using False by (simp add: link_page_def appendRelated_back appendCategories_back prependPartOf_def)
  moreover have "Frontmatter (link_page sp idx p doc) = Frontmatter doc"
    using False by (simp add: link_page_def appendRelated_back appendCategories_back prependPartOf_def)
  moreover have "map Heading ?front = [''Part of'']"
    "concat (map (map ie_Page \<circ> block_entries) (concat (map Blocks ?front))) = [dp_Page (ParentPage sp)]"
    by (simp_all add: block_entries_def)
  ultimately show ?thesis using False by (intro linked_okI [where front = "?front"]) simp_all
qed

lemma render_pages_ok:
  "render_pages fe sp snap idx ps w = (Inr rs, w') \<Longrightarrow>
     length rs = length ps \<and>
     (\<forall>i < length ps. rp_Page (rs ! i) = dp_Page (ps ! i) \<and> rp_Kind (rs ! i) = dp_Kind (ps ! i) \<and>
        (\<exists>doc w1 w2. fe (ps ! i) snap w1 = (Inr doc, w2) \<and>
                     linked_ok sp (idx + i = 0) (ps ! i) doc (rp_Doc (rs ! i))))"
proof (induction ps arbitrary: idx w rs)
  case (Cons p ps)
  then obtain doc w1 rest where step: "fe p snap w = (Inr doc, w1)"
    "render_pages fe sp snap (Suc idx) ps w1 = (Inr rest, w')"
    "rs = \<lparr>rp_Page = dp_Page p, rp_Kind = dp_Kind p, rp_Doc = link_page sp idx p doc\<rparr> # rest"
    by (auto split: prod.splits sum.splits)
  have "\<exists>doc' w3 w4. fe p snap w3 = (Inr doc', w4) \<and> linked_ok sp (idx = 0) p doc' (link_page sp idx p doc)"
    using step(1) link_page_ok by blast
  with step Cons.IH [OF step(2)] show ?case by (auto simp: nth_Cons split: nat.splits)
qed simp

text \<open>
  A cluster renders to its pages with their cross-links: there is one rendered page per
  declared page, the parent first and then the children in their order, and each is what the page
  renderer made of it with the links added: in the parent every child-index placeholder lists
  exactly the children, in order, and nothing else of the page changes; a child starts with a "Part
  of" section that links the parent page and is followed by its own sections unchanged; the related
  titles that are not blank are linked at the end, and the categories close the page.
\<close>

theorem cluster_pages_linked:
  "case fst (cluster_Render fe sp snap w) of
     Inl e \<Rightarrow> True
   | Inr rs \<Rightarrow>
       map rp_Page rs = dp_Page (ParentPage sp) # map dp_Page (Children sp) \<and>
       list_all (\<lambda>i. \<exists>doc w1 w2. fe (spec_pages sp ! i) snap w1 = (Inr doc, w2) \<and>
            linked_ok sp (i = 0) (spec_pages sp ! i) doc (rp_Doc (rs ! i))) [0..<length rs]"
proof (cases "cluster_Render fe sp snap w")
  case (Pair r w')
  show ?thesis
  proof (cases r)
    case (Inr rs)
    with Pair have "render_pages fe sp snap 0 (spec_pages sp) w = (Inr rs, w')"
      by (simp add: cluster_Render_def)
    note ok = render_pages_ok [OF this]
    then have "map rp_Page rs = map dp_Page (spec_pages sp)"
      by (intro nth_equalityI) auto
    moreover from ok have "list_all (\<lambda>i. \<exists>doc w1 w2. fe (spec_pages sp ! i) snap w1 = (Inr doc, w2) \<and>
        linked_ok sp (i = 0) (spec_pages sp ! i) doc (rp_Doc (rs ! i))) [0..<length rs]"
      by (force simp: list_all_iff)
    ultimately show ?thesis by (simp add: Pair Inr spec_pages_def del: upt_Suc)
  qed (simp add: Pair)
qed

end
