(* ===== verification/Judge.thy ===== *)
theory Judge
  imports Cluster
begin

text \<open>
  The page reviewer (internal/judge/judge.go).  Decoding the extracted JSON object is a parameter:
  \<open>encoding/json\<close> applied to the code's verdict struct.
\<close>

section \<open>The code\<close>

record verdict =
  v_Section :: gostring
  Pass :: bool
  Inconclusive :: bool
  v_Reason :: gostring
  v_Ungrounded :: "gostring list"

record report =
  r_Page :: gostring
  Verdicts :: "verdict list"

definition AllPass :: "report \<Rightarrow> bool" where
  "AllPass r = (\<forall>v \<in> set (Verdicts r). Pass v \<and> \<not> Inconclusive v)"

text \<open>The struct the object is decoded into: pass, reason, ungrounded claims.\<close>

type_synonym verdict_json = "bool \<times> gostring \<times> gostring list"

text \<open>The scan of \<open>extractJSONObject\<close> from its state; the number is of bytes up to the closing brace.\<close>

fun json_scan :: "int \<Rightarrow> bool \<Rightarrow> bool \<Rightarrow> gostring \<Rightarrow> nat option" where
  "json_scan depth inStr esc [] = None"
| "json_scan depth inStr esc (c # cs) =
     (if esc then map_option Suc (json_scan depth inStr False cs)
      else if c = BSLASH \<and> inStr then map_option Suc (json_scan depth inStr True cs)
      else if c = QUOT then map_option Suc (json_scan depth (\<not> inStr) esc cs)
      else if inStr then map_option Suc (json_scan depth inStr esc cs)
      else if c = CHR ''{'' then map_option Suc (json_scan (depth + 1) inStr esc cs)
      else if c = CHR ''}''
      then (if depth - 1 = 0 then Some 1 else map_option Suc (json_scan (depth - 1) inStr esc cs))
      else map_option Suc (json_scan depth inStr esc cs))"

definition extractJSONObject :: "gostring \<Rightarrow> gostring option" where
  "extractJSONObject s =
     (case IndexByte s (CHR ''{'') of
        None \<Rightarrow> None
      | Some start \<Rightarrow>
          (case json_scan 0 False False (drop start s) of
             None \<Rightarrow> None
           | Some n \<Rightarrow> Some (take n (drop start s))))"

definition inconclusive :: "gostring \<Rightarrow> verdict" where
  "inconclusive sec =
     \<lparr>v_Section = sec, Pass = False, Inconclusive = True,
      v_Reason = ''judge response was not parseable JSON'', v_Ungrounded = []\<rparr>"

definition parseVerdict :: "(gostring \<Rightarrow> verdict_json res) \<Rightarrow> gostring \<Rightarrow> gostring \<Rightarrow> verdict" where
  "parseVerdict decode sec raw =
     (case extractJSONObject raw of
        None \<Rightarrow> inconclusive sec
      | Some obj \<Rightarrow>
          (case decode obj of
             Inl e \<Rightarrow> inconclusive sec
           | Inr (p, reason, claims) \<Rightarrow>
               \<lparr>v_Section = sec, Pass = p, Inconclusive = False, v_Reason = TrimSpace reason,
                v_Ungrounded = claims\<rparr>))"

definition prose_text :: "block list \<Rightarrow> gostring" where
  "prose_text bs = concat (map (\<lambda>b. case b of ProseBlock t _ \<Rightarrow> t @ [NL] | _ \<Rightarrow> []) bs)"

text \<open>A later section of the same heading replaces an earlier one, when it has text.\<close>

definition proseByHeading :: "ir_document \<Rightarrow> gostring \<Rightarrow> gostring" where
  "proseByHeading doc =
     fold (\<lambda>s m. let t = TrimSpace (prose_text (Blocks s)) in if t \<noteq> [] then m(Heading s := t) else m)
       (Sections doc) (\<lambda>_. [])"

definition judge_systemPrompt :: gostring where
  "judge_systemPrompt =
     ''You are a documentation reviewer. You judge whether a wiki section delivers on its '' @
     ''stated intent and whether every organisation-specific claim is supported by the '' @
     ''grounding shown to you.'' @ [NL] @ [NL] @
     ''Reply with ONLY a JSON object, no prose around it:'' @ [NL] @ ''{'' @ [QUOT] @ ''pass'' @
     [QUOT] @ '': <bool>, '' @ [QUOT] @ ''reason'' @ [QUOT] @ '': '' @ [QUOT] @
     ''<one sentence>'' @ [QUOT] @ '', '' @ [QUOT] @ ''ungrounded_claims'' @ [QUOT] @ '': ['' @
     [QUOT] @ ''<verbatim claim not supported by the shown grounding>'' @ [QUOT] @ '', ...]}'' @
     [NL] @ [NL] @
     ''Verify every organisation-specific claim (a version, host, topology, count, decision, '' @
     ''credential) against the '' @ [QUOT] @ ''Source grounding'' @ [QUOT] @ '' block:'' @ [NL] @
     ''- A claim that is supported by the shown grounding IS grounded '' @ em_dash @
     '' do NOT flag it.'' @ [NL] @
     ''- An organisation-specific claim absent from the shown grounding is ungrounded.'' @ [NL] @
     ''- General, well-known background about the technology itself is never an ungrounded claim.'' @
     [NL] @
     ''- If NO grounding is shown for the section, you cannot assess groundedness: review the '' @
     ''intent only and return ungrounded_claims: [] '' @ em_dash @
     '' never infer ungroundedness from the absence of grounding.'' @ [NL] @ [NL] @
     ''pass=false only if the section does not satisfy the intent OR has a genuinely '' @
     ''ungrounded organisation-specific claim. ungrounded_claims is [] when there are none.''"

definition judge_composePrompt :: "doc_page \<Rightarrow> doc_section \<Rightarrow> gostring \<Rightarrow> gostring \<Rightarrow> gostring" where
  "judge_composePrompt page sec body grounding =
     ''Page intent: '' @ dp_Intent page @ [NL, NL] @
     ''Section: '' @ ds_Title sec @ [NL] @
     ''Section intent (the contract): '' @ ds_Intent sec @ [NL, NL] @
     (if ds_Sources sec \<noteq> []
      then ''Declared sources for this section:'' @ [NL] @
           concat (map (\<lambda>s. ''- '' @ Raw s @ [NL]) (ds_Sources sec)) @ [NL]
      else []) @
     (if TrimSpace grounding \<noteq> []
      then ''Source grounding (the resolved source material this section must be faithful to '' @
      em_dash @
      '' verify every organisation-specific claim against THIS; a claim supported here is grounded):'' @
      [NL] @ ''---'' @ [NL] @
           TrimSpace grounding @ [NL] @ ''---'' @ [NL, NL]
      else ''Source grounding: NONE was machine-resolvable for this section'' @ [APOS] @
      ''s sources. You therefore cannot assess groundedness '' @ em_dash @
      '' review intent only and do not infer ungrounded claims from this absence.'' @ [NL] @ [NL]) @
     ''Rendered section text:'' @ [NL] @ ''---'' @ [NL] @ body @ [NL] @ ''---'' @ [NL]"

definition judged :: "doc_section \<Rightarrow> bool" where
  "judged sec = (Render sec = [] \<and> TrimSpace (ds_Intent sec) \<noteq> [])"

fun review_sections ::
  "(gostring \<Rightarrow> verdict_json res) \<Rightarrow> 'w llm_client \<Rightarrow> gostring \<Rightarrow> doc_page \<Rightarrow> (gostring \<Rightarrow> gostring) \<Rightarrow>
   (gostring \<Rightarrow> gostring) \<Rightarrow> doc_section list \<Rightarrow> 'w \<Rightarrow> verdict list res \<times> 'w" where
  "review_sections decode llm model page bodies grounding [] w = (Inr [], w)"
| "review_sections decode llm model page bodies grounding (sec # secs) w =
     (if \<not> judged sec then review_sections decode llm model page bodies grounding secs w
      else
        (let body = TrimSpace (bodies (ds_Title sec)) in
         if body = []
         then (case review_sections decode llm model page bodies grounding secs w of
                 (Inl e, w) \<Rightarrow> (Inl e, w)
               | (Inr vs, w) \<Rightarrow>
                   (Inr (\<lparr>v_Section = ds_Title sec, Pass = False, Inconclusive = False,
                          v_Reason = ''section is missing or empty in the rendered page'',
                          v_Ungrounded = []\<rparr> # vs), w))
         else (case llm (ask model judge_systemPrompt
                           (judge_composePrompt page sec body (grounding (ds_Title sec))) 1024) w of
                 (Inl e, w) \<Rightarrow> (Inl (wrapf ''judge: section %q: llm: %w'' [ds_Title sec] e), w)
               | (Inr resp, w) \<Rightarrow>
                   (case review_sections decode llm model page bodies grounding secs w of
                      (Inl e, w) \<Rightarrow> (Inl e, w)
                    | (Inr vs, w) \<Rightarrow> (Inr (parseVerdict decode (ds_Title sec) (Text resp) # vs), w)))))"

definition Review ::
  "(gostring \<Rightarrow> verdict_json res) \<Rightarrow> 'w llm_client \<Rightarrow> gostring \<Rightarrow> doc_page \<Rightarrow> ir_document \<Rightarrow>
   (gostring \<Rightarrow> gostring) \<Rightarrow> 'w \<Rightarrow> report res \<times> 'w" where
  "Review decode llm model page doc grounding w =
     (case review_sections decode llm model page (proseByHeading doc) grounding (dp_Sections page) w of
        (Inl e, w) \<Rightarrow> (Inl e, w)
      | (Inr vs, w) \<Rightarrow> (Inr \<lparr>r_Page = dp_Page page, Verdicts = vs\<rparr>, w))"

section \<open>Balanced objects\<close>

text \<open>The state of the scan after a text: the depth, inside a string, after a backslash.\<close>

fun json_step :: "char \<Rightarrow> int \<times> bool \<times> bool \<Rightarrow> int \<times> bool \<times> bool" where
  "json_step c (depth, inStr, esc) =
     (if esc then (depth, inStr, False)
      else if inStr then (if c = BSLASH then (depth, True, True) else (depth, c \<noteq> QUOT, False))
      else if c = QUOT then (depth, True, False)
      else (depth + (if c = CHR ''{'' then 1 else if c = CHR ''}'' then -1 else 0), False, False))"

definition json_state :: "gostring \<Rightarrow> int \<times> bool \<times> bool" where
  "json_state s = fold json_step s (0, False, False)"

lemma json_scan_step:
  "json_scan d i e (c # cs) =
     (case json_step c (d, i, e) of
        (d', i', e') \<Rightarrow>
          if \<not> e \<and> \<not> i \<and> c = CHR ''}'' \<and> d' = 0 then Some 1 else map_option Suc (json_scan d' i' e' cs))"
  by auto

lemma json_scan_Some:
  "json_scan d i e s = Some n \<Longrightarrow> 1 \<le> d \<Longrightarrow>
     0 < n \<and> n \<le> length s \<and> fold json_step (take n s) (d, i, e) = (0, False, False) \<and>
     (\<forall>k < n. 1 \<le> fst (fold json_step (take k s) (d, i, e)))"
proof (induction s arbitrary: d i e n)
  case (Cons c cs)
  obtain d' i' e' where st: "json_step c (d, i, e) = (d', i', e')" by (cases "json_step c (d, i, e)") auto
  show ?case
  proof (cases "\<not> e \<and> \<not> i \<and> c = CHR ''}'' \<and> d' = 0")
    case True
    with Cons.prems st have "n = 1" by (simp add: json_scan_step del: json_scan.simps(2) json_step.simps)
    moreover have "i' = False" "e' = False" using True st by (auto simp: split: if_splits)
    ultimately show ?thesis using Cons.prems st True by simp
  next
    case False
    then have d': "1 \<le> d'" using st Cons.prems(2) by (auto split: if_splits)
    from Cons.prems st False obtain m where m: "json_scan d' i' e' cs = Some m" "n = Suc m"
      by (auto simp: json_scan_step simp del: json_scan.simps(2) json_step.simps)
    from Cons.IH [OF m(1) d'] have ih: "0 < m" "m \<le> length cs"
      "fold json_step (take m cs) (d', i', e') = (0, False, False)"
      "\<forall>k < m. 1 \<le> fst (fold json_step (take k cs) (d', i', e'))" by auto
    have "1 \<le> fst (fold json_step (take k (c # cs)) (d, i, e))" if "k < n" for k
      using that ih(4) m(2) st Cons.prems(2) by (cases k) (simp_all del: json_step.simps)
    with ih m st show ?thesis by (simp del: json_step.simps)
  qed
qed simp

lemma json_scan_None:
  "json_scan d i e s = None \<Longrightarrow> 1 \<le> d \<Longrightarrow> 1 \<le> fst (fold json_step (take k s) (d, i, e))"
proof (induction s arbitrary: d i e k)
  case (Cons c cs)
  obtain d' i' e' where st: "json_step c (d, i, e) = (d', i', e')" by (cases "json_step c (d, i, e)") auto
  with Cons.prems(1) have n: "json_scan d' i' e' cs = None"
    "\<not> (\<not> e \<and> \<not> i \<and> c = CHR ''}'' \<and> d' = 0)"
    by (auto simp: json_scan_step simp del: json_scan.simps(2) json_step.simps split: if_splits)
  have "1 \<le> d'" using n(2) st Cons.prems(2) by (auto split: if_splits)
  from Cons.IH [OF n(1) this] st Cons.prems(2) show ?case by (cases k) (simp_all del: json_step.simps)
qed simp

lemma IndexByte_first: "IndexByte s x = Some i \<Longrightarrow> i < length s \<and> s ! i = x \<and> x \<notin> set (take i s)"
  by (induction s arbitrary: i) (auto split: if_splits)

lemma IndexByte_None: "IndexByte s x = None \<longleftrightarrow> x \<notin> set s"
  by (induction s) auto

lemma first_byte_split:
  "a @ x # b = a' @ x # b' \<Longrightarrow> x \<notin> set a \<Longrightarrow> x \<notin> set a' \<Longrightarrow> a = a' \<and> b = b'"
proof (induction a arbitrary: a')
  case Nil
  then show ?case by (cases a') auto
next
  case (Cons y a)
  then show ?case by (cases a') auto
qed

text \<open>
  The JSON object taken out of a model's answer is the first balanced one: it starts at the
  first opening brace of the answer, braces outside JSON strings balance at its end and at no
  earlier point, and when there is none the text from the first opening brace never balances.
\<close>

theorem extract_first_balanced:
  "case extractJSONObject s of
     Some obj \<Rightarrow> \<exists>a b. s = a @ obj @ b \<and> CHR ''{'' \<notin> set a \<and> hd obj = CHR ''{'' \<and>
       json_state obj = (0, False, False) \<and>
       (\<forall>k. 0 < k \<and> k < length obj \<longrightarrow> 1 \<le> fst (json_state (take k obj)))
   | None \<Rightarrow> \<forall>a b. s = a @ CHR ''{'' # b \<longrightarrow> CHR ''{'' \<notin> set a \<longrightarrow>
       (\<forall>k. 1 \<le> fst (json_state (CHR ''{'' # take k b)))"
proof (cases "IndexByte s (CHR ''{'')")
  case None
  then have "CHR ''{'' \<notin> set s" by (simp add: IndexByte_None)
  with None show ?thesis by (auto simp: extractJSONObject_def)
next
  case (Some i)
  then obtain b where b: "drop i s = CHR ''{'' # b" and a: "CHR ''{'' \<notin> set (take i s)"
    using IndexByte_first [OF Some] by (metis Cons_nth_drop_Suc)
  then have s: "s = take i s @ CHR ''{'' # b" by (metis append_take_drop_id)
  have scan: "json_scan 0 False False (drop i s) = map_option Suc (json_scan 1 False False b)"
    by (simp add: b)
  show ?thesis
  proof (cases "json_scan 1 False False b")
    case None
    have "1 \<le> fst (json_state (CHR ''{'' # take k b))" for k
      using json_scan_None [OF None, of k] by (simp add: json_state_def)
    moreover have "b' = b" if "s = a' @ CHR ''{'' # b'" "CHR ''{'' \<notin> set a'" for a' b'
    proof -
      have "a' @ CHR ''{'' # b' = take i s @ CHR ''{'' # b"
        by (rule trans [OF that(1) [symmetric] s])
      from first_byte_split [OF this that(2) a] show ?thesis by simp
    qed
    ultimately show ?thesis using Some None scan by (auto simp: extractJSONObject_def)
  next
    case (Some n)
    note sc = json_scan_Some [OF Some, simplified]
    let ?o = "take (Suc n) (drop i s)"
    have o: "?o = CHR ''{'' # take n b" by (simp add: b)
    have ex: "extractJSONObject s = Some ?o"
      using \<open>IndexByte s _ = Some i\<close> scan Some by (simp add: extractJSONObject_def)
    have spl: "s = take i s @ ?o @ drop n b" using s by (simp add: o)
    moreover have "json_state ?o = (0, False, False)" using sc by (simp add: o json_state_def)
    moreover have "1 \<le> fst (json_state (take k ?o))" if k: "0 < k" "k < length ?o" for k
    proof -
      obtain j where j: "k = Suc j" using gr0_implies_Suc [OF k(1)] by blast
      with k(2) sc have "j < n" by (simp add: o)
      with sc j show ?thesis by (simp add: o json_state_def min_def)
    qed
    ultimately have "s = take i s @ ?o @ drop n b \<and> CHR ''{'' \<notin> set (take i s) \<and> hd ?o = CHR ''{'' \<and>
       json_state ?o = (0, False, False) \<and>
       (\<forall>k. 0 < k \<and> k < length ?o \<longrightarrow> 1 \<le> fst (json_state (take k ?o)))" using a o by auto
    then show ?thesis unfolding ex option.case by blast
  qed
qed

theorem extract_first_balanced_witness:
  "extractJSONObject ''ok {{}} }'' = Some ''{{}}'' \<and> json_state ''{{}}'' = (0, False, False) \<and>
   1 \<le> fst (json_state ''{{}'')"
proof -
  have "extractJSONObject ''ok {{}} }'' = Some ''{{}}''" by code_simp
  with extract_first_balanced [of "''ok {{}} }''"]
  have "json_state ''{{}}'' = (0, False, False)" "\<And>k. 0 < k \<Longrightarrow> k < 4 \<Longrightarrow> 1 \<le> fst (json_state (take k ''{{}}''))"
    by auto
  from this this(2) [of 3] \<open>extractJSONObject _ = _\<close> show ?thesis by simp
qed

section \<open>Reviews\<close>

text \<open>The text of a section in a document, and what the model is asked: one question per section that has a text.\<close>

definition section_prose :: "ir_document \<Rightarrow> doc_section \<Rightarrow> gostring" where
  "section_prose doc sec = TrimSpace (proseByHeading doc (ds_Title sec))"

definition question :: "gostring \<Rightarrow> doc_page \<Rightarrow> ir_document \<Rightarrow> (gostring \<Rightarrow> gostring) \<Rightarrow> doc_section \<Rightarrow> request" where
  "question model page doc grounding sec =
     ask model judge_systemPrompt (judge_composePrompt page sec (section_prose doc sec) (grounding (ds_Title sec))) 1024"

definition questions :: "gostring \<Rightarrow> doc_page \<Rightarrow> ir_document \<Rightarrow> (gostring \<Rightarrow> gostring) \<Rightarrow> doc_section list \<Rightarrow> request list" where
  "questions model page doc grounding secs =
     map (question model page doc grounding) (filter (\<lambda>sec. section_prose doc sec \<noteq> []) secs)"

text \<open>The verdict an answer stands for.\<close>

definition approves :: "(gostring \<Rightarrow> verdict_json res) \<Rightarrow> response \<Rightarrow> bool" where
  "approves decode a = (\<exists>obj reason claims. extractJSONObject (Text a) = Some obj \<and> decode obj = Inr (True, reason, claims))"

definition verdict_from :: "(gostring \<Rightarrow> verdict_json res) \<Rightarrow> response \<Rightarrow> verdict \<Rightarrow> bool" where
  "verdict_from decode a v =
     (case Option.bind (extractJSONObject (Text a)) (\<lambda>obj. case decode obj of Inl e \<Rightarrow> None | Inr j \<Rightarrow> Some j) of
        None \<Rightarrow> Inconclusive v \<and> \<not> Pass v
      | Some (p, reason, claims) \<Rightarrow>
          \<not> Inconclusive v \<and> Pass v = p \<and> v_Reason v = TrimSpace reason \<and> v_Ungrounded v = claims)"

text \<open>
  Verdicts on sections, in order: a section without text fails, and the others have the verdicts of the answers, one
  for each.
\<close>

definition verdicts_from ::
  "(gostring \<Rightarrow> verdict_json res) \<Rightarrow> ir_document \<Rightarrow> doc_section list \<Rightarrow> response list \<Rightarrow> verdict list \<Rightarrow> bool" where
  "verdicts_from decode doc secs as vs =
     (map v_Section vs = map ds_Title secs \<and>
      list_all (\<lambda>(sec, v). section_prose doc sec = [] \<longrightarrow> \<not> Pass v \<and> \<not> Inconclusive v) (zip secs vs) \<and>
      list_all2 (verdict_from decode) as (map snd (filter (\<lambda>(sec, v). section_prose doc sec \<noteq> []) (zip secs vs))))"

lemma parseVerdict_from: "verdict_from decode a (parseVerdict decode sec (Text a))"
  by (auto simp: verdict_from_def parseVerdict_def inconclusive_def split: option.split sum.split)

lemma parseVerdict_section: "v_Section (parseVerdict decode sec raw) = sec"
  by (auto simp: parseVerdict_def inconclusive_def split: option.splits sum.splits)

lemma verdict_from_pass: "verdict_from decode a v \<Longrightarrow> Pass v \<and> \<not> Inconclusive v \<longleftrightarrow> approves decode a"
  by (auto simp: verdict_from_def approves_def bind_eq_None_conv split: option.splits sum.splits bind_splits)

lemma review_sections_asks:
  "review_sections decode llm model page (proseByHeading doc) grounding secs w = (r, w') \<Longrightarrow>
     case r of
       Inl e \<Rightarrow> \<exists>title e'. e = wrapf ''judge: section %q: llm: %w'' [title] e' \<and>
         complete_all llm (questions model page doc grounding (filter judged secs)) w = (Inl e', w')
     | Inr vs \<Rightarrow> \<exists>as. complete_all llm (questions model page doc grounding (filter judged secs)) w = (Inr as, w') \<and>
         verdicts_from decode doc (filter judged secs) as vs"
proof (induction secs arbitrary: w r w')
  case Nil
  then show ?case by (auto simp: questions_def verdicts_from_def)
next
  case (Cons sec secs)
  let ?ask = "questions model page doc grounding" and ?J = "filter judged secs"
  let ?rest = "review_sections decode llm model page (proseByHeading doc) grounding secs"
  show ?case
  proof (cases "judged sec")
    case False
    then have J: "filter judged (sec # secs) = ?J" by simp
    from False Cons.prems have "?rest w = (r, w')" by simp
    from Cons.IH [OF this] show ?thesis unfolding J .
  next
    case True
    show ?thesis
    proof (cases "section_prose doc sec = []")
      case empty: True
      obtain r1 w1 where r1: "?rest w = (r1, w1)" by fastforce
      with Cons.prems True empty Cons.IH [OF r1] show ?thesis
        by (cases r1) (auto simp: Let_def section_prose_def questions_def verdicts_from_def)
    next
      case False
      obtain a w1 where a: "llm (question model page doc grounding sec) w = (a, w1)" by fastforce
      obtain r2 w2 where r2: "?rest w1 = (r2, w2)" by fastforce
      have qs: "?ask (filter judged (sec # secs)) = question model page doc grounding sec # ?ask ?J"
        using True False by (simp add: questions_def)
      have step: "review_sections decode llm model page (proseByHeading doc) grounding (sec # secs) w =
          (case a of
             Inl e \<Rightarrow> (Inl (wrapf ''judge: section %q: llm: %w'' [ds_Title sec] e), w1)
           | Inr resp \<Rightarrow>
               (case r2 of Inl e \<Rightarrow> (Inl e, w2) | Inr vs \<Rightarrow> (Inr (parseVerdict decode (ds_Title sec) (Text resp) # vs), w2)))"
        using True False a r2 by (auto simp: Let_def section_prose_def question_def split: sum.split)
      note run = Cons.prems [unfolded step]
      show ?thesis
      proof (cases a)
        case (Inl e)
        with run have "r = Inl (wrapf ''judge: section %q: llm: %w'' [ds_Title sec] e)" "w' = w1" by simp_all
        with a Inl show ?thesis unfolding qs by auto
      next
        case (Inr resp)
        from Cons.IH [OF r2] show ?thesis
        proof (cases r2)
          case (Inl e)
          with run Inr have "r = Inl e" "w' = w2" by simp_all
          with Cons.IH [OF r2] a Inr Inl show ?thesis unfolding qs by auto
        next
          case r: (Inr vs)
          with Cons.IH [OF r2] obtain as' where "complete_all llm (?ask ?J) w1 = (Inr as', w2)" "verdicts_from decode doc ?J as' vs"
            by auto
          moreover from run Inr r have "r = Inr (parseVerdict decode (ds_Title sec) (Text resp) # vs)" "w' = w2"
            by simp_all
          ultimately show ?thesis
            unfolding qs using True False a Inr by (simp add: verdicts_from_def parseVerdict_from parseVerdict_section)
        qed
      qed
    qed
  qed
qed

lemma verdicts_from_AllPass:
  assumes "verdicts_from decode doc secs as (Verdicts rep)"
  shows "AllPass rep \<longleftrightarrow> list_all (\<lambda>sec. section_prose doc sec \<noteq> []) secs \<and> list_all (approves decode) as"
proof -
  let ?vs = "Verdicts rep"
  from assms have sections: "map v_Section ?vs = map ds_Title secs"
    and empty: "list_all (\<lambda>(sec, v). section_prose doc sec = [] \<longrightarrow> \<not> Pass v \<and> \<not> Inconclusive v) (zip secs ?vs)"
    and read: "list_all2 (verdict_from decode) as (map snd (filter (\<lambda>(sec, v). section_prose doc sec \<noteq> []) (zip secs ?vs)))"
    by (simp_all add: verdicts_from_def)
  have len: "length ?vs = length secs" using arg_cong [OF sections, of length] by simp
  show ?thesis
  proof (cases "list_all (\<lambda>sec. section_prose doc sec \<noteq> []) secs")
    case True
    then have "filter (\<lambda>(sec, v). section_prose doc sec \<noteq> []) (zip secs ?vs) = zip secs ?vs"
      by (intro filter_True) (auto simp: list_all_iff dest: set_zip_leftD)
    with read len have "list_all2 (verdict_from decode) as ?vs" by simp
    then have "list_all (\<lambda>v. Pass v \<and> \<not> Inconclusive v) ?vs \<longleftrightarrow> list_all (approves decode) as"
      by (induction rule: list_all2_induct) (auto simp: verdict_from_pass)
    with True show ?thesis by (simp add: AllPass_def list_all_iff)
  next
    case False
    then obtain i where i: "i < length secs" "section_prose doc (secs ! i) = []" by (auto simp: list_all_length)
    then have "(secs ! i, ?vs ! i) \<in> set (zip secs ?vs)" using len by (auto simp: in_set_zip)
    with empty i(2) have "\<not> Pass (?vs ! i)" by (auto simp: list_all_iff)
    moreover have "?vs ! i \<in> set ?vs" using i(1) len by simp
    ultimately show ?thesis using False by (auto simp: AllPass_def)
  qed
qed

text \<open>
  C26. The judge never passes a section silently.  A review asks the model one question for every section that has a
  contract and a text in the document, with that text, its intent and its grounding in the prompt, in the order of
  the page, and nothing else; it fails exactly when one of the questions fails.  The report has one verdict for every
  section with a contract, in order: a section without text fails; each of the others has the verdict of the
  answer to its question, which is inconclusive and no pass when the answer holds no decodable JSON object,
  and otherwise what the object says.  So a report passes as a whole exactly when every section with a contract has
  a text and every answer says that it passes.
\<close>

theorem judge_never_silent_pass:
  "case Review decode llm model page doc grounding w of
     (Inl e, w') \<Rightarrow> \<exists>title e'. e = wrapf ''judge: section %q: llm: %w'' [title] e' \<and>
       complete_all llm (questions model page doc grounding (filter judged (dp_Sections page))) w = (Inl e', w')
   | (Inr rep, w') \<Rightarrow> \<exists>as.
       complete_all llm (questions model page doc grounding (filter judged (dp_Sections page))) w = (Inr as, w') \<and>
       verdicts_from decode doc (filter judged (dp_Sections page)) as (Verdicts rep) \<and>
       (AllPass rep \<longleftrightarrow> list_all (\<lambda>sec. section_prose doc sec \<noteq> []) (filter judged (dp_Sections page)) \<and>
          list_all (approves decode) as)"
proof -
  obtain r w' where r: "review_sections decode llm model page (proseByHeading doc) grounding (dp_Sections page) w = (r, w')"
    by fastforce
  from review_sections_asks [OF r] show ?thesis
  proof (cases r)
    case (Inl e)
    with r review_sections_asks [OF r] show ?thesis by (simp add: Review_def)
  next
    case (Inr vs)
    with review_sections_asks [OF r] obtain as where
      as: "complete_all llm (questions model page doc grounding (filter judged (dp_Sections page))) w = (Inr as, w')"
        "verdicts_from decode doc (filter judged (dp_Sections page)) as vs" by auto
    with r Inr verdicts_from_AllPass [of decode doc "filter judged (dp_Sections page)" as "\<lparr>r_Page = dp_Page page, Verdicts = vs\<rparr>"]
    show ?thesis by (simp add: Review_def)
  qed
qed

text \<open>A model that answers every question with the same verdict.\<close>

definition one_section :: "gostring \<Rightarrow> doc_page" where
  "one_section intent =
     \<lparr>dp_Page = ''P'', dp_Kind = ''runbook'', Audience = [], dp_Intent = [],
      dp_Sections = [\<lparr>ds_Title = ''A'', ds_Intent = intent, Render = [], ds_Sources = []\<rparr>],
      dp_Sources = [], Related = [], Categories = [], dp_Nav = no_placement, Supersedes = []\<rparr>"

definition answers :: "gostring \<Rightarrow> nat llm_client" where
  "answers t req n = (Inr \<lparr>Text = t, TokensIn = 0, TokensOut = 0, CacheHit = False\<rparr>, Suc n)"

theorem judge_never_silent_pass_witness:
  "\<exists>rep. Review (\<lambda>s. Inr (True, [], [])) (answers ''no object'') ''m'' (one_section ''x'')
           ((new_document ''P'' [] [])\<lparr>Sections := [\<lparr>Heading = ''A'', Blocks = [ProseBlock ''t'' no_prov]\<rparr>]\<rparr>) (\<lambda>_. []) 0 =
         (Inr rep, 1) \<and> \<not> AllPass rep \<and> length (Verdicts rep) = 1"
proof -
  let ?doc = "(new_document ''P'' [] [])\<lparr>Sections := [\<lparr>Heading = ''A'', Blocks = [ProseBlock ''t'' no_prov]\<rparr>]\<rparr>"
  let ?d = "\<lambda>s. Inr (True, [], [])"
  let ?r = "Review ?d (answers ''no object'') ''m'' (one_section ''x'') ?doc (\<lambda>_. []) 0"
  have body: "TrimSpace (proseByHeading ?doc ''A'') = ''t''" by code_simp
  have trim: "TrimSpace ''x'' = ''x''" by code_simp
  have none: "extractJSONObject ''no object'' = None" by code_simp
  obtain rep where rep: "?r = (Inr rep, 1)" "length (Verdicts rep) = 1"
    by (simp add: Review_def one_section_def judged_def trim body answers_def parseVerdict_def none Let_def)
  have qs: "length (questions ''m'' (one_section ''x'') ?doc (\<lambda>_. []) (filter judged (dp_Sections (one_section ''x'')))) = 1"
    by (simp add: questions_def one_section_def judged_def trim body section_prose_def)
  have "\<not> AllPass rep"
  proof
    assume "AllPass rep"
    with judge_never_silent_pass [where decode = ?d and llm = "answers ''no object''" and model = "''m''"
        and page = "one_section ''x''" and doc = ?doc and grounding = "\<lambda>_. []" and w = 0] rep(1)
    obtain as where as: "complete_all (answers ''no object'')
        (questions ''m'' (one_section ''x'') ?doc (\<lambda>_. []) (filter judged (dp_Sections (one_section ''x'')))) 0 = (Inr as, 1)"
      "list_all (approves ?d) as" by auto
    from qs obtain q where "questions ''m'' (one_section ''x'') ?doc (\<lambda>_. []) (filter judged (dp_Sections (one_section ''x''))) = [q]"
      by (auto simp: length_Suc_conv)
    with as show False by (auto simp: answers_def approves_def none)
  qed
  with rep show ?thesis by blast
qed

end
