(* ===== verification/Passes.thy ===== *)
theory Passes
  imports IR
begin

text \<open>
  The pass interface and the pipeline (passes/passes.go).  A pass takes a document and the state
  of the outside world \<open>'w\<close> (passes may call injected collaborators) and returns, as the Go
  method does, a document and an error, here with the new world.

  All passes of the program write through \<open>doc.Sections\<close>, a slice they share with their
  caller, and return that same document, on errors too.  So the document a pass returns also
  tells what its caller's document holds afterwards: the caller's \<open>Sections\<close> are the returned
  ones.
\<close>

section \<open>Passes and pipelines\<close>

type_synonym 'w pass_fn = "ir_document \<Rightarrow> 'w \<Rightarrow> (ir_document \<times> gomsg option) \<times> 'w"

record 'w pass =
  pass_Name :: gostring
  pass_Apply :: "'w pass_fn"

text \<open>
  \<open>Pipeline.Apply\<close>: on an error the variable \<open>doc\<close> is returned, which shares its sections
  with the document the failing pass was writing to.
\<close>

fun pipeline_Apply :: "'w pass list \<Rightarrow> 'w pass_fn" where
  "pipeline_Apply [] doc w = ((doc, None), w)"
| "pipeline_Apply (p # ps) doc w =
     (case pass_Apply p doc w of
        ((out, None), w') \<Rightarrow> pipeline_Apply ps out w'
      | ((out, Some e), w') \<Rightarrow>
          ((doc\<lparr>Sections := Sections out\<rparr>, Some (wrapf ''pass %q: %w'' [pass_Name p] e)), w'))"

definition pipeline_Names :: "'w pass list \<Rightarrow> gostring list" where
  "pipeline_Names ps = map pass_Name ps"

section \<open>Facts\<close>

text \<open>A pipeline is the composition of its parts, cut at the first error.\<close>

lemma pipeline_append:
  "pipeline_Apply (ps @ qs) doc w =
     (case pipeline_Apply ps doc w of
        ((out, None), w') \<Rightarrow> pipeline_Apply qs out w'
      | r \<Rightarrow> r)"
  by (induction ps arbitrary: doc w) (auto split: prod.splits option.splits)

text \<open>A failing pipeline names a pass of its own, the one that returned the error.\<close>

lemma pipeline_error:
  "pipeline_Apply ps doc w = ((out, Some e), w') \<Longrightarrow>
     \<exists>qs p rs e'. ps = qs @ p # rs \<and> e = wrapf ''pass %q: %w'' [pass_Name p] e' \<and>
       (\<exists>d1 w1 d2. pipeline_Apply qs doc w = ((d1, None), w1) \<and>
                   pass_Apply p d1 w1 = ((d2, Some e'), w'))"
proof (induction ps arbitrary: doc w)
  case (Cons p ps)
  obtain d r w1 where p: "pass_Apply p doc w = ((d, r), w1)" by (metis prod.collapse)
  show ?case
  proof (cases r)
    case None
    with Cons.prems p have "pipeline_Apply ps d w1 = ((out, Some e), w')" by simp
    from Cons.IH [OF this] obtain qs q rs e' d1 w2 d2 where
      "ps = qs @ q # rs" "e = wrapf ''pass %q: %w'' [pass_Name q] e'"
      "pipeline_Apply qs d w1 = ((d1, None), w2)" "pass_Apply q d1 w2 = ((d2, Some e'), w')"
      by blast
    with p None show ?thesis
      by (intro exI [of _ "p # qs"] exI [of _ q] exI [of _ rs] exI [of _ e']) auto
  next
    case (Some e')
    with Cons.prems p show ?thesis
      by (intro exI [of _ "[]"] exI [of _ p] exI [of _ ps] exI [of _ e']) auto
  qed
qed simp

text \<open>An invariant that every pass keeps when it succeeds is kept by a pipeline that succeeds.\<close>

lemma pipeline_invariant:
  assumes "\<And>p doc w d w'. p \<in> set ps \<Longrightarrow> P doc \<Longrightarrow>
             pass_Apply p doc w = ((d, None), w') \<Longrightarrow> P d"
    and "P doc" and "pipeline_Apply ps doc w = ((d, None), w')"
  shows "P d"
  using assms
proof (induction ps arbitrary: doc w)
  case (Cons p ps)
  obtain d1 r1 w1 where p: "pass_Apply p doc w = ((d1, r1), w1)" by (metis prod.collapse)
  with Cons.prems(3) have r1: "r1 = None" by (cases r1) auto
  with p Cons.prems have "pipeline_Apply ps d1 w1 = ((d, None), w')" by simp
  moreover have "P d1" using Cons.prems(1) [of p] Cons.prems(2) p r1 by simp
  ultimately show ?case
    using Cons.IH [of d1 w1] Cons.prems(1) list.set_intros(2) by metis
qed simp

text \<open>Running a pipeline of passes that never fail and leave the world alone is a fold.\<close>

lemma pipeline_pure:
  assumes "\<And>p doc w. p \<in> set ps \<Longrightarrow> pass_Apply p doc w = ((f p doc, None), w)"
  shows "pipeline_Apply ps doc w = ((foldl (\<lambda>d p. f p d) doc ps, None), w)"
  using assms by (induction ps arbitrary: doc) auto

end
