(* ===== verification/Refine.thy ===== *)
theory Refine
  imports Judge Passes
begin

text \<open>
  The closed judge loop (refine/refine.go).  Reviser, reviewer and passes are functions on the
  world.  \<open>work\<close> and the document given to the passes share their sections and every pass writes
  through them, so after a run of the passes \<open>work\<close> holds the sections they returned.
\<close>

section \<open>The loop\<close>

type_synonym 'w reviser =
  "doc_page \<Rightarrow> doc_section \<Rightarrow> snapshot \<Rightarrow> section_feedback \<Rightarrow> 'w \<Rightarrow> ir_section res \<times> 'w"

type_synonym 'w reviewer =
  "doc_page \<Rightarrow> ir_document \<Rightarrow> (gostring \<Rightarrow> gostring) \<Rightarrow> 'w \<Rightarrow> report res \<times> 'w"

record 'w refine_loop =
  reviser :: "'w reviser"
  reviewer :: "'w reviewer"
  maxIters :: int

record refine_result =
  rr_Doc :: ir_document
  rr_Report :: report
  Iterations :: int

definition apply_passes :: "'w pass_fn option \<Rightarrow> 'w pass_fn" where
  "apply_passes p doc w = (case p of None \<Rightarrow> ((doc, None), w) | Some f \<Rightarrow> f doc w)"

definition feedback :: "verdict \<Rightarrow> section_feedback" where
  "feedback v = \<lparr>Reason = v_Reason v, UngroundedClaims = v_Ungrounded v\<rparr>"

definition failing :: "verdict \<Rightarrow> bool" where
  "failing v = (\<not> Pass v \<or> Inconclusive v)"

definition failingCount :: "report \<Rightarrow> nat" where
  "failingCount rep = length (filter failing (Verdicts rep))"

definition proseSection :: "doc_page \<Rightarrow> gostring \<Rightarrow> doc_section option" where
  "proseSection page title =
     find (\<lambda>s. ds_Title s = title \<and> Render s = [] \<and> ds_Intent s \<noteq> []) (dp_Sections page)"

fun splice :: "ir_section \<Rightarrow> ir_section list \<Rightarrow> ir_section list \<times> bool" where
  "splice sec [] = ([], False)"
| "splice sec (s # ss) =
     (if Heading s = Heading sec then (sec # ss, True)
      else (case splice sec ss of (ss', found) \<Rightarrow> (s # ss', found)))"

definition spliceSection :: "ir_document \<Rightarrow> ir_section \<Rightarrow> ir_document \<times> bool" where
  "spliceSection doc sec =
     (case splice sec (Sections doc) of (ss, found) \<Rightarrow> (doc\<lparr>Sections := ss\<rparr>, found))"

text \<open>The inner loop over the verdicts: the new \<open>work\<close> and \<open>revisedAny\<close>.\<close>

fun revise_failing ::
  "'w reviser \<Rightarrow> doc_page \<Rightarrow> snapshot \<Rightarrow> verdict list \<Rightarrow> ir_document \<Rightarrow> bool \<Rightarrow> 'w \<Rightarrow>
   (ir_document \<times> bool) res \<times> 'w" where
  "revise_failing rv page snap [] work revisedAny w = (Inr (work, revisedAny), w)"
| "revise_failing rv page snap (v # vs) work revisedAny w =
     (if Pass v \<and> \<not> Inconclusive v then revise_failing rv page snap vs work revisedAny w
      else (case proseSection page (v_Section v) of
              None \<Rightarrow> revise_failing rv page snap vs work revisedAny w
            | Some sec \<Rightarrow>
                (case rv page sec snap (feedback v) w of
                   (Inl e, w) \<Rightarrow> (Inl e, w)
                 | (Inr newSec, w) \<Rightarrow>
                     (case spliceSection work newSec of
                        (work, found) \<Rightarrow>
                          revise_failing rv page snap vs work (revisedAny \<or> found) w))))"

function (sequential) refine_rounds ::
  "'w refine_loop \<Rightarrow> doc_page \<Rightarrow> snapshot \<Rightarrow> (gostring \<Rightarrow> gostring) \<Rightarrow> 'w pass_fn option \<Rightarrow>
   ir_document \<Rightarrow> ir_document \<Rightarrow> report \<Rightarrow> nat \<Rightarrow> int \<Rightarrow> 'w \<Rightarrow> refine_result res \<times> 'w" where
  "refine_rounds l page snap grounding p work applied rep prevFail iters w =
     (if iters < maxIters l \<and> \<not> AllPass rep
      then (case revise_failing (reviser l) page snap (Verdicts rep) work False w of
              (Inl e, w) \<Rightarrow> (Inl e, w)
            | (Inr (work, revisedAny), w) \<Rightarrow>
                if \<not> revisedAny
                then (Inr \<lparr>rr_Doc = applied, rr_Report = rep, Iterations = iters\<rparr>, w)
                else (case apply_passes p work w of
                        ((_, Some e), w) \<Rightarrow> (Inl e, w)
                      | ((applied, None), w) \<Rightarrow>
                          (case reviewer l page applied grounding w of
                             (Inl e, w) \<Rightarrow> (Inl e, w)
                           | (Inr rep, w) \<Rightarrow>
                               if prevFail \<le> failingCount rep
                               then (Inr \<lparr>rr_Doc = applied, rr_Report = rep, Iterations = iters + 1\<rparr>, w)
                               else refine_rounds l page snap grounding p
                                      (work\<lparr>Sections := Sections applied\<rparr>) applied rep
                                      (failingCount rep) (iters + 1) w)))
      else (Inr \<lparr>rr_Doc = applied, rr_Report = rep, Iterations = iters\<rparr>, w))"
  by pat_completeness auto

termination
  by (relation "measure (\<lambda>(l, _, _, _, _, _, _, _, _, iters, _). nat (maxIters l - iters))") auto

declare refine_rounds.simps [simp del]

definition refine_Run ::
  "'w refine_loop \<Rightarrow> doc_page \<Rightarrow> ir_document \<Rightarrow> snapshot \<Rightarrow> (gostring \<Rightarrow> gostring) \<Rightarrow> 'w pass_fn option \<Rightarrow>
   'w \<Rightarrow> refine_result res \<times> 'w" where
  "refine_Run l page preDoc snap grounding p w =
     (case apply_passes p preDoc w of
        ((_, Some e), w) \<Rightarrow> (Inl e, w)
      | ((applied, None), w) \<Rightarrow>
          (case reviewer l page applied grounding w of
             (Inl e, w) \<Rightarrow> (Inl e, w)
           | (Inr rep, w) \<Rightarrow>
               if maxIters l \<le> 0
               then (Inr \<lparr>rr_Doc = applied, rr_Report = rep, Iterations = 0\<rparr>, w)
               else refine_rounds l page snap grounding p
                      (preDoc\<lparr>Sections := Sections applied\<rparr>) applied rep (failingCount rep) 0 w))"

section \<open>The budget and the verdict\<close>

text \<open>A document is published with its own report: the reviewer gave it for what the passes made.\<close>

definition judged_output ::
  "'w refine_loop \<Rightarrow> doc_page \<Rightarrow> (gostring \<Rightarrow> gostring) \<Rightarrow> 'w pass_fn option \<Rightarrow> ir_document \<Rightarrow> report \<Rightarrow> bool" where
  "judged_output l page grounding p doc rep =
     (\<exists>work w1 w2 w3. apply_passes p work w1 = ((doc, None), w2) \<and>
        reviewer l page doc grounding w2 = (Inr rep, w3))"

lemma AllPass_failing: "AllPass rep \<longleftrightarrow> failingCount rep = 0"
  by (auto simp: AllPass_def failingCount_def failing_def filter_empty_conv)

lemma refine_rounds_facts:
  assumes "refine_rounds l page snap grounding p work applied rep prevFail iters w = (Inr r, w')"
    and "judged_output l page grounding p applied rep"
    and "prevFail = failingCount rep" and "iters \<le> max 0 (maxIters l)"
  shows "judged_output l page grounding p (rr_Doc r) (rr_Report r) \<and>
         iters \<le> Iterations r \<and> Iterations r \<le> max 0 (maxIters l) \<and>
         Iterations r - iters \<le> int (failingCount rep) \<and>
         (Iterations r = iters \<longrightarrow> rr_Doc r = applied \<and> rr_Report r = rep)"
  using assms
proof (induction l page snap grounding p work applied rep prevFail iters w rule: refine_rounds.induct)
  case (1 l page snap grounding p work applied rep prevFail iters w)
  show ?case
  proof (cases "iters < maxIters l \<and> \<not> AllPass rep")
    case False
    with 1 show ?thesis by (auto simp: refine_rounds.simps)
  next
    case go: True
    obtain rv w1 where rv: "revise_failing (reviser l) page snap (Verdicts rep) work False w = (rv, w1)"
      by fastforce
    with go "1.prems"(1) obtain work1 any where any: "rv = Inr (work1, any)"
      by (cases rv) (auto simp: refine_rounds.simps [of l])
    show ?thesis
    proof (cases any)
      case False
      with 1 go rv any show ?thesis by (auto simp: refine_rounds.simps [of l])
    next
      case True
      obtain out r1 w2 where ap: "apply_passes p work1 w1 = ((out, r1), w2)" by (metis prod.collapse)
      with go rv any True "1.prems"(1) have r1: "r1 = None"
        by (cases r1) (auto simp: refine_rounds.simps [of l])
      obtain rr w3 where rw: "reviewer l page out grounding w2 = (rr, w3)" by fastforce
      with go rv any True ap r1 "1.prems"(1) obtain rep' where rep': "rr = Inr rep'"
        by (cases rr) (auto simp: refine_rounds.simps [of l])
      have jo: "judged_output l page grounding p out rep'"
        using ap r1 rw rep' by (auto simp: judged_output_def)
      have pos: "0 < failingCount rep" using go AllPass_failing [of rep] by simp
      show ?thesis
      proof (cases "prevFail \<le> failingCount rep'")
        case True
        with go rv any \<open>any\<close> ap r1 rw rep' "1.prems"(1)
        have "r = \<lparr>rr_Doc = out, rr_Report = rep', Iterations = iters + 1\<rparr>"
          by (simp add: refine_rounds.simps [of l])
        with jo go pos show ?thesis by (simp add: max_def)
      next
        case False
        with go rv any \<open>any\<close> ap r1 rw rep' "1.prems"(1)
        have more: "refine_rounds l page snap grounding p (work1\<lparr>Sections := Sections out\<rparr>) out rep'
                (failingCount rep') (iters + 1) w3 = (Inr r, w')"
          by (simp add: refine_rounds.simps [of l page snap grounding p work])
        have le: "iters + 1 \<le> max 0 (maxIters l)" using go by (simp add: max_def)
        from "1.IH" [OF go rv [symmetric] any refl _ ap [symmetric] refl r1 rw [symmetric] rep' False more jo refl le]
          \<open>any\<close> go False "1.prems"(3)
        show ?thesis by auto
      qed
    qed
  qed
qed

text \<open>
  C20. A refine run is bounded and honest: it performs at most \<open>maxIters\<close> rounds (none when the
  budget is not positive) and no more rounds than sections that failed the first review, and the
  report it returns is the reviewer's report of the very document it returns, which the passes
  produced; without a round the published document is the first draft after the passes.
\<close>

theorem refine_bounded_and_judged:
  "case refine_Run l page preDoc snap grounding p w of
     (Inl e, w') \<Rightarrow> True
   | (Inr r, w') \<Rightarrow>
       judged_output l page grounding p (rr_Doc r) (rr_Report r) \<and>
       0 \<le> Iterations r \<and> Iterations r \<le> max 0 (maxIters l) \<and>
       (\<exists>draft w1 first w2. apply_passes p preDoc w = ((draft, None), w1) \<and>
          reviewer l page draft grounding w1 = (Inr first, w2) \<and>
          Iterations r \<le> int (failingCount first) \<and>
          (if Iterations r = 0 then rr_Doc r = draft \<and> rr_Report r = first
           else 0 < maxIters l \<and> 0 < failingCount first))"
proof (cases "refine_Run l page preDoc snap grounding p w")
  case (Pair res w')
  show ?thesis
  proof (cases res)
    case (Inr r)
    obtain draft r1 w1 where ap: "apply_passes p preDoc w = ((draft, r1), w1)" by (metis prod.collapse)
    with Pair Inr have r1: "r1 = None" by (cases r1) (auto simp: refine_Run_def)
    obtain fr w2 where rw: "reviewer l page draft grounding w1 = (fr, w2)" by fastforce
    with Pair Inr ap r1 obtain first where first: "fr = Inr first"
      by (cases fr) (auto simp: refine_Run_def)
    have jo: "judged_output l page grounding p draft first"
      using ap r1 rw first by (auto simp: judged_output_def)
    show ?thesis
    proof (cases "maxIters l \<le> 0")
      case True
      with Pair Inr ap r1 rw first jo show ?thesis by (auto simp: refine_Run_def)
    next
      case False
      with Pair Inr ap r1 rw first have
        "refine_rounds l page snap grounding p (preDoc\<lparr>Sections := Sections draft\<rparr>) draft first
           (failingCount first) 0 w2 = (Inr r, w')" by (simp add: refine_Run_def)
      from refine_rounds_facts [OF this jo refl] Pair Inr ap r1 rw first show ?thesis by auto
    qed
  qed (simp add: Pair)
qed

section \<open>What a revision touches\<close>

text \<open>A section is revised when it has a failing verdict and is a declared prose section.\<close>

definition revisable :: "doc_page \<Rightarrow> verdict list \<Rightarrow> gostring \<Rightarrow> bool" where
  "revisable page vs title =
     (\<exists>v \<in> set vs. failing v \<and> v_Section v = title \<and> proseSection page title \<noteq> None)"

definition kept_outside :: "doc_page \<Rightarrow> verdict list \<Rightarrow> ir_section list \<Rightarrow> ir_section list \<Rightarrow> bool" where
  "kept_outside page vs ss ss' =
     list_all2 (\<lambda>s s'. Heading s' = Heading s \<and> (\<not> revisable page vs (Heading s) \<longrightarrow> s' = s)) ss ss'"

lemma kept_outside_refl: "kept_outside page vs ss ss"
  by (simp add: kept_outside_def list_all2_refl)

lemma kept_outside_trans:
  "kept_outside page vs a b \<Longrightarrow> kept_outside page vs b c \<Longrightarrow> kept_outside page vs a c"
  by (auto simp: kept_outside_def list_all2_conv_all_nth)

lemma splice_kept:
  "revisable page vs (Heading sec) \<Longrightarrow> kept_outside page vs ss (fst (splice sec ss))"
proof (induction ss)
  case (Cons s ss)
  then show ?case
    by (auto simp: kept_outside_def list_all2_refl split: prod.splits)
qed (simp add: kept_outside_def)

lemma proseSection_title: "proseSection page title = Some sec \<Longrightarrow> ds_Title sec = title"
  by (simp add: proseSection_def find_Some_iff) blast

text \<open>What the loop relies on of its reviser: the new section carries the declared title.\<close>

locale section_reviser =
  fixes revise :: "'w reviser"
  assumes revise_heading:
    "revise page sec snap fb w = (Inr s, w') \<Longrightarrow> Heading s = ds_Title sec"
begin

lemma revise_failing_kept:
  "revise_failing revise page snap vs work any w = (Inr (out, any'), w') \<Longrightarrow>
     set vs \<subseteq> set vs0 \<Longrightarrow> kept_outside page vs0 (Sections work) (Sections out) \<and>
     Frontmatter out = Frontmatter work"
proof (induction vs arbitrary: work any w)
  case (Cons v vs)
  show ?case
  proof (cases "failing v")
    case False
    with Cons show ?thesis by (simp add: failing_def)
  next
    case fail: True
    show ?thesis
    proof (cases "proseSection page (v_Section v)")
      case None
      with Cons fail show ?thesis by (auto simp: failing_def split: if_splits)
    next
      case (Some sec)
      obtain r w1 where r: "revise page sec snap (feedback v) w = (r, w1)" by fastforce
      with Cons.prems fail Some obtain s where s: "r = Inr s" by (cases r) (auto simp: failing_def)
      with r revise_heading have h: "Heading s = v_Section v" using proseSection_title [OF Some] by simp
      obtain d f where d: "spliceSection work s = (d, f)" by fastforce
      with Cons.prems fail Some r s have
        "revise_failing revise page snap vs d (any \<or> f) w1 = (Inr (out, any'), w')"
        by (auto simp: failing_def)
      from Cons.IH [OF this] Cons.prems(2)
      have "kept_outside page vs0 (Sections d) (Sections out)" "Frontmatter out = Frontmatter d" by auto
      moreover have "revisable page vs0 (Heading s)"
        using Cons.prems(2) fail Some h by (auto simp: revisable_def)
      from splice_kept [OF this, of "Sections work"] d have "kept_outside page vs0 (Sections work) (Sections d)" "Frontmatter d = Frontmatter work"
        by (auto simp: spliceSection_def split: prod.splits)
      ultimately show ?thesis using kept_outside_trans by metis
    qed
  qed
qed (simp add: kept_outside_refl)

end

lemma ReviseSection_heading:
  "ReviseSection quote f page sec snap fb w = (Inr s, w') \<Longrightarrow> Heading s = ds_Title sec"
  by (auto simp: ReviseSection_def synthProse_def foldSection_def Let_def split: prod.splits sum.splits)

interpretation arch: section_reviser "ReviseSection quote f"
  by unfold_locales (rule ReviseSection_heading)

text \<open>
  A refinement round touches only what failed: with the architecture frontend as reviser, the
  page keeps its front matter and its sequence of headings, and every section whose heading has
  no failing verdict, or is not a declared prose section with a contract, is left as it is.
\<close>

theorem refine_touches_failing_only:
  "case revise_failing (ReviseSection quote f) page snap (Verdicts rep) work False w of
     (Inl e, w') \<Rightarrow> True
   | (Inr (out, any), w') \<Rightarrow>
       kept_outside page (Verdicts rep) (Sections work) (Sections out) \<and>
       map Heading (Sections out) = map Heading (Sections work) \<and>
       Frontmatter out = Frontmatter work"
proof -
  have "map Heading b = map Heading a" if "kept_outside page vs a b" for vs a b
    using that by (induction rule: list_all2_induct [OF that [unfolded kept_outside_def]])
      (auto simp: kept_outside_def)
  then show ?thesis
    using arch.revise_failing_kept [where vs0 = "Verdicts rep" and vs = "Verdicts rep"]
    by (fastforce split: prod.splits sum.splits)
qed

section \<open>Passes run twice on a section that was not revised\<close>

text \<open>
  A page of two sections, a pass that appends \<open>!\<close> to every prose text, a reviewer that fails the
  section \<open>B\<close> until it reads \<open>good!\<close>, and a reviser that rewrites it.
\<close>

definition shout_block :: "block \<Rightarrow> block" where
  "shout_block b = (case b of ProseBlock t p \<Rightarrow> ProseBlock (t @ ''!'') p | _ \<Rightarrow> b)"

definition shout :: "unit pass_fn" where
  "shout doc w = ((map_blocks (map shout_block) doc, None), w)"

definition prose_section :: "gostring \<Rightarrow> gostring \<Rightarrow> ir_section" where
  "prose_section h t = \<lparr>Heading = h, Blocks = [ProseBlock t no_prov]\<rparr>"

definition picky :: "unit reviewer" where
  "picky page doc grounding w =
     (Inr \<lparr>r_Page = dp_Page page,
           Verdicts = [\<lparr>v_Section = ''B'', Pass = prose_section ''B'' ''good!'' \<in> set (Sections doc),
                        Inconclusive = False, v_Reason = [], v_Ungrounded = []\<rparr>]\<rparr>, w)"

definition rewriter :: "unit reviser" where
  "rewriter page sec snap fb w = (Inr (prose_section (ds_Title sec) ''good''), w)"

definition two_sections :: "ir_document" where
  "two_sections = (new_document ''P'' [] [])\<lparr>Sections := [prose_section ''A'' ''fine'', prose_section ''B'' ''bad'']\<rparr>"

definition two_section_page :: doc_page where
  "two_section_page =
     \<lparr>dp_Page = ''P'', dp_Kind = ''runbook'', Audience = [], dp_Intent = [],
      dp_Sections = [\<lparr>ds_Title = ''A'', ds_Intent = ''a'', Render = [], ds_Sources = []\<rparr>,
                     \<lparr>ds_Title = ''B'', ds_Intent = ''b'', Render = [], ds_Sources = []\<rparr>],
      dp_Sources = [], Related = [], Categories = [], dp_Nav = no_placement, Supersedes = []\<rparr>"

text \<open>
  The passes are applied again to sections that already went through them: refining the second
  section of a page leaves the first one with the pass applied twice.  The package comment says
  that revisions are spliced into the document before the passes, so that no pass is ever applied
  twice to a section; but the passes write through the sections that document shares.
\<close>

theorem refine_reapplies_passes:
  "\<exists>r. refine_Run \<lparr>reviser = rewriter, reviewer = picky, maxIters = 1\<rparr> two_section_page
         two_sections snap (\<lambda>_. []) (Some shout) () = (Inr r, ()) \<and>
       Sections (rr_Doc r) = [prose_section ''A'' ''fine!!'', prose_section ''B'' ''good!'']"
  by (simp add: refine_Run_def refine_rounds.simps apply_passes_def shout_def picky_def rewriter_def
      two_sections_def new_document_def map_blocks_def prose_section_def shout_block_def
      two_section_page_def failingCount_def failing_def AllPass_def proseSection_def spliceSection_def)

end
