(* ===== verification/Maintenance.thy ===== *)
theory Maintenance
  imports KB Llm
begin

text \<open>
  The kb-maintenance pipeline (pipelines/maintenance): proposals, checks and their composition, the
  staleness, link-rot and external-truth checks, and the body of the pull request
  (prbackend).  HTTP, web search, the LLM and the clock are functions on the world.  An evidence
  map is a list of (key, value) pairs with distinct keys.
\<close>

section \<open>Proposals and checks\<close>

datatype proposal_kind = ProposalVerify | ProposalDeprecate | ProposalAdd

record proposal =
  mp_Kind :: proposal_kind
  mp_Area :: gostring
  mp_ID :: gostring
  mp_Text :: gostring
  mp_Reason :: gostring
  mp_Source :: gostring
  Evidence :: "(gostring \<times> gostring) list"

record 'w maint_check =
  ck_Name :: gostring
  ck_Run :: "snapshot \<Rightarrow> 'w \<Rightarrow> proposal list res \<times> 'w"

text \<open>\<open>Pipeline.Run\<close>: the proposals so far come back with an error, too.\<close>

fun maint_Run :: "'w maint_check list \<Rightarrow> snapshot \<Rightarrow> proposal list \<Rightarrow> 'w \<Rightarrow> (proposal list \<times> gomsg option) \<times> 'w" where
  "maint_Run [] snap out w = ((out, None), w)"
| "maint_Run (c # cs) snap out w =
     (case ck_Run c snap w of
        (Inl e, w) \<Rightarrow> ((out, Some (wrapf ''check %q: %w'' [ck_Name c] e)), w)
      | (Inr got, w) \<Rightarrow> maint_Run cs snap (out @ got) w)"

definition maint_Names :: "'w maint_check list \<Rightarrow> gostring list" where
  "maint_Names cs = map ck_Name cs"

text \<open>A loop over all entries of a snapshot, each giving an optional proposal.\<close>

fun scan_entries ::
  "(gostring \<Rightarrow> entry \<Rightarrow> 'w \<Rightarrow> proposal option res \<times> 'w) \<Rightarrow> (gostring \<times> entry) list \<Rightarrow> 'w \<Rightarrow>
   proposal list res \<times> 'w" where
  "scan_entries f [] w = (Inr [], w)"
| "scan_entries f ((a, e) # es) w =
     (case f a e w of
        (Inl err, w) \<Rightarrow> (Inl err, w)
      | (Inr p, w) \<Rightarrow>
          (case scan_entries f es w of
             (Inl err, w) \<Rightarrow> (Inl err, w)
           | (Inr ps, w) \<Rightarrow> (Inr (case p of None \<Rightarrow> ps | Some q \<Rightarrow> q # ps), w)))"

definition all_entries :: "area list \<Rightarrow> (gostring \<times> entry) list" where
  "all_entries as = concat (map (\<lambda>a. map (Pair (a_ID a)) (a_Entries a)) as)"

section \<open>Staleness\<close>

text \<open>
  Times here are in nanoseconds.  \<open>parse\<close> is \<open>time.Parse(time.RFC3339, _)\<close>,
  \<open>threshold_text\<close> is \<open>threshold.String()\<close>; \<open>Sub\<close> saturates at the largest duration, and the
  number of days is its quotient, computed without the rounding of floats.
\<close>

record 'w staleness =
  threshold :: int
  threshold_text :: gostring
  st_now :: "'w \<Rightarrow> int \<times> 'w"

definition maxDuration :: int where "maxDuration = 2 ^ 63 - 1"

definition shouldFlag :: "entry \<Rightarrow> bool" where
  "shouldFlag e =
     (e_Updated e \<noteq> [] \<and> e_Zone e \<noteq> ''archive'' \<and> Status (e_Provenance e) \<noteq> ''verified'')"

definition stale_days :: "int \<Rightarrow> int \<Rightarrow> int" where
  "stale_days now updated =
     (let d = min maxDuration (max (- maxDuration - 1) (now - updated)) in
      if 0 \<le> d then d div 86400000000000 else - ((- d) div 86400000000000))"

definition stale_check ::
  "(gostring \<Rightarrow> int option) \<Rightarrow> 'w staleness \<Rightarrow> int \<Rightarrow> gostring \<Rightarrow> entry \<Rightarrow> 'w \<Rightarrow> proposal option res \<times> 'w" where
  "stale_check parse c cutoff area e w =
     (if \<not> shouldFlag e then (Inr None, w)
      else (case parse (e_Updated e) of
              None \<Rightarrow> (Inr None, w)
            | Some updated \<Rightarrow>
                if cutoff < updated then (Inr None, w)
                else (case st_now c w of
                        (now, w) \<Rightarrow>
                          (Inr (Some \<lparr>mp_Kind = ProposalDeprecate, mp_Area = area, mp_ID = e_ID e, mp_Text = [],
                              mp_Reason = ''entry not updated in '' @ int_dec (stale_days now updated) @
                                 '' days (threshold '' @ threshold_text c @ '')'',
                              mp_Source = ''staleness'',
                              Evidence = [(''updated_at'', e_Updated e), (''threshold'', threshold_text c)]\<rparr>), w))))"

definition stale_Run :: "(gostring \<Rightarrow> int option) \<Rightarrow> 'w staleness \<Rightarrow> snapshot \<Rightarrow> 'w \<Rightarrow> proposal list res \<times> 'w" where
  "stale_Run parse c snap w =
     (case st_now c w of
        (now, w) \<Rightarrow> scan_entries (stale_check parse c (now - threshold c)) (all_entries (Areas snap)) w)"

section \<open>Link rot\<close>

text \<open>What a HEAD request for a URL comes to.\<close>

datatype probe_result = RequestBuildFailed gostring | NetworkError gostring | HTTPStatus int

definition maybeStatus :: "gostring \<Rightarrow> gostring \<Rightarrow> gostring" where
  "maybeStatus k v = (if k = ''http-status'' then v else [])"

definition maybeErr :: "gostring \<Rightarrow> gostring \<Rightarrow> gostring" where
  "maybeErr k v = (if k \<noteq> ''http-status'' then v else [])"

definition deprecation :: "gostring \<Rightarrow> entry \<Rightarrow> gostring \<Rightarrow> gostring \<Rightarrow> proposal" where
  "deprecation area e k v =
     \<lparr>mp_Kind = ProposalDeprecate, mp_Area = area, mp_ID = e_ID e, mp_Text = [],
      mp_Reason = ''link URL is broken ('' @ k @ '': '' @ v @ '')'', mp_Source = ''link-rot'',
      Evidence = [(''url'', e_URL e), (''http_status'', maybeStatus k v), (''error'', maybeErr k v)]\<rparr>"

definition probe :: "(gostring \<Rightarrow> 'w \<Rightarrow> probe_result \<times> 'w) \<Rightarrow> gostring \<Rightarrow> entry \<Rightarrow> 'w \<Rightarrow> proposal option \<times> 'w" where
  "probe head area e w =
     (case head (e_URL e) w of
        (RequestBuildFailed m, w) \<Rightarrow> (Some (deprecation area e ''request-build-failed'' m), w)
      | (NetworkError m, w) \<Rightarrow> (Some (deprecation area e ''network-error'' m), w)
      | (HTTPStatus n, w) \<Rightarrow>
          (if 400 \<le> n then Some (deprecation area e ''http-status'' (int_dec n)) else None, w))"

definition linkrot_check ::
  "(gostring \<Rightarrow> 'w \<Rightarrow> probe_result \<times> 'w) \<Rightarrow> gostring \<Rightarrow> entry \<Rightarrow> 'w \<Rightarrow> proposal option res \<times> 'w" where
  "linkrot_check head area e w =
     (if e_Type e \<noteq> ''link'' \<or> e_URL e = [] then (Inr None, w)
      else (case probe head area e w of (p, w) \<Rightarrow> (Inr p, w)))"

definition linkrot_Run ::
  "(gostring \<Rightarrow> 'w \<Rightarrow> probe_result \<times> 'w) \<Rightarrow> snapshot \<Rightarrow> 'w \<Rightarrow> proposal list res \<times> 'w" where
  "linkrot_Run head snap w = scan_entries (linkrot_check head) (all_entries (Areas snap)) w"

section \<open>External truth\<close>

record search_hit =
  hit_Title :: gostring
  hit_URL :: gostring
  Snippet :: gostring

record 'w truth_check =
  optedIn :: "gostring list"
  Search :: "gostring \<Rightarrow> 'w \<Rightarrow> search_hit list res \<times> 'w"
  tc_llm :: "'w llm_client"
  tc_model :: gostring
  tc_now :: "'w \<Rightarrow> gotime \<times> 'w"

definition verdictSystemPrompt :: gostring where
  "verdictSystemPrompt =
     ''You are a fact-checking assistant. Given a knowledge-base claim and web search results, '' @
     ''decide whether the results SUPPORT, CONTRADICT, or are INCONCLUSIVE about the claim. Reply '' @
     ''with exactly one of CONFIRMED, CONTRADICTED, or UNCERTAIN as the first word, followed by a '' @
     ''one-sentence rationale.''"

definition truth_prompt :: "gostring \<Rightarrow> search_hit list \<Rightarrow> gostring" where
  "truth_prompt claim results =
     ''CLAIM:'' @ [NL] @ claim @ [NL, NL] @ ''WEB SEARCH RESULTS:'' @ [NL] @
     concat (map (\<lambda>(i, r). nat_dec (Suc i) @ ''. '' @ hit_Title r @ '' '' @ em_dash @ '' '' @ hit_URL r @ [NL] @
                           ''   '' @ Snippet r @ [NL]) (List.enumerate 0 results)) @
     [NL] @ ''Verdict:''"

text \<open>
  The separators of \<open>parseVerdict\<close> are space, colon, newline, tab, hyphen and the em dash, which
  takes three bytes.  \<open>skip_seps\<close> drops leading ones, \<open>first_field\<close> stops at the next one.
\<close>

definition sep_byte :: "char \<Rightarrow> bool" where
  "sep_byte c = (c \<in> {CHR '' '', CHR '':'', NL, TAB, CHR ''-''})"

function skip_seps :: "gostring \<Rightarrow> gostring" where
  "skip_seps s =
     (case s of
        [] \<Rightarrow> []
      | c # cs \<Rightarrow> if sep_byte c then skip_seps cs
                  else (case strip_prefix em_dash s of Some r \<Rightarrow> skip_seps r | None \<Rightarrow> s))"
  by pat_completeness auto

termination
  by (relation "measure length") (auto dest!: strip_prefix_length split: if_splits)

declare skip_seps.simps [simp del]

function first_field :: "gostring \<Rightarrow> gostring" where
  "first_field s =
     (case s of
        [] \<Rightarrow> []
      | c # cs \<Rightarrow> if sep_byte c \<or> strip_prefix em_dash s \<noteq> None then [] else c # first_field cs)"
  by pat_completeness auto

termination by (relation "measure length") auto

declare first_field.simps [simp del]

text \<open>
  \<open>strings.ToUpper\<close>, as far as comparing the result with an ASCII word sees it: of the other
  characters only U+0131 and U+017F have an ASCII capital.
\<close>

definition upper_byte :: "char \<Rightarrow> char" where
  "upper_byte c = (let n = (of_char c :: nat) in if 97 \<le> n \<and> n \<le> 122 then char_of (n - 32) else c)"

fun upper_text :: "gostring \<Rightarrow> gostring" where
  "upper_text [] = []"
| "upper_text [c] = [upper_byte c]"
| "upper_text (c # d # s) =
     (if c = CHR 0xC4 \<and> d = CHR 0xB1 then CHR ''I'' # upper_text s
      else if c = CHR 0xC5 \<and> d = CHR 0xBF then CHR ''S'' # upper_text s
      else upper_byte c # upper_text (d # s))"

definition truth_verdict :: "gostring \<Rightarrow> gostring \<times> gostring" where
  "truth_verdict s =
     (let t = TrimSpace s; f = first_field (skip_seps t) in
      if f = [] then ([], [])
      else (upper_text f, TrimSpace (skip_seps (drop (length f) t))))"

definition checkFact :: "'w truth_check \<Rightarrow> gostring \<Rightarrow> entry \<Rightarrow> 'w \<Rightarrow> proposal option res \<times> 'w" where
  "checkFact c area e w =
     (case Search c (e_Text e) w of
        (Inl err, w) \<Rightarrow> (Inl (wrapf ''external-truth: web search %q: %w'' [e_ID e] err), w)
      | (Inr [], w) \<Rightarrow> (Inr None, w)
      | (Inr (primary # others), w) \<Rightarrow>
          (case tc_llm c (ask (tc_model c) verdictSystemPrompt (truth_prompt (e_Text e) (primary # others)) 0) w of
             (Inl err, w) \<Rightarrow> (Inl (wrapf ''external-truth: llm verdict %q: %w'' [e_ID e] err), w)
           | (Inr resp, w) \<Rightarrow>
               (case tc_now c w of
                  (now, w) \<Rightarrow>
                    (case truth_verdict (Text resp) of
                       (verdict, rationale) \<Rightarrow>
                         (let p = \<lparr>mp_Kind = ProposalVerify, mp_Area = area, mp_ID = e_ID e, mp_Text = e_Text e,
                                mp_Reason = ''web+LLM external-truth check confirmed the claim: '' @ rationale,
                                mp_Source = ''external-truth'',
                                Evidence = [(''method'', ''external-truth''), (''source'', hit_URL primary),
                                            (''verified_at'', format_utc now)]\<rparr> in
                          (Inr (if verdict = ''CONFIRMED'' then Some p
                                else if verdict = ''CONTRADICTED''
                                then Some (p\<lparr>mp_Kind := ProposalDeprecate,
                                   mp_Reason := ''web+LLM external-truth check contradicted the claim: '' @ rationale\<rparr>)
                                else None), w))))))"

definition truth_entry :: "'w truth_check \<Rightarrow> gostring \<Rightarrow> entry \<Rightarrow> 'w \<Rightarrow> proposal option res \<times> 'w" where
  "truth_entry c area e w =
     (if e_Type e \<noteq> ''fact'' \<or> e_Zone e = ''archive'' then (Inr None, w) else checkFact c area e w)"

definition truth_Run :: "'w truth_check \<Rightarrow> snapshot \<Rightarrow> 'w \<Rightarrow> proposal list res \<times> 'w" where
  "truth_Run c snap w =
     (if optedIn c = [] then (Inr [], w)
      else scan_entries (truth_entry c)
             (all_entries (filter (\<lambda>a. a_ID a \<in> set (optedIn c)) (Areas snap))) w)"

section \<open>Pull requests\<close>

definition kindLabel :: "proposal_kind \<Rightarrow> gostring" where
  "kindLabel k =
     (case k of ProposalVerify \<Rightarrow> ''verify'' | ProposalDeprecate \<Rightarrow> ''deprecate'' | ProposalAdd \<Rightarrow> ''add'')"

definition evidence_text :: "(gostring \<times> gostring) list \<Rightarrow> gostring" where
  "evidence_text ev =
     concat (map (\<lambda>(k, v). if v \<noteq> [] then ''- '' @ [BACKQUOTE] @ k @ [BACKQUOTE] @ '': '' @ v @ [NL] else [])
       (sort_key fst ev))"

definition proposal_text :: "gostring \<Rightarrow> proposal \<Rightarrow> gostring" where
  "proposal_text area p =
     ''### '' @ kindLabel (mp_Kind p) @ '' '' @ em_dash @ '' '' @ [BACKQUOTE] @ area @ ''/'' @ mp_ID p @ [BACKQUOTE, NL, NL] @
     (if mp_Reason p \<noteq> [] then ''**Reason:** '' @ mp_Reason p @ [NL, NL] else []) @
     (if mp_Source p \<noteq> [] then ''**Source:** '' @ [BACKQUOTE] @ mp_Source p @ [BACKQUOTE, NL, NL] else []) @
     (if mp_Text p \<noteq> [] then ''**Text:**'' @ [NL, NL] @ ''> '' @ mp_Text p @ [NL, NL] else []) @
     (if Evidence p \<noteq> [] then ''**Evidence:**'' @ [NL, NL] @ evidence_text (Evidence p) @ [NL] else [])"

definition proposal_areas :: "proposal list \<Rightarrow> gostring list" where
  "proposal_areas props = sort (remdups (map mp_Area props))"

definition area_proposals :: "proposal list \<Rightarrow> gostring \<Rightarrow> proposal list" where
  "area_proposals props area = filter (\<lambda>p. mp_Area p = area) props"

definition buildPRBody :: "proposal list \<Rightarrow> gostring \<Rightarrow> gostring" where
  "buildPRBody props runID =
     ''# Curator maintenance proposals '' @ em_dash @ '' run '' @ runID @ [NL, NL] @
     nat_dec (length props) @ '' proposal(s) across '' @ nat_dec (length (proposal_areas props)) @
     '' area(s). Review each section and merge selectively.'' @ [NL, NL] @
     concat (map (\<lambda>area. ''## Area: '' @ area @ [NL, NL] @
                         concat (map (proposal_text area) (area_proposals props area)))
       (proposal_areas props))"

text \<open>
  The repository operations of \<open>Submit\<close>, in the order in which it makes them; \<open>None\<close> is success.
  The result of \<open>CreateBranch\<close> is ignored.
\<close>

record 'w pr_repo =
  OpenWorktree :: "'w \<Rightarrow> gomsg option \<times> 'w"
  ResolveRevision :: "gostring \<Rightarrow> 'w \<Rightarrow> gostring res \<times> 'w"
  SetReference :: "gostring \<Rightarrow> gostring \<Rightarrow> 'w \<Rightarrow> gomsg option \<times> 'w"
  CreateBranch :: "gostring \<Rightarrow> 'w \<Rightarrow> 'w"
  Checkout :: "gostring \<Rightarrow> 'w \<Rightarrow> gomsg option \<times> 'w"
  WriteSummary :: "gostring \<Rightarrow> gostring \<Rightarrow> 'w \<Rightarrow> gomsg option \<times> 'w"
  git_Add :: "gostring \<Rightarrow> 'w \<Rightarrow> gomsg option \<times> 'w"
  git_Commit :: "gostring \<Rightarrow> gostring \<times> gostring \<Rightarrow> 'w \<Rightarrow> gostring res \<times> 'w"

record pr_input =
  in_RunID :: gostring
  BaseBranch :: gostring
  in_Proposals :: "proposal list"
  AuthorName :: gostring
  AuthorEmail :: gostring

record pr_result =
  Branch :: gostring
  CommitHash :: gostring
  PRBody :: gostring
  Mutations :: nat

definition default_to :: "gostring \<Rightarrow> gostring \<Rightarrow> gostring" where
  "default_to d s = (if s = [] then d else s)"

definition checked :: "gostring \<Rightarrow> gostring list \<Rightarrow> gomsg option \<times> 'w \<Rightarrow> ('w \<Rightarrow> 'a res \<times> 'w) \<Rightarrow> 'a res \<times> 'w" where
  "checked fmt args r k =
     (case r of (Some e, w) \<Rightarrow> (Inl (wrapf fmt args e), w) | (None, w) \<Rightarrow> k w)"

definition Submit :: "'w pr_repo \<Rightarrow> gostring \<Rightarrow> pr_input \<Rightarrow> 'w \<Rightarrow> pr_result res \<times> 'w" where
  "Submit g today inp w =
     (if in_Proposals inp = []
      then (Inr \<lparr>Branch = [], CommitHash = [], PRBody = [], Mutations = 0\<rparr>, w)
      else
        (let branch = ''curator/maint-'' @ today @ ''-'' @ in_RunID inp;
             path = ''curator-proposals/'' @ in_RunID inp @ ''.md'';
             body = buildPRBody (in_Proposals inp) (in_RunID inp) in
         checked ''prbackend: open repo: %w'' [] (OpenWorktree g w) (\<lambda>w.
         case ResolveRevision g (BaseBranch inp) w of
           (Inl e, w) \<Rightarrow> (Inl (wrapf ''prbackend: resolve base %q: %w'' [BaseBranch inp] e), w)
         | (Inr baseHash, w) \<Rightarrow>
             checked ''prbackend: create branch %q: %w'' [branch] (SetReference g (''refs/heads/'' @ branch) baseHash w) (\<lambda>w.
             checked ''prbackend: checkout %q: %w'' [branch] (Checkout g branch (CreateBranch g branch w)) (\<lambda>w.
             checked ''prbackend: write summary: %w'' [] (WriteSummary g path body w) (\<lambda>w.
             checked ''prbackend: git add: %w'' [] (git_Add g path w) (\<lambda>w.
             case git_Commit g
                    (''curator(maint): '' @ nat_dec (length (in_Proposals inp)) @ '' proposals from run '' @ in_RunID inp)
                    (default_to ''mykb-curator'' (AuthorName inp), default_to ''mykb-curator@invalid'' (AuthorEmail inp)) w of
               (Inl e, w) \<Rightarrow> (Inl (wrapf ''prbackend: commit: %w'' [] e), w)
             | (Inr hash, w) \<Rightarrow>
                 (Inr \<lparr>Branch = branch, CommitHash = hash, PRBody = body,
                       Mutations = length (in_Proposals inp)\<rparr>, w))))))))"

section \<open>Properties\<close>

text \<open>
  The body of the pull request lists every proposal exactly once, grouped by area: its sections
  are the areas in order, and the proposals under them are, taken together, exactly the proposals
  of the run.
\<close>

theorem prbody_lists_proposals:
  "\<exists>groups. map fst groups = proposal_areas props \<and> sorted (map fst groups) \<and> distinct (map fst groups) \<and>
     list_all (\<lambda>(area, ps). ps \<noteq> [] \<and> list_all (\<lambda>p. mp_Area p = area) ps) groups \<and>
     mset (concat (map snd groups)) = mset props \<and>
     (\<exists>header. buildPRBody props runID = header @
        concat (map (\<lambda>(area, ps). ''## Area: '' @ area @ [NL, NL] @ concat (map (proposal_text area) ps)) groups))"
proof -
  let ?groups = "map (\<lambda>a. (a, area_proposals props a)) (proposal_areas props)"
  have areas: "set (proposal_areas props) = mp_Area ` set props" "distinct (proposal_areas props)"
    by (simp_all add: proposal_areas_def)
  have "mset (concat (map snd ?groups)) + mset (filter (\<lambda>p. mp_Area p \<notin> set (proposal_areas props)) props) = mset props"
    using partition_by_key [OF areas(2), of mp_Area props] by (simp add: comp_def area_proposals_def)
  moreover have "filter (\<lambda>p. mp_Area p \<notin> set (proposal_areas props)) props = []"
    by (simp add: areas(1) filter_empty_conv)
  ultimately have ms: "mset (concat (map snd ?groups)) = mset props" by simp
  have gs: "list_all (\<lambda>(area, ps). ps \<noteq> [] \<and> list_all (\<lambda>p. mp_Area p = area) ps) ?groups"
    by (auto simp: list_all_iff areas(1) area_proposals_def filter_empty_conv)
  have body: "\<exists>header. buildPRBody props runID = header @
        concat (map (\<lambda>(area, ps). ''## Area: '' @ area @ [NL, NL] @ concat (map (proposal_text area) ps)) ?groups)"
    unfolding buildPRBody_def map_map comp_def prod.case append_assoc [symmetric] by blast
  have "map fst ?groups = proposal_areas props" by (simp add: comp_def)
  moreover have "sorted (proposal_areas props)" by (simp add: proposal_areas_def)
  ultimately show ?thesis using areas(2) ms gs body by (intro exI [of _ ?groups]) simp
qed

text \<open>Scanning stops at the first error, and its proposals come from the scanned entries.\<close>

lemma scan_entries_from:
  assumes "scan_entries f es w = (Inr ps, w')"
    and "\<And>a e w p w'. (a, e) \<in> set es \<Longrightarrow> f a e w = (Inr (Some p), w') \<Longrightarrow> P a e p"
  shows "\<forall>p \<in> set ps. \<exists>(a, e) \<in> set es. P a e p"
  using assms
proof (induction es arbitrary: w ps)
  case (Cons ae es)
  obtain a e where ae: "ae = (a, e)" by fastforce
  obtain r w1 where r: "f a e w = (r, w1)" by fastforce
  with Cons.prems ae obtain p where p: "r = Inr p" by (cases r) auto
  obtain r2 w2 where r2: "scan_entries f es w1 = (r2, w2)" by fastforce
  with Cons.prems ae r p obtain qs where qs: "r2 = Inr qs" by (cases r2) auto
  from Cons.IH [of w1 qs] Cons.prems(2) r2 qs Cons.prems(1) ae r p
  have "\<forall>p \<in> set qs. \<exists>(a, e) \<in> set es. P a e p" by (auto split: option.splits)
  moreover have "ps = (case p of None \<Rightarrow> qs | Some q \<Rightarrow> q # qs)"
    using Cons.prems(1) ae r p r2 qs by simp
  ultimately show ?case using Cons.prems(2) [of a e w] r p ae by (fastforce split: option.splits)
qed simp

lemma all_entries_iff:
  "(a, e) \<in> set (all_entries as) \<longleftrightarrow> (\<exists>ar \<in> set as. a_ID ar = a \<and> e \<in> set (a_Entries ar))"
  by (auto simp: all_entries_def)

text \<open>
  The external-truth check spends only where it is funded: the areas that no spec opted in do
  not influence its answer nor anything it does outside, and without an opted-in area nothing at
  all is done; every proposal is about a fact, not archived, of an opted-in area, and carries its
  text.
\<close>

theorem external_truth_funded:
  "truth_Run c snap w = truth_Run c (snap\<lparr>Areas := filter (\<lambda>a. a_ID a \<in> set (optedIn c)) (Areas snap)\<rparr>) w \<and>
   truth_Run c (snap\<lparr>Areas := filter (\<lambda>a. a_ID a \<notin> set (optedIn c)) (Areas snap)\<rparr>) w = (Inr [], w) \<and>
   (case fst (truth_Run c snap w) of
      Inl e \<Rightarrow> True
    | Inr ps \<Rightarrow> list_all (\<lambda>p. \<exists>a \<in> set (Areas snap). \<exists>e \<in> set (a_Entries a).
        a_ID a \<in> set (optedIn c) \<and> mp_Area p = a_ID a \<and> mp_ID p = e_ID e \<and> mp_Text p = e_Text e \<and>
        e_Type e = ''fact'' \<and> e_Zone e \<noteq> ''archive'') ps)"
proof (intro conjI)
  show "truth_Run c snap w = truth_Run c (snap\<lparr>Areas := filter (\<lambda>a. a_ID a \<in> set (optedIn c)) (Areas snap)\<rparr>) w"
    by (simp add: truth_Run_def)
  show "truth_Run c (snap\<lparr>Areas := filter (\<lambda>a. a_ID a \<notin> set (optedIn c)) (Areas snap)\<rparr>) w = (Inr [], w)"
    by (simp add: truth_Run_def all_entries_def filter_False)
  let ?es = "all_entries (filter (\<lambda>a. a_ID a \<in> set (optedIn c)) (Areas snap))"
  have fact: "mp_Area p = a \<and> mp_ID p = e_ID e \<and> mp_Text p = e_Text e \<and> e_Type e = ''fact'' \<and> e_Zone e \<noteq> ''archive''"
    if "truth_entry c a e w = (Inr (Some p), w')" for a e p w w'
    using that
    by (auto simp: truth_entry_def checkFact_def Let_def split: if_splits prod.splits sum.splits list.splits)
  show "case fst (truth_Run c snap w) of Inl e \<Rightarrow> True
    | Inr ps \<Rightarrow> list_all (\<lambda>p. \<exists>a \<in> set (Areas snap). \<exists>e \<in> set (a_Entries a).
        a_ID a \<in> set (optedIn c) \<and> mp_Area p = a_ID a \<and> mp_ID p = e_ID e \<and> mp_Text p = e_Text e \<and>
        e_Type e = ''fact'' \<and> e_Zone e \<noteq> ''archive'') ps"
  proof (cases "truth_Run c snap w")
    case (Pair r w')
    show ?thesis
    proof (cases r)
      case (Inr ps)
      show ?thesis
      proof (cases "optedIn c = []")
        case True
        with Pair Inr show ?thesis by (auto simp: truth_Run_def)
      next
        case False
        with Pair Inr have "scan_entries (truth_entry c) ?es w = (Inr ps, w')" by (simp add: truth_Run_def)
        from scan_entries_from [OF this fact] Pair Inr show ?thesis
          by (fastforce simp: all_entries_iff list_all_iff)
      qed
    qed (simp add: Pair)
  qed
qed

text \<open>
  A link whose server rejects HEAD requests with status 405 is proposed for deprecation: there
  is no second attempt with GET, which the package comment promises.
\<close>

theorem linkrot_flags_405:
  "linkrot_Run (\<lambda>url w. (HTTPStatus 405, Suc w)) snap 0 =
     (Inr (map (\<lambda>(a, e). deprecation a e ''http-status'' ''405'')
             (filter (\<lambda>(a, e). e_Type e = ''link'' \<and> e_URL e \<noteq> []) (all_entries (Areas snap)))),
      length (filter (\<lambda>(a, e). e_Type e = ''link'' \<and> e_URL e \<noteq> []) (all_entries (Areas snap))))"
proof -
  have n: "int_dec 405 = ''405''" by code_simp
  have "scan_entries (linkrot_check (\<lambda>url w. (HTTPStatus 405, Suc w))) es k =
     (Inr (map (\<lambda>(a, e). deprecation a e ''http-status'' ''405'')
             (filter (\<lambda>(a, e). e_Type e = ''link'' \<and> e_URL e \<noteq> []) es)),
      k + length (filter (\<lambda>(a, e). e_Type e = ''link'' \<and> e_URL e \<noteq> []) es))" for es k
    by (induction es arbitrary: k) (auto simp: linkrot_check_def probe_def n split: if_splits)
  from this [of "all_entries (Areas snap)" 0] show ?thesis by (simp add: linkrot_Run_def)
qed

end
