(* ===== verification/Reporter.thy ===== *)
theory Reporter
  imports Prelude
begin

text \<open>
  Run reports (reporter/reporter.go) and their fan-out to sinks (reporter/sink.go, the text of
  reporter/sinks).  The builder is the report it accumulates.  Texts built by \<open>Sprintf\<close> or
  \<open>Error\<close> are messages; \<open>no_msg\<close> is the empty string.
\<close>

section \<open>Reports\<close>

datatype spec_status = StatusRendered | StatusSkipped | StatusFailed

datatype edit_action = ActionOverwritten | ActionPreserved | ActionFlagged

record human_edit_event =
  BlockID :: gostring
  he_Action :: edit_action
  ev_Diff :: gomsg
  Explanation :: gomsg
  Suggestion :: gostring

record spec_result =
  sr_ID :: gostring
  sr_Status :: spec_status
  sr_Reason :: gomsg
  NewRevisionID :: gostring
  BlocksRegenerated :: nat
  sr_HumanEdits :: "human_edit_event list"
  JudgeIterations :: int
  JudgeVerdict :: gostring

record metrics =
  LLMCalls :: int
  LLMTokensIn :: int
  LLMTokensOut :: int
  WikiPagesChanged :: int
  WikiPagesSkipped :: int

record run_report =
  RunID :: gostring
  rep_Wiki :: gostring
  StartedAt :: gotime
  EndedAt :: gotime
  KBCommit :: gostring
  rep_Specs :: "spec_result list"
  Errors :: "gomsg list"
  Warnings :: "gomsg list"
  Metrics :: metrics

definition no_msg :: gomsg where "no_msg = errorf [] []"

definition no_metrics :: metrics where
  "no_metrics = \<lparr>LLMCalls = 0, LLMTokensIn = 0, LLMTokensOut = 0, WikiPagesChanged = 0, WikiPagesSkipped = 0\<rparr>"

text \<open>A result with the fields the code leaves at their zero value.\<close>

definition spec_result_of :: "gostring \<Rightarrow> spec_status \<Rightarrow> gomsg \<Rightarrow> spec_result" where
  "spec_result_of ident st reason =
     \<lparr>sr_ID = ident, sr_Status = st, sr_Reason = reason, NewRevisionID = [], BlocksRegenerated = 0,
      sr_HumanEdits = [], JudgeIterations = 0, JudgeVerdict = []\<rparr>"

lemma spec_result_of_simps [simp]:
  "sr_ID (spec_result_of i st m) = i" "sr_Status (spec_result_of i st m) = st"
  "sr_Reason (spec_result_of i st m) = m" "NewRevisionID (spec_result_of i st m) = []"
  "sr_HumanEdits (spec_result_of i st m) = []"
  by (simp_all add: spec_result_of_def)

section \<open>The builder\<close>

definition NewBuilder :: "gostring \<Rightarrow> gostring \<Rightarrow> gotime \<Rightarrow> run_report" where
  "NewBuilder wiki runID now =
     \<lparr>RunID = runID, rep_Wiki = wiki, StartedAt = now, EndedAt = zero_time, KBCommit = [],
      rep_Specs = [], Errors = [], Warnings = [], Metrics = no_metrics\<rparr>"

definition SetKBCommit :: "gostring \<Rightarrow> run_report \<Rightarrow> run_report" where
  "SetKBCommit c b = b\<lparr>KBCommit := c\<rparr>"

definition AddSpecResult :: "spec_result \<Rightarrow> run_report \<Rightarrow> run_report" where
  "AddSpecResult s b = b\<lparr>rep_Specs := rep_Specs b @ [s]\<rparr>"

definition AddError :: "gomsg option \<Rightarrow> run_report \<Rightarrow> run_report" where
  "AddError err b = (case err of None \<Rightarrow> b | Some e \<Rightarrow> b\<lparr>Errors := Errors b @ [e]\<rparr>)"

definition AddWarning :: "gomsg \<Rightarrow> run_report \<Rightarrow> run_report" where
  "AddWarning m b = b\<lparr>Warnings := Warnings b @ [m]\<rparr>"

definition rb_Build :: "gotime \<Rightarrow> run_report \<Rightarrow> run_report" where
  "rb_Build now b = b\<lparr>EndedAt := now\<rparr>"

definition Summary :: "run_report \<Rightarrow> gomsg" where
  "Summary r =
     errorf ''wiki=%s kb=%s specs=%d changed=%d skipped=%d errors=%d warnings=%d''
       [rep_Wiki r, KBCommit r, nat_dec (length (rep_Specs r)), int_dec (WikiPagesChanged (Metrics r)),
        int_dec (WikiPagesSkipped (Metrics r)), nat_dec (length (Errors r)), nat_dec (length (Warnings r))]"

lemma builder_simps [simp]:
  "rep_Specs (AddSpecResult s b) = rep_Specs b @ [s]"
  "rep_Specs (AddError e b) = rep_Specs b"
  "rep_Specs (AddWarning m b) = rep_Specs b"
  "rep_Specs (SetKBCommit c b) = rep_Specs b"
  "rep_Specs (rb_Build t b) = rep_Specs b"
  "rep_Specs (NewBuilder wk ri t) = []"
  by (simp_all add: AddSpecResult_def AddError_def AddWarning_def SetKBCommit_def rb_Build_def
      NewBuilder_def split: option.splits)

section \<open>Sinks\<close>

record 'w sink =
  sink_Name :: gostring
  Publish :: "run_report \<Rightarrow> 'w \<Rightarrow> gomsg option \<times> 'w"

text \<open>\<open>MultiSink.Publish\<close>: the joined errors, in order; none joined is success.\<close>

fun multi_Publish :: "'w sink list \<Rightarrow> run_report \<Rightarrow> 'w \<Rightarrow> gomsg list \<times> 'w" where
  "multi_Publish [] r w = ([], w)"
| "multi_Publish (s # ss) r w =
     (case Publish s r w of
        (None, w) \<Rightarrow> multi_Publish ss r w
      | (Some e, w) \<Rightarrow>
          (case multi_Publish ss r w of
             (es, w) \<Rightarrow> (wrapf ''sink %q: %w'' [sink_Name s] e # es, w)))"

text \<open>The body every sink sends: the lines of the text.\<close>

definition status_text :: "spec_status \<Rightarrow> gostring" where
  "status_text st =
     (case st of StatusRendered \<Rightarrow> ''rendered'' | StatusSkipped \<Rightarrow> ''skipped'' | StatusFailed \<Rightarrow> ''failed'')"

definition reportText :: "run_report \<Rightarrow> gomsg list" where
  "reportText r =
     wrapf ''run=%s %s'' [RunID r] (Summary r) #
     map (\<lambda>s. wrapf ''  spec=%s status=%s blocks=%d %s''
                [sr_ID s, status_text (sr_Status s), nat_dec (BlocksRegenerated s)] (sr_Reason s))
       (rep_Specs r)"

text \<open>Every sink is called, once and in order, whatever the others answer.\<close>

lemma multi_Publish_world:
  "snd (multi_Publish ss r w) = foldl (\<lambda>w s. snd (Publish s r w)) w ss"
proof (induction ss arbitrary: w)
  case (Cons s ss)
  obtain e w1 where p: "Publish s r w = (e, w1)" by fastforce
  with Cons.IH [of w1] show ?case 
    by (cases e; cases "multi_Publish ss r w1") simp_all
qed simp

lemma multi_Publish_append:
  "multi_Publish (ss @ ts) r w =
     (fst (multi_Publish ss r w) @ fst (multi_Publish ts r (snd (multi_Publish ss r w))),
      snd (multi_Publish ts r (snd (multi_Publish ss r w))))"
  by (induction ss arbitrary: w) (auto split: prod.splits option.splits)

end
