(* ===== verification/Stores.thy ===== *)
theory Stores
  imports Llm IR
begin

text \<open>
  The curator's persistent state: the run-state cache (cache/runstate/runstate.go) on a bbolt
  bucket, the IR and cluster caches (cache/ircache, cache/clustercache) on gob files, and the page
  manifest (cache/manifest/manifest.go).

  A file or bucket entry is represented by what \<open>encoding/gob\<close> or \<open>encoding/json\<close> decodes its
  bytes to: \<open>Inr v\<close> for the encoding of \<open>v\<close>, \<open>Inl e\<close> for bytes that do not decode.  The faults
  of the file system and the bbolt bucket are parameters.  The clients' view is the record
  \<open>store\<close>; what they rely on is the locale \<open>kv_store\<close>.
\<close>

section \<open>The clients' view\<close>

text \<open>\<open>Get\<close> answers (value, ok, error): \<open>Inr None\<close> is a miss.\<close>

record ('v, 'w) store =
  st_Get :: "gostring \<Rightarrow> 'w \<Rightarrow> 'v option res \<times> 'w"
  st_Set :: "gostring \<Rightarrow> 'v \<Rightarrow> 'w \<Rightarrow> gomsg option \<times> 'w"

text \<open>
  \<open>ok k w\<close>: the entry of \<open>k\<close> can be read if it is there.  A successful \<open>Set\<close> is read back, a
  failing one leaves every entry as it was, and no \<open>Set\<close> touches another entry.
\<close>

locale kv_store =
  fixes get :: "gostring \<Rightarrow> 'w \<Rightarrow> 'v option res \<times> 'w"
    and put :: "gostring \<Rightarrow> 'v \<Rightarrow> 'w \<Rightarrow> gomsg option \<times> 'w"
    and ok :: "gostring \<Rightarrow> 'w \<Rightarrow> bool"
  assumes get_pure: "snd (get k w) = w"
    and put_get: "ok k w \<Longrightarrow> put k v w = (None, w') \<Longrightarrow> fst (get k w') = Inr (Some v)"
    and put_failed: "put k v w = (Some e, w') \<Longrightarrow> fst (get j w') = fst (get j w)"
    and put_other: "j \<noteq> k \<Longrightarrow> put k v w = (r, w') \<Longrightarrow> fst (get j w') = fst (get j w)"
    and put_ok: "ok j w \<Longrightarrow> put k v w = (r, w') \<Longrightarrow> ok j w'"
begin

text \<open>The last successful write of a sequence of writes is what is read.\<close>

primrec puts :: "(gostring \<times> 'v) list \<Rightarrow> 'w \<Rightarrow> 'w" where
  "puts [] w = w"
| "puts (kv # kvs) w = puts kvs (snd (put (fst kv) (snd kv) w))"

lemma puts_other: "k \<notin> fst ` set kvs \<Longrightarrow> fst (get k (puts kvs w)) = fst (get k w)"
proof (induction kvs arbitrary: w)
  case (Cons kv kvs)
  obtain r w1 where "put (fst kv) (snd kv) w = (r, w1)" by fastforce
  with Cons put_other [of k "fst kv" "snd kv" w r w1] show ?case by simp
qed simp

lemma get_after_put_and_others:
  assumes "ok k w" and "put k v w = (None, w')" and "k \<notin> fst ` set kvs"
  shows "get k (puts kvs w') = (Inr (Some v), puts kvs w')"
  using puts_other [OF assms(3), of w'] put_get [OF assms(1,2)] get_pure [of k "puts kvs w'"]
  by (metis prod.collapse)

end

section \<open>Gob files\<close>

text \<open>\<open>ircache.Cache\<close> and \<open>clustercache.Cache\<close>: one file per key; \<open>name\<close> is the package in the errors.\<close>

definition gob_path :: "gostring \<Rightarrow> gostring" where
  "gob_path key = key @ ''.gob''"

definition gob_Get :: "gostring \<Rightarrow> gostring \<Rightarrow> 'v res files \<Rightarrow> 'v option res \<times> 'v res files" where
  "gob_Get name key fs =
     (case unreadable fs (gob_path key) of
        Some e \<Rightarrow> (Inl (wrapf (name @ '': read %s: %w'') [gob_path key] e), fs)
      | None \<Rightarrow>
          (case stored fs (gob_path key) of
             None \<Rightarrow> (Inr None, fs)
           | Some (Inl e) \<Rightarrow> (Inl (wrapf (name @ '': decode %s: %w'') [gob_path key] e), fs)
           | Some (Inr v) \<Rightarrow> (Inr (Some v), fs)))"

text \<open>
  \<open>unencodable v\<close> is the error of the gob encoder, if any.  The directory exists since \<open>Open\<close>,
  so persisting meets the faults of writing and renaming only; only the former is wrapped.
\<close>

definition gob_Set ::
  "gostring \<Rightarrow> ('v \<Rightarrow> gomsg option) \<Rightarrow> (gostring \<Rightarrow> 'v res write_fault option) \<Rightarrow> gostring \<Rightarrow> 'v \<Rightarrow>
   'v res files \<Rightarrow> gomsg option \<times> 'v res files" where
  "gob_Set name unencodable fault key v fs =
     (case unencodable v of
        Some e \<Rightarrow> (Some (wrapf (name @ '': encode: %w'') [] e), fs)
      | None \<Rightarrow>
          (case write_atomically (fault key) (gob_path key) (Inr v) fs of
             (None, fs) \<Rightarrow> (None, fs)
           | (Some e, fs) \<Rightarrow>
               (Some (case fault key of Some (FaultWrite _ _) \<Rightarrow> wrapf (name @ '': write tmp: %w'') [] e
                      | _ \<Rightarrow> e), fs)))"

text \<open>The IR cache keeps documents; the cluster cache lists of page results.\<close>

record page_result =
  pres_Page :: gostring
  pres_Kind :: gostring
  pres_Doc :: ir_document
  Verdict :: gostring
  Iters :: int

definition ircache_Get :: "gostring \<Rightarrow> ir_document res files \<Rightarrow> ir_document option res \<times> ir_document res files" where
  "ircache_Get = gob_Get ''ircache''"

definition ircache_Set ::
  "(ir_document \<Rightarrow> gomsg option) \<Rightarrow> (gostring \<Rightarrow> ir_document res write_fault option) \<Rightarrow> gostring \<Rightarrow>
   ir_document \<Rightarrow> ir_document res files \<Rightarrow> gomsg option \<times> ir_document res files" where
  "ircache_Set = gob_Set ''ircache''"

definition clustercache_Get ::
  "gostring \<Rightarrow> page_result list res files \<Rightarrow> page_result list option res \<times> page_result list res files" where
  "clustercache_Get = gob_Get ''clustercache''"

definition clustercache_Set ::
  "(page_result list \<Rightarrow> gomsg option) \<Rightarrow> (gostring \<Rightarrow> page_result list res write_fault option) \<Rightarrow> gostring \<Rightarrow>
   page_result list \<Rightarrow> page_result list res files \<Rightarrow> gomsg option \<times> page_result list res files" where
  "clustercache_Set = gob_Set ''clustercache''"

section \<open>Run state\<close>

record spec_state =
  LastBotRevID :: gostring
  LastKBCommit :: gostring
  LastRenderHash :: gostring
  LastRunID :: gostring
  LastRunAt :: gotime

text \<open>
  The bbolt bucket is a parameter: a read and a write in a transaction of their own.  A transaction
  can fail, and the bucket can be missing.
\<close>

datatype 'c bolt_read = ReadFailed gomsg | ReadNoBucket | ReadValue "'c option"

datatype bolt_write = WriteFailed gomsg | WriteNoBucket | Written

definition runstate_Get ::
  "(gostring \<Rightarrow> 'w \<Rightarrow> spec_state res bolt_read \<times> 'w) \<Rightarrow> gostring \<Rightarrow> 'w \<Rightarrow> spec_state option res \<times> 'w" where
  "runstate_Get bget specID w =
     (case bget specID w of
        (ReadFailed e, w) \<Rightarrow> (Inl e, w)
      | (ReadNoBucket, w) \<Rightarrow> (Inl (errorf ''runstate: bucket missing (open did not initialise)'' []), w)
      | (ReadValue None, w) \<Rightarrow> (Inr None, w)
      | (ReadValue (Some (Inl e)), w) \<Rightarrow> (Inl e, w)
      | (ReadValue (Some (Inr s)), w) \<Rightarrow> (Inr (Some s), w))"

definition runstate_Set ::
  "(gostring \<Rightarrow> spec_state res \<Rightarrow> 'w \<Rightarrow> bolt_write \<times> 'w) \<Rightarrow> gostring \<Rightarrow> spec_state \<Rightarrow> 'w \<Rightarrow> gomsg option \<times> 'w" where
  "runstate_Set bput specID s w =
     (case bput specID (Inr s) w of
        (WriteFailed e, w) \<Rightarrow> (Some e, w)
      | (WriteNoBucket, w) \<Rightarrow> (Some (errorf ''runstate: bucket missing'' []), w)
      | (Written, w) \<Rightarrow> (None, w))"

section \<open>The manifest\<close>

text \<open>
  The set that is loaded is given as the list of its members in the order in which the caller ranges
  over the Go map, \<open>order\<close>.
\<close>

definition manifest_Load ::
  "(gostring set \<Rightarrow> gostring list) \<Rightarrow> gostring \<Rightarrow> gostring list res files \<Rightarrow>
   gostring list res \<times> gostring list res files" where
  "manifest_Load order path fs =
     (case unreadable fs path of
        Some e \<Rightarrow> (Inl e, fs)
      | None \<Rightarrow>
          (case stored fs path of
             None \<Rightarrow> (Inr [], fs)
           | Some (Inl e) \<Rightarrow> (Inl e, fs)
           | Some (Inr pages) \<Rightarrow> (Inr (order (set pages)), fs)))"

definition manifest_Save ::
  "gostring list res write_fault option \<Rightarrow> gostring \<Rightarrow> gostring list \<Rightarrow> gostring list res files \<Rightarrow>
   gomsg option \<times> gostring list res files" where
  "manifest_Save fault path pages fs =
     write_atomically fault path (Inr (sort (remdups pages))) fs"

section \<open>The stores keep the contract\<close>

lemma gob_path_inj: "gob_path k = gob_path j \<longleftrightarrow> k = j"
  by (simp add: gob_path_def)

lemma gob_path_tmp: "gob_path j \<noteq> gob_path k @ ''.tmp''"
proof
  assume "gob_path j = gob_path k @ ''.tmp''"
  then have "last (gob_path j) = last (gob_path k @ ''.tmp'')" by simp
  then show False by (simp add: gob_path_def)
qed

lemma write_atomically_cases:
  assumes "write_atomically fault path data fs = (r, fs')"
  shows "unreadable fs' = unreadable fs \<and>
     (\<forall>p. p \<noteq> path \<longrightarrow> p \<noteq> path @ ''.tmp'' \<longrightarrow> stored fs' p = stored fs p) \<and>
     (case r of None \<Rightarrow> stored fs' path = Some data | Some e \<Rightarrow> stored fs' path = stored fs path)"
  using assms by (auto simp: write_atomically_def split: option.splits write_fault.splits)

lemma gob_Get_pure: "snd (gob_Get name k fs) = fs"
  by (simp add: gob_Get_def split: option.splits sum.splits)

lemma gob_Get_cong:
  "unreadable fs' = unreadable fs \<Longrightarrow> stored fs' (gob_path k) = stored fs (gob_path k) \<Longrightarrow>
     fst (gob_Get name k fs') = fst (gob_Get name k fs)"
  by (simp add: gob_Get_def split: option.splits sum.splits)

lemma gob_Set_result:
  assumes "gob_Set name unencodable fault k v fs = (r, fs')"
  shows "unreadable fs' = unreadable fs \<and>
     (\<forall>j. j \<noteq> k \<longrightarrow> stored fs' (gob_path j) = stored fs (gob_path j)) \<and>
     stored fs' (gob_path k) = (if r = None then Some (Inr v) else stored fs (gob_path k))"
proof (cases "unencodable v")
  case (Some e)
  with assms show ?thesis by (auto simp: gob_Set_def)
next
  case None
  obtain r1 fs1 where w: "write_atomically (fault k) (gob_path k) (Inr v) fs = (r1, fs1)" by fastforce
  with assms None have "fs' = fs1" "(r = None) = (r1 = None)"
    by (auto simp: gob_Set_def split: option.splits)
  with write_atomically_cases [OF w] gob_path_inj gob_path_tmp show ?thesis
    by (auto split: option.splits)
qed

text \<open>An entry is fine when its file is readable.\<close>

definition gob_ok :: "gostring \<Rightarrow> 'v res files \<Rightarrow> bool" where
  "gob_ok k fs = (unreadable fs (gob_path k) = None)"

lemma gob_store: "kv_store (gob_Get name) (gob_Set name unencodable fault) gob_ok"
proof
  fix k :: gostring and v and fs fs' assume "gob_ok k fs" "gob_Set name unencodable fault k v fs = (None, fs')"
  then show "fst (gob_Get name k fs') = Inr (Some v)"
    using gob_Set_result [of name unencodable fault k v fs None fs'] by (simp add: gob_Get_def gob_ok_def)
next
  fix k v fs e fs' j assume "gob_Set name unencodable fault k v fs = (Some e, fs')"
  then show "fst (gob_Get name j fs') = fst (gob_Get name j fs)"
    using gob_Set_result [of name unencodable fault k v fs "Some e" fs']
    by (intro gob_Get_cong) (cases "j = k"; simp)+
next
  fix j k :: gostring and v fs r fs' assume "j \<noteq> k" "gob_Set name unencodable fault k v fs = (r, fs')"
  then show "fst (gob_Get name j fs') = fst (gob_Get name j fs)"
    using gob_Set_result [of name unencodable fault k v fs r fs'] by (intro gob_Get_cong) simp_all
next
  fix j k v fs r fs' assume "gob_ok j fs" "gob_Set name unencodable fault k v fs = (r, fs')"
  then show "gob_ok j fs'"
    using gob_Set_result [of name unencodable fault k v fs r fs'] by (simp add: gob_ok_def)
qed (rule gob_Get_pure)

interpretation ircache: kv_store ircache_Get "ircache_Set unencodable fault" gob_ok
  unfolding ircache_Get_def ircache_Set_def by (rule gob_store)

interpretation clustercache: kv_store clustercache_Get "clustercache_Set unencodable fault" gob_ok
  unfolding clustercache_Get_def clustercache_Set_def by (rule gob_store)

text \<open>What bbolt documents of a bucket, and the run state over it.\<close>

locale bolt_bucket =
  fixes bget :: "gostring \<Rightarrow> 'w \<Rightarrow> spec_state res bolt_read \<times> 'w"
    and bput :: "gostring \<Rightarrow> spec_state res \<Rightarrow> 'w \<Rightarrow> bolt_write \<times> 'w"
  assumes bget_pure: "snd (bget k w) = w"
    and bput_get: "bput k v w = (Written, w') \<Longrightarrow> fst (bget k w') = ReadValue (Some v)"
    and bput_other: "j \<noteq> k \<Longrightarrow> bput k v w = (r, w') \<Longrightarrow> fst (bget j w') = fst (bget j w)"
    and bput_failed: "bput k v w = (r, w') \<Longrightarrow> r \<noteq> Written \<Longrightarrow> w' = w"
begin

lemma bget_eq: "bget k w = (fst (bget k w), w)"
  using bget_pure by (metis prod.collapse)

lemma runstate_Get_eq:
  "runstate_Get bget k w =
     (case fst (bget k w) of
        ReadFailed e \<Rightarrow> Inl e
      | ReadNoBucket \<Rightarrow> Inl (errorf ''runstate: bucket missing (open did not initialise)'' [])
      | ReadValue v \<Rightarrow> (case v of None \<Rightarrow> Inr None | Some (Inl e) \<Rightarrow> Inl e | Some (Inr s) \<Rightarrow> Inr (Some s)), w)"
  unfolding runstate_Get_def
  by (subst bget_eq) (simp split: bolt_read.splits option.splits sum.splits)

end

sublocale bolt_bucket \<subseteq> runstate: kv_store "runstate_Get bget" "runstate_Set bput" "\<lambda>k w. True"
proof
  fix k w show "snd (runstate_Get bget k w) = w" by (simp add: runstate_Get_eq)
next
  fix k v w w' assume "runstate_Set bput k v w = (None, w')"
  then have "bput k (Inr v) w = (Written, w')"
    by (auto simp: runstate_Set_def split: prod.splits bolt_write.splits)
  then show "fst (runstate_Get bget k w') = Inr (Some v)" using bput_get by (simp add: runstate_Get_eq)
next
  fix k v w e w' j assume "runstate_Set bput k v w = (Some e, w')"
  then obtain r where "bput k (Inr v) w = (r, w')" "r \<noteq> Written"
    by (auto simp: runstate_Set_def split: prod.splits bolt_write.splits)
  then have "w' = w" by (rule bput_failed)
  then show "fst (runstate_Get bget j w') = fst (runstate_Get bget j w)" by simp
next
  fix j k v w r w' assume "j \<noteq> k" "runstate_Set bput k v w = (r, w')"
  moreover from this(2) obtain r' where "bput k (Inr v) w = (r', w')"
    by (auto simp: runstate_Set_def split: prod.splits bolt_write.splits)
  ultimately show "fst (runstate_Get bget j w') = fst (runstate_Get bget j w)"
    using bput_other by (simp add: runstate_Get_eq)
qed simp

text \<open>A bucket that exists and never fails is a map.\<close>

definition map_get :: "gostring \<Rightarrow> (gostring \<rightharpoonup> 'c) \<Rightarrow> 'c bolt_read \<times> (gostring \<rightharpoonup> 'c)" where
  "map_get k m = (ReadValue (m k), m)"

definition map_put :: "gostring \<Rightarrow> 'c \<Rightarrow> (gostring \<rightharpoonup> 'c) \<Rightarrow> bolt_write \<times> (gostring \<rightharpoonup> 'c)" where
  "map_put k v m = (Written, m(k \<mapsto> v))"

interpretation map_bucket: bolt_bucket map_get map_put
  by unfold_locales (auto simp: map_get_def map_put_def)

text \<open>
  What the curator stored under a key is what it reads back, whatever it stores under other
  keys later on: in the cluster cache (files written through a temporary file, with arbitrary
  faults on the other keys) and in the run state.
\<close>

theorem stores_read_back:
  assumes "gob_ok key fs" and "clustercache_Set unencodable fault key pages fs = (None, fs')"
    and "key \<notin> fst ` set others"
  shows "clustercache_Get key (foldl (\<lambda>fs kv. snd (clustercache_Set unencodable fault (fst kv) (snd kv) fs)) fs' others) =
     (Inr (Some pages), foldl (\<lambda>fs kv. snd (clustercache_Set unencodable fault (fst kv) (snd kv) fs)) fs' others)"
proof -
  have "clustercache.puts unencodable fault kvs fs =
      foldl (\<lambda>fs kv. snd (clustercache_Set unencodable fault (fst kv) (snd kv) fs)) fs kvs" for kvs fs
    by (induction kvs arbitrary: fs) simp_all
  with clustercache.get_after_put_and_others [OF assms] show ?thesis by simp
qed

definition one_page :: "page_result list" where
  "one_page = [\<lparr>pres_Page = ''P'', pres_Kind = ''runbook'', pres_Doc = new_document ''P'' [] [],
                Verdict = [], Iters = 0\<rparr>]"

theorem stores_read_back_witness:
  "\<exists>fs. clustercache_Set (\<lambda>_. None) (\<lambda>_. None) ''k'' one_page no_files = (None, fs) \<and>
        fst (clustercache_Get ''k'' (snd (clustercache_Set (\<lambda>_. None) (\<lambda>_. None) ''j'' [] fs))) =
          Inr (Some one_page)"
proof -
  obtain fs where s: "clustercache_Set (\<lambda>_. None) (\<lambda>_. None) ''k'' one_page no_files = (None, fs)"
    by (auto simp: clustercache_Set_def gob_Set_def write_atomically_def)
  from stores_read_back [OF _ this, of "[(''j'', [])]"] s show ?thesis
    by (auto simp: gob_ok_def no_files_def)
qed

end
