(* ===== verification/CacheKeys.thy ===== *)
theory CacheKeys
  imports Specs Sha256
begin

text \<open>
  The content-hash keys of the two render caches: the IR cache's key and kb-subset hash
  (internal/cache/ircache/ircache.go) and the cluster's and page's keys
  (internal/pipelines/rendering/cluster/cachekey.go).
\<close>

section \<open>The IR cache's key\<close>

definition Key :: "gostring \<Rightarrow> gostring \<Rightarrow> gostring \<Rightarrow> gostring" where
  "Key specHash kbSubsetHash pipelineVersion =
     sha256_hex (specHash @ ''|'' @ kbSubsetHash @ ''|'' @ pipelineVersion)"

definition entry_line :: "entry \<Rightarrow> gostring" where
  "entry_line e =
     ''  entry:'' @ e_ID e @ ''|type:'' @ e_Type e @ ''|text:'' @ e_Text e @ ''|why:'' @ e_Why e @
     ''|rejected:'' @ e_Rejected e @ ''|context:'' @ e_Context e @ ''|url:'' @ e_URL e @
     ''|zone:'' @ e_Zone e @ ''|prov:'' @ Status (e_Provenance e) @ ''/'' @
     ep_Source (e_Provenance e) @ [NL]"

definition area_text :: "area \<Rightarrow> gostring" where
  "area_text a =
     ''area:'' @ a_ID a @ ''|name:'' @ a_Name a @ ''|summary:'' @ a_Summary a @ [NL] @
     concat (map entry_line (sort_key e_ID (a_Entries a)))"

definition in_scope :: "snapshot \<Rightarrow> gostring list \<Rightarrow> area list" where
  "in_scope snap want = filter (\<lambda>a. a_ID a \<in> set want) (Areas snap)"

definition HashKBSubset :: "snapshot \<Rightarrow> include_filter \<Rightarrow> gostring" where
  "HashKBSubset snap inc =
     sha256_hex (concat (map area_text (sort_key a_ID (in_scope snap (inc_Areas inc)))))"

section \<open>The cluster's key\<close>

definition areas_only :: "gostring list \<Rightarrow> include_filter" where
  "areas_only as = \<lparr>inc_Areas = as, Workspaces = [], ExcludeZones = []\<rparr>"

text \<open>\<open>area_tokens\<close> are the area ids the closure \<open>collect\<close> puts into the set \<open>seen\<close>.\<close>

definition area_tokens :: "source list \<Rightarrow> gostring list" where
  "area_tokens srcs =
     concat (map (\<lambda>s. if Scheme s \<noteq> ''kb'' then []
       else filter (\<lambda>a. a \<noteq> [])
              (map (\<lambda>tok. TrimPrefix tok ''area='')
                 (filter (\<lambda>tok. HasPrefix tok ''area='') (Fields (src_Spec s))))) srcs)"

definition pageAreas :: "doc_page \<Rightarrow> gostring list" where
  "pageAreas p =
     sort (remdups (area_tokens (dp_Sources p) @
                    concat (map (\<lambda>sec. area_tokens (ds_Sources sec)) (dp_Sections p))))"

definition rawSources :: "source list \<Rightarrow> gostring" where
  "rawSources srcs = Join ''|'' (map (\<lambda>s. Scheme s @ '':'' @ src_Spec s) srcs)"

definition hashDocPage :: "doc_page \<Rightarrow> gostring" where
  "hashDocPage p =
     sha256_hex
       (''page='' @ dp_Page p @ [NUL] @ ''kind='' @ dp_Kind p @ [NUL] @ ''audience='' @ Audience p @
        [NUL] @ ''intent='' @ dp_Intent p @ [NUL] @
        concat (map (\<lambda>s. ''sec='' @ ds_Title s @ [NUL] @ ''int='' @ ds_Intent s @ [NUL] @ ''render='' @
                          Render s @ [NUL] @ ''src='' @ rawSources (ds_Sources s) @ [NUL])
                    (dp_Sections p)) @
        ''psrc='' @ rawSources (dp_Sources p) @ [NUL] @ ''related='' @ Join '','' (Related p) @ [NUL] @
        ''cats='' @ Join '','' (Categories p) @ [NUL])"

definition PageKey :: "doc_page \<Rightarrow> snapshot \<Rightarrow> gostring \<Rightarrow> gostring" where
  "PageKey p snap pipelineVersion =
     Key (hashDocPage p) (HashKBSubset snap (areas_only (pageAreas p))) pipelineVersion"

definition cluster_areas :: "doc_spec \<Rightarrow> gostring list" where
  "cluster_areas sp = sort (remdups (concat (map pageAreas (spec_pages sp))))"

definition ClusterKey :: "doc_spec \<Rightarrow> snapshot \<Rightarrow> gostring \<Rightarrow> gostring" where
  "ClusterKey sp snap pipelineVersion =
     Key (sha256_hex (''topic='' @ Topic sp @ [NUL] @
                      concat (map (\<lambda>p. hashDocPage p @ [NUL]) (spec_pages sp))))
         (HashKBSubset snap (areas_only (cluster_areas sp))) pipelineVersion"

section \<open>What the keys depend on\<close>

lemma cluster_areas_set: "set (cluster_areas sp) = (\<Union>p \<in> set (spec_pages sp). set (pageAreas p))"
  by (simp add: cluster_areas_def)

lemma in_scope_sort:
  assumes "mset (in_scope s want) = mset (in_scope t want)" and "distinct (map a_ID (Areas s))"
  shows "sort_key a_ID (in_scope s want) = sort_key a_ID (in_scope t want)"
proof (rule sort_key_inj_key_eq)
  show "mset (in_scope s want) = mset (sort_key a_ID (in_scope t want))" using assms(1) by simp
  show "inj_on a_ID (set (in_scope s want))"
    using assms(2) by (auto simp: in_scope_def distinct_map intro: inj_on_subset)
qed simp

text \<open>
  The cluster key is stable: it depends on the knowledge base only through the areas the
  cluster's pages read.  Two snapshots that have the same areas among those, in any order and with
  anything else beside them, give the same key, so the cached cluster is used again; and each
  page's own areas are among them.
\<close>

theorem cluster_key_stable:
  assumes "mset (in_scope s (cluster_areas sp)) = mset (in_scope t (cluster_areas sp))"
    and "distinct (map a_ID (Areas s))"
  shows "ClusterKey sp s v = ClusterKey sp t v \<and>
         (\<forall>p \<in> set (spec_pages sp). set (pageAreas p) \<subseteq> set (cluster_areas sp) \<and>
            PageKey p s v = PageKey p t v)"
proof
  show "ClusterKey sp s v = ClusterKey sp t v"
    using in_scope_sort [OF assms] by (simp add: ClusterKey_def HashKBSubset_def areas_only_def)
  show "\<forall>p \<in> set (spec_pages sp). set (pageAreas p) \<subseteq> set (cluster_areas sp) \<and>
            PageKey p s v = PageKey p t v"
  proof (intro ballI conjI)
    fix p assume p: "p \<in> set (spec_pages sp)"
    then show sub: "set (pageAreas p) \<subseteq> set (cluster_areas sp)" by (auto simp: cluster_areas_set)
    have narrow: "in_scope u (pageAreas p) =
        filter (\<lambda>a. a_ID a \<in> set (pageAreas p)) (in_scope u (cluster_areas sp))" for u
      using sub by (auto simp: in_scope_def intro!: filter_cong)
    have "mset (in_scope s (pageAreas p)) = mset (in_scope t (pageAreas p))"
      unfolding narrow using assms(1) by simp
    from in_scope_sort [OF this assms(2)] show "PageKey p s v = PageKey p t v"
      by (simp add: PageKey_def HashKBSubset_def areas_only_def)
  qed
qed

text \<open>Tags can be changed freely without the key noticing.\<close>

definition retag :: "(entry \<Rightarrow> gostring list) \<Rightarrow> (area \<Rightarrow> gostring list) \<Rightarrow> snapshot \<Rightarrow> snapshot" where
  "retag et at snap =
     snap\<lparr>Areas := map (\<lambda>a. a\<lparr>a_Tags := at a, a_Entries := map (\<lambda>e. e\<lparr>e_Tags := et e\<rparr>) (a_Entries a)\<rparr>)
                      (Areas snap)\<rparr>"

lemma insort_key_map: "(\<And>x. k (g x) = h x) \<Longrightarrow> insort_key k (g x) (map g xs) = map g (insort_key h x xs)"
  by (induction xs) auto

lemma sort_key_map: "(\<And>x. k (g x) = h x) \<Longrightarrow> sort_key k (map g xs) = map g (sort_key h xs)"
  by (induction xs) (auto simp: insort_key_map)

lemma entry_line_retag: "entry_line (e\<lparr>e_Tags := t\<rparr>) = entry_line e"
  by (simp add: entry_line_def)

lemma area_text_retag:
  "area_text (a\<lparr>a_Tags := ts, a_Entries := map (\<lambda>e. e\<lparr>e_Tags := et e\<rparr>) (a_Entries a)\<rparr>) = area_text a"
proof -
  have "sort_key e_ID (map (\<lambda>e. e\<lparr>e_Tags := et e\<rparr>) es) = map (\<lambda>e. e\<lparr>e_Tags := et e\<rparr>) (sort_key e_ID es)" for es
    by (rule sort_key_map) simp
  from this [of "a_Entries a"] show ?thesis
    by (simp add: area_text_def comp_def entry_line_retag)
qed

lemma HashKBSubset_retag: "HashKBSubset (retag et at snap) inc = HashKBSubset snap inc"
proof -
  let ?g = "\<lambda>a. a\<lparr>a_Tags := at a, a_Entries := map (\<lambda>e. e\<lparr>e_Tags := et e\<rparr>) (a_Entries a)\<rparr>"
  have scope: "in_scope (retag et at snap) w = map ?g (in_scope snap w)" for w
    by (simp add: in_scope_def retag_def filter_map comp_def)
  have "sort_key a_ID (map ?g as) = map ?g (sort_key a_ID as)" for as
    by (rule sort_key_map) simp
  then show ?thesis
    unfolding HashKBSubset_def scope by (simp add: comp_def area_text_retag)
qed

text \<open>
  The keys do not see tags: changing the tags of every area and every entry of the snapshot
  leaves the cluster key and all page keys as they were, although sources select entries by tag, so
  a cluster whose selection changed is taken from the cache with its old content.
\<close>

theorem cluster_key_ignores_tags:
  "ClusterKey sp (retag et at snap) v = ClusterKey sp snap v \<and>
   PageKey p (retag et at snap) v = PageKey p snap v"
  by (simp add: ClusterKey_def PageKey_def HashKBSubset_retag)

text \<open>
  The page hash is not injective on its inputs, whatever the hash function: a page with one
  related title that contains a comma and the page with the two titles have the same hash, and so
  do pages with one kb source containing a bar and with two sources; such an edit of the spec does
  not invalidate the cache.
\<close>

theorem page_hash_collisions:
  "hashDocPage (p\<lparr>Related := [a @ '','' @ b]\<rparr>) = hashDocPage (p\<lparr>Related := [a, b]\<rparr>) \<and>
   p\<lparr>Related := [a @ '','' @ b]\<rparr> \<noteq> p\<lparr>Related := [a, b]\<rparr> \<and>
   hashDocPage (p\<lparr>dp_Sources := [\<lparr>Scheme = s, src_Spec = c @ ''|'' @ t @ '':'' @ d, Raw = r\<rparr>]\<rparr>) =
   hashDocPage (p\<lparr>dp_Sources := [\<lparr>Scheme = s, src_Spec = c, Raw = r1\<rparr>, \<lparr>Scheme = t, src_Spec = d, Raw = r2\<rparr>]\<rparr>)"
proof -
  have "Related (p\<lparr>Related := [a @ '','' @ b]\<rparr>) \<noteq> Related (p\<lparr>Related := [a, b]\<rparr>)" by simp
  then have "p\<lparr>Related := [a @ '','' @ b]\<rparr> \<noteq> p\<lparr>Related := [a, b]\<rparr>" by metis
  then show ?thesis by (simp add: hashDocPage_def rawSources_def)
qed

section \<open>An example cluster\<close>

definition example_doc_page :: "gostring \<Rightarrow> gostring list \<Rightarrow> doc_page" where
  "example_doc_page title areas =
     \<lparr>dp_Page = title, dp_Kind = ''architecture'', Audience = [], dp_Intent = ''intent'',
      dp_Sections =
        [\<lparr>ds_Title = ''Overview'', ds_Intent = [], Render = [],
          ds_Sources = map (\<lambda>a. \<lparr>Scheme = ''kb'', src_Spec = ''area='' @ a, Raw = ''kb:area='' @ a\<rparr>) areas\<rparr>],
      dp_Sources = [], Related = [], Categories = [], dp_Nav = no_placement, Supersedes = []\<rparr>"

definition example_spec :: doc_spec where
  "example_spec =
     \<lparr>Topic = ''T'', ParentPage = example_doc_page ''P'' [''vault''],
      Children = [example_doc_page ''P/C'' [''net'']]\<rparr>"

definition plain_area :: "gostring \<Rightarrow> area" where
  "plain_area i = \<lparr>a_ID = i, a_Name = i, a_Summary = [], a_Tags = [], a_Entries = []\<rparr>"

definition two_areas :: "gostring list \<Rightarrow> snapshot" where
  "two_areas is = \<lparr>Commit = ''c'', ChangedAreas = [], Areas = map plain_area is\<rparr>"

theorem cluster_key_stable_witness:
  "ClusterKey example_spec (two_areas [''net'', ''vault'', ''other'']) ''v1'' =
   ClusterKey example_spec (two_areas [''vault'', ''x'', ''net'']) ''v1''"
proof -
  have f: "Fields (''area='' @ a) = [''area='' @ a]" if "a \<in> {''vault'', ''net''}" for a
    by (rule Fields_plain) (use that in \<open>auto simp: plain_byte_def ascii_space_def\<close>)
  have areas: "cluster_areas example_spec = [''net'', ''vault'']"
    using f [of "''vault''"] f [of "''net''"]
    by (simp add: cluster_areas_def spec_pages_def example_spec_def example_doc_page_def
          pageAreas_def area_tokens_def HasPrefix_def TrimPrefix_def)
  show ?thesis
    by (rule cluster_key_stable [THEN conjunct1])
       (simp_all add: areas in_scope_def two_areas_def plain_area_def)
qed

end
