(* ===== verification/Orchestrator.thy ===== *)
theory Orchestrator
  imports Reconciler Refine Maintenance Reporter Stores CacheKeys
begin

text \<open>
  The run loop (orchestrator/orchestrator.go).  Every collaborator of \<open>Deps\<close> is a field of the
  record \<open>deps\<close>: an operation on the world \<open>'w\<close>, or an option where the code allows \<open>nil\<close>.
  \<open>Clock\<close> and \<open>RandomID\<close> are \<open>time.Now\<close> and the random run identifier.  The report
  builder is threaded beside the world.
\<close>

section \<open>Collaborators\<close>

record backend =
  be_Name :: gostring
  be_Render :: "ir_document \<Rightarrow> gostring res"

record 'w manifest_store =
  man_Load :: "'w \<Rightarrow> gostring list res \<times> 'w"
  man_Save :: "gostring list \<Rightarrow> 'w \<Rightarrow> gomsg option \<times> 'w"

record 'w deps =
  o_Wiki :: gostring
  KB_Pull :: "'w \<Rightarrow> snapshot res \<times> 'w"
  KB_DiffSince :: "gostring \<Rightarrow> 'w \<Rightarrow> diff_result \<times> 'w"
  Specs_Pull :: "'w \<Rightarrow> spec list res \<times> 'w"
  WikiTarget :: "'w wiki_target option"
  o_Frontends :: "'w fe_registry option"
  o_Passes :: "'w pass list option"
  BuildPasses :: "(snapshot \<Rightarrow> 'w pass list option) option"
  o_Backend :: "backend option"
  OnRendered :: "(gostring \<Rightarrow> gostring \<Rightarrow> ir_document \<Rightarrow> 'w \<Rightarrow> gomsg option \<times> 'w) option"
  RunState :: "(spec_state, 'w) store option"
  IRCache :: "(ir_document, 'w) store option"
  o_Manifest :: "'w manifest_store option"
  ClusterCache :: "(page_result list, 'w) store option"
  PipelineVersion :: gostring
  o_Maintenance :: "'w maint_check list option"
  OnMaintenance :: "(proposal list \<Rightarrow> 'w \<Rightarrow> gomsg option \<times> 'w) option"
  DocSpecs :: "('w \<Rightarrow> doc_file list res \<times> 'w) option"
  o_Cluster :: "'w renderer option"
  o_Judge :: "'w reviewer option"
  Refiner :: "'w refine_loop option"
  Clock :: "'w \<Rightarrow> gotime \<times> 'w"
  RandomID :: "'w \<Rightarrow> gostring \<times> 'w"

definition pipelineVersion :: "'w deps \<Rightarrow> gostring" where
  "pipelineVersion d = (if PipelineVersion d = [] then ''v1'' else PipelineVersion d)"

section \<open>Specs and navigation\<close>

definition validateSpecForWiki :: "spec \<Rightarrow> gostring \<Rightarrow> gomsg option" where
  "validateSpecForWiki s runWiki =
     (if Wiki s = [] then Some (errorf ''spec %s: missing wiki: frontmatter field'' [sp_ID s])
      else if Wiki s \<noteq> runWiki
      then Some (errorf ''spec %s: declares wiki=%q but run is for wiki=%q'' [sp_ID s, Wiki s, runWiki])
      else None)"

definition buildSupersedeMap :: "doc_file list \<Rightarrow> gostring \<rightharpoonup> gostring" where
  "buildSupersedeMap files =
     fold (\<lambda>f m. fold (\<lambda>leaf m. if leaf \<noteq> [] then m(leaf \<mapsto> dp_Page (ParentPage (df_Spec f))) else m)
                    (Supersedes (ParentPage (df_Spec f))) m) files Map.empty"

definition buildNavMap :: "spec list \<Rightarrow> doc_file list \<Rightarrow> (gostring \<rightharpoonup> gostring) \<Rightarrow> nav_map" where
  "buildNavMap specList files superseded =
     Build (map (\<lambda>s. \<lparr>pn_Page = sp_Page s, pn_Nav = sp_Nav s\<rparr>)
              (filter (\<lambda>s. superseded (sp_Page s) = None) specList) @
            map (\<lambda>f. \<lparr>pn_Page = dp_Page (ParentPage (df_Spec f)), pn_Nav = dp_Nav (ParentPage (df_Spec f))\<rparr>) files)"

text \<open>The set of owned pages, as the list of its members.\<close>

definition ownedPages :: "spec list \<Rightarrow> doc_file list \<Rightarrow> gostring list" where
  "ownedPages specList files =
     remdups (filter (\<lambda>t. t \<noteq> [])
       (map sp_Page specList @ concat (map (\<lambda>f. map dp_Page (spec_pages (df_Spec f))) files)))"

definition pullDocSpecs :: "'w deps \<Rightarrow> run_report \<Rightarrow> 'w \<Rightarrow> (doc_file list \<times> bool) \<times> run_report \<times> 'w" where
  "pullDocSpecs d rb w =
     (case DocSpecs d of
        None \<Rightarrow> (([], True), rb, w)
      | Some pull \<Rightarrow>
          (case pull w of
             (Inl e, w) \<Rightarrow> (([], False), AddError (Some (wrapf ''docspecs pull: %w'' [] e)) rb, w)
           | (Inr files, w) \<Rightarrow> ((files, True), rb, w)))"

section \<open>Run state\<close>

definition lookupLastBotRev :: "'w deps \<Rightarrow> gostring \<Rightarrow> 'w \<Rightarrow> gostring \<times> 'w" where
  "lookupLastBotRev d specID w =
     (case RunState d of
        None \<Rightarrow> ([], w)
      | Some rs \<Rightarrow>
          (case st_Get rs specID w of
             (Inr (Some st), w) \<Rightarrow> (LastBotRevID st, w)
           | (_, w) \<Rightarrow> ([], w)))"

definition persistRunState :: "'w deps \<Rightarrow> gostring \<Rightarrow> gostring \<Rightarrow> gostring \<Rightarrow> 'w \<Rightarrow> 'w" where
  "persistRunState d specID revID kbCommit w =
     (case RunState d of
        None \<Rightarrow> w
      | Some rs \<Rightarrow>
          (case Clock d w of
             (now, w) \<Rightarrow>
               snd (st_Set rs specID
                 \<lparr>LastBotRevID = revID, LastKBCommit = kbCommit, LastRenderHash = [], LastRunID = [],
                  LastRunAt = now\<rparr> w)))"

definition intersects :: "gostring list \<Rightarrow> gostring list \<Rightarrow> bool" where
  "intersects a b = (\<exists>y \<in> set b. y \<in> set a)"

definition diffDrivenSkip :: "'w deps \<Rightarrow> spec \<Rightarrow> snapshot \<Rightarrow> 'w \<Rightarrow> spec_result option \<times> 'w" where
  "diffDrivenSkip d s snap w =
     (case RunState d of
        None \<Rightarrow> (None, w)
      | Some rs \<Rightarrow>
          (case st_Get rs (sp_ID s) w of
             (Inr (Some st), w) \<Rightarrow>
               if LastKBCommit st = [] then (None, w)
               else if LastKBCommit st = Commit snap
               then (Some (spec_result_of (sp_ID s) StatusSkipped
                       (errorf ''kb unchanged since last run (commit %s)'' [Commit snap])), w)
               else (case KB_DiffSince d (LastKBCommit st) w of
                       (DiffNotSupported, w) \<Rightarrow> (None, w)
                     | (DiffFailed e, w) \<Rightarrow> (None, w)
                     | (Changed areas, w) \<Rightarrow>
                         if intersects (inc_Areas (Include s)) areas then (None, w)
                         else (Some (spec_result_of (sp_ID s) StatusSkipped
                                (errorf ''no kb changes in declared includes since commit %s (changed: %v)''
                                   [LastKBCommit st, ''['' @ Join '' '' areas @ '']''])), w))
           | (_, w) \<Rightarrow> (None, w)))"

section \<open>Reconcile and push\<close>

record push_result =
  NoOp :: bool
  pu_NewRevisionID :: gostring
  pu_HumanEdits :: "human_edit_event list"

definition convertHumanEdits :: "human_detection list \<Rightarrow> human_edit_event list" where
  "convertHumanEdits es =
     map (\<lambda>e. \<lparr>BlockID = ''page'', he_Action = ActionOverwritten, ev_Diff = hd_Diff e,
               Explanation = errorf ''human edit by %s after last bot write'' [User (hd_Revision e)],
               Suggestion = []\<rparr>) es"

text \<open>Called with a wiki target that is there.\<close>

definition reconcileAndPush ::
  "'w deps \<Rightarrow> 'w wiki_target \<Rightarrow> gostring \<Rightarrow> gostring \<Rightarrow> gostring \<Rightarrow> gostring \<Rightarrow> 'w \<Rightarrow> push_result res \<times> 'w" where
  "reconcileAndPush d T specID title rendered kbCommit w =
     (case lookupLastBotRev d specID w of
        (lastBotRevID, w) \<Rightarrow>
          (case Reconcile T title rendered lastBotRevID w of
             (Inl e, w) \<Rightarrow> (Inl e, w)
           | (Inr dec, w) \<Rightarrow>
               (let res = \<lparr>NoOp = False, pu_NewRevisionID = [], pu_HumanEdits = convertHumanEdits (HumanEdits dec)\<rparr> in
                if Action dec = ActionNoOp
                then (Inr (res\<lparr>NoOp := True\<rparr>), persistRunState d specID lastBotRevID kbCommit w)
                else (case UpsertPage T title
                              (if MergedContent dec = [] then rendered else MergedContent dec)
                              (''mykb-curator: spec='' @ specID) w of
                        (Inl e, w) \<Rightarrow> (Inl (wrapf ''upsert %q: %w'' [title] e), w)
                      | (Inr rv, w) \<Rightarrow>
                          (Inr (res\<lparr>pu_NewRevisionID := rev_ID rv\<rparr>),
                           persistRunState d specID (rev_ID rv) kbCommit w)))))"

section \<open>One spec\<close>

definition countBlocks :: "ir_document \<Rightarrow> nat" where
  "countBlocks doc = (\<Sum>s \<leftarrow> Sections doc. length (Blocks s))"

definition buildOrReuseIR :: "'w deps \<Rightarrow> spec \<Rightarrow> snapshot \<Rightarrow> 'w frontend \<Rightarrow> 'w \<Rightarrow> ir_document res \<times> 'w" where
  "buildOrReuseIR d s snap fe w =
     (case IRCache d of
        None \<Rightarrow> fe_Build fe s snap w
      | Some cache \<Rightarrow>
          if Hash s = [] then fe_Build fe s snap w
          else
            (let key = Key (Hash s) (HashKBSubset snap (Include s)) (pipelineVersion d) in
             case st_Get cache key w of
               (Inr (Some cached), w) \<Rightarrow> (Inr cached, w)
             | (_, w) \<Rightarrow>
                 (case fe_Build fe s snap w of
                    (Inl e, w) \<Rightarrow> (Inl e, w)
                  | (Inr doc, w) \<Rightarrow> (Inr doc, snd (st_Set cache key doc w)))))"

text \<open>\<open>None\<close> is the nil pipeline.\<close>

definition apply_pipeline :: "'w pass list option \<Rightarrow> ir_document \<Rightarrow> 'w \<Rightarrow> ir_document res \<times> 'w" where
  "apply_pipeline pp doc w =
     (case pp of
        None \<Rightarrow> (Inr doc, w)
      | Some ps \<Rightarrow>
          (case pipeline_Apply ps doc w of
             ((_, Some e), w) \<Rightarrow> (Inl e, w)
           | ((out, None), w) \<Rightarrow> (Inr out, w)))"

text \<open>The callback at the end of both paths.\<close>

definition notify_rendered ::
  "'w deps \<Rightarrow> gostring \<Rightarrow> gostring \<Rightarrow> ir_document \<Rightarrow> spec_result \<Rightarrow> 'w \<Rightarrow> spec_result \<times> 'w" where
  "notify_rendered d ident rendered doc res w =
     (case OnRendered d of
        None \<Rightarrow> (res, w)
      | Some f \<Rightarrow>
          (case f ident rendered doc w of
             (Some e, w) \<Rightarrow> (spec_result_of ident StatusFailed e, w)
           | (None, w) \<Rightarrow> (res, w)))"

text \<open>What a push does to the result of its spec.\<close>

definition pushed :: "push_result \<Rightarrow> spec_result \<Rightarrow> spec_result" where
  "pushed pr res =
     (let res = res\<lparr>sr_HumanEdits := pu_HumanEdits pr, NewRevisionID := pu_NewRevisionID pr\<rparr> in
      if NoOp pr
      then res\<lparr>sr_Status := StatusSkipped, sr_Reason := errorf ''no content change since last bot revision'' []\<rparr>
      else res)"

definition processSpec :: "'w deps \<Rightarrow> spec \<Rightarrow> snapshot \<Rightarrow> 'w pass list option \<Rightarrow> 'w \<Rightarrow> spec_result \<times> 'w" where
  "processSpec d s snap pp w =
     (let failed = spec_result_of (sp_ID s) StatusFailed in
      case o_Frontends d of
        None \<Rightarrow> (spec_result_of (sp_ID s) StatusSkipped
                  (errorf ''rendering pipeline not wired (orchestrator.Deps.Frontends == nil)'' []), w)
      | Some reg \<Rightarrow>
          (case For reg (sp_Kind s) of
             Inl e \<Rightarrow> (failed e, w)
           | Inr fe \<Rightarrow>
               (case buildOrReuseIR d s snap fe w of
                  (Inl e, w) \<Rightarrow> (failed (wrapf ''frontend %s: %w'' [fe_Name fe] e), w)
                | (Inr doc, w) \<Rightarrow>
                    (case apply_pipeline pp doc w of
                       (Inl e, w) \<Rightarrow> (failed e, w)
                     | (Inr doc, w) \<Rightarrow>
                         (let result = (spec_result_of (sp_ID s) StatusRendered no_msg)\<lparr>BlocksRegenerated := countBlocks doc\<rparr> in
                          case o_Backend d of
                            None \<Rightarrow> (result, w)
                          | Some be \<Rightarrow>
                              (case be_Render be doc of
                                 Inl e \<Rightarrow> (failed (wrapf ''backend %s: %w'' [be_Name be] e), w)
                               | Inr rendered \<Rightarrow>
                                   (case (if sp_Page s \<noteq> [] then WikiTarget d else None) of
                                      None \<Rightarrow> notify_rendered d (sp_ID s) rendered doc result w
                                    | Some T \<Rightarrow>
                                        (case reconcileAndPush d T (sp_ID s) (sp_Page s) rendered (Commit snap) w of
                                           (Inl e, w) \<Rightarrow> (failed e, w)
                                         | (Inr pr, w) \<Rightarrow>
                                             notify_rendered d (sp_ID s) rendered doc (pushed pr result) w))))))))"

section \<open>Superseded leaves\<close>

definition redirect_to :: "gostring \<Rightarrow> gostring" where
  "redirect_to title = ''#REDIRECT [['' @ title @ '']]'' @ [NL]"

text \<open>Whether the guard against a human-edited leaf stops the retirement.\<close>

definition human_guard :: "'w deps \<Rightarrow> 'w wiki_target \<Rightarrow> spec \<Rightarrow> 'w \<Rightarrow> bool \<times> 'w" where
  "human_guard d T s w =
     (case lookupLastBotRev d (sp_ID s) w of
        (lastRev, w) \<Rightarrow>
          if lastRev = [] then (False, w)
          else (case HumanEditsSinceBot T (sp_Page s) lastRev w of
                  (Inr (Some _), w) \<Rightarrow> (True, w)
                | (_, w) \<Rightarrow> (False, w)))"

definition retireLeaf :: "'w deps \<Rightarrow> spec \<Rightarrow> gostring \<Rightarrow> gostring \<Rightarrow> 'w \<Rightarrow> spec_result \<times> 'w" where
  "retireLeaf d s canonical kbCommit w =
     (case (if sp_Page s = [] then None else WikiTarget d) of
        None \<Rightarrow> (spec_result_of (sp_ID s) StatusSkipped (errorf ''no wiki target'' []), w)
      | Some T \<Rightarrow>
          (case GetPage T (sp_Page s) w of
             (Inl e, w) \<Rightarrow> (spec_result_of (sp_ID s) StatusFailed (wrapf ''retire: get %q: %w'' [sp_Page s] e), w)
           | (Inr cur, w) \<Rightarrow>
               if map_option pg_Content cur = Some (redirect_to canonical)
               then (case lookupLastBotRev d (sp_ID s) w of
                       (lastRev, w) \<Rightarrow>
                         (spec_result_of (sp_ID s) StatusSkipped (errorf ''already redirects to %q'' [canonical]),
                          persistRunState d (sp_ID s) lastRev kbCommit w))
               else (case (if cur = None then (False, w) else human_guard d T s w) of
                       (True, w) \<Rightarrow>
                         (spec_result_of (sp_ID s) StatusSkipped
                            (errorf ''human edits since last bot rev; not retiring %q'' [sp_Page s]), w)
                     | (False, w) \<Rightarrow>
                         (case UpsertPage T (sp_Page s) (redirect_to canonical)
                                 (''mykb-curator: retire '' @ sp_ID s @ '' '' @ right_arrow @ '' redirect to '' @ canonical) w of
                            (Inl e, w) \<Rightarrow>
                              (spec_result_of (sp_ID s) StatusFailed (wrapf ''retire upsert %q: %w'' [sp_Page s] e), w)
                          | (Inr rv, w) \<Rightarrow>
                              ((spec_result_of (sp_ID s) StatusRendered
                                  (errorf (''retired '' @ right_arrow @ '' redirect to %q'') [canonical]))
                                 \<lparr>NewRevisionID := rev_ID rv\<rparr>,
                               persistRunState d (sp_ID s) (rev_ID rv) kbCommit w)))))"

section \<open>Orphans\<close>

definition looksCuratorOwned :: "gostring \<Rightarrow> bool" where
  "looksCuratorOwned content =
     (Contains content ''CURATOR:'' \<or> Contains content ''mykb-curator'' \<or>
      HasPrefix (TrimSpace content) ''#REDIRECT'')"

definition retireOrphan :: "'w deps \<Rightarrow> gostring \<Rightarrow> gostring \<Rightarrow> run_report \<Rightarrow> 'w \<Rightarrow> run_report \<times> 'w" where
  "retireOrphan d title parent rb w =
     (case WikiTarget d of
        None \<Rightarrow> (rb, w)
      | Some T \<Rightarrow>
          (case GetPage T title w of
             (Inl e, w) \<Rightarrow> (AddWarning (wrapf ''orphan-pruning: get %q: %v'' [title] e) rb, w)
           | (Inr None, w) \<Rightarrow> (rb, w)
           | (Inr (Some cur), w) \<Rightarrow>
               if pg_Content cur = redirect_to parent then (rb, w)
               else if \<not> looksCuratorOwned (pg_Content cur)
               then (AddWarning (errorf (''orphan %q looks human-edited '' @ em_dash @ '' left in place, not retired'') [title]) rb, w)
               else (case UpsertPage T title (redirect_to parent)
                            (''mykb-curator: retire orphan '' @ right_arrow @ '' redirect to '' @ parent) w of
                       (Inl e, w) \<Rightarrow> (AddWarning (wrapf ''orphan-pruning: upsert %q: %v'' [title] e) rb, w)
                     | (Inr _, w) \<Rightarrow>
                         (AddWarning (errorf (''orphan: retired %q '' @ right_arrow @ '' redirect to %q (spec removed/renamed)'')
                                        [title, parent]) rb, w))))"

fun prune_each :: "'w deps \<Rightarrow> gostring list \<Rightarrow> gostring list \<Rightarrow> run_report \<Rightarrow> 'w \<Rightarrow> run_report \<times> 'w" where
  "prune_each d owned [] rb w = (rb, w)"
| "prune_each d owned (title # titles) rb w =
     (if title \<in> set owned then prune_each d owned titles rb w
      else if SubpathParent title = []
      then prune_each d owned titles
             (AddWarning (errorf (''orphan: page %q is no longer produced by any spec and has no parent to redirect to '' @
                em_dash @ '' left in place'') [title]) rb) w
      else (case retireOrphan d title (SubpathParent title) rb w of
              (rb, w) \<Rightarrow> prune_each d owned titles rb w))"

definition pruneOrphans :: "'w deps \<Rightarrow> gostring list \<Rightarrow> bool \<Rightarrow> run_report \<Rightarrow> 'w \<Rightarrow> run_report \<times> 'w" where
  "pruneOrphans d owned ok rb w =
     (case (if \<not> ok \<or> owned = [] then None else o_Manifest d) of
        None \<Rightarrow> (rb, w)
      | Some man \<Rightarrow>
          (case man_Load man w of
             (Inl e, w) \<Rightarrow> (AddWarning (wrapf ''orphan-pruning: load manifest: %w'' [] e) rb, w)
           | (Inr prior, w) \<Rightarrow>
               (case prune_each d owned prior rb w of
                  (rb, w) \<Rightarrow>
                    (case man_Save man owned w of
                       (Some e, w) \<Rightarrow> (AddWarning (wrapf ''orphan-pruning: save manifest: %w'' [] e) rb, w)
                     | (None, w) \<Rightarrow> (rb, w)))))"

section \<open>Maintenance\<close>

definition runMaintenance :: "'w deps \<Rightarrow> snapshot \<Rightarrow> run_report \<Rightarrow> 'w \<Rightarrow> run_report \<times> 'w" where
  "runMaintenance d snap rb w =
     (case o_Maintenance d of
        None \<Rightarrow> (rb, w)
      | Some checks \<Rightarrow>
          (case maint_Run checks snap [] w of
             ((_, Some e), w) \<Rightarrow> (AddError (Some (wrapf ''maintenance: %w'' [] e)) rb, w)
           | ((proposals, None), w) \<Rightarrow>
               (let rb = AddWarning (errorf ''maintenance produced %d proposal(s)'' [nat_dec (length proposals)]) rb in
                case (if proposals = [] then None else OnMaintenance d) of
                  None \<Rightarrow> (rb, w)
                | Some handler \<Rightarrow>
                    (case handler proposals w of
                       (Some e, w) \<Rightarrow> (AddError (Some (wrapf ''maintenance handler: %w'' [] e)) rb, w)
                     | (None, w) \<Rightarrow> (rb, w)))))"

section \<open>Clusters\<close>

definition no_doc_page :: doc_page where
  "no_doc_page =
     \<lparr>dp_Page = [], dp_Kind = [], Audience = [], dp_Intent = [], dp_Sections = [], dp_Sources = [],
      Related = [], Categories = [], dp_Nav = no_placement, Supersedes = []\<rparr>"

text \<open>The map and its lookup: the last page with the title wins, a missing one is the zero page.\<close>

definition docPagesByTitle :: "doc_spec \<Rightarrow> gostring \<Rightarrow> doc_page" where
  "docPagesByTitle sp title =
     (case find (\<lambda>p. dp_Page p = title) (rev (spec_pages sp)) of Some p \<Rightarrow> p | None \<Rightarrow> no_doc_page)"

definition clusterGrounding :: "doc_page \<Rightarrow> snapshot \<Rightarrow> gostring \<Rightarrow> gostring" where
  "clusterGrounding page snap =
     fold (\<lambda>sec m. if Render sec \<noteq> [] \<or> TrimSpace (ds_Intent sec) = [] then m
                   else if SectionGrounding snap sec = [] then m
                   else m(ds_Title sec := SectionGrounding snap sec))
       (dp_Sections page) (\<lambda>_. [])"

definition summariseVerdicts :: "report \<Rightarrow> gostring" where
  "summariseVerdicts r =
     TrimSpace (concat (map (\<lambda>v. ''['' @ (if Inconclusive v then ''INCONCLUSIVE'' else ''FAIL'') @ '' '' @
                                v_Section v @ '': '' @ v_Reason v @ ''] '')
       (filter (\<lambda>v. \<not> (Pass v \<and> \<not> Inconclusive v)) (Verdicts r))))"

definition publishClusterPage ::
  "'w deps \<Rightarrow> gostring \<Rightarrow> gostring \<Rightarrow> ir_document \<Rightarrow> int \<Rightarrow> gostring \<Rightarrow> snapshot \<Rightarrow> 'w \<Rightarrow> spec_result \<times> 'w" where
  "publishClusterPage d ident title doc iters verdict snap w =
     (let failed = spec_result_of ident StatusFailed;
          res = (spec_result_of ident StatusRendered no_msg)
                  \<lparr>BlocksRegenerated := countBlocks doc, JudgeIterations := iters, JudgeVerdict := verdict\<rparr> in
      case (o_Backend d, WikiTarget d) of
        (Some be, Some T) \<Rightarrow>
          (case be_Render be doc of
             Inl e \<Rightarrow> (failed (wrapf ''backend %s: %w'' [be_Name be] e), w)
           | Inr rendered \<Rightarrow>
               (case reconcileAndPush d T ident title rendered (Commit snap) w of
                  (Inl e, w) \<Rightarrow> (failed e, w)
                | (Inr pr, w) \<Rightarrow> notify_rendered d ident rendered doc (pushed pr res) w))
      | _ \<Rightarrow> (res, w))"

text \<open>
  The judged document: its text, the rounds, the verdict, or the error that fails the page.  First
  the closed loop, then the path with the passes inline and a report-only judge.
\<close>

definition refine_page ::
  "'w deps \<Rightarrow> 'w refine_loop \<Rightarrow> rendered_page \<Rightarrow> doc_page \<Rightarrow> snapshot \<Rightarrow> 'w pass list option \<Rightarrow> run_report \<Rightarrow> 'w \<Rightarrow>
   (ir_document \<times> int \<times> gostring) res \<times> run_report \<times> 'w" where
  "refine_page d rf p page snap pp rb w =
     (case refine_Run rf page (rp_Doc p) snap (clusterGrounding page snap) (map_option pipeline_Apply pp) w of
        (Inl e, w) \<Rightarrow> (Inl e, rb, w)
      | (Inr r, w) \<Rightarrow>
          if AllPass (rr_Report r) then (Inr (rr_Doc r, Iterations r, []), rb, w)
          else (let verdict = summariseVerdicts (rr_Report r) in
                (Inr (rr_Doc r, Iterations r, verdict),
                 AddWarning (errorf ''judge %q: published best-effort after %d refine iteration(s): %s''
                               [rp_Page p, int_dec (Iterations r), verdict]) rb, w)))"

definition review_page ::
  "'w deps \<Rightarrow> rendered_page \<Rightarrow> doc_page \<Rightarrow> snapshot \<Rightarrow> 'w pass list option \<Rightarrow> run_report \<Rightarrow> 'w \<Rightarrow>
   (ir_document \<times> int \<times> gostring) res \<times> run_report \<times> 'w" where
  "review_page d p page snap pp rb w =
     (case apply_pipeline pp (rp_Doc p) w of
        (Inl e, w) \<Rightarrow> (Inl e, rb, w)
      | (Inr doc, w) \<Rightarrow>
          (case (if dp_Page page = [] then None else o_Judge d) of
             None \<Rightarrow> (Inr (doc, 0, []), rb, w)
           | Some review \<Rightarrow>
               (case review page doc (clusterGrounding page snap) w of
                  (Inl e, w) \<Rightarrow> (Inr (doc, 0, []), AddWarning (wrapf ''judge %q: %v'' [rp_Page p] e) rb, w)
                | (Inr rep, w) \<Rightarrow>
                    if AllPass rep then (Inr (doc, 0, []), rb, w)
                    else (Inr (doc, 0, summariseVerdicts rep),
                          AddWarning (errorf ''judge %q: %s'' [rp_Page p, summariseVerdicts rep]) rb, w))))"

text \<open>The page result is \<open>None\<close> where the code returns the zero value, on a failure before the push.\<close>

definition processClusterPage ::
  "'w deps \<Rightarrow> gostring \<Rightarrow> rendered_page \<Rightarrow> doc_page \<Rightarrow> snapshot \<Rightarrow> 'w pass list option \<Rightarrow> run_report \<Rightarrow> 'w \<Rightarrow>
   (spec_result \<times> page_result option) \<times> run_report \<times> 'w" where
  "processClusterPage d dsID p page snap pp rb w =
     (let ident = dsID @ ''::'' @ rp_Page p in
      case (case (if dp_Page page = [] then None else Refiner d) of
              Some rf \<Rightarrow> refine_page d rf p page snap pp rb w
            | None \<Rightarrow> review_page d p page snap pp rb w) of
        (Inl e, rb, w) \<Rightarrow> ((spec_result_of ident StatusFailed e, None), rb, w)
      | (Inr (doc, iters, verdict), rb, w) \<Rightarrow>
          (case publishClusterPage d ident (rp_Page p) doc iters verdict snap w of
             (res, w) \<Rightarrow>
               ((res, Some \<lparr>pres_Page = rp_Page p, pres_Kind = rp_Kind p, pres_Doc = doc, Verdict = verdict,
                            Iters = iters\<rparr>), rb, w)))"

fun publish_cached ::
  "'w deps \<Rightarrow> gostring \<Rightarrow> page_result list \<Rightarrow> snapshot \<Rightarrow> run_report \<Rightarrow> 'w \<Rightarrow> run_report \<times> 'w" where
  "publish_cached d dsID [] snap rb w = (rb, w)"
| "publish_cached d dsID (cp # cps) snap rb w =
     (case publishClusterPage d (dsID @ ''::'' @ pres_Page cp) (pres_Page cp) (pres_Doc cp) (Iters cp) (Verdict cp) snap w of
        (res, w) \<Rightarrow> publish_cached d dsID cps snap (AddSpecResult res rb) w)"

text \<open>The pages of a fresh cluster: the results to cache and whether every page succeeded.\<close>

fun process_pages ::
  "'w deps \<Rightarrow> doc_file \<Rightarrow> rendered_page list \<Rightarrow> snapshot \<Rightarrow> 'w pass list option \<Rightarrow> page_result list \<Rightarrow> bool \<Rightarrow>
   run_report \<Rightarrow> 'w \<Rightarrow> (page_result list \<times> bool) \<times> run_report \<times> 'w" where
  "process_pages d f [] snap pp results allOK rb w = ((results, allOK), rb, w)"
| "process_pages d f (p # ps) snap pp results allOK rb w =
     (case processClusterPage d (df_ID f) p (docPagesByTitle (df_Spec f) (rp_Page p)) snap pp rb w of
        ((res, cp), rb, w) \<Rightarrow>
          (let rb = AddSpecResult res rb in
           if sr_Status res = StatusFailed then process_pages d f ps snap pp results False rb w
           else process_pages d f ps snap pp (results @ (case cp of None \<Rightarrow> [] | Some c \<Rightarrow> [c])) allOK rb w))"

definition render_cluster ::
  "'w deps \<Rightarrow> 'w renderer \<Rightarrow> (gostring \<times> (page_result list, 'w) store) option \<Rightarrow> snapshot \<Rightarrow> 'w pass list option \<Rightarrow>
   doc_file \<Rightarrow> run_report \<Rightarrow> 'w \<Rightarrow> run_report \<times> 'w" where
  "render_cluster d fe cache snap pp f rb w =
     (case cluster_Render fe (df_Spec f) snap w of
        (Inl e, w) \<Rightarrow>
          (AddSpecResult (spec_result_of (df_ID f) StatusFailed (wrapf ''cluster render: %w'' [] e)) rb, w)
      | (Inr rendered, w) \<Rightarrow>
          (case process_pages d f rendered snap pp [] True rb w of
             ((results, allOK), rb, w) \<Rightarrow>
               (case cache of
                  None \<Rightarrow> (rb, w)
                | Some (key, cc) \<Rightarrow>
                    if \<not> allOK
                    then (AddWarning (errorf ''cluster-cache: not caching %s (a page failed)'' [df_ID f]) rb, w)
                    else (case st_Set cc key results w of
                            (Some e, w) \<Rightarrow> (AddWarning (wrapf ''cluster-cache set %s: %v'' [df_ID f] e) rb, w)
                          | (None, w) \<Rightarrow> (rb, w)))))"

text \<open>One cluster.  The key is never empty, being the hex digits of a hash.\<close>

definition runDocSpec ::
  "'w deps \<Rightarrow> 'w renderer \<Rightarrow> snapshot \<Rightarrow> 'w pass list option \<Rightarrow> doc_file \<Rightarrow> run_report \<Rightarrow> 'w \<Rightarrow> run_report \<times> 'w" where
  "runDocSpec d fe snap pp f rb w =
     (case ClusterCache d of
        None \<Rightarrow> render_cluster d fe None snap pp f rb w
      | Some cc \<Rightarrow>
          (let key = ClusterKey (df_Spec f) snap (pipelineVersion d) in
           case st_Get cc key w of
             (Inl e, w) \<Rightarrow>
               render_cluster d fe (Some (key, cc)) snap pp f
                 (AddWarning (wrapf ''cluster-cache get %s: %v'' [df_ID f] e) rb) w
           | (Inr None, w) \<Rightarrow> render_cluster d fe (Some (key, cc)) snap pp f rb w
           | (Inr (Some cached), w) \<Rightarrow> publish_cached d (df_ID f) cached snap rb w))"

fun runDocSpecs_each ::
  "'w deps \<Rightarrow> 'w renderer \<Rightarrow> snapshot \<Rightarrow> 'w pass list option \<Rightarrow> doc_file list \<Rightarrow> run_report \<Rightarrow> 'w \<Rightarrow> run_report \<times> 'w" where
  "runDocSpecs_each d fe snap pp [] rb w = (rb, w)"
| "runDocSpecs_each d fe snap pp (f # fs) rb w =
     (case runDocSpec d fe snap pp f rb w of (rb, w) \<Rightarrow> runDocSpecs_each d fe snap pp fs rb w)"

definition runDocSpecs ::
  "'w deps \<Rightarrow> snapshot \<Rightarrow> 'w pass list option \<Rightarrow> doc_file list \<Rightarrow> run_report \<Rightarrow> 'w \<Rightarrow> run_report \<times> 'w" where
  "runDocSpecs d snap pp files rb w =
     (case o_Cluster d of None \<Rightarrow> (rb, w) | Some fe \<Rightarrow> runDocSpecs_each d fe snap pp files rb w)"

section \<open>The run\<close>

text \<open>The body of the loop over the specs.\<close>

definition run_spec ::
  "'w deps \<Rightarrow> snapshot \<Rightarrow> 'w pass list option \<Rightarrow> (gostring \<rightharpoonup> gostring) \<Rightarrow> nav_map \<Rightarrow> spec \<Rightarrow> 'w \<Rightarrow> spec_result \<times> 'w" where
  "run_spec d snap pp superseded navMap s w =
     (case validateSpecForWiki s (o_Wiki d) of
        Some e \<Rightarrow> (spec_result_of (sp_ID s) StatusFailed e, w)
      | None \<Rightarrow>
          (case superseded (sp_Page s) of
             Some canonical \<Rightarrow> retireLeaf d s canonical (Commit snap) w
           | None \<Rightarrow>
               if (case Hub s of None \<Rightarrow> False | Some h \<Rightarrow> Auto h)
               then processSpec d ((ExpandAuto s navMap)\<lparr>Hash := []\<rparr>) snap pp w
               else (case diffDrivenSkip d s snap w of
                       (Some skip, w) \<Rightarrow> (skip, w)
                     | (None, w) \<Rightarrow> processSpec d s snap pp w)))"

fun run_specs ::
  "'w deps \<Rightarrow> snapshot \<Rightarrow> 'w pass list option \<Rightarrow> (gostring \<rightharpoonup> gostring) \<Rightarrow> nav_map \<Rightarrow> spec list \<Rightarrow> run_report \<Rightarrow> 'w \<Rightarrow>
   run_report \<times> 'w" where
  "run_specs d snap pp superseded nm [] rb w = (rb, w)"
| "run_specs d snap pp superseded nm (s # ss) rb w =
     (case run_spec d snap pp superseded nm s w of
        (res, w) \<Rightarrow> run_specs d snap pp superseded nm ss (AddSpecResult res rb) w)"

definition finish_report :: "'w deps \<Rightarrow> run_report \<Rightarrow> 'w \<Rightarrow> run_report \<times> 'w" where
  "finish_report d rb w = (case Clock d w of (now, w) \<Rightarrow> (rb_Build now rb, w))"

text \<open>What the run does once kb and specs are there.\<close>

definition run_pipelines :: "'w deps \<Rightarrow> snapshot \<Rightarrow> spec list \<Rightarrow> run_report \<Rightarrow> 'w \<Rightarrow> run_report \<times> 'w" where
  "run_pipelines d snap specList rb w =
     (let pp = (case BuildPasses d of None \<Rightarrow> o_Passes d | Some build \<Rightarrow> build snap) in
      case pullDocSpecs d rb w of
        ((files, docOK), rb, w) \<Rightarrow>
          (let superseded = buildSupersedeMap files;
               navMap = buildNavMap specList files superseded in
           case run_specs d snap pp superseded navMap specList rb w of
             (rb, w) \<Rightarrow>
               (case runDocSpecs d snap pp files rb w of
                  (rb, w) \<Rightarrow>
                    (case pruneOrphans d (ownedPages specList files) docOK rb w of
                       (rb, w) \<Rightarrow> runMaintenance d snap rb w))))"

definition Run :: "'w deps \<Rightarrow> 'w \<Rightarrow> (run_report \<times> gomsg option) \<times> 'w" where
  "Run d w =
     (case RandomID d w of
        (runID, w) \<Rightarrow>
          (case Clock d w of
             (now, w) \<Rightarrow>
               (let rb = NewBuilder (o_Wiki d) runID now in
                case KB_Pull d w of
                  (Inl e, w) \<Rightarrow>
                    (case finish_report d (AddError (Some (wrapf ''kb pull: %w'' [] e)) rb) w of
                       (r, w) \<Rightarrow> ((r, Some e), w))
                | (Inr snap, w) \<Rightarrow>
                    (case Specs_Pull d w of
                       (Inl e, w) \<Rightarrow>
                         (case finish_report d (AddError (Some (wrapf ''specs pull: %w'' [] e)) (SetKBCommit (Commit snap) rb)) w of
                            (r, w) \<Rightarrow> ((r, Some e), w))
                     | (Inr specList, w) \<Rightarrow>
                         (case run_pipelines d snap specList (SetKBCommit (Commit snap) rb) w of
                            (rb, w) \<Rightarrow> (case finish_report d rb w of (r, w) \<Rightarrow> ((r, None), w)))))))"

end
