(* ===== verification/RunFrame.thy ===== *)
theory RunFrame
  imports Orchestrator
begin

text \<open>
  What a run leaves alone.  \<open>keeps P f\<close> says that the operation \<open>f\<close> preserves the predicate \<open>P\<close> of
  the world.  The locale \<open>run_frame\<close> states what the run loop asks of its collaborators for a
  predicate to survive a whole run: each preserves it, and the wiki does so for writes to the titles
  of a set \<open>A\<close>, which holds every page that the specs for this wiki, the clusters and the caches name.  \<open>B\<close> has
  the sets of pages that the run may own, which the manifest keeps for the next one; of the pages in the
  manifest that are not in all of them the run writes those of \<open>A\<close>.
\<close>

section \<open>Preservation\<close>

definition keeps :: "('w \<Rightarrow> bool) \<Rightarrow> ('w \<Rightarrow> 'a \<times> 'w) \<Rightarrow> bool" where
  "keeps P f = (\<forall>w. P w \<longrightarrow> P (snd (f w)))"

lemma keepsD: "keeps P f \<Longrightarrow> f w = (r, w') \<Longrightarrow> P w \<Longrightarrow> P w'"
  unfolding keeps_def by (metis snd_conv)

lemma keepsI: "(\<And>w r w'. f w = (r, w') \<Longrightarrow> P w \<Longrightarrow> P w') \<Longrightarrow> keeps P f"
  unfolding keeps_def by (metis prod.collapse)

lemma keeps_snd: "keeps P f \<Longrightarrow> P w \<Longrightarrow> P (snd (f w))"
  by (simp add: keeps_def)

lemma keeps_pipeline:
  assumes "\<And>p doc. p \<in> set ps \<Longrightarrow> keeps P (pass_Apply p doc)"
  shows "keeps P (pipeline_Apply ps doc)"
proof (rule keepsI)
  fix w r w' assume "pipeline_Apply ps doc w = (r, w')" "P w"
  with assms show "P w'"
  proof (induction ps arbitrary: doc w)
    case (Cons p ps)
    obtain out e w1 where p: "pass_Apply p doc w = ((out, e), w1)" by (metis prod.collapse)
    with Cons.prems have "P w1" using keepsD [of P "pass_Apply p doc"] by force
    with Cons.prems p Cons.IH [of out w1] show ?case by (cases e) auto
  qed simp
qed

lemma keeps_maint:
  assumes "\<And>c. c \<in> set cs \<Longrightarrow> keeps P (ck_Run c snap)"
  shows "keeps P (maint_Run cs snap out)"
proof (rule keepsI)
  fix w r w' assume "maint_Run cs snap out w = (r, w')" "P w"
  with assms show "P w'"
  proof (induction cs arbitrary: out w)
    case (Cons c cs)
    obtain e w1 where c: "ck_Run c snap w = (e, w1)" by fastforce
    with Cons.prems have "P w1" using keepsD [of P "ck_Run c snap"] by force
    with Cons.prems c Cons.IH show ?case by (cases e) auto
  qed simp
qed

lemma keeps_render_pages:
  assumes "\<And>p. keeps P (fe p snap)"
  shows "keeps P (render_pages fe sp snap i ps)"
proof (rule keepsI)
  fix w r w' assume "render_pages fe sp snap i ps w = (r, w')" "P w"
  then show "P w'"
  proof (induction ps arbitrary: i w r w')
    case (Cons p ps)
    obtain e w1 where p: "fe p snap w = (e, w1)" by fastforce
    with Cons.prems have w1: "P w1" using keepsD [OF assms] by metis
    obtain e2 w2 where ps: "render_pages fe sp snap (Suc i) ps w1 = (e2, w2)" by fastforce
    with Cons.IH [OF this w1] Cons.prems p w1 show ?case by (cases e; cases e2) auto
  qed simp
qed

lemma keeps_revise:
  assumes "\<And>page sec fb. keeps P (rv page sec snap fb)"
  shows "keeps P (revise_failing rv page snap vs work any)"
proof (rule keepsI)
  fix w r w' assume "revise_failing rv page snap vs work any w = (r, w')" "P w"
  then show "P w'"
  proof (induction vs arbitrary: work any w)
    case (Cons v vs)
    show ?case
    proof (cases "Pass v \<and> \<not> Inconclusive v \<or> proseSection page (v_Section v) = None")
      case True
      with Cons show ?thesis by (auto split: if_splits)
    next
      case False
      then obtain sec where sec: "proseSection page (v_Section v) = Some sec" by auto
      obtain e w1 where r: "rv page sec snap (feedback v) w = (e, w1)" by fastforce
      with Cons.prems(2) have "P w1" using keepsD [OF assms] by metis
      with Cons False sec r show ?thesis by (cases e) (auto split: prod.splits if_splits)
    qed
  qed simp
qed

lemma keeps_refine_rounds:
  assumes "\<And>page sec fb. keeps P (reviser l page sec snap fb)"
    and "\<And>page doc g. keeps P (reviewer l page doc g)"
    and "\<And>doc. keeps P (apply_passes pp doc)"
  shows "refine_rounds l page snap g pp work applied rep prevFail iters w = (r, w') \<Longrightarrow> P w \<Longrightarrow> P w'"
  using assms
proof (induction l page snap g pp work applied rep prevFail iters w rule: refine_rounds.induct)
  case (1 l page snap g pp work applied rep prevFail iters w)
  show ?case
  proof (cases "iters < maxIters l \<and> \<not> AllPass rep")
    case False
    with "1.prems" show ?thesis by (auto simp: refine_rounds.simps)
  next
    case go: True
    obtain rv w1 where rv: "revise_failing (reviser l) page snap (Verdicts rep) work False w = (rv, w1)"
      by fastforce
    have "keeps P (revise_failing (reviser l) page snap (Verdicts rep) work False)"
      by (rule keeps_revise) (rule "1.prems"(3))
    from keepsD [OF this rv "1.prems"(2)] have w1: "P w1" .
    show ?thesis
    proof (cases "\<exists>work1. rv = Inr (work1, True)")
      case False
      with go rv w1 "1.prems"(1) show ?thesis
        by (cases rv) (auto simp: refine_rounds.simps [of l] split: prod.splits if_splits)
    next
      case True
      then obtain work1 where any: "rv = Inr (work1, True)" by blast
      obtain out e w2 where ap: "apply_passes pp work1 w1 = ((out, e), w2)" by (metis prod.collapse)
      have w2: "P w2" by (rule keepsD [OF "1.prems"(5) ap w1])
      obtain rr w3 where rw: "reviewer l page out g w2 = (rr, w3)" by fastforce
      have w3: "P w3" by (rule keepsD [OF "1.prems"(4) rw w2])
      show ?thesis
      proof (cases "e = None \<and> (\<exists>rep'. rr = Inr rep' \<and> \<not> prevFail \<le> failingCount rep')")
        case False
        with go rv any ap rw w2 w3 "1.prems"(1) show ?thesis
          by (cases e; cases rr) (auto simp: refine_rounds.simps [of l] split: if_splits)
      next
        case True
        then obtain rep' where rep': "rr = Inr rep'" "\<not> prevFail \<le> failingCount rep'" and e: "e = None" by blast
        with go rv any ap rw "1.prems"(1)
        have "refine_rounds l page snap g pp (work1\<lparr>Sections := Sections out\<rparr>) out rep'
                (failingCount rep') (iters + 1) w3 = (r, w')"
          by (simp add: refine_rounds.simps [of l page snap g pp work])
        from "1.IH" [OF go rv [symmetric] any refl _ ap [symmetric] refl e rw [symmetric] rep' this w3
            "1.prems"(3-5)]
        show ?thesis by simp
      qed
    qed
  qed
qed

lemma keeps_refine_Run:
  assumes "\<And>page sec fb. keeps P (reviser l page sec snap fb)"
    and "\<And>page doc g. keeps P (reviewer l page doc g)"
    and "\<And>doc. keeps P (apply_passes pp doc)"
  shows "keeps P (refine_Run l page doc snap g pp)"
proof (rule keepsI)
  fix w r w' assume run: "refine_Run l page doc snap g pp w = (r, w')" and w: "P w"
  obtain out e w1 where ap: "apply_passes pp doc w = ((out, e), w1)" by (metis prod.collapse)
  have w1: "P w1" by (rule keepsD [OF assms(3) ap w])
  obtain rr w2 where rw: "reviewer l page out g w1 = (rr, w2)" by fastforce
  have w2: "P w2" by (rule keepsD [OF assms(2) rw w1])
  show "P w'"
  proof (cases "e = None \<and> isl rr = False \<and> \<not> maxIters l \<le> 0")
    case False
    with run ap rw w1 w2 show ?thesis
      by (cases e; cases rr) (auto simp: refine_Run_def split: if_splits)
  next
    case True
    then obtain rep where "e = None" "rr = Inr rep" "\<not> maxIters l \<le> 0" by (cases rr) auto
    with run ap rw have "refine_rounds l page snap g pp (doc\<lparr>Sections := Sections out\<rparr>) out rep
        (failingCount rep) 0 w2 = (r, w')" by (simp add: refine_Run_def)
    from keeps_refine_rounds [OF assms this w2] show ?thesis by simp
  qed
qed

lemma render_pages_titles:
  "render_pages fe sp snap i ps w = (Inr rs, w') \<Longrightarrow> map rp_Page rs = map dp_Page ps"
proof (induction ps arbitrary: i w rs)
  case (Cons p ps)
  obtain e w1 where p: "fe p snap w = (e, w1)" by fastforce
  obtain e2 w2 where ps: "render_pages fe sp snap (Suc i) ps w1 = (e2, w2)" by fastforce
  with Cons p show ?case by (cases e; cases e2) auto
qed simp

section \<open>The frame of a run\<close>

locale run_steps =
  fixes d :: "'w deps" and P :: "'w \<Rightarrow> bool" and I :: "(gostring \<times> gostring) set"
    and A :: "gostring set" and B :: "gostring set set"
  assumes clock: "keeps P (Clock d)"
    and random: "keeps P (RandomID d)"
    and kb_pull: "keeps P (KB_Pull d)"
    and kb_diff: "keeps P (KB_DiffSince d c)"
    and specs_pull: "keeps P (Specs_Pull d)"
    and push: "WikiTarget d = Some T \<Longrightarrow> (ident, t) \<in> I \<Longrightarrow> keeps P (reconcileAndPush d T ident t c commit)"
    and retire: "(sp_ID s, sp_Page s) \<in> I \<Longrightarrow> keeps P (retireLeaf d s canonical commit)"
    and orphan: "t \<in> A \<Longrightarrow> keeps P (retireOrphan d t parent rb)"
    and frontends: "o_Frontends d = Some reg \<Longrightarrow> reg k = Some fe \<Longrightarrow> keeps P (fe_Build fe s snap)"
    and run_passes: "(case BuildPasses d of None \<Rightarrow> o_Passes d | Some build \<Rightarrow> build snap) = Some ps \<Longrightarrow>
      p \<in> set ps \<Longrightarrow> keeps P (pass_Apply p doc)"
    and rendered: "OnRendered d = Some f \<Longrightarrow> keeps P (f ident bytes doc)"
    and state_get: "RunState d = Some rs \<Longrightarrow> keeps P (st_Get rs k)"
    and ir_get: "IRCache d = Some ic \<Longrightarrow> keeps P (st_Get ic k)"
    and ir_set: "IRCache d = Some ic \<Longrightarrow> keeps P (st_Set ic k doc)"
    and cluster_get: "ClusterCache d = Some cc \<Longrightarrow> keeps P (st_Get cc k)"
    and cluster_set: "ClusterCache d = Some cc \<Longrightarrow> keeps P (st_Set cc k prs)"
    and manifest_load: "o_Manifest d = Some man \<Longrightarrow> keeps P (man_Load man)"
    and manifest_save: "o_Manifest d = Some man \<Longrightarrow> set owned \<in> B \<Longrightarrow> keeps P (man_Save man owned)"
    and checks: "o_Maintenance d = Some cs \<Longrightarrow> ck \<in> set cs \<Longrightarrow> keeps P (ck_Run ck snap)"
    and on_maintenance: "OnMaintenance d = Some h \<Longrightarrow> keeps P (h props)"
    and docspecs: "DocSpecs d = Some pull \<Longrightarrow> keeps P pull"
    and cluster: "o_Cluster d = Some rend \<Longrightarrow> keeps P (rend page snap)"
    and judge: "o_Judge d = Some review \<Longrightarrow> keeps P (review page doc g)"
    and refiner_revise: "Refiner d = Some rf \<Longrightarrow> keeps P (reviser rf page sec snap fb)"
    and refiner_review: "Refiner d = Some rf \<Longrightarrow> keeps P (reviewer rf page doc g)"
    and spec_titles: "P w \<Longrightarrow> Specs_Pull d w = (Inr ss, w') \<Longrightarrow> s \<in> set ss \<Longrightarrow>
      validateSpecForWiki s (o_Wiki d) = None \<Longrightarrow> (sp_ID s, sp_Page s) \<in> I"
    and doc_titles: "DocSpecs d = Some pull \<Longrightarrow> P w \<Longrightarrow> pull w = (Inr fs, w') \<Longrightarrow> df \<in> set fs \<Longrightarrow>
      dpg \<in> set (spec_pages (df_Spec df)) \<Longrightarrow> (df_ID df @ ''::'' @ dp_Page dpg, dp_Page dpg) \<in> I"
    and cached_titles: "DocSpecs d = Some pull \<Longrightarrow> P w \<Longrightarrow> pull w = (Inr fs, w') \<Longrightarrow> df \<in> set fs \<Longrightarrow>
      ClusterCache d = Some cc \<Longrightarrow> P u \<Longrightarrow> st_Get cc k u = (Inr (Some prs), u') \<Longrightarrow> pr \<in> set prs \<Longrightarrow>
      (df_ID df @ ''::'' @ pres_Page pr, pres_Page pr) \<in> I"
    and manifest_titles: "o_Manifest d = Some man \<Longrightarrow> P w \<Longrightarrow> man_Load man w = (Inr ts, w') \<Longrightarrow>
      set ts \<subseteq> A \<union> \<Inter> B"
    and owned_pages: "P w \<Longrightarrow> Specs_Pull d w = (Inr ss, w') \<Longrightarrow> P u \<Longrightarrow>
      (case DocSpecs d of None \<Rightarrow> fs = [] | Some pull \<Rightarrow> fst (pull u) = Inr fs) \<Longrightarrow>
      set (ownedPages ss fs) \<in> B"
begin

lemma keeps_notify: "keeps P (notify_rendered d ident c doc res)"
  by (rule keepsI)
    (auto simp: notify_rendered_def split: option.splits prod.splits dest: keepsD [OF rendered])

lemma keeps_build:
  assumes "o_Frontends d = Some reg" and "reg k = Some fe"
  shows "keeps P (buildOrReuseIR d s snap fe)"
  by (rule keepsI)
    (auto simp: buildOrReuseIR_def Let_def split: option.splits prod.splits sum.splits if_splits
      intro!: keeps_snd [OF ir_set] dest: keepsD [OF ir_get] keepsD [OF frontends [OF assms]])

lemma keeps_passes:
  assumes "\<And>ps p doc. pp = Some ps \<Longrightarrow> p \<in> set ps \<Longrightarrow> keeps P (pass_Apply p doc)"
  shows "keeps P (apply_pipeline pp doc)" and "keeps P (apply_passes (map_option pipeline_Apply pp) doc)"
proof -
  have pl: "pp = Some ps \<Longrightarrow> keeps P (pipeline_Apply ps doc)" for ps
    by (rule keeps_pipeline) (rule assms)
  show "keeps P (apply_pipeline pp doc)"
    by (rule keepsI) (auto simp: apply_pipeline_def split: option.splits prod.splits dest: keepsD [OF pl])
  show "keeps P (apply_passes (map_option pipeline_Apply pp) doc)"
    by (rule keepsI) (auto simp: apply_passes_def split: option.splits dest: keepsD [OF pl])
qed

text \<open>The passes of a run.\<close>

definition good_passes :: "'w pass list option \<Rightarrow> bool" where
  "good_passes pp = (\<forall>ps p doc. pp = Some ps \<longrightarrow> p \<in> set ps \<longrightarrow> keeps P (pass_Apply p doc))"

lemma keeps_good_passes:
  assumes "good_passes pp"
  shows "keeps P (apply_pipeline pp doc)" and "keeps P (apply_passes (map_option pipeline_Apply pp) doc)"
  using keeps_passes assms unfolding good_passes_def by blast+

lemma keeps_publish:
  assumes "(ident, title) \<in> I"
  shows "keeps P (publishClusterPage d ident title doc iters verdict snap)"
  by (rule keepsI)
    (auto simp: publishClusterPage_def Let_def split: option.splits prod.splits sum.splits
      dest: keepsD [OF push [OF _ assms]] keepsD [OF keeps_notify])

lemma keeps_process:
  assumes pp: "good_passes pp" and t: "(sp_ID s, sp_Page s) \<in> I"
  shows "keeps P (processSpec d s snap pp)"
proof (rule keepsI)
  fix w r w' assume run: "processSpec d s snap pp w = (r, w')" and w: "P w"
  show "P w'"
  proof (cases "\<exists>reg fe. o_Frontends d = Some reg \<and> reg (sp_Kind s) = Some fe")
    case False
    with run w show ?thesis by (auto simp: processSpec_def For_def Let_def split: option.splits)
  next
    case True
    then obtain reg fe where fe: "o_Frontends d = Some reg" "reg (sp_Kind s) = Some fe" by blast
    obtain e w1 where e: "buildOrReuseIR d s snap fe w = (e, w1)" by fastforce
    have w1: "P w1" by (rule keepsD [OF keeps_build [OF fe] e w])
    show ?thesis
    proof (cases e)
      case (Inl err)
      with run fe e w1 show ?thesis by (auto simp: processSpec_def For_def Let_def)
    next
      case (Inr doc)
      obtain e2 w2 where e2: "apply_pipeline pp doc w1 = (e2, w2)" by fastforce
      have w2: "P w2" by (rule keepsD [OF keeps_good_passes(1) [OF pp] e2 w1])
      from run fe e Inr e2 w2 show ?thesis
        by (auto simp: processSpec_def For_def Let_def split: option.splits sum.splits prod.splits if_splits
            dest: keepsD [OF push [OF _ t]] keepsD [OF keeps_notify])
    qed
  qed
qed

lemma keeps_prune_each: "set titles \<subseteq> A \<union> set owned \<Longrightarrow> keeps P (prune_each d owned titles rb)"
proof (rule keepsI)
  fix w r w' assume "set titles \<subseteq> A \<union> set owned" "prune_each d owned titles rb w = (r, w')" "P w"
  then show "P w'"
  proof (induction titles arbitrary: rb w)
    case (Cons t ts)
    obtain rb1 w1 where o1: "retireOrphan d t (SubpathParent t) rb w = (rb1, w1)" by fastforce
    show ?case
    proof (cases "t \<in> set owned \<or> SubpathParent t = []")
      case True
      with Cons show ?thesis by (auto split: if_splits)
    next
      case False
      with Cons.prems(1) have "t \<in> A" by auto
      from keepsD [OF orphan [OF this] o1 Cons.prems(3)] have "P w1" .
      with False Cons o1 show ?thesis by auto
    qed
  qed simp
qed

lemma keeps_pruneOrphans:
  assumes owned: "ok \<Longrightarrow> set owned \<in> B"
  shows "keeps P (pruneOrphans d owned ok rb)"
proof (rule keepsI)
  fix w r w' assume run: "pruneOrphans d owned ok rb w = (r, w')" and w: "P w"
  show "P w'"
  proof (cases "if \<not> ok \<or> owned = [] then None else o_Manifest d")
    case None
    with run w show ?thesis by (simp add: pruneOrphans_def)
  next
    case (Some man)
    then have man: "o_Manifest d = Some man" and B: "set owned \<in> B" using owned by (auto split: if_splits)
    obtain e w1 where e: "man_Load man w = (e, w1)" by fastforce
    have w1: "P w1" by (rule keepsD [OF manifest_load [OF man] e w])
    show ?thesis
    proof (cases e)
      case (Inl err)
      with run Some e w1 show ?thesis by (auto simp: pruneOrphans_def)
    next
      case (Inr ts)
      have ts: "set ts \<subseteq> A \<union> set owned" using manifest_titles [OF man w] e Inr B by blast
      obtain rb2 w2 where pr: "prune_each d owned ts rb w1 = (rb2, w2)" by fastforce
      have w2: "P w2" by (rule keepsD [OF keeps_prune_each [OF ts] pr w1])
      with run Some e Inr pr show ?thesis
        by (auto simp: pruneOrphans_def split: prod.splits option.splits dest: keepsD [OF manifest_save [OF man B]])
    qed
  qed
qed

lemma keeps_runMaintenance: "keeps P (runMaintenance d snap rb)"
proof (rule keepsI)
  fix w r w' assume run: "runMaintenance d snap rb w = (r, w')" and w: "P w"
  show "P w'"
  proof (cases "o_Maintenance d")
    case None
    with run w show ?thesis by (simp add: runMaintenance_def)
  next
    case (Some cs)
    obtain out e w1 where e: "maint_Run cs snap [] w = ((out, e), w1)" by (metis prod.collapse)
    have "keeps P (maint_Run cs snap [])" by (rule keeps_maint) (rule checks [OF Some])
    from keepsD [OF this e w] have "P w1" .
    with run Some e show ?thesis
      by (auto simp: runMaintenance_def Let_def split: option.splits prod.splits if_splits
          dest: keepsD [OF on_maintenance])
  qed
qed

lemma refine_page_keeps:
  assumes "good_passes pp" and rf: "Refiner d = Some rf"
    and "refine_page d rf p page snap pp rb w = (r, rb', w')" and "P w"
  shows "P w'"
proof -
  obtain e w1 where e: "refine_Run rf page (rp_Doc p) snap (clusterGrounding page snap)
      (map_option pipeline_Apply pp) w = (e, w1)" by fastforce
  have "keeps P (refine_Run rf page (rp_Doc p) snap (clusterGrounding page snap) (map_option pipeline_Apply pp))"
    by (rule keeps_refine_Run) (rule refiner_revise [OF rf] refiner_review [OF rf] keeps_good_passes(2) [OF assms(1)])+
  from keepsD [OF this e assms(4)] have "P w1" .
  with assms(3) e show ?thesis
    by (auto simp: refine_page_def Let_def split: sum.splits if_splits)
qed

lemma review_page_keeps:
  assumes "good_passes pp" and "review_page d p page snap pp rb w = (r, rb', w')" and "P w"
  shows "P w'"
proof -
  obtain e w1 where e: "apply_pipeline pp (rp_Doc p) w = (e, w1)" by fastforce
  from keepsD [OF keeps_good_passes(1) [OF assms(1)] e assms(3)] have "P w1" .
  with assms(2) e show ?thesis
    by (auto simp: review_page_def split: sum.splits option.splits prod.splits if_splits
        dest: keepsD [OF judge])
qed

lemma processClusterPage_keeps:
  assumes "good_passes pp" and t: "(ident @ ''::'' @ rp_Page p, rp_Page p) \<in> I"
    and run: "processClusterPage d ident p page snap pp rb w = (r, rb', w')" and w: "P w"
  shows "P w'"
proof -
  let ?q = "case (if dp_Page page = [] then None else Refiner d) of
              Some rf \<Rightarrow> refine_page d rf p page snap pp rb w
            | None \<Rightarrow> review_page d p page snap pp rb w"
  obtain e rb1 w1 where q: "?q = (e, rb1, w1)" by (metis prod.collapse)
  have "P w1"
    using q refine_page_keeps [OF assms(1) _ _ w] review_page_keeps [OF assms(1) _ w]
    by (auto split: option.splits if_splits)
  with run q show ?thesis
    by (auto simp: processClusterPage_def Let_def split: sum.splits prod.splits dest: keepsD [OF keeps_publish [OF t [simplified]]])
qed

lemma keeps_publish_cached:
  "list_all (\<lambda>cp. (ident @ ''::'' @ pres_Page cp, pres_Page cp) \<in> I) cps \<Longrightarrow>
     publish_cached d ident cps snap rb w = (r, w') \<Longrightarrow> P w \<Longrightarrow> P w'"
proof (induction cps arbitrary: rb w)
  case (Cons cp cps)
  obtain res w1 where q: "publishClusterPage d (ident @ ''::'' @ pres_Page cp) (pres_Page cp) (pres_Doc cp)
      (Iters cp) (Verdict cp) snap w = (res, w1)" by fastforce
  from Cons.prems(1) have "P w1" using keepsD [OF keeps_publish q Cons.prems(3)] by simp
  with Cons q show ?case by auto
qed simp

lemma process_pages_keeps:
  assumes "good_passes pp"
  shows "list_all (\<lambda>p. (df_ID df @ ''::'' @ rp_Page p, rp_Page p) \<in> I) ps \<Longrightarrow>
     process_pages d df ps snap pp res ok rb w = (r, rb', w') \<Longrightarrow> P w \<Longrightarrow> P w'"
proof (induction ps arbitrary: res ok rb w)
  case (Cons p ps)
  obtain sr cp rb1 w1 where q: "processClusterPage d (df_ID df) p (docPagesByTitle (df_Spec df) (rp_Page p))
      snap pp rb w = ((sr, cp), rb1, w1)" by (metis prod.collapse)
  from Cons.prems(1) have "P w1" using processClusterPage_keeps [OF assms _ q Cons.prems(3)] by simp
  with Cons q show ?case by (auto simp: Let_def split: if_splits)
qed simp

lemma render_cluster_keeps:
  assumes pp: "good_passes pp" and fe: "o_Cluster d = Some fe"
    and titles: "\<And>pg. pg \<in> set (spec_pages (df_Spec df)) \<Longrightarrow> (df_ID df @ ''::'' @ dp_Page pg, dp_Page pg) \<in> I"
    and cc: "\<And>k st. cache = Some (k, st) \<Longrightarrow> ClusterCache d = Some st"
    and run: "render_cluster d fe cache snap pp df rb w = (r, w')" and w: "P w"
  shows "P w'"
proof -
  obtain e w1 where e: "cluster_Render fe (df_Spec df) snap w = (e, w1)" by fastforce
  have "keeps P (cluster_Render fe (df_Spec df) snap)"
    unfolding cluster_Render_def by (rule keeps_render_pages) (rule cluster [OF fe])
  from keepsD [OF this e w] have w1: "P w1" .
  show ?thesis
  proof (cases e)
    case (Inl err)
    with run e w1 show ?thesis by (auto simp: render_cluster_def)
  next
    case (Inr rs)
    with e have "map rp_Page rs = map dp_Page (spec_pages (df_Spec df))"
      by (auto simp: cluster_Render_def dest: render_pages_titles)
    moreover have "list_all (\<lambda>t. (df_ID df @ ''::'' @ t, t) \<in> I) (map dp_Page (spec_pages (df_Spec df)))"
      using titles by (auto simp: list_all_iff)
    ultimately have "list_all (\<lambda>t. (df_ID df @ ''::'' @ t, t) \<in> I) (map rp_Page rs)" by simp
    then have la: "list_all (\<lambda>p. (df_ID df @ ''::'' @ rp_Page p, rp_Page p) \<in> I) rs" by (simp add: list_all_iff)
    obtain res ok rb2 w2 where q: "process_pages d df rs snap pp [] True rb w1 = ((res, ok), rb2, w2)"
      by (metis prod.collapse)
    have w2: "P w2" by (rule process_pages_keeps [OF pp la q w1])
    show ?thesis
    proof (cases cache)
      case None
      with run e Inr q w2 show ?thesis by (auto simp: render_cluster_def)
    next
      case (Some kst)
      then obtain k st where kst: "cache = Some (k, st)" by (cases kst) auto
      with run e Inr q w2 show ?thesis
        by (auto simp: render_cluster_def split: if_splits prod.splits option.splits
            dest: keepsD [OF cluster_set [OF cc [OF kst]]])
    qed
  qed
qed

lemma runDocSpec_keeps:
  assumes pp: "good_passes pp" and fe: "o_Cluster d = Some fe"
    and titles: "\<And>pg. pg \<in> set (spec_pages (df_Spec df)) \<Longrightarrow> (df_ID df @ ''::'' @ dp_Page pg, dp_Page pg) \<in> I"
    and cached: "\<And>cc k u u' prs pr. ClusterCache d = Some cc \<Longrightarrow> P u \<Longrightarrow> st_Get cc k u = (Inr (Some prs), u') \<Longrightarrow>
      pr \<in> set prs \<Longrightarrow> (df_ID df @ ''::'' @ pres_Page pr, pres_Page pr) \<in> I"
    and run: "runDocSpec d fe snap pp df rb w = (r, w')" and w: "P w"
  shows "P w'"
proof (cases "ClusterCache d")
  case None
  with run have "render_cluster d fe None snap pp df rb w = (r, w')" by (simp add: runDocSpec_def)
  from render_cluster_keeps [OF pp fe titles _ this w] show ?thesis by simp
next
  case (Some cc)
  let ?key = "ClusterKey (df_Spec df) snap (pipelineVersion d)"
  obtain e w1 where e: "st_Get cc ?key w = (e, w1)" by fastforce
  have w1: "P w1" by (rule keepsD [OF cluster_get [OF Some] e w])
  have fresh: "P w'" if "render_cluster d fe (Some (?key, cc)) snap pp df rb' w1 = (r, w')" for rb'
    using render_cluster_keeps [OF pp fe titles _ that w1] Some by simp
  show ?thesis
  proof (cases e)
    case (Inl err)
    with run Some e fresh show ?thesis by (auto simp: runDocSpec_def Let_def)
  next
    case (Inr hit)
    show ?thesis
    proof (cases hit)
      case None
      with run Some e Inr fresh show ?thesis by (auto simp: runDocSpec_def Let_def)
    next
      case (Some cps)
      with e Inr \<open>ClusterCache d = Some cc\<close> have "list_all (\<lambda>cp. (df_ID df @ ''::'' @ pres_Page cp, pres_Page cp) \<in> I) cps"
        using cached [OF _ w] by (auto simp: list_all_iff)
      moreover from run \<open>ClusterCache d = Some cc\<close> e Inr Some
      have "publish_cached d (df_ID df) cps snap rb w1 = (r, w')" by (simp add: runDocSpec_def Let_def)
      ultimately show ?thesis using keeps_publish_cached w1 by blast
    qed
  qed
qed

lemma runDocSpecs_keeps:
  assumes pp: "good_passes pp"
    and titles: "\<And>df pg. df \<in> set dfs \<Longrightarrow> pg \<in> set (spec_pages (df_Spec df)) \<Longrightarrow>
      (df_ID df @ ''::'' @ dp_Page pg, dp_Page pg) \<in> I"
    and cached: "\<And>df cc k u u' prs pr. df \<in> set dfs \<Longrightarrow> ClusterCache d = Some cc \<Longrightarrow> P u \<Longrightarrow>
      st_Get cc k u = (Inr (Some prs), u') \<Longrightarrow> pr \<in> set prs \<Longrightarrow>
      (df_ID df @ ''::'' @ pres_Page pr, pres_Page pr) \<in> I"
    and run: "runDocSpecs d snap pp dfs rb w = (r, w')" and w: "P w"
  shows "P w'"
proof (cases "o_Cluster d")
  case None
  with run w show ?thesis by (simp add: runDocSpecs_def)
next
  case (Some fe)
  with run have "runDocSpecs_each d fe snap pp dfs rb w = (r, w')" by (simp add: runDocSpecs_def)
  with w titles cached show ?thesis
  proof (induction dfs arbitrary: rb w)
    case (Cons df dfs)
    obtain rb1 w1 where q: "runDocSpec d fe snap pp df rb w = (rb1, w1)" by fastforce
    have "P w1"
      by (rule runDocSpec_keeps [OF pp Some _ _ q Cons.prems(1)])
        ((rule Cons.prems(2) [of df] Cons.prems(3) [of df]; (assumption | simp)?)+)
    moreover from Cons.prems(4) q have "runDocSpecs_each d fe snap pp dfs rb1 w1 = (r, w')" by simp
    ultimately show ?case using Cons.IH [of w1 rb1] Cons.prems(2,3) by (meson list.set_intros(2))
  qed simp
qed

lemma keeps_skip: "keeps P (diffDrivenSkip d s snap)"
  by (rule keepsI)
    (auto simp: diffDrivenSkip_def split: option.splits prod.splits sum.splits if_splits diff_result.splits
      dest: keepsD [OF state_get] keepsD [OF kb_diff])

lemma run_spec_keeps:
  assumes pp: "good_passes pp" and t: "validateSpecForWiki s (o_Wiki d) = None \<Longrightarrow> (sp_ID s, sp_Page s) \<in> I"
    and run: "run_spec d snap pp superseded nm s w = (r, w')" and w: "P w"
  shows "P w'"
proof (cases "validateSpecForWiki s (o_Wiki d)")
  case (Some e)
  with run w show ?thesis by (simp add: run_spec_def)
next
  case valid: None
  note a = t [OF valid]
  have pr: "keeps P (processSpec d s snap pp)" by (rule keeps_process [OF pp a])
  have auto: "keeps P (processSpec d ((ExpandAuto s nm)\<lparr>Hash := []\<rparr>) snap pp)"
    using a by (intro keeps_process [OF pp]) (simp add: ExpandAuto_def Let_def split: option.splits)
  obtain sk w1 where sk: "diffDrivenSkip d s snap w = (sk, w1)" by fastforce
  have w1: "P w1" by (rule keepsD [OF keeps_skip sk w])
  from run w w1 valid sk show ?thesis
    by (auto simp: run_spec_def split: option.splits if_splits
        dest: keepsD [OF retire [OF a]] keepsD [OF pr] keepsD [OF auto])
qed

lemma run_specs_keeps:
  assumes pp: "good_passes pp"
  shows "(\<And>s. s \<in> set ss \<Longrightarrow> validateSpecForWiki s (o_Wiki d) = None \<Longrightarrow> (sp_ID s, sp_Page s) \<in> I) \<Longrightarrow>
    run_specs d snap pp superseded nm ss rb w = (r, w') \<Longrightarrow> P w \<Longrightarrow> P w'"
proof (induction ss arbitrary: rb w)
  case (Cons s ss)
  obtain res w1 where q: "run_spec d snap pp superseded nm s w = (res, w1)" by fastforce
  have "P w1" by (rule run_spec_keeps [OF pp _ q Cons.prems(3)]) (rule Cons.prems(1), auto)
  with Cons q show ?case by auto
qed simp

lemma run_pipelines_keeps:
  assumes specs: "\<And>s. s \<in> set ss \<Longrightarrow> validateSpecForWiki s (o_Wiki d) = None \<Longrightarrow> (sp_ID s, sp_Page s) \<in> I"
    and owned: "\<And>u fs. P u \<Longrightarrow> (case DocSpecs d of None \<Rightarrow> fs = [] | Some pull \<Rightarrow> fst (pull u) = Inr fs) \<Longrightarrow>
      set (ownedPages ss fs) \<in> B"
    and run: "run_pipelines d snap ss rb w = (r, w')" and w: "P w"
  shows "P w'"
proof -
  let ?pp = "case BuildPasses d of None \<Rightarrow> o_Passes d | Some build \<Rightarrow> build snap"
  have pp: "good_passes ?pp" unfolding good_passes_def using run_passes by blast
  obtain dfs ok rb1 w1 where q1: "pullDocSpecs d rb w = ((dfs, ok), rb1, w1)" by (metis prod.collapse)
  have w1: "P w1" using q1 w
    by (auto simp: pullDocSpecs_def split: option.splits prod.splits sum.splits dest: keepsD [OF docspecs])
  have dt: "(df_ID df @ ''::'' @ dp_Page pg, dp_Page pg) \<in> I" if "df \<in> set dfs" "pg \<in> set (spec_pages (df_Spec df))" for df pg
    using q1 that doc_titles [OF _ w]
    by (auto simp: pullDocSpecs_def split: option.splits prod.splits sum.splits)
  have ct: "(df_ID df @ ''::'' @ pres_Page pr, pres_Page pr) \<in> I"
    if "df \<in> set dfs" "ClusterCache d = Some cc" "P u" "st_Get cc k u = (Inr (Some prs), u')" "pr \<in> set prs"
    for df cc k u u' prs pr
    using q1 that cached_titles [OF _ w]
    by (auto simp: pullDocSpecs_def split: option.splits prod.splits sum.splits)
  let ?sup = "buildSupersedeMap dfs" let ?nm = "buildNavMap ss dfs ?sup"
  obtain rb2 w2 where q2: "run_specs d snap ?pp ?sup ?nm ss rb1 w1 = (rb2, w2)" by fastforce
  have w2: "P w2" by (rule run_specs_keeps [OF pp specs q2 w1])
  obtain rb3 w3 where q3: "runDocSpecs d snap ?pp dfs rb2 w2 = (rb3, w3)" by fastforce
  have w3: "P w3" by (rule runDocSpecs_keeps [OF pp dt ct q3 w2])
  obtain rb4 w4 where q4: "pruneOrphans d (ownedPages ss dfs) ok rb3 w3 = (rb4, w4)" by fastforce
  have B: "set (ownedPages ss dfs) \<in> B" if ok
    using owned [OF w, of dfs] q1 that by (auto simp: pullDocSpecs_def split: option.splits prod.splits sum.splits)
  have w4: "P w4" by (rule keepsD [OF keeps_pruneOrphans [OF B] q4 w3])
  from run q1 q2 q3 q4 have "runMaintenance d snap rb4 w4 = (r, w')" by (simp add: run_pipelines_def Let_def)
  from keepsD [OF keeps_runMaintenance this w4] show ?thesis .
qed

lemma keeps_finish: "keeps P (finish_report d rb)"
  by (rule keepsI) (auto simp: finish_report_def split: prod.splits dest: keepsD [OF clock])

lemma keeps_Run: "keeps P (Run d)"
proof (rule keepsI)
  fix w r w' assume run: "Run d w = (r, w')" and w: "P w"
  obtain ident w1 where q1: "RandomID d w = (ident, w1)" by fastforce
  have w1: "P w1" by (rule keepsD [OF random q1 w])
  obtain t w2 where q2: "Clock d w1 = (t, w2)" by fastforce
  have w2: "P w2" by (rule keepsD [OF clock q2 w1])
  obtain ks w3 where q3: "KB_Pull d w2 = (ks, w3)" by fastforce
  have w3: "P w3" by (rule keepsD [OF kb_pull q3 w2])
  obtain ss w4 where q4: "Specs_Pull d w3 = (ss, w4)" by fastforce
  have w4: "P w4" by (rule keepsD [OF specs_pull q4 w3])
  show "P w'"
  proof (cases "isl ks \<or> isl ss")
    case True
    with run q1 q2 q3 q4 w3 w4 show ?thesis
      by (cases ks; cases ss)
        (auto simp: Run_def Let_def split: prod.splits dest: keepsD [OF keeps_finish])
  next
    case False
    then obtain snap sl where ok: "ks = Inr snap" "ss = Inr sl" by (cases ks; cases ss) auto
    have q4': "Specs_Pull d w3 = (Inr sl, w4)" using q4 ok by simp
    let ?rb = "SetKBCommit (Commit snap) (NewBuilder (o_Wiki d) ident t)"
    obtain rb5 w5 where q5: "run_pipelines d snap sl ?rb w4 = (rb5, w5)" by fastforce
    have w5: "P w5"
      by (rule run_pipelines_keeps [OF spec_titles [OF w3 q4'] owned_pages [OF w3 q4'] q5 w4])
    from run q1 q2 q3 q4 ok q5 w5 show ?thesis
      by (auto simp: Run_def Let_def split: prod.splits dest: keepsD [OF keeps_finish])
  qed
qed

end

text \<open>
  The same from the operations of the collaborators themselves: reading the wiki keeps the
  predicate, and so do writing a page of \<open>A\<close> and recording the state of a spec.
\<close>

locale run_frame =
  fixes d :: "'w deps" and P :: "'w \<Rightarrow> bool" and A :: "gostring set" and B :: "gostring set set"
  assumes clock: "keeps P (Clock d)"
    and random: "keeps P (RandomID d)"
    and kb_pull: "keeps P (KB_Pull d)"
    and kb_diff: "keeps P (KB_DiffSince d c)"
    and specs_pull: "keeps P (Specs_Pull d)"
    and get_page: "WikiTarget d = Some T \<Longrightarrow> keeps P (GetPage T t)"
    and history: "WikiTarget d = Some T \<Longrightarrow> keeps P (History T t since)"
    and human_edits: "WikiTarget d = Some T \<Longrightarrow> keeps P (HumanEditsSinceBot T t lastBot)"
    and upsert: "WikiTarget d = Some T \<Longrightarrow> t \<in> A \<Longrightarrow> keeps P (UpsertPage T t c sm)"
    and frontends: "o_Frontends d = Some reg \<Longrightarrow> reg k = Some fe \<Longrightarrow> keeps P (fe_Build fe s snap)"
    and run_passes: "(case BuildPasses d of None \<Rightarrow> o_Passes d | Some build \<Rightarrow> build snap) = Some ps \<Longrightarrow>
      p \<in> set ps \<Longrightarrow> keeps P (pass_Apply p doc)"
    and rendered: "OnRendered d = Some f \<Longrightarrow> keeps P (f ident bytes doc)"
    and state_get: "RunState d = Some rs \<Longrightarrow> keeps P (st_Get rs k)"
    and state_set: "RunState d = Some rs \<Longrightarrow> keeps P (st_Set rs k v)"
    and ir_get: "IRCache d = Some ic \<Longrightarrow> keeps P (st_Get ic k)"
    and ir_set: "IRCache d = Some ic \<Longrightarrow> keeps P (st_Set ic k doc)"
    and cluster_get: "ClusterCache d = Some cc \<Longrightarrow> keeps P (st_Get cc k)"
    and cluster_set: "ClusterCache d = Some cc \<Longrightarrow> keeps P (st_Set cc k prs)"
    and manifest_load: "o_Manifest d = Some man \<Longrightarrow> keeps P (man_Load man)"
    and manifest_save: "o_Manifest d = Some man \<Longrightarrow> set owned \<in> B \<Longrightarrow> keeps P (man_Save man owned)"
    and checks: "o_Maintenance d = Some cs \<Longrightarrow> ck \<in> set cs \<Longrightarrow> keeps P (ck_Run ck snap)"
    and on_maintenance: "OnMaintenance d = Some h \<Longrightarrow> keeps P (h props)"
    and docspecs: "DocSpecs d = Some pull \<Longrightarrow> keeps P pull"
    and cluster: "o_Cluster d = Some rend \<Longrightarrow> keeps P (rend page snap)"
    and judge: "o_Judge d = Some review \<Longrightarrow> keeps P (review page doc g)"
    and refiner_revise: "Refiner d = Some rf \<Longrightarrow> keeps P (reviser rf page sec snap fb)"
    and refiner_review: "Refiner d = Some rf \<Longrightarrow> keeps P (reviewer rf page doc g)"
    and spec_titles: "P w \<Longrightarrow> Specs_Pull d w = (Inr ss, w') \<Longrightarrow> s \<in> set ss \<Longrightarrow>
      validateSpecForWiki s (o_Wiki d) = None \<Longrightarrow> sp_Page s \<in> A"
    and doc_titles: "DocSpecs d = Some pull \<Longrightarrow> P w \<Longrightarrow> pull w = (Inr fs, w') \<Longrightarrow> df \<in> set fs \<Longrightarrow>
      dpg \<in> set (spec_pages (df_Spec df)) \<Longrightarrow> dp_Page dpg \<in> A"
    and cached_titles: "ClusterCache d = Some cc \<Longrightarrow> P w \<Longrightarrow> st_Get cc k w = (Inr (Some prs), w') \<Longrightarrow>
      pr \<in> set prs \<Longrightarrow> pres_Page pr \<in> A"
    and manifest_titles: "o_Manifest d = Some man \<Longrightarrow> P w \<Longrightarrow> man_Load man w = (Inr ts, w') \<Longrightarrow>
      set ts \<subseteq> A \<union> \<Inter> B"
    and owned_pages: "P w \<Longrightarrow> Specs_Pull d w = (Inr ss, w') \<Longrightarrow> P u \<Longrightarrow>
      (case DocSpecs d of None \<Rightarrow> fs = [] | Some pull \<Rightarrow> fst (pull u) = Inr fs) \<Longrightarrow>
      set (ownedPages ss fs) \<in> B"
begin
lemma keeps_lookup: "keeps P (lookupLastBotRev d ident)"
  by (rule keepsI)
    (auto simp: lookupLastBotRev_def split: option.splits prod.splits sum.splits dest: keepsD [OF state_get])

lemma keeps_persist: "P w \<Longrightarrow> P (persistRunState d ident rv c w)"
  by (auto simp: persistRunState_def split: option.splits prod.splits
      intro!: keeps_snd [OF state_set] dest: keepsD [OF clock])

lemma keeps_reconcile: "WikiTarget d = Some T \<Longrightarrow> keeps P (Reconcile T t c lastBot)"
  by (rule keepsI)
    (auto simp: Reconcile_def detectHumanEdits_def Let_def split: prod.splits sum.splits option.splits if_splits
      dest: keepsD [OF get_page] keepsD [OF history])

lemma keeps_push:
  assumes T: "WikiTarget d = Some T" and t: "t \<in> A"
  shows "keeps P (reconcileAndPush d T ident t c commit)"
proof (rule keepsI)
  fix w r w' assume run: "reconcileAndPush d T ident t c commit w = (r, w')" and w: "P w"
  obtain l w1 where l: "lookupLastBotRev d ident w = (l, w1)" by fastforce
  have w1: "P w1" by (rule keepsD [OF keeps_lookup l w])
  obtain e w2 where e: "Reconcile T t c l w1 = (e, w2)" by fastforce
  have w2: "P w2" by (rule keepsD [OF keeps_reconcile [OF T] e w1])
  from run l e w2 show "P w'"
    by (auto simp: reconcileAndPush_def Let_def split: sum.splits prod.splits if_splits
        intro!: keeps_persist dest: keepsD [OF upsert [OF T t]])
qed

lemma keeps_guard: "WikiTarget d = Some T \<Longrightarrow> keeps P (human_guard d T s)"
  by (rule keepsI)
    (auto simp: human_guard_def split: prod.splits sum.splits option.splits if_splits
      dest: keepsD [OF keeps_lookup] keepsD [OF human_edits])

lemma keeps_retireLeaf:
  assumes "sp_Page s \<in> A"
  shows "keeps P (retireLeaf d s canonical commit)"
proof (rule keepsI)
  fix w r w' assume run: "retireLeaf d s canonical commit w = (r, w')" and w: "P w"
  show "P w'"
  proof (cases "if sp_Page s = [] then None else WikiTarget d")
    case None
    with run w show ?thesis by (simp add: retireLeaf_def)
  next
    case (Some T)
    then have T: "WikiTarget d = Some T" "sp_Page s \<noteq> []" by (auto split: if_splits)
    obtain e w1 where e: "GetPage T (sp_Page s) w = (e, w1)" by fastforce
    have w1: "P w1" by (rule keepsD [OF get_page [OF T(1)] e w])
    show ?thesis
    proof (cases e)
      case (Inl err)
      with run T e w1 show ?thesis by (auto simp: retireLeaf_def)
    next
      case (Inr cur)
      obtain g w2 where g: "(if cur = None then (False, w1) else human_guard d T s w1) = (g, w2)" by fastforce
      have w2: "P w2"
      proof (cases "cur = None")
        case True
        with g w1 show ?thesis by simp
      next
        case False
        with g have "human_guard d T s w1 = (g, w2)" by simp
        from keepsD [OF keeps_guard [OF T(1)] this w1] show ?thesis .
      qed
      obtain u w3 where u: "UpsertPage T (sp_Page s) (redirect_to canonical)
          (''mykb-curator: retire '' @ sp_ID s @ '' '' @ right_arrow @ '' redirect to '' @ canonical) w2 = (u, w3)"
        by fastforce
      have w3: "P w3" by (rule keepsD [OF upsert [OF T(1) assms] u w2])
      show ?thesis
      proof (cases "map_option pg_Content cur = Some (redirect_to canonical)")
        case True
        with run T e Inr w1 show ?thesis
          by (auto simp: retireLeaf_def split: prod.splits intro!: keeps_persist dest: keepsD [OF keeps_lookup])
      next
        case False
        with run T e Inr g u w2 w3 show ?thesis
          by (cases cur; cases g; cases u) (auto simp: retireLeaf_def intro!: keeps_persist)
      qed
    qed
  qed
qed

lemma keeps_retireOrphan:
  assumes "title \<in> A"
  shows "keeps P (retireOrphan d title parent rb)"
  by (rule keepsI)
    (auto simp: retireOrphan_def split: option.splits prod.splits sum.splits if_splits
      dest: keepsD [OF get_page] keepsD [OF upsert [OF _ assms]])

end

text \<open>The frame gives the steps.\<close>

sublocale run_frame \<subseteq> steps: run_steps d P "{(ident, t). t \<in> A}" A B
proof (unfold_locales, unfold mem_Collect_eq prod.case)
  fix pull w fs w' df cc u k prs u' pr
  assume "ClusterCache d = Some cc" "P u" "st_Get cc k u = (Inr (Some prs), u')" "pr \<in> set prs"
  then show "pres_Page pr \<in> A" by (rule cached_titles)
next
  fix w ss w' u fs
  assume "P w" "Specs_Pull d w = (Inr ss, w')" "P u"
    and "case DocSpecs d of None \<Rightarrow> fs = [] | Some pull \<Rightarrow> fst (pull u) = Inr fs"
  then show "set (ownedPages ss fs) \<in> B" by (rule owned_pages)
qed (rule clock random kb_pull kb_diff specs_pull keeps_push keeps_retireLeaf keeps_retireOrphan
      frontends run_passes rendered state_get ir_get ir_set cluster_get cluster_set manifest_load
      manifest_save checks on_maintenance docspecs cluster judge refiner_revise refiner_review
      spec_titles doc_titles manifest_titles; assumption)+

context run_frame begin

lemma keeps_run: "keeps P (Run d)"
  by (rule steps.keeps_Run)

end

end
