(* ===== verification/ZoneMarkers.thy ===== *)
theory ZoneMarkers
  imports Passes
begin

text \<open>
  The ApplyZoneMarkers pass (passes/zonemarkers/zonemarkers.go): every block that is not a marker
  is put between a begin and an end marker that carry its identifier, its provenance and its zone,
  unless it already stands between two matching markers.
\<close>

section \<open>The pass\<close>

definition zoneLabel :: "block \<Rightarrow> gostring" where
  "zoneLabel b = (if block_Zone b = ZoneEditorial then ''editorial'' else ''machine'')"

definition position_id :: "nat \<Rightarrow> nat \<Rightarrow> gostring" where
  "position_id sectionIdx blockIdx = ''s'' @ nat_dec sectionIdx @ ''-b'' @ nat_dec blockIdx"

definition blockIDFor :: "block \<Rightarrow> nat \<Rightarrow> nat \<Rightarrow> gostring" where
  "blockIDFor b sectionIdx blockIdx =
     (case b of
        MachineBlock bid _ _ _ \<Rightarrow> if bid \<noteq> [] then bid else position_id sectionIdx blockIdx
      | _ \<Rightarrow> position_id sectionIdx blockIdx)"

definition alreadyWrapped :: "block list \<Rightarrow> nat \<Rightarrow> bool" where
  "alreadyWrapped blocks i =
     (if i = 0 \<or> i = length blocks - 1 then False
      else (case (blocks ! (i - 1), blocks ! (i + 1)) of
              (MarkerBlock p1 id1 _ _, MarkerBlock p2 id2 _ _) \<Rightarrow>
                p1 = MarkerBegin \<and> p2 = MarkerEnd \<and> id1 = id2
            | _ \<Rightarrow> False))"

text \<open>The loop of \<open>wrapBlocks\<close>, at position \<open>i\<close> with block index \<open>k\<close>.\<close>

fun wrap_from :: "block list \<Rightarrow> nat \<Rightarrow> nat \<Rightarrow> nat \<Rightarrow> block list \<Rightarrow> block list" where
  "wrap_from blocks sectionIdx i k [] = []"
| "wrap_from blocks sectionIdx i k (b # bs) =
     (if is_marker b then b # wrap_from blocks sectionIdx (Suc i) k bs
      else if alreadyWrapped blocks i then b # wrap_from blocks sectionIdx (Suc i) (Suc k) bs
      else
        (let bid = blockIDFor b sectionIdx k; z = zoneLabel b; pv = block_Provenance b in
         MarkerBlock MarkerBegin bid pv z # b # MarkerBlock MarkerEnd bid pv z #
           wrap_from blocks sectionIdx (Suc i) (Suc k) bs))"

definition wrapBlocks :: "block list \<Rightarrow> nat \<Rightarrow> block list" where
  "wrapBlocks blocks sectionIdx = wrap_from blocks sectionIdx 0 0 blocks"

definition wrap_doc :: "ir_document \<Rightarrow> ir_document" where
  "wrap_doc doc =
     doc\<lparr>Sections := map (\<lambda>(i, s). s\<lparr>Blocks := wrapBlocks (Blocks s) i\<rparr>)
                       (List.enumerate 0 (Sections doc))\<rparr>"

definition ApplyZoneMarkers :: "'w pass" where
  "ApplyZoneMarkers =
     \<lparr>pass_Name = ''apply-zone-markers'', pass_Apply = (\<lambda>doc w. ((wrap_doc doc, None), w))\<rparr>"

section \<open>Wrapping in terms of neighbours\<close>

text \<open>\<open>between p bs\<close>: the element before is a begin marker and the next one its end.\<close>

definition between :: "block option \<Rightarrow> block list \<Rightarrow> bool" where
  "between p bs =
     (case (p, bs) of
        (Some (MarkerBlock MarkerBegin id1 _ _), MarkerBlock MarkerEnd id2 _ _ # _) \<Rightarrow> id1 = id2
      | _ \<Rightarrow> False)"

fun wrap_rec :: "nat \<Rightarrow> block option \<Rightarrow> nat \<Rightarrow> block list \<Rightarrow> block list" where
  "wrap_rec n p k [] = []"
| "wrap_rec n p k (b # bs) =
     (if is_marker b then b # wrap_rec n (Some b) k bs
      else if between p bs then b # wrap_rec n (Some b) (Suc k) bs
      else MarkerBlock MarkerBegin (blockIDFor b n k) (block_Provenance b) (zoneLabel b) # b #
           MarkerBlock MarkerEnd (blockIDFor b n k) (block_Provenance b) (zoneLabel b) #
           wrap_rec n (Some b) (Suc k) bs)"

fun all_wrapped :: "block option \<Rightarrow> block list \<Rightarrow> bool" where
  "all_wrapped p [] = True"
| "all_wrapped p (b # bs) = ((is_marker b \<or> between p bs) \<and> all_wrapped (Some b) bs)"

definition prev_of :: "block list \<Rightarrow> block option" where
  "prev_of pre = (if pre = [] then None else Some (last pre))"

lemma alreadyWrapped_between:
  "alreadyWrapped (pre @ b # bs) (length pre) = between (prev_of pre) bs"
proof (cases "pre = [] \<or> bs = []")
  case True
  then show ?thesis
    by (auto simp: alreadyWrapped_def between_def prev_of_def
             split: option.splits block.splits marker_position.splits)
next
  case False
  then obtain pre' q b' bs' where [simp]: "pre = pre' @ [q]" "bs = b' # bs'"
    by (metis append_butlast_last_id list.exhaust)
  have prev: "(pre @ b # bs) ! (length pre - 1) = q" by (simp add: nth_append)
  have nxt: "(pre @ b # bs) ! (length pre + 1) = b'"
    by (simp add: nth_append)
  show ?thesis
    unfolding alreadyWrapped_def prev nxt
    by (auto simp: between_def prev_of_def split: block.splits marker_position.splits)
qed

lemma wrap_from_rec:
  "blocks = pre @ bs \<Longrightarrow>
     wrap_from blocks n (length pre) k bs = wrap_rec n (prev_of pre) k bs"
proof (induction bs arbitrary: pre k)
  case (Cons b bs)
  have "wrap_from blocks n (Suc (length pre)) k' bs = wrap_rec n (Some b) k' bs" for k'
    using Cons.IH [of "pre @ [b]"] Cons.prems by (simp add: prev_of_def)
  with Cons.prems show ?case
    by (simp add: alreadyWrapped_between Let_def)
qed simp

lemma wrapBlocks_rec: "wrapBlocks blocks n = wrap_rec n None 0 blocks"
  using wrap_from_rec [of blocks "[]" blocks] by (simp add: wrapBlocks_def prev_of_def)

section \<open>Everything is wrapped, once\<close>

lemma between_marker: "between p bs \<Longrightarrow> \<exists>m. p = Some m \<and> is_marker m"
  by (auto simp: between_def split: option.splits block.splits marker_position.splits list.splits)

lemma between_next:
  "between p bs \<Longrightarrow> between p (wrap_rec n q k bs)"
  by (cases bs)
     (auto simp: between_def split: option.splits block.splits marker_position.splits)

lemma wrap_rec_all_wrapped:
  "(\<And>m. p = Some m \<Longrightarrow> is_marker m \<Longrightarrow> po = p) \<Longrightarrow> all_wrapped po (wrap_rec n p k bs)"
proof (induction bs arbitrary: p po k)
  case (Cons b bs)
  consider (marker) "is_marker b" | (kept) "\<not> is_marker b" "between p bs"
    | (wrap) "\<not> is_marker b" "\<not> between p bs" by blast
  then show ?case
  proof cases
    case marker
    then show ?thesis using Cons.IH [of "Some b" "Some b"] by simp
  next
    case kept
    then have "po = p" using Cons.prems between_marker by blast
    with kept show ?thesis using Cons.IH [of "Some b" "Some b"] by (simp add: between_next)
  next
    case wrap
    have "all_wrapped (Some m) (wrap_rec n (Some b) (Suc k) bs)" for m
      using Cons.IH [of "Some b" "Some m"] wrap by simp
    with wrap show ?thesis by (simp add: between_def)
  qed
qed simp

lemma wrap_rec_id: "all_wrapped p bs \<Longrightarrow> wrap_rec n p k bs = bs"
  by (induction bs arbitrary: p k) auto

lemma wrapBlocks_all_wrapped: "all_wrapped None (wrapBlocks blocks n)"
  unfolding wrapBlocks_rec by (rule wrap_rec_all_wrapped) simp

lemma wrapBlocks_idem: "wrapBlocks (wrapBlocks blocks n) m = wrapBlocks blocks n"
  using wrapBlocks_all_wrapped [of blocks n] by (simp add: wrapBlocks_rec [of _ m] wrap_rec_id)

lemma wrap_rec_content:
  "filter (\<lambda>b. \<not> is_marker b) (wrap_rec n p k bs) = filter (\<lambda>b. \<not> is_marker b) bs"
  by (induction bs arbitrary: p k) auto

lemma wrapBlocks_content:
  "filter (\<lambda>b. \<not> is_marker b) (wrapBlocks bs n) = filter (\<lambda>b. \<not> is_marker b) bs"
  by (simp add: wrapBlocks_rec wrap_rec_content)

text \<open>On blocks without markers, the pass brackets the blocks one by one.\<close>

definition bracket :: "nat \<Rightarrow> nat \<Rightarrow> block \<Rightarrow> block list" where
  "bracket n k b =
     [MarkerBlock MarkerBegin (blockIDFor b n k) (block_Provenance b) (zoneLabel b), b,
      MarkerBlock MarkerEnd (blockIDFor b n k) (block_Provenance b) (zoneLabel b)]"

lemma wrap_rec_fresh:
  "\<forall>b \<in> set bs. \<not> is_marker b \<Longrightarrow> (\<And>m. p = Some m \<Longrightarrow> \<not> is_marker m) \<Longrightarrow>
     wrap_rec n p k bs = concat (map (\<lambda>(i, b). bracket n i b) (List.enumerate k bs))"
proof (induction bs arbitrary: p k)
  case (Cons b bs)
  have "\<not> between p bs" using Cons.prems(2) between_marker by blast
  moreover have "wrap_rec n (Some b) (Suc k) bs =
      concat (map (\<lambda>(i, b). bracket n i b) (List.enumerate (Suc k) bs))"
    using Cons.IH [of "Some b" "Suc k"] Cons.prems(1) by simp
  ultimately show ?case using Cons.prems(1) by (simp add: bracket_def)
qed simp

lemma wrapBlocks_fresh:
  "\<forall>b \<in> set bs. \<not> is_marker b \<Longrightarrow>
     wrapBlocks bs n = concat (map (\<lambda>(i, b). bracket n i b) (List.enumerate 0 bs))"
  unfolding wrapBlocks_rec by (rule wrap_rec_fresh) simp_all

section \<open>Identifiers\<close>

lemma nat_dec_dash: "nat_dec a @ CHR ''-'' # x = nat_dec b @ CHR ''-'' # y \<longleftrightarrow> a = b \<and> x = y"
proof -
  have no_dash: "CHR ''-'' \<notin> set (nat_dec n)" for n
    using nat_dec_digits [of "CHR ''-''" n] by (auto simp: less_eq_char_def)
  have "u @ CHR ''-'' # x = v @ CHR ''-'' # y \<Longrightarrow> CHR ''-'' \<notin> set u \<Longrightarrow> CHR ''-'' \<notin> set v \<Longrightarrow> u = v" for u v
    by (auto simp: append_eq_append_conv2 Cons_eq_append_conv append_eq_Cons_conv)
  with no_dash have "nat_dec a @ CHR ''-'' # x = nat_dec b @ CHR ''-'' # y \<Longrightarrow> nat_dec a = nat_dec b"
    by blast
  then show ?thesis by auto
qed

lemma position_id_inject [simp]: "position_id a b = position_id c d \<longleftrightarrow> a = c \<and> b = d"
  by (auto simp: position_id_def nat_dec_dash)

fun begin_ids :: "block list \<Rightarrow> gostring list" where
  "begin_ids [] = []"
| "begin_ids (b # bs) =
     (case b of MarkerBlock MarkerBegin i _ _ \<Rightarrow> i # begin_ids bs | _ \<Rightarrow> begin_ids bs)"

lemma begin_ids_append: "begin_ids (xs @ ys) = begin_ids xs @ begin_ids ys"
  by (induction xs) (auto split: block.splits marker_position.splits)

lemma begin_ids_not_marker: "\<not> is_marker b \<Longrightarrow> begin_ids (b # bs) = begin_ids bs"
  by (cases b) auto

lemma begin_ids_marker:
  "begin_ids (MarkerBlock MarkerBegin i v z # bs) = i # begin_ids bs"
  "begin_ids (MarkerBlock MarkerEnd i v z # bs) = begin_ids bs"
  by simp_all

declare begin_ids.simps(2) [simp del]
declare begin_ids_marker [simp] begin_ids_not_marker [simp]

definition no_own_id :: "block \<Rightarrow> bool" where
  "no_own_id b = (case b of MachineBlock bid _ _ _ \<Rightarrow> bid = [] | MarkerBlock _ _ _ _ \<Rightarrow> False | _ \<Rightarrow> True)"

lemma no_own_id_D: "no_own_id b \<Longrightarrow> \<not> is_marker b \<and> blockIDFor b n k = position_id n k"
  by (cases b) (auto simp: no_own_id_def blockIDFor_def)

lemma begin_ids_wrapBlocks:
  assumes "\<forall>b \<in> set bs. no_own_id b"
  shows "begin_ids (wrapBlocks bs n) = map (position_id n) [0..<length bs]"
proof -
  have "begin_ids (concat (map (\<lambda>(i, b). bracket n i b) (List.enumerate k bs))) =
        map (position_id n) [k..<k + length bs]" for k
    using assms
  proof (induction bs arbitrary: k)
    case (Cons b bs)
    then have "begin_ids (bracket n k b) = [position_id n k]"
      using no_own_id_D [of b n k]
      by (simp add: bracket_def)
    with Cons show ?case by (simp add: begin_ids_append upt_rec [of k] del: upt_Suc)
  qed simp
  from this [of 0] show ?thesis
    using assms no_own_id_D by (auto simp: wrapBlocks_fresh)
qed

lemma positions_lower_bound:
  "x \<in> set (concat (map (\<lambda>(n, s). map (position_id n) [0..<l s]) (List.enumerate k ss))) \<Longrightarrow>
     \<exists>m j. x = position_id m j \<and> k \<le> m"
  by (auto simp: in_set_enumerate_eq)

lemma distinct_positions:
  "distinct (concat (map (\<lambda>(n, s). map (position_id n) [0..<l s]) (List.enumerate k ss)))"
proof (induction ss arbitrary: k)
  case (Cons s ss)
  let ?rest = "concat (map (\<lambda>(n, s). map (position_id n) [0..<l s]) (List.enumerate (Suc k) ss))"
  have "set (map (position_id k) [0..<l s]) \<inter> set ?rest = {}"
    using positions_lower_bound [of _ l "Suc k" ss] by fastforce
  moreover have "distinct (map (position_id k) [0..<l s])"
    by (simp add: distinct_map inj_on_def)
  ultimately show ?case using Cons.IH [of "Suc k"] by simp
qed simp

section \<open>The properties of the pass\<close>

text \<open>
  C25. The ApplyZoneMarkers pass is idempotent on every document, whatever markers the document
  already holds: running the pass a second time changes nothing.
\<close>

theorem zone_markers_idempotent: "wrap_doc (wrap_doc doc) = wrap_doc doc"
proof -
  have "map (\<lambda>(i, s). s\<lparr>Blocks := wrapBlocks (Blocks s) i\<rparr>)
          (List.enumerate 0 (map (\<lambda>(i, s). s\<lparr>Blocks := wrapBlocks (Blocks s) i\<rparr>)
             (List.enumerate 0 (ss :: ir_section list)))) =
        map (\<lambda>(i, s). s\<lparr>Blocks := wrapBlocks (Blocks s) i\<rparr>) (List.enumerate 0 ss)" for ss
    by (rule nth_equalityI) (auto simp: nth_enumerate_eq wrapBlocks_idem)
  then show ?thesis by (simp add: wrap_doc_def)
qed

text \<open>
  Every block of the result that is not a marker stands directly between a begin marker and
  the end marker of the same identifier, and removing the markers gives back the blocks of the
  original, section by section and in order: the pass adds markers and nothing else.
\<close>

theorem zone_markers_wrap_all:
  "list_all2 (\<lambda>s t. Heading t = Heading s \<and> all_wrapped None (Blocks t) \<and>
               filter (\<lambda>b. \<not> is_marker b) (Blocks t) = filter (\<lambda>b. \<not> is_marker b) (Blocks s))
     (Sections doc) (Sections (wrap_doc doc)) \<and>
   Frontmatter (wrap_doc doc) = Frontmatter doc \<and> Footer (wrap_doc doc) = Footer doc"
  by (auto simp: wrap_doc_def list_all2_conv_all_nth nth_enumerate_eq wrapBlocks_all_wrapped
                 wrapBlocks_content)

text \<open>
  On a document that has no markers yet and no machine block with an identifier of its own,
  the begin markers of the result carry pairwise distinct identifiers, over all sections: a block
  of the page is named by its marker without ambiguity.
\<close>

theorem zone_marker_ids_distinct:
  assumes "\<forall>b \<in> set (doc_blocks doc). no_own_id b"
  shows "distinct (begin_ids (doc_blocks (wrap_doc doc)))"
proof -
  have concat: "begin_ids (concat xss) = concat (map begin_ids xss)" for xss
    by (induction xss) (simp_all add: begin_ids_append)
  have "begin_ids (wrapBlocks (Blocks s) n) = map (position_id n) [0..<length (Blocks s)]"
    if "(n, s) \<in> set (List.enumerate 0 (Sections doc))" for n s
    using that assms
    by (intro begin_ids_wrapBlocks) (auto simp: in_set_enumerate_eq doc_blocks_def)
  then have "map (\<lambda>(n, s). begin_ids (wrapBlocks (Blocks s) n)) (List.enumerate 0 (Sections doc)) =
      map (\<lambda>(n, s). map (position_id n) [0..<length (Blocks s)]) (List.enumerate 0 (Sections doc))"
    by auto
  moreover have "begin_ids (doc_blocks (wrap_doc doc)) =
      concat (map (\<lambda>(n, s). begin_ids (wrapBlocks (Blocks s) n)) (List.enumerate 0 (Sections doc)))"
    by (simp add: wrap_doc_def doc_blocks_def concat comp_def case_prod_unfold)
  ultimately have "begin_ids (doc_blocks (wrap_doc doc)) =
      concat (map (\<lambda>(n, s). map (position_id n) [0..<length (Blocks s)])
        (List.enumerate 0 (Sections doc)))"
    by (simp only:)
  then show ?thesis
    using distinct_positions [of "\<lambda>s. length (Blocks s)" 0 "Sections doc"] by simp
qed

definition example_doc :: ir_document where
  "example_doc = (new_document ''P'' ''h'' ''c'')
     \<lparr>Sections := [\<lparr>Heading = ''A'', Blocks = [ProseBlock ''x'' no_prov, TableBlock [] [] no_prov]\<rparr>,
                   \<lparr>Heading = ''B'', Blocks = [ProseBlock ''y'' no_prov]\<rparr>]\<rparr>"

theorem zone_marker_ids_distinct_witness:
  "distinct (begin_ids (doc_blocks (wrap_doc example_doc))) \<and>
   length (begin_ids (doc_blocks (wrap_doc example_doc))) = 3"
proof
  show "distinct (begin_ids (doc_blocks (wrap_doc example_doc)))"
    by (rule zone_marker_ids_distinct) (simp add: example_doc_def doc_blocks_def no_own_id_def)
  show "length (begin_ids (doc_blocks (wrap_doc example_doc))) = 3"
    by (simp add: example_doc_def doc_blocks_def wrap_doc_def wrapBlocks_def alreadyWrapped_def
                  Let_def)
qed

end
