(* ===== verification/CuratorWorld.thy ===== *)
theory CuratorWorld
  imports RunFrame ZoneMarkers
begin

text \<open>
  A deployment wired from the components of this development: the in-memory wiki,
  the run state on a bucket, the manifest file, the hub and projection frontends and the zone-marker
  pass.  What the page renderer makes of a cluster page, and so the LLM behind it, is a function.
  The world is the record of their states; the properties of whole runs are stated on it.
\<close>

section \<open>The world\<close>

record curator_world =
  cw_wiki :: mem_target
  cw_state :: "gostring \<rightharpoonup> spec_state res"
  cw_manifest :: "gostring list res files"
  cw_time :: gotime

definition on_wiki :: "(mem_target \<Rightarrow> 'a \<times> mem_target) \<Rightarrow> curator_world \<Rightarrow> 'a \<times> curator_world" where
  "on_wiki f w = (case f (cw_wiki w) of (r, m) \<Rightarrow> (r, w\<lparr>cw_wiki := m\<rparr>))"

definition on_state ::
  "((gostring \<rightharpoonup> spec_state res) \<Rightarrow> 'a \<times> (gostring \<rightharpoonup> spec_state res)) \<Rightarrow> curator_world \<Rightarrow> 'a \<times> curator_world" where
  "on_state f w = (case f (cw_state w) of (r, m) \<Rightarrow> (r, w\<lparr>cw_state := m\<rparr>))"

definition on_manifest ::
  "(gostring list res files \<Rightarrow> 'a \<times> gostring list res files) \<Rightarrow> curator_world \<Rightarrow> 'a \<times> curator_world" where
  "on_manifest f w = (case f (cw_manifest w) of (r, m) \<Rightarrow> (r, w\<lparr>cw_manifest := m\<rparr>))"

definition curator_target :: "curator_world wiki_target" where
  "curator_target =
     \<lparr>Whoami = on_wiki mem_Whoami, GetPage = (\<lambda>t. on_wiki (mem_GetPage t)),
      UpsertPage = (\<lambda>t c s. on_wiki (mem_UpsertPage t c s)),
      History = (\<lambda>t since. on_wiki (mem_History t since)),
      HumanEditsSinceBot = (\<lambda>t lastBot. on_wiki (mem_HumanEditsSinceBot t lastBot)),
      UploadFile = (\<lambda>f c ct s. on_wiki (mem_UploadFile f c ct s))\<rparr>"

definition curator_state :: "(spec_state, curator_world) store" where
  "curator_state =
     \<lparr>st_Get = (\<lambda>k. on_state (runstate_Get map_get k)),
      st_Set = (\<lambda>k v. on_state (runstate_Set map_put k v))\<rparr>"

definition curator_manifest :: "curator_world manifest_store" where
  "curator_manifest =
     \<lparr>man_Load = on_manifest (manifest_Load sorted_list_of_set ''manifest.json''),
      man_Save = (\<lambda>owned. on_manifest (manifest_Save None ''manifest.json'' owned))\<rparr>"

text \<open>The registry with the two deterministic frontends, built by \<open>Register\<close>.\<close>

definition plain_frontends :: "'w fe_registry" where
  "plain_frontends =
     the (Option.bind (Register projection_frontend Map.empty) (Register hub_frontend))"

definition wired ::
  "gostring \<Rightarrow> snapshot \<Rightarrow> spec list \<Rightarrow> doc_file list \<Rightarrow> (doc_page \<Rightarrow> snapshot \<Rightarrow> ir_document res) \<Rightarrow>
   backend \<Rightarrow> curator_world deps" where
  "wired wiki snap specList docFiles pageOf be =
     \<lparr>o_Wiki = wiki, KB_Pull = (\<lambda>w. (Inr snap, w)), KB_DiffSince = (\<lambda>c w. (DiffNotSupported, w)),
      Specs_Pull = (\<lambda>w. (Inr specList, w)), WikiTarget = Some curator_target,
      o_Frontends = Some plain_frontends, o_Passes = Some [ApplyZoneMarkers], BuildPasses = None,
      o_Backend = Some be, OnRendered = None, RunState = Some curator_state, IRCache = None,
      o_Manifest = Some curator_manifest, ClusterCache = None, PipelineVersion = [],
      o_Maintenance = None, OnMaintenance = None, DocSpecs = Some (\<lambda>w. (Inr docFiles, w)),
      o_Cluster = Some (\<lambda>p sn w. (pageOf p sn, w)), o_Judge = None, Refiner = None,
      Clock = (\<lambda>w. (cw_time w, w\<lparr>cw_time := cw_time w + 1\<rparr>)), RandomID = (\<lambda>w. (''run'', w))\<rparr>"

lemma wired_simps [simp]:
  "o_Wiki (wired wk snap ss dfs pf be) = wk"
  "KB_Pull (wired wk snap ss dfs pf be) = (\<lambda>w. (Inr snap, w))"
  "Specs_Pull (wired wk snap ss dfs pf be) = (\<lambda>w. (Inr ss, w))"
  "WikiTarget (wired wk snap ss dfs pf be) = Some curator_target"
  "o_Frontends (wired wk snap ss dfs pf be) = Some plain_frontends"
  "o_Backend (wired wk snap ss dfs pf be) = Some be"
  "OnRendered (wired wk snap ss dfs pf be) = None"
  "RunState (wired wk snap ss dfs pf be) = Some curator_state"
  "o_Manifest (wired wk snap ss dfs pf be) = Some curator_manifest"
  "DocSpecs (wired wk snap ss dfs pf be) = Some (\<lambda>w. (Inr dfs, w))"
  "KB_DiffSince (wired wk snap ss dfs pf be) = (\<lambda>c w. (DiffNotSupported, w))"
  "o_Passes (wired wk snap ss dfs pf be) = Some [ApplyZoneMarkers]"
  "BuildPasses (wired wk snap ss dfs pf be) = None"
  "IRCache (wired wk snap ss dfs pf be) = None"
  "ClusterCache (wired wk snap ss dfs pf be) = None"
  "o_Maintenance (wired wk snap ss dfs pf be) = None"
  "OnMaintenance (wired wk snap ss dfs pf be) = None"
  "o_Cluster (wired wk snap ss dfs pf be) = Some (\<lambda>p sn w. (pf p sn, w))"
  "o_Judge (wired wk snap ss dfs pf be) = None"
  "Refiner (wired wk snap ss dfs pf be) = None"
  "RandomID (wired wk snap ss dfs pf be) = (\<lambda>w. (''run'', w))"
  "Clock (wired wk snap ss dfs pf be) = (\<lambda>w. (cw_time w, w\<lparr>cw_time := cw_time w + 1\<rparr>))"
  by (simp_all add: wired_def)

lemma curator_target_simps [simp]:
  "GetPage curator_target t = on_wiki (mem_GetPage t)"
  "UpsertPage curator_target t c s = on_wiki (mem_UpsertPage t c s)"
  "History curator_target t since = on_wiki (mem_History t since)"
  "HumanEditsSinceBot curator_target t lastBot = on_wiki (mem_HumanEditsSinceBot t lastBot)"
  by (simp_all add: curator_target_def)

lemma curator_state_simps [simp]:
  "st_Get curator_state k w =
     ((case cw_state w k of None \<Rightarrow> Inr None | Some (Inl e) \<Rightarrow> Inl e | Some (Inr s) \<Rightarrow> Inr (Some s)), w)"
  "st_Set curator_state k v w = (None, w\<lparr>cw_state := (cw_state w)(k \<mapsto> Inr v)\<rparr>)"
  by (simp_all add: curator_state_def on_state_def runstate_Get_def runstate_Set_def map_get_def map_put_def
      split: option.splits sum.splits)

lemma plain_frontends_cases:
  "plain_frontends k = Some fe \<Longrightarrow> fe = projection_frontend \<or> fe = hub_frontend"
  by (auto simp: plain_frontends_def Register_def projection_frontend_def hub_frontend_def split: if_splits)

section \<open>The wiki of the deployment keeps the contract\<close>

lemma on_wiki_eq: "f (cw_wiki w) = (r, m) \<Longrightarrow> on_wiki f w = (r, w\<lparr>cw_wiki := m\<rparr>)"
  by (simp add: on_wiki_def)

lemma on_wiki_pure: "f (cw_wiki w) = (r, cw_wiki w) \<Longrightarrow> on_wiki f w = (r, w)"
  by (simp add: on_wiki_def)

definition cw_view :: "curator_world \<Rightarrow> gostring \<Rightarrow> (revision \<times> gostring) list" where
  "cw_view w = mem_view (cw_wiki w)"

definition cw_ok :: "curator_world \<Rightarrow> bool" where "cw_ok w = mem_ok (cw_wiki w)"

definition cw_fresh :: "curator_world \<Rightarrow> bool" where "cw_fresh w = mem_fresh (cw_wiki w)"

lemma cw_upsert:
  assumes "cw_ok w" and "cw_fresh w"
  shows "\<exists>r w'. UpsertPage curator_target t c s w = (Inr r, w') \<and> cw_ok w' \<and> IsBot r \<and>
      rev_ID r \<noteq> [] \<and> rev_ID r \<notin> (rev_ID \<circ> fst) ` set (cw_view w t) \<and>
      (\<forall>u. cw_view w' u = (if normTitle u = normTitle t then (r, c) # cw_view w t else cw_view w u))"
proof -
  from mem_upsert [of "cw_wiki w" t c s] assms obtain r m where
    "mem_UpsertPage t c s (cw_wiki w) = (Inr r, m)" "mem_ok m" "IsBot r" "rev_ID r \<noteq> []"
    "rev_ID r \<notin> (rev_ID \<circ> fst) ` set (mem_view (cw_wiki w) t)"
    "\<forall>u. mem_view m u = (if normTitle u = normTitle t then (r, c) # mem_view (cw_wiki w) t else mem_view (cw_wiki w) u)"
    unfolding cw_ok_def cw_fresh_def by blast
  then show ?thesis
    by (intro exI [of _ r] exI [of _ "w\<lparr>cw_wiki := m\<rparr>"]) (simp add: on_wiki_def cw_ok_def cw_view_def)
qed

interpretation deployed: wiki_contract curator_target cw_view cw_ok cw_fresh normTitle
proof
  fix w t assume "cw_ok w"
  then have ok: "mem_ok (cw_wiki w)" by (simp add: cw_ok_def)
  show "GetPage curator_target t w =
      (Inr (case cw_view w t of [] \<Rightarrow> None
            | (r, c) # _ \<Rightarrow> Some \<lparr>pg_Title = t, pg_Content = c, LatestRevision = r\<rparr>), w)"
    unfolding curator_target_simps cw_view_def by (rule on_wiki_pure) (rule mem_get_page [OF ok])
  fix since
  show "History curator_target t since w =
      (Inr (if since = [] then map fst (cw_view w t)
            else takeWhile (\<lambda>r. rev_ID r \<noteq> since) (map fst (cw_view w t))), w)"
    unfolding curator_target_simps cw_view_def by (rule on_wiki_pure) (rule mem_history [OF ok])
  fix lastBot
  show "HumanEditsSinceBot curator_target t lastBot w =
      (Inr (map_option (\<lambda>r. \<lparr>he_Revision = r, he_Diff = []\<rparr>)
              (List.find (\<lambda>r. \<not> IsBot r) (takeWhile (\<lambda>r. rev_ID r \<noteq> lastBot) (map fst (cw_view w t))))), w)"
    unfolding curator_target_simps cw_view_def by (rule on_wiki_pure) (rule mem_human_edits [OF ok])
  show "distinct (map (rev_ID \<circ> fst) (cw_view w t))"
    unfolding cw_view_def by (rule mem_ids(2) [OF ok])
qed (simp_all only: cw_upsert, simp_all add: cw_view_def mem_view_def)


section \<open>What a run writes\<close>

text \<open>
  The titles a run may write: the pages of the specs for this wiki, the pages of the clusters, and
  those the previous run owned and this one does not.
\<close>

definition prior_pages :: "curator_world \<Rightarrow> gostring list" where
  "prior_pages w =
     (case fst (man_Load curator_manifest w) of Inl e \<Rightarrow> [] | Inr ts \<Rightarrow> ts)"

definition writable :: "gostring \<Rightarrow> spec list \<Rightarrow> doc_file list \<Rightarrow> curator_world \<Rightarrow> gostring list" where
  "writable wiki ss dfs w =
     map sp_Page (filter (\<lambda>s. validateSpecForWiki s wiki = None) ss) @
     concat (map (\<lambda>f. map dp_Page (spec_pages (df_Spec f))) dfs) @
     filter (\<lambda>t. t \<notin> set (ownedPages ss dfs)) (prior_pages w)"

definition frame ::
  "(gostring \<Rightarrow> (revision \<times> gostring) list) \<Rightarrow> gostring set \<Rightarrow> gostring set \<Rightarrow> curator_world \<Rightarrow> bool" where
  "frame h A B w =
     ((\<forall>t. normTitle t \<notin> normTitle ` A \<longrightarrow> mem_view (cw_wiki w) t = h t) \<and> set (prior_pages w) \<subseteq> A \<union> B)"

lemma prior_pages_eq:
  "prior_pages w =
     (case (unreadable (cw_manifest w) ''manifest.json'', stored (cw_manifest w) ''manifest.json'') of
        (None, Some (Inr ts)) \<Rightarrow> sorted_list_of_set (set ts)
      | _ \<Rightarrow> [])"
  by (simp add: prior_pages_def curator_manifest_def on_manifest_def manifest_Load_def
      split: option.splits sum.splits)

lemma prior_pages_manifest: "cw_manifest w = cw_manifest u \<Longrightarrow> prior_pages w = prior_pages u"
  by (simp add: prior_pages_eq)

lemma keeps_frame:
  assumes "\<And>w. mem_view (cw_wiki (snd (f w))) = mem_view (cw_wiki w) \<and> cw_manifest (snd (f w)) = cw_manifest w"
  shows "keeps (frame h A B) f"
proof (rule keepsI)
  fix w r w' assume f: "f w = (r, w')" and w: "frame h A B w"
  from assms [of w] f have "mem_view (cw_wiki w') = mem_view (cw_wiki w)" "prior_pages w' = prior_pages w"
    using prior_pages_manifest [of w' w] by simp_all
  with w show "frame h A B w'" by (simp add: frame_def)
qed

lemma frame_reads:
  "mem_view (cw_wiki (snd (on_wiki (mem_GetPage t) w))) = mem_view (cw_wiki w) \<and>
   mem_view (cw_wiki (snd (on_wiki (mem_History t since) w))) = mem_view (cw_wiki w) \<and>
   mem_view (cw_wiki (snd (on_wiki (mem_HumanEditsSinceBot t lastBot) w))) = mem_view (cw_wiki w)"
  by (simp add: on_wiki_def mem_GetPage_def mem_History_def mem_HumanEditsSinceBot_def split: option.splits)

lemma on_wiki_manifest [simp]: "cw_manifest (snd (on_wiki f w)) = cw_manifest w"
  by (simp add: on_wiki_def split: prod.splits)

lemma frame_upsert: "t \<in> A \<Longrightarrow> keeps (frame h A B) (on_wiki (mem_UpsertPage t c sm))"
proof (rule keepsI)
  fix w r w' assume t: "t \<in> A" and run: "on_wiki (mem_UpsertPage t c sm) w = (r, w')" and w: "frame h A B w"
  obtain rv m where m: "mem_write (identity (cw_wiki w)) True t c sm (cw_wiki w) = (rv, m)" by fastforce
  with run have w': "w' = w\<lparr>cw_wiki := m\<rparr>" by (auto simp: on_wiki_def mem_UpsertPage_def)
  then have "prior_pages w' = prior_pages w" by (intro prior_pages_manifest) simp
  with w w' t mem_view_write [OF m] show "frame h A B w'" by (auto simp: frame_def)
qed

lemma write_ok:
  "stored (snd (write_atomically None path v fs)) path = Some v"
  "unreadable (snd (write_atomically None path v fs)) = unreadable fs"
  by (simp_all add: write_atomically_def)

lemma frame_save: "set owned = B \<Longrightarrow> keeps (frame h A B) (man_Save curator_manifest owned)"
proof (rule keepsI)
  fix w r w' assume B: "set owned = B" and run: "man_Save curator_manifest owned w = (r, w')" and w: "frame h A B w"
  let ?m = "snd (manifest_Save None ''manifest.json'' owned (cw_manifest w))"
  from run have w': "w' = w\<lparr>cw_manifest := ?m\<rparr>"
    by (auto simp: curator_manifest_def on_manifest_def split: prod.splits)
  have "set (prior_pages w') \<subseteq> B"
    unfolding w' prior_pages_eq using B by (auto simp: manifest_Save_def write_ok split: option.splits)
  with w w' show "frame h A B w'" by (auto simp: frame_def)
qed

lemma load_pure: "snd (man_Load curator_manifest w) = w"
  by (simp add: curator_manifest_def on_manifest_def manifest_Load_def split: option.splits sum.splits)

lemma plain_build_pure: "plain_frontends k = Some fe \<Longrightarrow> snd (fe_Build fe s snap w) = w"
  by (auto dest!: plain_frontends_cases simp: projection_frontend_def hub_frontend_def)

lemma load_prior: "man_Load curator_manifest w = (Inr ts, w') \<Longrightarrow> prior_pages w = ts"
  by (simp add: prior_pages_def)

lemma frame_prior: "frame h A B w \<Longrightarrow> set (prior_pages w) \<subseteq> A \<union> B"
  by (simp add: frame_def)

interpretation wired_run: run_frame "wired wiki snap ss dfs pf be"
  "frame h (set (writable wiki ss dfs w0)) (set (ownedPages ss dfs))"
  "set (writable wiki ss dfs w0)" "{set (ownedPages ss dfs)}"
  for wiki snap ss dfs pf be h w0
proof (unfold_locales, unfold wired_simps)
  fix w ts w' man
  assume "Some curator_manifest = Some man" "frame h (set (writable wiki ss dfs w0)) (set (ownedPages ss dfs)) w"
    and "man_Load man w = (Inr ts, w')"
  then show "set ts \<subseteq> set (writable wiki ss dfs w0) \<union> \<Inter> {set (ownedPages ss dfs)}"
    using load_prior frame_prior by fastforce
qed (auto intro!: keeps_frame frame_upsert frame_save
      simp: frame_reads load_pure plain_build_pure ApplyZoneMarkers_def writable_def)

text \<open>
  C1. A run never touches a page it does not own: on the in-memory wiki, the whole history of every
  page that is named neither by a spec for this wiki, nor by a cluster, nor by the previous
  manifest as a page that no spec produces any more, is the same before and after a run, whatever
  the run does with the other pages and however it ends.
\<close>

theorem run_touches_owned_only:
  assumes "normTitle t \<notin> normTitle ` set (writable wiki ss dfs w)"
  shows "mem_view (cw_wiki (snd (Run (wired wiki snap ss dfs pf be) w))) t = mem_view (cw_wiki w) t"
proof -
  let ?P = "frame (mem_view (cw_wiki w)) (set (writable wiki ss dfs w)) (set (ownedPages ss dfs))"
  have "?P w" by (auto simp: frame_def writable_def)
  from keeps_snd [OF wired_run.steps.keeps_Run this] assms show ?thesis by (simp add: frame_def)
qed

end
