(* ===== verification/RunProps.thy ===== *)
theory RunProps
  imports CuratorWorld
begin

text \<open>
  Properties of the run loop: what a run reports, which specs it skips and what that loses, and how
  it retires pages.
\<close>

section \<open>What a run reports\<close>

text \<open>What one file adds to the report.\<close>

definition file_ids :: "doc_file \<Rightarrow> gostring list \<Rightarrow> bool" where
  "file_ids f ids = (ids = [df_ID f] \<or> list_all (\<lambda>i. HasPrefix i (df_ID f @ ''::'')) ids)"

text \<open>The results of the clusters: for each file its own id, or ids of its pages.\<close>

definition cluster_ids :: "'w deps \<Rightarrow> gostring list \<Rightarrow> bool" where
  "cluster_ids d ids =
     (\<exists>fs idss. ids = concat idss \<and>
        list_all2 file_ids fs idss \<and>
        (fs = [] \<or> (\<exists>pull w w'. DocSpecs d = Some pull \<and> pull w = (Inr fs, w'))))"

lemma pushed_ID [simp]: "sr_ID (pushed pr res) = sr_ID res"
  by (simp add: pushed_def Let_def)

lemma notify_ID: "notify_rendered d ident c doc res w = (r, w') \<Longrightarrow> sr_ID res = ident \<Longrightarrow> sr_ID r = ident"
  by (auto simp: notify_rendered_def split: option.splits prod.splits)

lemma retireLeaf_ID: "retireLeaf d s canonical c w = (r, w') \<Longrightarrow> sr_ID r = sp_ID s"
  by (auto simp: retireLeaf_def split: option.splits prod.splits sum.splits if_splits bool.splits)

lemma skip_ID: "diffDrivenSkip d s snap w = (Some r, w') \<Longrightarrow> sr_ID r = sp_ID s"
  by (auto simp: diffDrivenSkip_def split: option.splits prod.splits sum.splits if_splits diff_result.splits)

lemma processSpec_ID: "processSpec d s snap pp w = (r, w') \<Longrightarrow> sr_ID r = sp_ID s"
  by (auto simp: processSpec_def Let_def split: option.splits prod.splits sum.splits if_splits
      dest: notify_ID)

lemma run_spec_ID:
  assumes "run_spec d snap pp superseded nm s w = (r, w')"
  shows "sr_ID r = sp_ID s"
proof -
  have "sp_ID ((ExpandAuto s nm)\<lparr>Hash := []\<rparr>) = sp_ID s"
    by (simp add: ExpandAuto_def Let_def split: option.splits)
  with assms show ?thesis
    by (auto simp: run_spec_def split: option.splits if_splits prod.splits dest: retireLeaf_ID processSpec_ID skip_ID)
qed

lemma run_specs_IDs:
  "run_specs d snap pp superseded nm ss rb w = (rb', w') \<Longrightarrow>
     map sr_ID (rep_Specs rb') = map sr_ID (rep_Specs rb) @ map sp_ID ss"
proof (induction ss arbitrary: rb w)
  case (Cons s ss)
  obtain r w1 where q: "run_spec d snap pp superseded nm s w = (r, w1)" by fastforce
  with Cons run_spec_ID [OF q] show ?case by simp
qed simp

lemma publishClusterPage_ID:
  "publishClusterPage d ident t doc it v snap w = (r, w') \<Longrightarrow> sr_ID r = ident"
  by (auto simp: publishClusterPage_def Let_def split: option.splits prod.splits sum.splits dest: notify_ID)

lemma judged_specs:
  "refine_page d rf p page snap pp rb w = (r, rb', w') \<Longrightarrow> rep_Specs rb' = rep_Specs rb"
  "review_page d p page snap pp rb w = (r, rb', w') \<Longrightarrow> rep_Specs rb' = rep_Specs rb"
  by (auto simp: refine_page_def review_page_def Let_def
      split: sum.splits prod.splits if_splits option.splits)

lemma processClusterPage_ID:
  "processClusterPage d ident p page snap pp rb w = ((r, c), rb', w') \<Longrightarrow>
     sr_ID r = ident @ ''::'' @ rp_Page p \<and> rep_Specs rb' = rep_Specs rb"
  by (auto simp: processClusterPage_def Let_def split: sum.splits prod.splits option.splits if_splits
      dest: judged_specs publishClusterPage_ID)

lemma page_id_prefix: "HasPrefix (ident @ ''::'' @ t) (ident @ ''::'')"
  by (simp add: HasPrefix_iff)

lemma process_pages_IDs:
  "process_pages d f ps snap pp results ok rb w = (r, rb', w') \<Longrightarrow>
     map sr_ID (rep_Specs rb') = map sr_ID (rep_Specs rb) @ map (\<lambda>p. df_ID f @ ''::'' @ rp_Page p) ps"
proof (induction ps arbitrary: results ok rb w)
  case (Cons p ps)
  obtain res cp rb1 w1 where q: "processClusterPage d (df_ID f) p (docPagesByTitle (df_Spec f) (rp_Page p))
      snap pp rb w = ((res, cp), rb1, w1)" by (metis prod.collapse)
  with Cons processClusterPage_ID [OF q] show ?case by (auto simp: Let_def split: if_splits)
qed simp

lemma publish_cached_IDs:
  "publish_cached d ident cps snap rb w = (rb', w') \<Longrightarrow>
     map sr_ID (rep_Specs rb') = map sr_ID (rep_Specs rb) @ map (\<lambda>cp. ident @ ''::'' @ pres_Page cp) cps"
proof (induction cps arbitrary: rb w)
  case (Cons cp cps)
  obtain r w1 where q: "publishClusterPage d (ident @ ''::'' @ pres_Page cp) (pres_Page cp) (pres_Doc cp)
      (Iters cp) (Verdict cp) snap w = (r, w1)" by fastforce
  with Cons publishClusterPage_ID [OF q] show ?case by simp
qed simp

lemma file_ids_pages: "file_ids f (map (\<lambda>p. df_ID f @ ''::'' @ g p) ps)"
  using page_id_prefix [of "df_ID f"] by (simp add: file_ids_def list_all_iff)

lemma render_cluster_IDs:
  assumes "render_cluster d fe cache snap pp f rb w = (rb', w')"
  shows "\<exists>ids. file_ids f ids \<and> map sr_ID (rep_Specs rb') = map sr_ID (rep_Specs rb) @ ids"
proof -
  obtain e w1 where e: "cluster_Render fe (df_Spec f) snap w = (e, w1)" by fastforce
  show ?thesis
  proof (cases e)
    case (Inl err)
    with assms e show ?thesis by (auto simp: render_cluster_def file_ids_def)
  next
    case (Inr ps)
    obtain res ok rb1 w2 where q: "process_pages d f ps snap pp [] True rb w1 = ((res, ok), rb1, w2)"
      by (metis prod.collapse)
    have "rep_Specs rb' = rep_Specs rb1"
      using assms e Inr q by (auto simp: render_cluster_def split: option.splits prod.splits if_splits)
    with process_pages_IDs [OF q] file_ids_pages [of f rp_Page ps] show ?thesis by auto
  qed
qed

lemma runDocSpec_IDs:
  assumes run: "runDocSpec d fe snap pp f rb w = (rb', w')"
  shows "\<exists>ids. file_ids f ids \<and> map sr_ID (rep_Specs rb') = map sr_ID (rep_Specs rb) @ ids"
proof -
  have "(\<exists>cache rb1 w1. render_cluster d fe cache snap pp f rb1 w1 = (rb', w') \<and> rep_Specs rb1 = rep_Specs rb) \<or>
    (\<exists>cps w1. publish_cached d (df_ID f) cps snap rb w1 = (rb', w'))"
    using run unfolding runDocSpec_def
    by (force simp: Let_def split: option.splits prod.splits sum.splits)
  then show ?thesis
  proof (elim disjE exE conjE)
    fix cache rb1 w1 assume "render_cluster d fe cache snap pp f rb1 w1 = (rb', w')" "rep_Specs rb1 = rep_Specs rb"
    with render_cluster_IDs [OF this(1)] show ?thesis by simp
  next
    fix cps w1 assume "publish_cached d (df_ID f) cps snap rb w1 = (rb', w')"
    from publish_cached_IDs [OF this] file_ids_pages [of f pres_Page cps] show ?thesis by auto
  qed
qed

lemma runDocSpecs_each_IDs:
  "runDocSpecs_each d fe snap pp fs rb w = (rb', w') \<Longrightarrow>
     \<exists>idss. list_all2 file_ids fs idss \<and>
       map sr_ID (rep_Specs rb') = map sr_ID (rep_Specs rb) @ concat idss"
proof (induction fs arbitrary: rb w)
  case (Cons f fs)
  obtain rb1 w1 where q: "runDocSpec d fe snap pp f rb w = (rb1, w1)" by fastforce
  from runDocSpec_IDs [OF q] obtain ids where i:
    "file_ids f ids" "map sr_ID (rep_Specs rb1) = map sr_ID (rep_Specs rb) @ ids" by blast
  from Cons q obtain idss where "list_all2 file_ids fs idss"
    "map sr_ID (rep_Specs rb') = map sr_ID (rep_Specs rb1) @ concat idss" by fastforce
  with i show ?case by (intro exI [of _ "ids # idss"]) simp
qed simp

lemma retireOrphan_specs: "rep_Specs (fst (retireOrphan d t parent rb w)) = rep_Specs rb"
  by (auto simp: retireOrphan_def split: option.splits prod.splits sum.splits if_splits)

lemma prune_each_specs: "rep_Specs (fst (prune_each d owned ts rb w)) = rep_Specs rb"
proof (induction ts arbitrary: rb w)
  case (Cons t ts)
  obtain rb1 w1 where q: "retireOrphan d t (SubpathParent t) rb w = (rb1, w1)" by fastforce
  with Cons retireOrphan_specs [of d t "SubpathParent t" rb w] show ?case by auto
qed simp

lemma pruneOrphans_specs: "pruneOrphans d owned ok rb w = (rb', w') \<Longrightarrow> rep_Specs rb' = rep_Specs rb"
  using prune_each_specs [of d owned _ rb]
  by (auto simp: pruneOrphans_def split: option.splits prod.splits sum.splits if_splits)
    (metis builder_simps(3) fst_conv)+

lemma runMaintenance_specs: "runMaintenance d snap rb w = (rb', w') \<Longrightarrow> rep_Specs rb' = rep_Specs rb"
  by (auto simp: runMaintenance_def Let_def split: option.splits prod.splits if_splits)

lemma run_pipelines_IDs:
  assumes run: "run_pipelines d snap ss rb w = (rb', w')"
  shows "\<exists>ids. cluster_ids d ids \<and> map sr_ID (rep_Specs rb') = map sr_ID (rep_Specs rb) @ map sp_ID ss @ ids"
proof -
  let ?pp = "case BuildPasses d of None \<Rightarrow> o_Passes d | Some build \<Rightarrow> build snap"
  obtain fs ok rb1 w1 where q1: "pullDocSpecs d rb w = ((fs, ok), rb1, w1)" by (metis prod.collapse)
  have r1: "rep_Specs rb1 = rep_Specs rb"
    and fs: "fs = [] \<or> (\<exists>pull w w'. DocSpecs d = Some pull \<and> pull w = (Inr fs, w'))"
    using q1 by (auto simp: pullDocSpecs_def split: option.splits prod.splits sum.splits)
  let ?sup = "buildSupersedeMap fs" let ?nm = "buildNavMap ss fs ?sup"
  obtain rb2 w2 where q2: "run_specs d snap ?pp ?sup ?nm ss rb1 w1 = (rb2, w2)" by fastforce
  obtain rb3 w3 where q3: "runDocSpecs d snap ?pp fs rb2 w2 = (rb3, w3)" by fastforce
  have "\<exists>ids. cluster_ids d ids \<and> map sr_ID (rep_Specs rb3) = map sr_ID (rep_Specs rb2) @ ids"
  proof (cases "o_Cluster d")
    case None
    with q3 show ?thesis by (auto simp: runDocSpecs_def cluster_ids_def intro!: exI [of _ "[]"])
  next
    case (Some fe)
    with q3 have "runDocSpecs_each d fe snap ?pp fs rb2 w2 = (rb3, w3)" by (simp add: runDocSpecs_def)
    from runDocSpecs_each_IDs [OF this] fs show ?thesis unfolding cluster_ids_def by blast
  qed
  moreover obtain rb4 w4 where q4: "pruneOrphans d (ownedPages ss fs) ok rb3 w3 = (rb4, w4)" by fastforce
  moreover from run q1 q2 q3 q4 have "runMaintenance d snap rb4 w4 = (rb', w')"
    by (simp add: run_pipelines_def Let_def)
  ultimately show ?thesis
    using r1 run_specs_IDs [OF q2] by (auto dest!: pruneOrphans_specs runMaintenance_specs)
qed

text \<open>
  C19. A run reports every spec: when the knowledge base or the specs cannot be pulled, the run
  returns that error and the report holds it and no spec result; otherwise the run returns no error
  and the report holds exactly one result per pulled spec, in the order of the specs, whatever
  happened to each of them, followed by the results of the clusters, file by file.
\<close>

theorem run_reports_every_spec:
  "case Run d w of ((rep, e), w') \<Rightarrow>
     (case e of
        Some m \<Rightarrow> rep_Specs rep = [] \<and>
          (Errors rep = [wrapf ''kb pull: %w'' [] m] \<or> Errors rep = [wrapf ''specs pull: %w'' [] m])
      | None \<Rightarrow> \<exists>ss ids. (\<exists>w1 w2. Specs_Pull d w1 = (Inr ss, w2)) \<and> cluster_ids d ids \<and>
          map sr_ID (rep_Specs rep) = map sp_ID ss @ ids)"
proof -
  obtain i w1 where q1: "RandomID d w = (i, w1)" by fastforce
  obtain t w2 where q2: "Clock d w1 = (t, w2)" by fastforce
  obtain ks w3 where q3: "KB_Pull d w2 = (ks, w3)" by fastforce
  obtain ss w4 where q4: "Specs_Pull d w3 = (ss, w4)" by fastforce
  have errs: "Errors (rb_Build t2 (AddError (Some m) (SetKBCommit c (NewBuilder a i t)))) = [m]"
    "Errors (rb_Build t2 (AddError (Some m) (NewBuilder a i t))) = [m]" for t2 m c a
    by (simp_all add: rb_Build_def AddError_def SetKBCommit_def NewBuilder_def)
  show ?thesis
  proof (cases "isl ks \<or> isl ss")
    case True
    with q1 q2 q3 q4 show ?thesis
      by (cases ks; cases ss) (auto simp: Run_def Let_def finish_report_def errs split: prod.splits)
  next
    case False
    then obtain snap sl where ok: "ks = Inr snap" "ss = Inr sl" by (cases ks; cases ss) auto
    let ?rb = "SetKBCommit (Commit snap) (NewBuilder (o_Wiki d) i t)"
    obtain rb5 w5 where q5: "run_pipelines d snap sl ?rb w4 = (rb5, w5)" by fastforce
    from run_pipelines_IDs [OF q5] q1 q2 q3 q4 ok q5 show ?thesis
      by (auto simp: Run_def Let_def finish_report_def split: prod.splits)
  qed
qed

section \<open>What a run skips\<close>

text \<open>
  \<open>kb c\<close> is the knowledge base at the commit \<open>c\<close>.  \<open>truthful\<close> says that \<open>DiffSince\<close> names every
  area that differs between the commit it is asked for and the pulled snapshot.
\<close>

definition same_areas :: "gostring list \<Rightarrow> snapshot \<Rightarrow> snapshot \<Rightarrow> bool" where
  "same_areas ids s t = list_all (\<lambda>i. Area s i = Area t i) ids"

definition truthful :: "'w deps \<Rightarrow> (gostring \<Rightarrow> snapshot) \<Rightarrow> snapshot \<Rightarrow> bool" where
  "truthful d kb snap =
     (kb (Commit snap) = snap \<and>
      (\<forall>c w w' areas. KB_DiffSince d c w = (Changed areas, w') \<longrightarrow>
         (\<forall>i. i \<notin> set areas \<longrightarrow> Area (kb c) i = Area snap i)))"

lemma projection_same_areas:
  assumes "same_areas ids s t"
  shows "projection_sections sp s ids = projection_sections sp t ids"
  using assms by (induction ids) (auto simp: same_areas_def split: option.splits sum.splits)

lemma skip_reason:
  assumes "diffDrivenSkip d s snap w = (Some r, w')" and "truthful d kb snap" and "RunState d = Some rs"
  shows "\<exists>st w1. st_Get rs (sp_ID s) w = (Inr (Some st), w1) \<and>
    same_areas (inc_Areas (Include s)) (kb (LastKBCommit st)) snap"
proof -
  obtain st w1 where st: "st_Get rs (sp_ID s) w = (Inr (Some st), w1)"
    using assms(1,3) by (auto simp: diffDrivenSkip_def split: prod.splits sum.splits option.splits)
  have "same_areas (inc_Areas (Include s)) (kb (LastKBCommit st)) snap"
  proof (cases "LastKBCommit st = Commit snap")
    case True
    with assms(2) show ?thesis by (simp add: truthful_def same_areas_def list_all_iff)
  next
    case False
    with assms(1,3) st obtain areas w2 where
      "KB_DiffSince d (LastKBCommit st) w1 = (Changed areas, w2)" "\<not> intersects (inc_Areas (Include s)) areas"
      by (auto simp: diffDrivenSkip_def split: prod.splits diff_result.splits if_splits)
    with assms(2) show ?thesis
      unfolding truthful_def same_areas_def list_all_iff intersects_def by blast
  qed
  with st show ?thesis by blast
qed

text \<open>
  C30. Skipping a projection loses nothing that comes from the knowledge base: when the diff names
  every changed area and a spec is skipped because of it, the projection frontend makes the same
  sections (or the same error) of the skipped snapshot as of the one at the commit the spec was last
  rendered for.
\<close>

theorem projection_skip_sound:
  assumes "diffDrivenSkip d s snap w = (Some r, w')" and "truthful d kb snap" and "RunState d = Some rs"
  shows "\<exists>st w1. st_Get rs (sp_ID s) w = (Inr (Some st), w1) \<and>
    map_sum id Sections (projection_Build s snap) =
      map_sum id Sections (projection_Build s (kb (LastKBCommit st)))"
proof -
  from skip_reason [OF assms] obtain st w1 where "st_Get rs (sp_ID s) w = (Inr (Some st), w1)"
    "same_areas (inc_Areas (Include s)) (kb (LastKBCommit st)) snap" by blast
  with projection_same_areas [of "inc_Areas (Include s)" "kb (LastKBCommit st)" snap s] show ?thesis
    by (auto simp: projection_Build_def split: sum.splits)
qed

text \<open>A kb with one area, whose summary has changed; the specs that name it or a link to it.\<close>

definition net_kb :: "gostring \<Rightarrow> gostring \<Rightarrow> snapshot" where
  "net_kb c summary =
     \<lparr>Commit = c, ChangedAreas = [],
      Areas = [\<lparr>a_ID = ''net'', a_Name = ''Net'', a_Summary = summary, a_Tags = [], a_Entries = []\<rparr>,
               \<lparr>a_ID = ''db'', a_Name = ''Db'', a_Summary = ''data'', a_Tags = [], a_Entries = []\<rparr>]\<rparr>"

definition net_history :: "gostring \<Rightarrow> snapshot" where
  "net_history c = (if c = ''c2'' then net_kb ''c2'' ''new'' else net_kb ''c1'' ''old'')"

definition plain_spec :: "gostring \<Rightarrow> gostring list \<Rightarrow> spec" where
  "plain_spec kind areas =
     \<lparr>sp_ID = ''s'', Wiki = ''w'', sp_Page = ''P'', sp_Kind = kind,
      Include = \<lparr>inc_Areas = areas, Workspaces = [], ExcludeZones = []\<rparr>, FactCheck = [], sp_Body = [],
      Hash = ''h'', Hub = None, sp_Nav = no_placement\<rparr>"

definition linking_hub :: spec where
  "linking_hub =
     (plain_spec ''hub'' [])\<lparr>Hub := Some \<lparr>hub_Sections =
        [\<lparr>hs_Title = ''Areas'', hs_Desc = [],
           hs_Links = [\<lparr>hl_Page = ''Net'', hl_Label = ''Net'', hl_Desc = [], hl_Area = ''net''\<rparr>]\<rparr>],
        Auto = False\<rparr>\<rparr>"

definition diffing :: "gostring \<Rightarrow> curator_world deps" where
  "diffing changed =
     (wired ''w'' (net_history ''c2'') [] [] (\<lambda>p sn. Inr (new_document [] [] [])) \<lparr>be_Name = [], be_Render = (\<lambda>d. Inr [])\<rparr>)
       \<lparr>KB_DiffSince := (\<lambda>c w. (if c = ''c2'' then Changed [] else Changed [changed], w))\<rparr>"

definition seen_world :: "gostring \<Rightarrow> curator_world" where
  "seen_world commit =
     \<lparr>cw_wiki = example_target,
      cw_state = [''s'' \<mapsto> Inr \<lparr>LastBotRevID = ''r'', LastKBCommit = commit, LastRenderHash = [],
         LastRunID = [], LastRunAt = 0\<rparr>],
      cw_manifest = \<lparr>stored = Map.empty, unreadable = Map.empty\<rparr>, cw_time = 0\<rparr>"

lemma diffing_truthful: "truthful (diffing ''net'') net_history (net_history ''c2'')"
  by (auto simp: truthful_def diffing_def net_history_def net_kb_def Area_def wired_def)

theorem projection_skip_sound_witness:
  "\<exists>r. diffDrivenSkip (diffing ''net'') (plain_spec ''projection'' [''db'']) (net_history ''c2'') (seen_world ''c1'')
         = (Some r, seen_world ''c1'') \<and>
     map_sum id Sections (projection_Build (plain_spec ''projection'' [''db'']) (net_history ''c2'')) =
       map_sum id Sections (projection_Build (plain_spec ''projection'' [''db'']) (net_history ''c1''))"
proof -
  let ?s = "plain_spec ''projection'' [''db'']" and ?w = "seen_world ''c1''" and ?d = "diffing ''net''"
  have rs: "RunState ?d = Some curator_state" by (simp add: diffing_def)
  obtain r where r: "diffDrivenSkip ?d ?s (net_history ''c2'') ?w = (Some r, ?w)"
    by (simp add: diffDrivenSkip_def diffing_def seen_world_def plain_spec_def net_history_def net_kb_def
        intersects_def)
  with projection_skip_sound [OF r diffing_truthful rs] show ?thesis
    by (auto simp: seen_world_def plain_spec_def)
qed

text \<open>
  For a hand-listed hub the same skip is wrong: a link without a description takes the summary
  of its area, whether the spec includes that area or not, so a truthful diff that names the area
  skips the spec and the page keeps the old summary.
\<close>

theorem hub_skip_unsound:
  "truthful (diffing ''net'') net_history (net_history ''c2'') \<and>
   (\<exists>r. diffDrivenSkip (diffing ''net'') linking_hub (net_history ''c2'') (seen_world ''c1'') =
      (Some r, seen_world ''c1'')) \<and>
   map_sum id Sections (hub_Build linking_hub (net_history ''c2'')) \<noteq>
     map_sum id Sections (hub_Build linking_hub (net_history ''c1''))"
proof (intro conjI)
  show "\<exists>r. diffDrivenSkip (diffing ''net'') linking_hub (net_history ''c2'') (seen_world ''c1'') =
      (Some r, seen_world ''c1'')"
    by (simp add: diffDrivenSkip_def diffing_def seen_world_def linking_hub_def plain_spec_def net_history_def
        net_kb_def intersects_def)
  show "map_sum id Sections (hub_Build linking_hub (net_history ''c2'')) \<noteq>
     map_sum id Sections (hub_Build linking_hub (net_history ''c1''))"
    by (simp add: hub_Build_def linking_hub_def plain_spec_def net_history_def net_kb_def hub_section_of_def
        hub_entry_def Let_def Area_def TrimSpace_def)
qed (rule diffing_truthful)

section \<open>What a cluster cache hit serves\<close>

lemma ClusterKey_retag: "ClusterKey sp (retag et at snap) v = ClusterKey sp snap v"
  by (simp add: ClusterKey_def HashKBSubset_retag)

text \<open>
  A cluster whose selection changed is served from the cache: after retagging the knowledge
  base in whatever way, the pages stored for the old tags are published again, and neither the page
  renderer, nor the passes, nor the judge or the refine loop is called.
\<close>

theorem retagged_cluster_served_stale:
  assumes "ClusterCache d = Some cc"
    and "st_Get cc (ClusterKey (df_Spec f) snap (pipelineVersion d)) w = (Inr (Some cps), w')"
  shows "runDocSpec d fe (retag et at snap) pp f rb w =
    publish_cached d (df_ID f) cps (retag et at snap) rb w'"
  using assms by (simp add: runDocSpec_def Let_def ClusterKey_retag)

text \<open>A cluster with a section on the entries tagged x, and a cache that has its pages.\<close>

definition tagged_cluster :: doc_file where
  "tagged_cluster =
     \<lparr>df_ID = ''docs'',
      df_Spec = example_spec\<lparr>ParentPage := (ParentPage example_spec)\<lparr>dp_Sections := [vault_section ''area=vault tag=x'']\<rparr>\<rparr>\<rparr>"

definition caching :: "curator_world deps" where
  "caching = (diffing [])\<lparr>ClusterCache := Some \<lparr>st_Get = (\<lambda>k w. (Inr (Some []), w)), st_Set = (\<lambda>k v w. (None, w))\<rparr>\<rparr>"

theorem retagged_cluster_served_stale_witness:
  "runDocSpec caching (\<lambda>p sn w. (Inl (errorf [] []), w)) (retag (\<lambda>e. [''x'']) (\<lambda>a. []) (vault_snapshot []))
       None tagged_cluster (NewBuilder ''w'' ''r'' 0) (seen_world ''c1'') =
     publish_cached caching ''docs'' [] (retag (\<lambda>e. [''x'']) (\<lambda>a. []) (vault_snapshot [])) (NewBuilder ''w'' ''r'' 0) (seen_world ''c1'') \<and>
   SectionGrounding (retag (\<lambda>e. [''x'']) (\<lambda>a. []) (vault_snapshot [])) (vault_section ''area=vault tag=x'') \<noteq>
     SectionGrounding (vault_snapshot []) (vault_section ''area=vault tag=x'')"
proof
  show "runDocSpec caching (\<lambda>p sn w. (Inl (errorf [] []), w)) (retag (\<lambda>e. [''x'']) (\<lambda>a. []) (vault_snapshot []))
       None tagged_cluster (NewBuilder ''w'' ''r'' 0) (seen_world ''c1'') =
     publish_cached caching ''docs'' [] (retag (\<lambda>e. [''x'']) (\<lambda>a. []) (vault_snapshot [])) (NewBuilder ''w'' ''r'' 0) (seen_world ''c1'')"
    using retagged_cluster_served_stale [of caching _ tagged_cluster "vault_snapshot []" "seen_world ''c1''" "[]"
        "seen_world ''c1''" "\<lambda>p sn w. (Inl (errorf [] []), w)" "\<lambda>e. [''x'']" "\<lambda>a. []" None "NewBuilder ''w'' ''r'' 0"]
    by (simp add: caching_def tagged_cluster_def)
  have sel: "fold kb_token (Fields ''area=vault tag=x'') ([], [], []) = (''vault'', [''x''], [])" by code_simp
  show "SectionGrounding (retag (\<lambda>e. [''x'']) (\<lambda>a. []) (vault_snapshot [])) (vault_section ''area=vault tag=x'') \<noteq>
     SectionGrounding (vault_snapshot []) (vault_section ''area=vault tag=x'')"
    by (simp add: SectionGrounding_def vault_section_def kb_source_def kb_digest_of_def ResolveKB_def sel Area_def
        retag_def vault_snapshot_def writeKBDigest_def entry_digest_def entry_selected_def)
qed

end
