(* ===== verification/CuratorSteps.thy ===== *)
theory CuratorSteps
  imports RunProps
begin

text \<open>
  The curator over time: runs and human edits as steps on the world, and what the stored
  revision identifiers mean in every reachable world.
\<close>

section \<open>One push\<close>

definition last_bot :: "curator_world \<Rightarrow> gostring \<Rightarrow> gostring" where
  "last_bot w ident = (case cw_state w ident of Some (Inr st) \<Rightarrow> LastBotRevID st | _ \<Rightarrow> [])"

definition remember :: "gostring \<Rightarrow> gostring \<Rightarrow> gostring \<Rightarrow> curator_world \<Rightarrow> curator_world" where
  "remember ident rv commit w =
     w\<lparr>cw_state := (cw_state w)(ident \<mapsto> Inr \<lparr>LastBotRevID = rv, LastKBCommit = commit,
          LastRenderHash = [], LastRunID = [], LastRunAt = cw_time w\<rparr>),
       cw_time := cw_time w + 1\<rparr>"

lemma lookup_wired: "lookupLastBotRev (wired wk snap ss dfs pf be) ident w = (last_bot w ident, w)"
  by (simp add: lookupLastBotRev_def last_bot_def split: option.splits sum.splits)

lemma persist_wired: "persistRunState (wired wk snap ss dfs pf be) ident rv c w = remember ident rv c w"
  by (simp add: persistRunState_def remember_def)

lemma remember_simps [simp]:
  "cw_wiki (remember ident rv c w) = cw_wiki w"
  "cw_view (remember ident rv c w) = cw_view w"
  "cw_ok (remember ident rv c w) = cw_ok w"
  "last_bot (remember ident rv c w) j = (if j = ident then rv else last_bot w j)"
  by (simp_all add: remember_def cw_view_def cw_ok_def last_bot_def fun_eq_iff)

text \<open>The text a push writes.\<close>

definition push_text :: "curator_world \<Rightarrow> gostring \<Rightarrow> gostring \<Rightarrow> gostring \<Rightarrow> gostring" where
  "push_text w ident title rendered =
     (let merged = MergedContent (decide (cw_view w title) rendered (last_bot w ident)) in
      if merged = [] then rendered else merged)"

lemma push_noop:
  assumes "cw_ok w" and "Action (decide (cw_view w title) rendered (last_bot w ident)) = ActionNoOp"
  shows "reconcileAndPush (wired wk snap ss dfs pf be) curator_target ident title rendered c w =
    (Inr \<lparr>NoOp = True, pu_NewRevisionID = [], pu_HumanEdits = []\<rparr>, remember ident (last_bot w ident) c w)"
proof -
  have "HumanEdits (decide (cw_view w title) rendered (last_bot w ident)) = []"
    using assms(2) by (auto simp: decide_def Let_def split: list.splits if_splits)
  with assms deployed.Reconcile_decide [OF assms(1), of title rendered "last_bot w ident"] show ?thesis
    by (simp add: reconcileAndPush_def lookup_wired persist_wired convertHumanEdits_def)
qed

lemma upsert_ok: "\<exists>r w'. UpsertPage curator_target t c s w = (Inr r, w')"
  by (auto simp: on_wiki_def mem_UpsertPage_def split: prod.splits)

lemma push_write:
  assumes "cw_ok w"
    and "Action (decide (cw_view w title) rendered (last_bot w ident)) \<noteq> ActionNoOp"
  shows "\<exists>r m. UpsertPage curator_target title (push_text w ident title rendered)
            (''mykb-curator: spec='' @ ident) w = (Inr r, m) \<and>
     reconcileAndPush (wired wk snap ss dfs pf be) curator_target ident title rendered c w =
       (Inr \<lparr>NoOp = False, pu_NewRevisionID = rev_ID r,
             pu_HumanEdits = convertHumanEdits (HumanEdits (decide (cw_view w title) rendered (last_bot w ident)))\<rparr>,
        remember ident (rev_ID r) c m)"
proof -
  obtain r m where u: "UpsertPage curator_target title (push_text w ident title rendered)
      (''mykb-curator: spec='' @ ident) w = (Inr r, m)"
    using upsert_ok by blast
  with assms deployed.Reconcile_decide [OF assms(1), of title rendered "last_bot w ident"] show ?thesis
    by (simp add: reconcileAndPush_def lookup_wired persist_wired push_text_def Let_def)
qed

section \<open>The invariant\<close>

text \<open>
  \<open>titles\<close> is the page of each spec id.  In a tracked world the wiki is in order and every
  identifier on record is that of a revision the bot made of the spec's page.  The identifiers are
  eight random bytes, so they repeat some day: the invariant is stated for as long as no more than
  the first \<open>n\<close> of them, which are distinct, have been drawn.
\<close>

definition bot_revision :: "curator_world \<Rightarrow> gostring \<Rightarrow> gostring \<Rightarrow> bool" where
  "bot_revision w title rv = (\<exists>(r, c) \<in> set (cw_view w title). IsBot r \<and> rev_ID r = rv)"

definition in_order :: "(gostring \<Rightarrow> gostring) \<Rightarrow> nat \<Rightarrow> curator_world \<Rightarrow> bool" where
  "in_order titles n w =
     (cw_ok w \<and> inj_on (entropy (cw_wiki w)) {..<n} \<and>
      (\<forall>ident. last_bot w ident \<noteq> [] \<longrightarrow> bot_revision w (titles ident) (last_bot w ident)))"

definition exhausted :: "nat \<Rightarrow> curator_world \<Rightarrow> bool" where
  "exhausted n w = (n < draws (cw_wiki w))"

definition tracked :: "(gostring \<Rightarrow> gostring) \<Rightarrow> nat \<Rightarrow> curator_world \<Rightarrow> bool" where
  "tracked titles n w = (exhausted n w \<or> in_order titles n w)"

lemma in_order_fresh: "in_order titles n w \<Longrightarrow> draws (cw_wiki w) < n \<Longrightarrow> cw_fresh w"
  by (force simp: in_order_def cw_fresh_def mem_fresh_def inj_on_def)

text \<open>Draws are never taken back.\<close>

lemma mem_write_draws: "mem_write u b t c s m = (r, m') \<Longrightarrow> draws m' = Suc (draws m)"
  by (auto simp: mem_write_def Let_def)

lemma keeps_exhausted:
  assumes "\<And>w. draws (cw_wiki w) \<le> draws (cw_wiki (snd (f w)))"
  shows "keeps (exhausted n) f"
  by (rule keepsI) (metis assms exhausted_def less_le_trans snd_conv)

lemma reads_draws:
  "draws (cw_wiki (snd (on_wiki (mem_GetPage t) w))) = draws (cw_wiki w)"
  "draws (cw_wiki (snd (on_wiki (mem_History t since) w))) = draws (cw_wiki w)"
  "draws (cw_wiki (snd (on_wiki (mem_HumanEditsSinceBot t lastBot) w))) = draws (cw_wiki w)"
  "draws (cw_wiki (snd (on_wiki (mem_UpsertPage t c sm) w))) = Suc (draws (cw_wiki w))"
  by (auto simp: on_wiki_def mem_GetPage_def mem_History_def mem_HumanEditsSinceBot_def mem_UpsertPage_def
      mem_write_draws split: option.splits prod.splits dest: mem_write_draws)

lemma manifest_save_wiki:
  "cw_wiki (snd (man_Save curator_manifest owned w)) = cw_wiki w \<and>
   cw_state (snd (man_Save curator_manifest owned w)) = cw_state w"
  by (simp add: curator_manifest_def on_manifest_def split: prod.splits)

interpretation drawing: run_frame "wired wk snap ss dfs pf be" "exhausted n" UNIV "{set (ownedPages ss dfs)}"
  for wk snap ss dfs pf be n
  by (unfold_locales, unfold wired_simps)
    (auto intro!: keeps_exhausted
      simp: reads_draws load_pure plain_build_pure ApplyZoneMarkers_def manifest_save_wiki)

lemma mem_write_entropy: "mem_write u b t c s m = (r, m') \<Longrightarrow> entropy m' = entropy m"
  by (auto simp: mem_write_def Let_def)

text \<open>A write to the wiki keeps the invariant, by the bot or by a human.\<close>

lemma tracked_write:
  assumes "tracked titles n w" and "mem_write u b t c s (cw_wiki w) = (r, m)"
  shows "tracked titles n (w\<lparr>cw_wiki := m\<rparr>)"
proof (cases "draws (cw_wiki w) < n")
  case False
  with mem_write_draws [OF assms(2)] show ?thesis by (simp add: tracked_def exhausted_def)
next
  case True
  let ?w = "w\<lparr>cw_wiki := m\<rparr>"
  from True assms(1) have inv: "in_order titles n w" by (auto simp: tracked_def exhausted_def)
  then have "cw_ok w" "cw_fresh w" using in_order_fresh [OF inv True] by (simp_all add: in_order_def)
  then have "cw_ok ?w" using mem_write_ok [OF _ _ assms(2)] by (simp add: cw_ok_def cw_fresh_def)
  moreover have "set (cw_view w v) \<subseteq> set (cw_view ?w v)" for v
    using mem_view_write [OF assms(2), of v] mem_view_norm [of v t "cw_wiki w"] by (auto simp: cw_view_def)
  then have "bot_revision w v rv \<Longrightarrow> bot_revision ?w v rv" for v rv
    unfolding bot_revision_def by blast
  ultimately have "in_order titles n ?w"
    using inv mem_write_entropy [OF assms(2)] by (auto simp: in_order_def last_bot_def)
  then show ?thesis by (simp add: tracked_def)
qed

lemma upsert_write:
  assumes "UpsertPage curator_target t c s w = (Inr r, w')"
  shows "\<exists>m. mem_write (identity (cw_wiki w)) True t c s (cw_wiki w) = (r, m) \<and> w' = w\<lparr>cw_wiki := m\<rparr>"
  using assms by (auto simp: on_wiki_def mem_UpsertPage_def split: prod.splits)

lemma tracked_remember:
  assumes "tracked titles n w" and "rv = [] \<or> bot_revision w (titles ident) rv"
  shows "tracked titles n (remember ident rv c w)"
  using assms by (auto simp: tracked_def in_order_def exhausted_def bot_revision_def)

lemma tracked_remember_same:
  assumes "tracked titles n w"
  shows "tracked titles n (remember ident (last_bot w ident) c w)"
  using assms by (auto simp: tracked_def in_order_def exhausted_def bot_revision_def)

text \<open>Writing a page and recording the new revision for its spec.\<close>

lemma tracked_write_remember:
  assumes "tracked titles n w" and "UpsertPage curator_target (titles ident) t s w = (Inr r, w')"
  shows "tracked titles n (remember ident (rev_ID r) c w')"
proof -
  obtain m where m: "mem_write (identity (cw_wiki w)) True (titles ident) t s (cw_wiki w) = (r, m)"
    "w' = w\<lparr>cw_wiki := m\<rparr>" using upsert_write [OF assms(2)] by blast
  have "IsBot r" using m(1) by (auto simp: mem_write_def Let_def)
  then have "bot_revision w' (titles ident) (rev_ID r)"
    using mem_view_write [OF m(1), of "titles ident"] m(2) by (auto simp: bot_revision_def cw_view_def)
  with tracked_write [OF assms(1) m(1)] m(2) show ?thesis by (auto intro: tracked_remember)
qed

lemma tracked_push:
  assumes "titles ident = t"
  shows "keeps (tracked titles n) (reconcileAndPush (wired wk snap ss dfs pf be) curator_target ident t rendered c)"
proof (rule keepsI)
  fix w r w'
  assume run: "reconcileAndPush (wired wk snap ss dfs pf be) curator_target ident t rendered c w = (r, w')"
    and w: "tracked titles n w"
  show "tracked titles n w'"
  proof (cases "exhausted n w")
    case True
    from keepsD [OF drawing.keeps_push run True] show ?thesis by (simp add: tracked_def)
  next
    case False
    with w have ok: "cw_ok w" by (simp add: tracked_def in_order_def)
    show ?thesis
    proof (cases "Action (decide (cw_view w t) rendered (last_bot w ident)) = ActionNoOp")
      case True
      with push_noop [OF ok True, of wk snap ss dfs pf be c] run w tracked_remember_same show ?thesis by simp
    next
      case False
      with push_write [OF ok False, of wk snap ss dfs pf be c] run w tracked_write_remember assms
      show ?thesis by force
    qed
  qed
qed

lemma get_wired: "cw_ok w \<Longrightarrow> \<exists>cur. GetPage curator_target t w = (Inr cur, w)"
  using deployed.get_page by blast

lemma guard_wired:
  "cw_ok w \<Longrightarrow> \<exists>g. human_guard (wired wk snap ss dfs pf be) curator_target s w = (g, w)"
  by (cases "last_bot w (sp_ID s) = []")
    (auto simp del: curator_target_simps simp: human_guard_def lookup_wired deployed.human_edits split: option.splits)

lemma tracked_retire:
  assumes "titles (sp_ID s) = sp_Page s"
  shows "keeps (tracked titles n) (retireLeaf (wired wk snap ss dfs pf be) s canonical c)"
proof (rule keepsI)
  fix w r w' assume run: "retireLeaf (wired wk snap ss dfs pf be) s canonical c w = (r, w')" and w: "tracked titles n w"
  show "tracked titles n w'"
  proof (cases "exhausted n w")
    case True
    from keepsD [OF drawing.keeps_retireLeaf run True] show ?thesis
      by (simp add: tracked_def)
  next
    case False
    with w have ok: "cw_ok w" by (simp add: tracked_def in_order_def)
  obtain cur where cur: "GetPage curator_target (sp_Page s) w = (Inr cur, w)" using get_wired [OF ok] by blast
  obtain g where g: "human_guard (wired wk snap ss dfs pf be) curator_target s w = (g, w)"
    using guard_wired [OF ok] by blast
  let ?sm = "''mykb-curator: retire '' @ sp_ID s @ '' '' @ right_arrow @ '' redirect to '' @ canonical"
  obtain rv w1 where u: "UpsertPage curator_target (sp_Page s) (redirect_to canonical) ?sm w = (Inr rv, w1)"
    using upsert_ok by blast
  from tracked_write_remember [of titles n w "sp_ID s", OF w] u assms
  have "tracked titles n (remember (sp_ID s) (rev_ID rv) c w1)" by simp
  with run w cur g u tracked_remember_same [OF w] show ?thesis
    by (cases cur)
      (auto simp del: curator_target_simps simp: retireLeaf_def lookup_wired persist_wired
        split: if_splits bool.splits)
  qed
qed

lemma tracked_orphan: "keeps (tracked titles n) (retireOrphan (wired wk snap ss dfs pf be) t parent rb)"
proof (rule keepsI)
  fix w r w' assume run: "retireOrphan (wired wk snap ss dfs pf be) t parent rb w = (r, w')" and w: "tracked titles n w"
  show "tracked titles n w'"
  proof (cases "exhausted n w")
    case True
    from keepsD [OF drawing.keeps_retireOrphan run True] show ?thesis
      by (simp add: tracked_def)
  next
    case False
    with w have ok: "cw_ok w" by (simp add: tracked_def in_order_def)
  obtain cur where cur: "GetPage curator_target t w = (Inr cur, w)" using get_wired [OF ok] by blast
  obtain rv w1 where u: "UpsertPage curator_target t (redirect_to parent)
      (''mykb-curator: retire orphan '' @ right_arrow @ '' redirect to '' @ parent) w = (Inr rv, w1)"
    using upsert_ok by blast
  have "tracked titles n w1" using upsert_write [OF u] tracked_write [OF w] by blast
  with run w cur u show ?thesis
    by (auto simp del: curator_target_simps simp: retireOrphan_def split: option.splits if_splits)
  qed
qed

section \<open>Whole runs and human edits\<close>

text \<open>The ids the pushes of a run use name their pages.\<close>

definition consistent :: "(gostring \<Rightarrow> gostring) \<Rightarrow> gostring \<Rightarrow> spec list \<Rightarrow> doc_file list \<Rightarrow> bool" where
  "consistent titles wk ss dfs =
     (list_all (\<lambda>s. validateSpecForWiki s wk = None \<longrightarrow> titles (sp_ID s) = sp_Page s) ss \<and>
      list_all (\<lambda>f. list_all (\<lambda>p. titles (df_ID f @ ''::'' @ dp_Page p) = dp_Page p) (spec_pages (df_Spec f))) dfs)"

lemma consistentD:
  assumes "consistent titles wk ss dfs"
  shows "s \<in> set ss \<Longrightarrow> validateSpecForWiki s wk = None \<Longrightarrow> titles (sp_ID s) = sp_Page s"
    and "f \<in> set dfs \<Longrightarrow> p \<in> set (spec_pages (df_Spec f)) \<Longrightarrow>
      titles (df_ID f @ CHR '':'' # CHR '':'' # dp_Page p) = dp_Page p"
  using assms by (auto simp: consistent_def list_all_iff)

lemma tracked_world:
  "cw_ok w' = cw_ok w \<Longrightarrow> cw_wiki w' = cw_wiki w \<Longrightarrow> cw_state w' = cw_state w \<Longrightarrow> tracked titles n w \<Longrightarrow> tracked titles n w'"
  by (simp add: tracked_def exhausted_def in_order_def bot_revision_def last_bot_def cw_view_def)

lemma keeps_tracked:
  assumes "\<And>w. cw_wiki (snd (f w)) = cw_wiki w \<and> cw_state (snd (f w)) = cw_state w"
  shows "keeps (\<lambda>w. C \<and> tracked titles n w) f"
proof (rule keepsI)
  fix w r w' assume "f w = (r, w')" "C \<and> tracked titles n w"
  with assms [of w] show "C \<and> tracked titles n w'" using tracked_world [of w' w] by (simp add: cw_ok_def)
qed

lemma keeps_with: "(C \<Longrightarrow> keeps P f) \<Longrightarrow> keeps (\<lambda>w. C \<and> P w) f"
  by (auto simp: keeps_def)

interpretation tracked_run: run_steps "wired wk snap ss dfs pf be"
  "\<lambda>w. consistent titles wk ss dfs \<and> tracked titles n w"
  "{(ident, t). consistent titles wk ss dfs \<longrightarrow> titles ident = t}" UNIV "{set (ownedPages ss dfs)}"
  for wk snap ss dfs pf be titles n
proof (unfold_locales, unfold wired_simps)
  fix T ident t rendered c
  assume "Some curator_target = Some T" "(ident, t) \<in> {(ident, t). consistent titles wk ss dfs \<longrightarrow> titles ident = t}"
  then show "keeps (\<lambda>w. consistent titles wk ss dfs \<and> tracked titles n w)
      (reconcileAndPush (wired wk snap ss dfs pf be) T ident t rendered c)"
    by (intro keeps_with) (auto intro: tracked_push)
next
  fix s :: spec and canonical c
  assume "(sp_ID s, sp_Page s) \<in> {(ident, t). consistent titles wk ss dfs \<longrightarrow> titles ident = t}"
  then show "keeps (\<lambda>w. consistent titles wk ss dfs \<and> tracked titles n w)
      (retireLeaf (wired wk snap ss dfs pf be) s canonical c)"
    by (intro keeps_with) (auto intro: tracked_retire)
qed (auto intro!: keeps_tracked keeps_with [OF tracked_orphan] simp: load_pure plain_build_pure ApplyZoneMarkers_def
      manifest_save_wiki consistentD)

inductive curator_step :: "(gostring \<Rightarrow> gostring) \<Rightarrow> curator_world \<Rightarrow> curator_world \<Rightarrow> bool"
  for titles where
  Run_step: "consistent titles wk ss dfs \<Longrightarrow> Run (wired wk snap ss dfs pf be) w = (r, w') \<Longrightarrow> curator_step titles w w'"
| Edit_step: "curator_step titles w (w\<lparr>cw_wiki := SimulateHumanEdit t user c s (cw_wiki w)\<rparr>)"

inductive_cases curator_stepE: "curator_step titles w w'"

lemma tracked_step: "curator_step titles w w' \<Longrightarrow> tracked titles n w \<Longrightarrow> tracked titles n w'"
proof (erule curator_stepE)
  fix wk ss dfs snap pf be r
  assume "consistent titles wk ss dfs" "Run (wired wk snap ss dfs pf be) w = (r, w')" "tracked titles n w"
  then show "tracked titles n w'"
    using keepsD [OF tracked_run.keeps_Run [where titles = titles and n = n and wk = wk and snap = snap and ss = ss
        and dfs = dfs and pf = pf and be = be], of w r w'] by blast
next
  fix t user c s
  assume "tracked titles n w" "w' = w\<lparr>cw_wiki := SimulateHumanEdit t user c s (cw_wiki w)\<rparr>"
  moreover obtain r m where "mem_write user False t c s (cw_wiki w) = (r, m)" by fastforce
  ultimately show "tracked titles n w'" using tracked_write by (auto simp: SimulateHumanEdit_def)
qed

lemma tracked_reachable: "(curator_step titles)\<^sup>*\<^sup>* w w' \<Longrightarrow> tracked titles n w \<Longrightarrow> tracked titles n w'"
  by (induction rule: rtranclp_induct) (auto intro: tracked_step)

section \<open>What the record is good for\<close>

text \<open>
  C5. In every world that runs and human edits lead to from a tracked one (an empty one, say), the
  revision on record for a spec is a revision the bot made of that spec's page, as long as the
  identifiers drawn so far are distinct.
\<close>

theorem recorded_revision_is_bots:
  assumes "tracked titles n w0" and "(curator_step titles)\<^sup>*\<^sup>* w0 w" and "draws (cw_wiki w) \<le> n"
    and "last_bot w ident \<noteq> []"
  shows "bot_revision w (titles ident) (last_bot w ident)"
  using tracked_reachable [OF assms(2,1)] assms(3,4) by (simp add: tracked_def exhausted_def in_order_def)

lemma decide_edits:
  "Action (decide h rendered b) \<noteq> ActionNoOp \<Longrightarrow> h \<noteq> [] \<Longrightarrow> b \<noteq> [] \<Longrightarrow>
     HumanEdits (decide h rendered b) = map detection (humans_since b (map fst h))"
  by (auto simp: decide_def Let_def split: list.splits if_splits)

lemma split_at_bot:
  assumes "bot_revision w t rv" and "distinct (map (rev_ID \<circ> fst) (cw_view w t))"
  shows "\<exists>newer r c older. cw_view w t = newer @ (r, c) # older \<and> IsBot r \<and> rev_ID r = rv \<and>
     humans_since rv (map fst (cw_view w t)) = filter (\<lambda>r. \<not> IsBot r) (map fst newer)"
proof -
  from assms(1) obtain r c where rc: "(r, c) \<in> set (cw_view w t)" "IsBot r" "rev_ID r = rv"
    by (auto simp: bot_revision_def)
  then obtain newer older where v: "cw_view w t = newer @ (r, c) # older" by (auto simp: in_set_conv_decomp)
  with assms(2) rc(3) have "list_all (\<lambda>r. rev_ID r \<noteq> rv) (map fst newer)" by (force simp: list_all_iff)
  then have "takeWhile (\<lambda>r. rev_ID r \<noteq> rv) (map fst newer @ r # map fst older) = map fst newer"
    using rc(3) by (subst takeWhile_append2) (auto simp: list_all_iff)
  with v rc show ?thesis
    by (intro exI [of _ newer] exI [of _ r] exI [of _ c] exI [of _ older]) (simp add: humans_since_def)
qed

text \<open>
  C4. No human edit goes unnoticed: in every such world, pushing a spec that has a revision on
  record never fails; either the merge leaves the page as it is and nothing is written, or the
  result reports exactly the human revisions of the page that are newer than the revision on record,
  newest first.
\<close>

theorem pushes_report_human_edits:
  assumes "tracked titles n w0" and "(curator_step titles)\<^sup>*\<^sup>* w0 w" and "draws (cw_wiki w) \<le> n"
    and "last_bot w ident \<noteq> []"
  shows "\<exists>newer r c older pr w'.
     cw_view w (titles ident) = newer @ (r, c) # older \<and> IsBot r \<and> rev_ID r = last_bot w ident \<and>
     reconcileAndPush (wired wk snap ss dfs pf be) curator_target ident (titles ident) rendered commit w = (Inr pr, w') \<and>
     (if NoOp pr then cw_view w' = cw_view w
      else pu_HumanEdits pr = convertHumanEdits (map detection (filter (\<lambda>r. \<not> IsBot r) (map fst newer))))"
proof -
  have tr: "in_order titles n w"
    using tracked_reachable [OF assms(2,1)] assms(3) by (simp add: tracked_def exhausted_def)
  then have ok: "cw_ok w" by (simp add: in_order_def)
  have "bot_revision w (titles ident) (last_bot w ident)" using tr assms(4) by (simp add: in_order_def)
  from split_at_bot [OF this deployed.distinct_ids [OF ok]] obtain newer r c older where v:
    "cw_view w (titles ident) = newer @ (r, c) # older" "IsBot r" "rev_ID r = last_bot w ident"
    "humans_since (last_bot w ident) (map fst (cw_view w (titles ident))) = filter (\<lambda>r. \<not> IsBot r) (map fst newer)"
    by blast
  let ?dec = "decide (cw_view w (titles ident)) rendered (last_bot w ident)"
  let ?push = "reconcileAndPush (wired wk snap ss dfs pf be) curator_target ident (titles ident) rendered commit w"
  have "\<exists>pr w'. ?push = (Inr pr, w') \<and> (if NoOp pr then cw_view w' = cw_view w
      else pu_HumanEdits pr = convertHumanEdits (map detection (filter (\<lambda>r. \<not> IsBot r) (map fst newer))))"
  proof (cases "Action ?dec = ActionNoOp")
    case True
    with push_noop [OF ok True, of wk snap ss dfs pf be commit] show ?thesis by simp
  next
    case False
    have "HumanEdits ?dec = map detection (filter (\<lambda>r. \<not> IsBot r) (map fst newer))"
      using decide_edits [OF False _ assms(4)] v by simp
    with push_write [OF ok False, of wk snap ss dfs pf be commit] show ?thesis by force
  qed
  with v show ?thesis by blast
qed

text \<open>
  A spec edited between two runs is ignored: once a spec has been pushed at a kb commit, every
  later version of it, with whatever text, includes, kind or page, is skipped without any effect as
  long as the knowledge base stays at that commit (auto hubs and superseded leaves aside).
\<close>

theorem edited_spec_ignored:
  assumes "reconcileAndPush (wired wk snap ss dfs pf be) curator_target (sp_ID s) title rendered (Commit snap) w = (Inr pr, w')"
    and "cw_ok w" and "Commit snap \<noteq> []" and "sp_ID s' = sp_ID s"
    and "validateSpecForWiki s' wk = None" and "superseded (sp_Page s') = None" and "Hub s' = None"
  shows "run_spec (wired wk snap ss dfs pf be) snap pp superseded nm s' w' =
    (spec_result_of (sp_ID s) StatusSkipped (errorf ''kb unchanged since last run (commit %s)'' [Commit snap]), w')"
proof -
  have "\<exists>rv m. w' = remember (sp_ID s) rv (Commit snap) m"
  proof (cases "Action (decide (cw_view w title) rendered (last_bot w (sp_ID s))) = ActionNoOp")
    case True
    from push_noop [OF assms(2) True, of wk snap ss dfs pf be "Commit snap"] assms(1) show ?thesis by auto
  next
    case False
    from push_write [OF assms(2) False, of wk snap ss dfs pf be "Commit snap"] assms(1) show ?thesis by auto
  qed
  then have "\<exists>rv t. cw_state w' (sp_ID s) = Some (Inr \<lparr>LastBotRevID = rv, LastKBCommit = Commit snap,
      LastRenderHash = [], LastRunID = [], LastRunAt = t\<rparr>)" by (auto simp: remember_def)
  with assms(3-7) show ?thesis
    by (auto simp: run_spec_def diffDrivenSkip_def)
qed

section \<open>Retiring pages\<close>

text \<open>The humans that keep a leaf from being retired.\<close>

definition guarded :: "curator_world \<Rightarrow> spec \<Rightarrow> bool" where
  "guarded w s = (last_bot w (sp_ID s) \<noteq> [] \<and>
     humans_since (last_bot w (sp_ID s)) (map fst (cw_view w (sp_Page s))) \<noteq> [])"

lemma guard_wired_eq:
  "cw_ok w \<Longrightarrow> human_guard (wired wk snap ss dfs pf be) curator_target s w = (guarded w s, w)"
  by (cases "last_bot w (sp_ID s) = []")
    (auto simp del: curator_target_simps simp: human_guard_def lookup_wired deployed.human_edits guarded_def
      humans_since_def find_None_iff filter_empty_conv find_Some_iff split: option.splits)

text \<open>
  What retiring a superseded leaf does, on every branch: the redirect is a new bot revision on top of the
  history of the page, and is put on record.
\<close>

lemma retire_branches:
  assumes "cw_ok w" and "cw_fresh w" and "sp_Page s \<noteq> []"
  shows "\<exists>res w'. retireLeaf (wired wk snap ss dfs pf be) s canonical commit w = (res, w') \<and>
    (if map snd (take 1 (cw_view w (sp_Page s))) = [redirect_to canonical] \<or>
        cw_view w (sp_Page s) \<noteq> [] \<and> guarded w s
     then sr_Status res = StatusSkipped \<and> cw_view w' = cw_view w \<and> last_bot w' = last_bot w
     else sr_Status res = StatusRendered \<and>
       (\<exists>r. IsBot r \<and> NewRevisionID res = rev_ID r \<and> last_bot w' (sp_ID s) = rev_ID r \<and>
          cw_view w' = (\<lambda>u. if normTitle u = normTitle (sp_Page s)
                            then (r, redirect_to canonical) # cw_view w (sp_Page s) else cw_view w u)))"
proof -
  let ?d = "wired wk snap ss dfs pf be" and ?v = "cw_view w (sp_Page s)"
  have T: "(if sp_Page s = [] then None else WikiTarget ?d) = Some curator_target" using assms(3) by simp
  have get: "GetPage curator_target (sp_Page s) w = (Inr (case ?v of [] \<Rightarrow> None
      | (r, c) # _ \<Rightarrow> Some \<lparr>pg_Title = sp_Page s, pg_Content = c, LatestRevision = r\<rparr>), w)"
    by (rule deployed.get_page [OF assms(1)])
  let ?sm = "''mykb-curator: retire '' @ sp_ID s @ '' '' @ right_arrow @ '' redirect to '' @ canonical"
  obtain rv m where up: "UpsertPage curator_target (sp_Page s) (redirect_to canonical) ?sm w = (Inr rv, m)"
    "IsBot rv" and v: "\<forall>u. cw_view m u = (if normTitle u = normTitle (sp_Page s) then (rv, redirect_to canonical) # ?v
        else cw_view w u)"
    using cw_upsert [OF assms(1,2), of "sp_Page s" "redirect_to canonical" ?sm] by blast
  have same: "last_bot (remember i (last_bot w i) c w) = last_bot w" for i c by (auto simp: fun_eq_iff)
  from v have v': "cw_view m = (\<lambda>u. if normTitle u = normTitle (sp_Page s)
      then (rv, redirect_to canonical) # ?v else cw_view w u)" by auto
  show ?thesis
  proof (cases ?v)
    case Nil
    with up v' get T show ?thesis
      by (auto simp del: curator_target_simps simp: retireLeaf_def persist_wired)
  next
    case (Cons rc h)
    obtain r0 c0 where rc: "rc = (r0, c0)" by fastforce
    note eqs = retireLeaf_def guard_wired_eq [OF assms(1)] lookup_wired persist_wired
    consider "c0 = redirect_to canonical" | "c0 \<noteq> redirect_to canonical" "guarded w s"
      | "c0 \<noteq> redirect_to canonical" "\<not> guarded w s" by blast
    then show ?thesis
      by cases (use Cons rc up v' get T same in \<open>auto simp del: curator_target_simps simp: eqs\<close>)
  qed
qed

text \<open>
  Without a revision on record nothing guards a leaf: a page that only a human ever wrote is redirected, against
  the comment of \<open>retireLeaf\<close> and the design (docs/navigation-DESIGN.md, 3.4).
\<close>

lemma unrecorded_leaf_overwritten:
  assumes "cw_ok w" and "cw_fresh w" and "sp_Page s \<noteq> []" and "last_bot w (sp_ID s) = []"
    and "cw_view w (sp_Page s) = [(r, c)]" and "\<not> IsBot r" and "c \<noteq> redirect_to canonical"
  shows "\<exists>res w' r'. retireLeaf (wired wk snap ss dfs pf be) s canonical commit w = (res, w') \<and>
    cw_view w' (sp_Page s) = [(r', redirect_to canonical), (r, c)] \<and> IsBot r'"
  using retire_branches [OF assms(1-3), of wk snap ss dfs pf be canonical commit] assms(4-7)
  by (auto simp: guarded_def)

text \<open>
  C21. Retiring a superseded leaf, when the page is missing or a bot revision of it is on record: the redirect
  is written exactly when the page is not that redirect already and no human revision is newer than the revision on
  record.  It is then a new bot revision on top of the history, which is put on record, and no
  other page changes; otherwise nothing changes, and the result says that the leaf was skipped.
\<close>

theorem retire_leaf_outcome:
  assumes "cw_ok w" and "cw_fresh w" and "sp_Page s \<noteq> []"
    and "cw_view w (sp_Page s) = [] \<or> last_bot w (sp_ID s) \<noteq> []"
  shows "\<exists>res w'. retireLeaf (wired wk snap ss dfs pf be) s canonical commit w = (res, w') \<and>
    (if map snd (take 1 (cw_view w (sp_Page s))) = [redirect_to canonical] \<or>
        humans_since (last_bot w (sp_ID s)) (map fst (cw_view w (sp_Page s))) \<noteq> []
     then sr_Status res = StatusSkipped \<and> cw_view w' = cw_view w \<and> last_bot w' = last_bot w
     else sr_Status res = StatusRendered \<and>
       (\<exists>r. IsBot r \<and> NewRevisionID res = rev_ID r \<and> last_bot w' (sp_ID s) = rev_ID r \<and>
          cw_view w' = (\<lambda>u. if normTitle u = normTitle (sp_Page s)
                            then (r, redirect_to canonical) # cw_view w (sp_Page s) else cw_view w u)))"
proof -
  have "cw_view w (sp_Page s) \<noteq> [] \<and> guarded w s \<longleftrightarrow>
      humans_since (last_bot w (sp_ID s)) (map fst (cw_view w (sp_Page s))) \<noteq> []"
    using assms(4) by (auto simp: guarded_def humans_since_def)
  with retire_branches [OF assms(1-3), of wk snap ss dfs pf be canonical commit] show ?thesis by simp
qed

text \<open>Pruning: a page whose current text bears no sign of the curator, and what happens to one page.\<close>

definition human_text :: "(revision \<times> gostring) list \<Rightarrow> bool" where
  "human_text h = (case h of [] \<Rightarrow> False | (r, c) # _ \<Rightarrow> \<not> looksCuratorOwned c)"

lemma orphan_view:
  assumes "cw_ok w" and "cw_view w u = H"
    and "normTitle u \<noteq> normTitle t \<or> human_text H"
    and "retireOrphan (wired wk snap ss dfs pf be) t parent rb w = (r, w')"
  shows "cw_view w' u = H"
proof -
  note get = deployed.get_page [OF assms(1), of t]
  let ?sm = "''mykb-curator: retire orphan '' @ right_arrow @ '' redirect to '' @ parent"
  obtain rv w1 where up: "UpsertPage curator_target t (redirect_to parent) ?sm w = (Inr rv, w1)"
    using upsert_ok by blast
  then have "\<forall>v. cw_view w1 v = (if normTitle v = normTitle t then (rv, redirect_to parent) # cw_view w t else cw_view w v)"
    using upsert_write [OF up] by (auto simp: cw_view_def mem_view_write)
  note up = up this
  show ?thesis
  proof (cases "normTitle u = normTitle t")
    case True
    with assms(2) have "cw_view w t = H" by (metis deployed.view_norm)
    with True assms get show ?thesis
      by (cases H) (auto simp del: curator_target_simps simp: retireOrphan_def human_text_def split: if_splits)
  next
    case False
    with assms get up show ?thesis
      by (cases "cw_view w t") (auto simp del: curator_target_simps simp: retireOrphan_def split: if_splits)
  qed
qed

lemma prune_view:
  "tracked titles n w \<Longrightarrow> cw_view w u = H \<Longrightarrow>
   normTitle u \<notin> normTitle ` (set ts - set owned) \<or> human_text H \<Longrightarrow>
   prune_each (wired wk snap ss dfs pf be) owned ts rb w = (r, w') \<Longrightarrow> \<not> exhausted n w' \<Longrightarrow> cw_view w' u = H"
proof (induction ts arbitrary: rb w)
  case (Cons t ts)
  obtain rb1 w1 where q: "retireOrphan (wired wk snap ss dfs pf be) t (SubpathParent t) rb w = (rb1, w1)" by fastforce
  have rest: "normTitle u \<notin> normTitle ` (set ts - set owned) \<or> human_text H"
    using Cons.prems(3) by auto
  show ?case
  proof (cases "t \<in> set owned \<or> SubpathParent t = []")
    case True
    with Cons.IH [OF Cons.prems(1,2) rest _ Cons.prems(5)] Cons.prems(4) show ?thesis by (auto split: if_splits)
  next
    case False
    with Cons.prems(4) q have r: "prune_each (wired wk snap ss dfs pf be) owned ts rb1 w1 = (r, w')" by simp
    have "\<not> exhausted n w"
      using keepsD [OF drawing.steps.keeps_prune_each Cons.prems(4)] Cons.prems(5) by auto
    with Cons.prems(1) have ok: "cw_ok w" by (simp add: tracked_def in_order_def)
    from False Cons.prems(3) have "normTitle u \<noteq> normTitle t \<or> human_text H" by auto
    from orphan_view [OF ok Cons.prems(2) this q]
    show ?thesis
      by (rule Cons.IH [OF keepsD [OF tracked_orphan q Cons.prems(1)] _ rest r Cons.prems(5)])
  qed
qed simp

lemma prune_manifest:
  "prune_each (wired wk snap ss dfs pf be) owned ts rb w = (r, w') \<Longrightarrow> cw_manifest w' = cw_manifest w"
proof (induction ts arbitrary: rb w)
  case (Cons t ts)
  obtain rb1 w1 where q: "retireOrphan (wired wk snap ss dfs pf be) t (SubpathParent t) rb w = (rb1, w1)" by fastforce
  have "cw_manifest w1 = cw_manifest w" using q
    by (auto simp: retireOrphan_def on_wiki_def split: prod.splits sum.splits option.splits if_splits)
  with Cons q show ?case by (auto split: if_splits)
qed simp

lemma saved_pages:
  assumes "man_Save curator_manifest owned w = (e, w')" and "unreadable (cw_manifest w) ''manifest.json'' = None"
  shows "set (prior_pages w') = set owned"
proof -
  have "cw_manifest w' = snd (manifest_Save None ''manifest.json'' owned (cw_manifest w))"
    using assms(1) by (auto simp: curator_manifest_def on_manifest_def split: prod.splits)
  with assms(2) show ?thesis by (simp add: prior_pages_eq manifest_Save_def write_ok)
qed

text \<open>
  C22. Pruning orphans is careful: it never changes a page whose current text bears no sign of the
  curator, nor a page that is not among those the previous run owned and this one does not, on
  whatever branch; afterwards the manifest holds the pages of this run.
\<close>

theorem orphan_prune_careful:
  assumes "tracked titles n w" and "prune = pruneOrphans (wired wk snap ss dfs pf be) owned docsOK rb w"
    and "draws (cw_wiki (snd prune)) \<le> n"
    and "normTitle u \<notin> normTitle ` (set (prior_pages w) - set owned) \<or> human_text (cw_view w u)"
  shows "cw_view (snd prune) u = cw_view w u \<and>
    (if docsOK \<and> owned \<noteq> [] \<and> \<not> isl (fst (man_Load curator_manifest w))
     then set (prior_pages (snd prune)) = set owned else snd prune = w)"
proof (cases "docsOK \<and> owned \<noteq> [] \<and> \<not> isl (fst (man_Load curator_manifest w))")
  case False
  with assms(2) load_pure [of w] show ?thesis
    by (cases "man_Load curator_manifest w"; cases "fst (man_Load curator_manifest w)")
      (auto simp: pruneOrphans_def)
next
  case True
  then obtain ts where ts: "man_Load curator_manifest w = (Inr ts, w)"
    using load_pure [of w] by (cases "man_Load curator_manifest w"; cases "fst (man_Load curator_manifest w)") auto
  obtain rb1 w1 where q: "prune_each (wired wk snap ss dfs pf be) owned ts rb w = (rb1, w1)" by fastforce
  have m: "unreadable (cw_manifest w1) ''manifest.json'' = None"
    using prune_manifest [OF q] ts by (auto simp: curator_manifest_def on_manifest_def manifest_Load_def split: option.splits)
  obtain e w2 where save: "man_Save curator_manifest owned w1 = (e, w2)" by fastforce
  have "snd prune = w2" using True ts q save assms(2) by (auto simp: pruneOrphans_def split: option.splits)
  moreover have w2: "cw_wiki w2 = cw_wiki w1" using manifest_save_wiki [of owned w1] save by simp
  moreover from calculation assms(3) have "\<not> exhausted n w1" by (simp add: exhausted_def)
  from prune_view [OF assms(1) refl _ q this, of u] assms(4) load_prior [OF ts]
  have "cw_view w1 u = cw_view w u" by simp
  moreover have "set (prior_pages w2) = set owned" by (rule saved_pages [OF save m])
  ultimately show ?thesis using True by (simp add: cw_view_def)
qed

section \<open>The properties at work\<close>

definition start_world :: curator_world where
  "start_world =
     \<lparr>cw_wiki = example_target, cw_state = Map.empty,
      cw_manifest = \<lparr>stored = Map.empty, unreadable = Map.empty\<rparr>, cw_time = 0\<rparr>"

definition front_page :: spec where
  "front_page = (plain_spec ''hub'' [])\<lparr>Hub := Some \<lparr>hub_Sections = [], Auto = False\<rparr>\<rparr>"

definition one_text :: backend where "one_text = \<lparr>be_Name = ''text'', be_Render = (\<lambda>doc. Inr ''Hello'')\<rparr>"

definition one_run :: "(run_report \<times> gomsg option) \<times> curator_world" where
  "one_run = Run (wired ''w'' (net_kb ''c1'' ''old'') [front_page] [] (\<lambda>p sn. Inl (errorf [] [])) one_text) start_world"

lemma front_page_simps [simp]:
  "sp_ID front_page = ''s''" "sp_Page front_page = ''P''" "sp_Kind front_page = ''hub''"
  "validateSpecForWiki front_page ''w'' = None" "Hub front_page = Some \<lparr>hub_Sections = [], Auto = False\<rparr>"
  by (simp_all add: front_page_def plain_spec_def validateSpecForWiki_def)

lemma start_ok: "cw_ok start_world" "cw_fresh start_world" "cw_view start_world t = []"
  using example_target_ok by (simp_all add: start_world_def cw_ok_def cw_fresh_def cw_view_def example_target_view)

lemma hub_registered: "For plain_frontends ''hub'' = Inr hub_frontend"
  by (simp add: plain_frontends_def For_def Register_def projection_frontend_def hub_frontend_def)

lemma front_page_push:
  "cw_state w ''s'' = None \<Longrightarrow>
   snd (run_spec (wired ''w'' (net_kb ''c1'' ''old'') ss dfs pf one_text) (net_kb ''c1'' ''old'')
      (Some [ApplyZoneMarkers]) Map.empty nm front_page w) =
   snd (reconcileAndPush (wired ''w'' (net_kb ''c1'' ''old'') ss dfs pf one_text) curator_target ''s'' ''P'' ''Hello'' ''c1'' w)"
  by (simp add: run_spec_def diffDrivenSkip_def processSpec_def hub_registered Let_def
      buildOrReuseIR_def hub_frontend_def hub_Build_def apply_pipeline_def ApplyZoneMarkers_def one_text_def
      notify_rendered_def net_kb_def split: prod.splits sum.splits)

definition ticked :: curator_world where "ticked = start_world\<lparr>cw_time := 1\<rparr>"

lemma ticked_ok: "cw_ok ticked" "cw_fresh ticked" "cw_view ticked t = []" "last_bot ticked i = []"
  "cw_wiki ticked = example_target" "cw_state ticked = Map.empty"
  using start_ok by (simp_all add: ticked_def start_world_def cw_ok_def cw_fresh_def cw_view_def last_bot_def)

lemma one_run_world:
  "\<exists>r m. mem_write (identity example_target) True ''P'' ''Hello'' ''mykb-curator: spec=s'' example_target = (r, m) \<and>
     cw_wiki (snd one_run) = m \<and> last_bot (snd one_run) ''s'' = rev_ID r"
proof -
  let ?snap = "net_kb ''c1'' ''old''"
  let ?d = "wired ''w'' ?snap [front_page] [] (\<lambda>p sn. Inl (errorf [] [])) one_text"
  have txt_eq: "push_text ticked ''s'' ''P'' ''Hello'' = ''Hello''" by (simp add: push_text_def ticked_ok)
  obtain r m1 where u: "UpsertPage curator_target ''P'' ''Hello'' ''mykb-curator: spec=s'' ticked = (Inr r, m1)"
    and p: "snd (reconcileAndPush ?d curator_target ''s'' ''P'' ''Hello'' ''c1'' ticked) = remember ''s'' (rev_ID r) ''c1'' m1"
    using push_write [OF ticked_ok(1), of "''P''" "''Hello''" "''s''" "''w''" ?snap "[front_page]" "[]"
        "\<lambda>p sn. Inl (errorf [] [])" one_text "''c1''"] by (auto simp: ticked_ok txt_eq simp del: curator_target_simps)
  let ?w1 = "remember ''s'' (rev_ID r) ''c1'' m1"
  define nm where "nm = buildNavMap [front_page] [] Map.empty"
  obtain res where q: "run_spec ?d ?snap (Some [ApplyZoneMarkers]) Map.empty nm front_page ticked = (res, ?w1)"
    using front_page_push [of ticked "[front_page]" "[]" "\<lambda>p sn. Inl (errorf [] [])" nm] p ticked_ok(6)
    by (metis prod.collapse)
  from upsert_write [OF u] obtain m where m: "mem_write (identity example_target) True ''P'' ''Hello''
      ''mykb-curator: spec=s'' example_target = (r, m)" "m1 = ticked\<lparr>cw_wiki := m\<rparr>" by (auto simp: ticked_ok)
  have t: "start_world\<lparr>cw_time := 1\<rparr> = ticked" "cw_time start_world = 0" by (simp_all add: ticked_def start_world_def)
  have man: "man_Load curator_manifest ?w1 = (Inr [], ?w1)"
    by (simp add: m(2) remember_def ticked_def start_world_def curator_manifest_def on_manifest_def manifest_Load_def)
  have "cw_wiki (snd one_run) = cw_wiki ?w1 \<and> cw_state (snd one_run) = cw_state ?w1"
    using manifest_save_wiki [of "ownedPages [front_page] []" ?w1]
    by (auto simp: one_run_def Run_def Let_def t run_pipelines_def pullDocSpecs_def buildSupersedeMap_def nm_def [symmetric] q
        runDocSpecs_def pruneOrphans_def man runMaintenance_def finish_report_def split: prod.splits option.splits)
  then have "cw_wiki (snd one_run) = m" "last_bot (snd one_run) ''s'' = rev_ID r"
    using m(2) by (simp_all add: last_bot_def remember_def)
  with m(1) show ?thesis by blast
qed

lemma norm_PQ: "normTitle ''Q'' \<noteq> normTitle ''P''"
  by (simp add: normTitle_def TrimSpace_def)

lemma start_prior: "prior_pages start_world = []"
  by (simp add: prior_pages_eq start_world_def)

theorem run_touches_owned_only_witness:
  "mem_view (cw_wiki (snd one_run)) ''Q'' = mem_view example_target ''Q'' \<and>
   length (mem_view (cw_wiki (snd one_run)) ''P'') = 1"
proof -
  have "normTitle ''Q'' \<notin> normTitle ` set (writable ''w'' [front_page] [] start_world)"
    using norm_PQ by (simp add: writable_def start_prior)
  from run_touches_owned_only [OF this] have "mem_view (cw_wiki (snd one_run)) ''Q'' = mem_view example_target ''Q''"
    by (simp add: one_run_def start_world_def)
  moreover obtain r m where "mem_write (identity example_target) True ''P'' ''Hello'' ''mykb-curator: spec=s'' example_target = (r, m)"
    "cw_wiki (snd one_run) = m" using one_run_world by blast
  ultimately show ?thesis using mem_view_write [of _ True "''P''"] by (simp add: example_target_view)
qed

text \<open>The bot writes the page, then a human does.\<close>

definition edited_world :: curator_world where
  "edited_world =
     (snd one_run)\<lparr>cw_wiki := SimulateHumanEdit ''P'' ''User:Ann'' ''Hi'' ''typo'' (cw_wiki (snd one_run))\<rparr>"

lemma start_tracked: "tracked (\<lambda>i. ''P'') 2 start_world"
proof -
  have "inj_on counting_entropy {..<2}" by (auto simp: inj_on_def counting_entropy_def numeral_2_eq_2 less_Suc_eq upt_rec)
  then show ?thesis using start_ok
    by (simp add: tracked_def in_order_def last_bot_def start_world_def example_target_def New_def)
qed

lemma edited_reachable: "(curator_step (\<lambda>i. ''P''))\<^sup>*\<^sup>* start_world edited_world"
proof -
  have "curator_step (\<lambda>i. ''P'') start_world (snd one_run)"
    by (rule Run_step [of _ "''w''" "[front_page]" "[]"]) (auto simp: consistent_def one_run_def intro: prod.collapse [symmetric])
  moreover have "curator_step (\<lambda>i. ''P'') (snd one_run) edited_world" unfolding edited_world_def by (rule Edit_step)
  ultimately show ?thesis by (meson rtranclp.rtrancl_refl rtranclp.rtrancl_into_rtrancl)
qed

lemma edited_facts: "draws (cw_wiki edited_world) \<le> 2" "last_bot edited_world ''s'' \<noteq> []"
proof -
  obtain r m where m: "mem_write (identity example_target) True ''P'' ''Hello'' ''mykb-curator: spec=s'' example_target = (r, m)"
    "cw_wiki (snd one_run) = m" "last_bot (snd one_run) ''s'' = rev_ID r" using one_run_world by blast
  have "draws m = 1" using mem_write_draws [OF m(1)] by (simp add: example_target_def New_def)
  then show "draws (cw_wiki edited_world) \<le> 2"
    using m(2) mem_write_draws [OF prod.collapse [symmetric], of "''User:Ann''" False "''P''" "''Hi''" "''typo''" m]
    by (simp add: edited_world_def SimulateHumanEdit_def)
  have "rev_ID r = newRevID example_target" using m(1) by (auto simp: mem_write_def Let_def)
  then have "rev_ID r \<noteq> []" by (simp add: newRevID_def hex_encode_Nil example_target_def New_def counting_entropy_def)
  with m(3) show "last_bot edited_world ''s'' \<noteq> []" by (simp add: edited_world_def last_bot_def)
qed

theorem recorded_revision_is_bots_witness:
  "last_bot edited_world ''s'' \<noteq> [] \<and> bot_revision edited_world ''P'' (last_bot edited_world ''s'')"
  using recorded_revision_is_bots [OF start_tracked edited_reachable edited_facts] edited_facts(2) by simp

theorem pushes_report_human_edits_witness:
  "\<exists>newer r c older pr w'.
     cw_view edited_world ''P'' = newer @ (r, c) # older \<and> rev_ID r = last_bot edited_world ''s'' \<and>
     reconcileAndPush (wired ''w'' (net_kb ''c2'' ''new'') [front_page] [] (\<lambda>p sn. Inl (errorf [] [])) one_text)
       curator_target ''s'' ''P'' ''Hello'' ''c2'' edited_world = (Inr pr, w') \<and>
     (if NoOp pr then cw_view w' = cw_view edited_world
      else pu_HumanEdits pr = convertHumanEdits (map detection (filter (\<lambda>r. \<not> IsBot r) (map fst newer))))"
  using pushes_report_human_edits [OF start_tracked edited_reachable edited_facts, of "''w''"
      "net_kb ''c2'' ''new''" "[front_page]" "[]" "\<lambda>p sn. Inl (errorf [] [])" one_text "''Hello''" "''c2''"]
  by blast

theorem edited_spec_ignored_witness:
  "\<exists>pr w'. reconcileAndPush (wired ''w'' (net_kb ''c1'' ''old'') [front_page] [] (\<lambda>p sn. Inl (errorf [] [])) one_text)
       curator_target ''s'' ''P'' ''Hello'' ''c1'' start_world = (Inr pr, w') \<and>
     run_spec (wired ''w'' (net_kb ''c1'' ''old'') [front_page] [] (\<lambda>p sn. Inl (errorf [] [])) one_text)
       (net_kb ''c1'' ''old'') None Map.empty (\<lambda>t. []) (plain_spec ''projection'' [''db'']) w' =
     (spec_result_of ''s'' StatusSkipped (errorf ''kb unchanged since last run (commit %s)'' [''c1'']), w')"
proof -
  let ?d = "wired ''w'' (net_kb ''c1'' ''old'') [front_page] [] (\<lambda>p sn. Inl (errorf [] [])) one_text"
  let ?s = "plain_spec ''projection'' [''db'']"
  have c: "Commit (net_kb ''c1'' ''old'') = ''c1''" by (simp add: net_kb_def)
  have "Action (decide (cw_view start_world ''P'') ''Hello'' (last_bot start_world ''s'')) \<noteq> ActionNoOp"
    by (simp add: start_ok)
  from push_write [OF start_ok(1) this] obtain pr w' where
    p: "reconcileAndPush ?d curator_target ''s'' ''P'' ''Hello'' ''c1'' start_world = (Inr pr, w')" by blast
  have "run_spec ?d (net_kb ''c1'' ''old'') None Map.empty (\<lambda>t. []) ?s w' =
    (spec_result_of (sp_ID front_page) StatusSkipped
       (errorf ''kb unchanged since last run (commit %s)'' [Commit (net_kb ''c1'' ''old'')]), w')"
    by (rule edited_spec_ignored [where s = front_page and w = start_world])
      (use p c start_ok(1) in \<open>auto simp: plain_spec_def validateSpecForWiki_def\<close>)
  with p c show ?thesis by auto
qed

lemma edited_history:
  "cw_ok edited_world" "cw_fresh edited_world"
  "\<exists>h. humans_since (last_bot edited_world ''s'') (map fst (cw_view edited_world ''P'')) = [h] \<and> User h = ''User:Ann'' \<and>
     map snd (take 1 (cw_view edited_world ''P'')) = [''Hi'']"
proof -
  obtain r m where m: "mem_write (identity example_target) True ''P'' ''Hello'' ''mykb-curator: spec=s'' example_target = (r, m)"
    "cw_wiki (snd one_run) = m" "last_bot (snd one_run) ''s'' = rev_ID r" using one_run_world by blast
  have bot: "last_bot edited_world ''s'' = rev_ID r" using m(3) by (simp add: edited_world_def last_bot_def)
  have "inj_on counting_entropy {..<3}"
    by (auto simp: inj_on_def counting_entropy_def numeral_3_eq_3 less_Suc_eq upt_rec)
  then have "tracked (\<lambda>i. ''P'') 3 start_world"
    using start_ok by (simp add: tracked_def in_order_def last_bot_def start_world_def example_target_def New_def)
  from tracked_reachable [OF edited_reachable this] edited_facts(1) have order: "in_order (\<lambda>i. ''P'') 3 edited_world"
    by (auto simp: tracked_def exhausted_def)
  from in_order_fresh [OF this] edited_facts(1) show "cw_fresh edited_world" by simp
  from order show "cw_ok edited_world" by (simp add: in_order_def)
  obtain h m2 where w: "mem_write ''User:Ann'' False ''P'' ''Hi'' ''typo'' m = (h, m2)" by fastforce
  then have h: "\<not> IsBot h" "User h = ''User:Ann''" "rev_ID h = newRevID m" by (auto simp: mem_write_def Let_def)
  have view: "cw_view edited_world ''P'' = (h, ''Hi'') # mem_view m ''P''"
    using mem_view_write [OF w] w m(2) by (simp add: edited_world_def SimulateHumanEdit_def cw_view_def)
  have mP: "mem_view m ''P'' = [(r, ''Hello'')]" using mem_view_write [OF m(1)] by (simp add: example_target_view)
  have id: "rev_ID r = newRevID example_target" "draws m = 1" "entropy m = counting_entropy"
    using m(1) by (auto simp: mem_write_def Let_def example_target_def New_def)
  have "counting_entropy 1 \<noteq> counting_entropy 0" "length (counting_entropy 1) = length (counting_entropy 0)"
    by (simp_all add: counting_entropy_def upt_rec)
  then have "hex_encode (counting_entropy 1) \<noteq> hex_encode (counting_entropy 0)" using hex_encode_inject by blast
  with id h(3) have "rev_ID h \<noteq> rev_ID r" by (simp add: newRevID_def example_target_def New_def)
  with h view mP bot show "\<exists>h. humans_since (last_bot edited_world ''s'') (map fst (cw_view edited_world ''P'')) = [h] \<and>
      User h = ''User:Ann'' \<and> map snd (take 1 (cw_view edited_world ''P'')) = [''Hi'']"
    by (simp add: humans_since_def)
qed

text \<open>The page that Ann edited is left alone.\<close>

theorem retire_leaf_outcome_witness:
  "\<exists>res w'. retireLeaf (wired ''w'' (net_kb ''c1'' ''old'') [front_page] [] (\<lambda>p sn. Inl (errorf [] [])) one_text)
       front_page ''Main'' ''c1'' edited_world = (res, w') \<and>
     sr_Status res = StatusSkipped \<and> cw_view w' = cw_view edited_world"
  using retire_leaf_outcome [OF edited_history(1,2), of front_page "''w''" "net_kb ''c1'' ''old''" "[front_page]" "[]"
      "\<lambda>p sn. Inl (errorf [] [])" one_text "''Main''" "''c1''"] edited_facts(2) edited_history(3)
  by (force split: if_splits)

theorem orphan_prune_careful_witness:
  "\<exists>prune. prune = pruneOrphans (wired ''w'' (net_kb ''c1'' ''old'') [front_page] [] (\<lambda>p sn. Inl (errorf [] [])) one_text)
       [''P''] True (NewBuilder ''w'' ''r'' 0) start_world \<and>
     cw_view (snd prune) ''Q'' = [] \<and> set (prior_pages (snd prune)) = {''P''}"
proof -
  let ?prune = "pruneOrphans (wired ''w'' (net_kb ''c1'' ''old'') [front_page] [] (\<lambda>p sn. Inl (errorf [] [])) one_text)
       [''P''] True (NewBuilder ''w'' ''r'' 0) start_world"
  have load: "man_Load curator_manifest start_world = (Inr [], start_world)"
    by (simp add: start_world_def curator_manifest_def on_manifest_def manifest_Load_def)
  have start_draws: "draws (cw_wiki start_world) = 0" by (simp add: start_world_def example_target_def New_def)
  then have "draws (cw_wiki (snd ?prune)) = 0"
    using manifest_save_wiki [of "[''P'']" start_world] start_draws
    by (auto simp: pruneOrphans_def load split: prod.splits option.splits)
  then show ?thesis
    using orphan_prune_careful [OF start_tracked refl, of "''w''" "net_kb ''c1'' ''old''" "[front_page]" "[]"
        "\<lambda>p sn. Inl (errorf [] [])" one_text "[''P'']" True "NewBuilder ''w'' ''r'' 0" "''Q''"] load
    by (simp add: start_prior start_ok)
qed

end
