(* ===== verification/Backends.thy ===== *)
theory Backends
  imports IR Go_Regexp
begin

text \<open>
  The two backends: GitHub markdown (backends/markdown/markdown.go) and wikitext
  (backends/mediawiki/mediawiki.go).  Each writer of the code, which appends to a buffer, is the
  text it appends.  The default branch of the type switches is unreachable, \<open>block\<close> being the
  ten block types of the program.
\<close>

section \<open>Shared by both backends\<close>

text \<open>\<open>writeMarkerBlock\<close>, which both packages have in the same form.\<close>

definition writeMarkerBlock :: "marker_position \<Rightarrow> gostring \<Rightarrow> gostring \<Rightarrow> provenance \<Rightarrow> gostring" where
  "writeMarkerBlock pos bid ofZone prov =
     (case pos of
        MarkerBegin \<Rightarrow>
          ''<!-- CURATOR:BEGIN block='' @ bid @ '' zone='' @ (if ofZone = [] then ''machine'' else ofZone) @
          '' provenance='' @ InputHash prov @ '' -->'' @ [NL]
      | MarkerEnd \<Rightarrow> ''<!-- CURATOR:END block='' @ bid @ '' -->'' @ [NL])"

definition padRow :: "gostring list \<Rightarrow> nat \<Rightarrow> gostring list" where
  "padRow row n = (if length row > n then take n row else row @ replicate (n - length row) [])"

definition trim_lines :: "gostring \<Rightarrow> gostring" where
  "trim_lines s = TrimRight s [NL]"

definition nonblank :: "gostring list \<Rightarrow> gostring list" where
  "nonblank names = filter (\<lambda>n. n \<noteq> []) (map TrimSpace names)"

section \<open>Markdown\<close>

definition md_frontmatter :: "frontmatter \<Rightarrow> gostring" where
  "md_frontmatter f =
     ''---'' @ [NL] @
     (if Title f \<noteq> [] then ''title: '' @ Title f @ [NL] else []) @
     (if SpecHash f \<noteq> [] then ''spec_hash: '' @ SpecHash f @ [NL] else []) @
     (if KBCommit f \<noteq> [] then ''kb_commit: '' @ KBCommit f @ [NL] else []) @
     (if GeneratedAt f \<noteq> zero_time then ''generated_at: '' @ format_utc (GeneratedAt f) @ [NL] else []) @
     ''---'' @ [NL]"

definition md_index :: "index_entry list \<Rightarrow> gostring" where
  "md_index es =
     concat (map (\<lambda>e.
       (let label = (if ie_Label e = [] then ie_Page e else ie_Label e) in
        if ie_Desc e \<noteq> []
        then ''- ['' @ label @ '']('' @ ie_Page e @ '') '' @ em_dash @ '' '' @ ie_Desc e @ [NL]
        else ''- ['' @ label @ '']('' @ ie_Page e @ '')'' @ [NL])) es) @ [NL]"

definition md_table :: "gostring list \<Rightarrow> gostring list list \<Rightarrow> gostring" where
  "md_table cols rows =
     (if cols = [] then []
      else ''| '' @ Join '' | '' cols @ '' |'' @ [NL] @
           ''|'' @ concat (map (\<lambda>_. '' --- |'') cols) @ [NL] @
           concat (map (\<lambda>row. ''| '' @ Join '' | '' (padRow row (length cols)) @ '' |'' @ [NL]) rows))"

definition md_categories :: "gostring list \<Rightarrow> gostring" where
  "md_categories names =
     (if nonblank names = [] then []
      else ''_Categories: '' @ Join '', '' (nonblank names) @ ''_'' @ [NL])"

definition ticks :: gostring where "ticks = [BACKQUOTE, BACKQUOTE, BACKQUOTE]"

definition md_diagram :: "gostring \<Rightarrow> gostring \<Rightarrow> gostring \<Rightarrow> gostring" where
  "md_diagram lang src asset =
     (if asset \<noteq> [] then ''![]('' @ asset @ '')'' @ [NL]
      else ticks @ lang @ [NL] @ trim_lines src @ [NL] @ ticks @ [NL])"

definition md_callout :: "gostring \<Rightarrow> gostring \<Rightarrow> gostring" where
  "md_callout severity body =
     (if severity \<noteq> [] then ''> **'' @ severity @ ''**'' @ [NL] @ ''>'' @ [NL] else []) @
     concat (map (\<lambda>line. ''> '' @ line @ [NL]) (Split NL (trim_lines body)))"

fun md_block :: "block \<Rightarrow> gostring" where
  "md_block (ProseBlock t _) = trim_lines t @ [NL]"
| "md_block (MachineBlock _ _ body _) = trim_lines body @ [NL]"
| "md_block (MarkerBlock pos bid prov ofZone) = writeMarkerBlock pos bid ofZone prov"
| "md_block (KBRefBlock area ident _ _) = ''[kb:'' @ area @ ''/'' @ ident @ '']'' @ [NL]"
| "md_block (TableBlock cols rows _) = md_table cols rows"
| "md_block (IndexBlock es _) = md_index es"
| "md_block (CategoryBlock names _) = md_categories names"
| "md_block (DiagramBlock lang src asset _) = md_diagram lang src asset"
| "md_block (Callout severity body _ _) = md_callout severity body"
| "md_block (EscapeHatch bk raw _) = (if bk \<noteq> ''markdown'' then [] else trim_lines raw @ [NL])"

definition md_heading :: "gostring \<Rightarrow> gostring" where
  "md_heading h = (if h \<noteq> [] then ''## '' @ h @ [NL, NL] else [])"

definition md_section :: "ir_section \<Rightarrow> gostring" where
  "md_section s = md_heading (Heading s) @ concat (map (\<lambda>b. md_block b @ [NL]) (Blocks s))"

definition md_footer :: "footer \<Rightarrow> gostring" where
  "md_footer f =
     (if RunID f = [] \<and> ft_KBCommit f = [] \<and> LastCurated f = zero_time then []
      else [NL] @ ''<!-- mykb-curator footer'' @ [NL] @
           (if RunID f \<noteq> [] then ''  run-id: '' @ RunID f @ [NL] else []) @
           (if ft_KBCommit f \<noteq> [] then ''  kb-commit: '' @ ft_KBCommit f @ [NL] else []) @
           (if LastCurated f \<noteq> zero_time then ''  last-curated: '' @ format_utc (LastCurated f) @ [NL] else []) @
           ''-->'' @ [NL])"

definition md_front :: "frontmatter \<Rightarrow> gostring" where
  "md_front f =
     md_frontmatter f @ [NL] @ (if Title f \<noteq> [] then ''# '' @ Title f @ [NL, NL] else [])"

definition md_Render :: "ir_document \<Rightarrow> gostring" where
  "md_Render doc = md_front (Frontmatter doc) @ concat (map md_section (Sections doc)) @ md_footer (Footer doc)"

section \<open>Wikitext\<close>

definition mw_provenance :: "frontmatter \<Rightarrow> gostring" where
  "mw_provenance f =
     ''<!-- '' @ Join '' ''
       ([''mykb-curator''] @
        (if SpecHash f \<noteq> [] then [''spec_hash='' @ SpecHash f] else []) @
        (if KBCommit f \<noteq> [] then [''kb_commit='' @ KBCommit f] else []) @
        (if GeneratedAt f \<noteq> zero_time then [''generated_at='' @ format_utc (GeneratedAt f)] else [])) @
     '' -->'' @ [NL, NL]"

subsection \<open>Prose\<close>

text \<open>
  The patterns of the package; \<open>.\<close> is any byte but a newline, and \<open>$\<close> holds at the end of the
  text, where the greedy \<open>(.*)\<close> has to stop: the argument has been trimmed and has no newline.
\<close>

definition not_in :: "gostring \<Rightarrow> char \<Rightarrow> bool" where "not_in cs c = (c \<notin> set cs)"

definition reMDCode :: re where
  "reMDCode = Seqs [Lit [BACKQUOTE], Group 1 (LazyPlus (Cls (not_in [BACKQUOTE]))), Lit [BACKQUOTE]]"

definition reMDLink :: re where
  "reMDLink =
     Seqs [Lit ''['', Group 1 (Plus (Cls (not_in '']''))), Lit '']('',
           Group 2 (Plus (Cls (\<lambda>c. c \<noteq> CHR '')'' \<and> \<not> re_space c))), Lit '')'']"

definition reMDBold :: re where
  "reMDBold =
     Seqs [Alt (Lit ''**'') (Lit ''__''), Group 1 (LazyPlus (Cls (not_in ''*_''))), Alt (Lit ''**'') (Lit ''__'')]"

definition reMDItalic :: re where
  "reMDItalic =
     Seqs [Alt (Lit ''*'') (Lit ''_''), Group 1 (LazyPlus (Cls (not_in ''*_''))), Alt (Lit ''*'') (Lit ''_'')]"

text \<open>The placeholder of the \<open>i\<close>-th code span, and the text with its code spans replaced by them.\<close>

definition code_mark :: "nat \<Rightarrow> gostring" where
  "code_mark i = [NUL] @ ''C'' @ nat_dec i @ [NUL]"

function protect_code :: "nat \<Rightarrow> char option \<Rightarrow> gostring \<Rightarrow> gostring \<times> gostring list" where
  "protect_code i p s =
     (case find_from reMDCode p s of
        None \<Rightarrow> (s, [])
      | Some (k, c, t) \<Rightarrow>
          if length t < length s
          then (case protect_code (Suc i) (before p s t) t of
                  (rest, spans) \<Rightarrow> (take k s @ code_mark i @ rest, group_text c 1 # spans))
          else (s, []))"
  by pat_completeness auto
termination
  by (relation "measure (\<lambda>(i, p, s). length s)") auto

declare protect_code.simps [simp del]

definition mdInline :: "gostring \<Rightarrow> gostring" where
  "mdInline s =
     (case protect_code 0 None s of
        (s, spans) \<Rightarrow>
          (let s = replace_all_func reMDLink (\<lambda>c. ''['' @ group_text c 2 @ '' '' @ group_text c 1 @ '']'') s;
               s = replace_all_func reMDBold (\<lambda>c. replicate 3 APOS @ group_text c 1 @ replicate 3 APOS) s;
               s = replace_all_func reMDItalic (\<lambda>c. replicate 2 APOS @ group_text c 1 @ replicate 2 APOS) s
           in fold (\<lambda>(i, inner) s. ReplaceAll s (code_mark i) (''<code>'' @ inner @ ''</code>''))
                (List.enumerate 0 spans) s))"

text \<open>
  \<open>bulletItem\<close> and \<open>numberedItem\<close>.  The greedy \<open>\s+\<close> leaves to \<open>(.*)\<close> the text after the
  spaces, as the argument is one trimmed line.
\<close>

definition bulletItem :: "gostring \<Rightarrow> gostring option" where
  "bulletItem s =
     (case s of
        c # r \<Rightarrow>
          if c \<in> set ''-*+'' \<and> r \<noteq> [] \<and> re_space (hd r) then Some (dropWhile re_space r) else None
      | [] \<Rightarrow> None)"

definition numberedItem :: "gostring \<Rightarrow> gostring option" where
  "numberedItem s =
     (let r = dropWhile digit_char s in
      if takeWhile digit_char s \<noteq> [] \<and> r \<noteq> [] \<and> hd r \<in> set ''.)'' \<and> tl r \<noteq> [] \<and> re_space (hd (tl r))
      then Some (dropWhile re_space (tl r)) else None)"

record para_state =
  ps_out :: gostring
  ps_para :: "gostring list"
  ps_inList :: bool

definition flushPara :: "para_state \<Rightarrow> para_state" where
  "flushPara st =
     (if ps_para st = [] then st
      else
        (let joined = mdInline (Join '' '' (ps_para st)); st = st\<lparr>ps_para := []\<rparr> in
         if joined = [] then st
         else st\<lparr>ps_out := ps_out st @ (if hd joined \<in> set ''#*:;=|!'' then ''<nowiki/>'' else []) @
                          joined @ [NL, NL]\<rparr>))"

definition endList :: "para_state \<Rightarrow> para_state" where
  "endList st = (if ps_inList st then st\<lparr>ps_out := ps_out st @ [NL], ps_inList := False\<rparr> else st)"

definition para_line :: "gostring \<Rightarrow> para_state \<Rightarrow> para_state" where
  "para_line ln st =
     (let trimmed = TrimSpace ln in
      if trimmed = [] then endList (flushPara st)
      else (case bulletItem trimmed of
              Some item \<Rightarrow>
                (let st = (flushPara st)\<lparr>ps_inList := True\<rparr> in
                 st\<lparr>ps_out := ps_out st @ ''* '' @ mdInline item @ [NL]\<rparr>)
            | None \<Rightarrow>
                (case numberedItem trimmed of
                   Some item \<Rightarrow>
                     (let st = (flushPara st)\<lparr>ps_inList := True\<rparr> in
                      st\<lparr>ps_out := ps_out st @ ''# '' @ mdInline item @ [NL]\<rparr>)
                 | None \<Rightarrow> (let st = endList st in st\<lparr>ps_para := ps_para st @ [trimmed]\<rparr>))))"

definition writeParagraph :: "gostring \<Rightarrow> gostring" where
  "writeParagraph s =
     ps_out (endList (flushPara
       (fold para_line (Split NL (ReplaceAll s [CR, NL] [NL]))
          \<lparr>ps_out = [], ps_para = [], ps_inList = False\<rparr>)))"

subsection \<open>The other blocks\<close>

definition mw_index :: "index_entry list \<Rightarrow> gostring" where
  "mw_index es =
     concat (map (\<lambda>e.
       (let link = (if ie_Label e \<noteq> [] \<and> ie_Label e \<noteq> ie_Page e
                    then ''[['' @ ie_Page e @ ''|'' @ ie_Label e @ '']]'' else ''[['' @ ie_Page e @ '']]'') in
        if ie_Desc e \<noteq> [] then ''* '' @ link @ '' '' @ em_dash @ '' '' @ ie_Desc e @ [NL]
        else ''* '' @ link @ [NL])) es) @ [NL]"

definition mw_table :: "gostring list \<Rightarrow> gostring list list \<Rightarrow> gostring" where
  "mw_table cols rows =
     (if cols = [] then []
      else ''{| class='' @ [QUOT] @ ''wikitable'' @ [QUOT, NL] @
           ''! '' @ Join '' !! '' cols @ [NL] @
           concat (map (\<lambda>row. ''|-'' @ [NL] @ ''| '' @ Join '' || '' (padRow row (length cols)) @ [NL]) rows) @
           ''|}'' @ [NL, NL])"

definition mw_categories :: "gostring list \<Rightarrow> gostring" where
  "mw_categories names = concat (map (\<lambda>n. ''[[Category:'' @ n @ '']]'' @ [NL]) (nonblank names)) @ [NL]"

text \<open>\<open>strings.NewReplacer\<close> with the three one-byte patterns.\<close>

definition escape_html :: "gostring \<Rightarrow> gostring" where
  "escape_html s =
     concat (map (\<lambda>c. if c = CHR ''&'' then ''&amp;'' else if c = CHR ''<'' then ''&lt;''
                      else if c = CHR ''>'' then ''&gt;'' else [c]) s)"

definition mw_diagram :: "gostring \<Rightarrow> gostring \<Rightarrow> gostring" where
  "mw_diagram src asset =
     (if asset \<noteq> [] then ''[[File:'' @ TrimPrefix asset ''File:'' @ '']]'' @ [NL, NL]
      else ''<pre>'' @ [NL] @ escape_html (trim_lines src) @ [NL] @ ''</pre>'' @ [NL, NL])"

text \<open>
  \<open>strings.ToUpper(s[:1])\<close>: a byte that is not ASCII is not valid UTF-8 by itself and becomes the
  three bytes of U+FFFD.
\<close>

definition upper_first :: "char \<Rightarrow> gostring" where
  "upper_first c =
     (if lower_char c then [char_of (of_char c - 32 :: nat)]
      else if of_char c < (128 :: nat) then [c] else [CHR 0xEF, CHR 0xBF, CHR 0xBD])"

definition mw_callout :: "gostring \<Rightarrow> gostring \<Rightarrow> gostring" where
  "mw_callout severity body =
     ''<blockquote>'' @ [NL] @
     (case severity of
        [] \<Rightarrow> []
      | c # r \<Rightarrow> replicate 3 APOS @ upper_first c @ r @ '':'' @ replicate 3 APOS @ '' '') @
     TrimSpace (replace_byte NL '' '' body) @ [NL] @ ''</blockquote>'' @ [NL, NL]"

fun mw_block :: "block \<Rightarrow> gostring" where
  "mw_block (ProseBlock t _) = writeParagraph t"
| "mw_block (MachineBlock _ _ body _) = trim_lines body @ [NL, NL]"
| "mw_block (MarkerBlock pos bid prov ofZone) = writeMarkerBlock pos bid ofZone prov"
| "mw_block (KBRefBlock area ident _ _) = ''[kb:'' @ area @ ''/'' @ ident @ '']'' @ [NL, NL]"
| "mw_block (TableBlock cols rows _) = mw_table cols rows"
| "mw_block (IndexBlock es _) = mw_index es"
| "mw_block (CategoryBlock names _) = mw_categories names"
| "mw_block (DiagramBlock _ src asset _) = mw_diagram src asset"
| "mw_block (Callout severity body _ _) = mw_callout severity body"
| "mw_block (EscapeHatch bk raw _) = (if bk = ''mediawiki'' then trim_lines raw @ [NL, NL] else [])"

definition mw_heading :: "gostring \<Rightarrow> gostring" where
  "mw_heading h = (if h \<noteq> [] then ''== '' @ h @ '' =='' @ [NL, NL] else [])"

definition mw_section :: "ir_section \<Rightarrow> gostring" where
  "mw_section s = mw_heading (Heading s) @ concat (map mw_block (Blocks s))"

definition mw_footer :: "footer \<Rightarrow> gostring" where
  "mw_footer f =
     (if RunID f = [] \<and> ft_KBCommit f = [] \<and> LastCurated f = zero_time then []
      else ''<!-- '' @ Join '' ''
             ([''mykb-curator'', ''footer''] @
              (if RunID f \<noteq> [] then [''run-id='' @ RunID f] else []) @
              (if ft_KBCommit f \<noteq> [] then [''kb-commit='' @ ft_KBCommit f] else []) @
              (if LastCurated f \<noteq> zero_time then [''last-curated='' @ format_utc (LastCurated f)] else [])) @
           '' -->'' @ [NL])"

definition mw_Render :: "ir_document \<Rightarrow> gostring" where
  "mw_Render doc =
     mw_provenance (Frontmatter doc) @ concat (map mw_section (Sections doc)) @ mw_footer (Footer doc)"

end
