(* ===== verification/RenderParse.thy ===== *)
theory RenderParse
  imports Backends ZoneMarkers Reconciler Frontends
begin

text \<open>
  What a backend writes is what the wiki parser reads: the marked blocks of a rendered page are
  found again with their ids, zones, hashes and texts.  The locale \<open>marked_backend\<close> states what both
  backends share, and both interpret it.
\<close>

section \<open>Pages as free text and marked blocks\<close>

text \<open>\<open>Inl\<close> is free text, \<open>Inr\<close> a marked block, whose following text is that of the list.\<close>

type_synonym page_items = "(gostring + wiki_block) list"

fun texts_until :: "page_items \<Rightarrow> gostring" where
  "texts_until (Inl t # is) = t @ texts_until is"
| "texts_until _ = []"

fun regions :: "page_items \<Rightarrow> wiki_block list" where
  "regions [] = []"
| "regions (Inl t # is) = regions is"
| "regions (Inr b # is) = b\<lparr>FollowingText := texts_until is\<rparr> # regions is"

definition region_text :: "wiki_block \<Rightarrow> gostring" where
  "region_text b = begin_text b @ [NL] @ Body b @ [NL] @ end_text b"

fun item_text :: "gostring + wiki_block \<Rightarrow> gostring" where
  "item_text (Inl t) = t"
| "item_text (Inr b) = region_text b"

definition assemble :: "page_items \<Rightarrow> parsed_doc" where
  "assemble is =
     (let bs = regions is in
      if bs = [] then \<lparr>Prologue = texts_until is, pd_Blocks = [], Epilogue = []\<rparr>
      else \<lparr>Prologue = texts_until is, pd_Blocks = butlast bs @ [(last bs)\<lparr>FollowingText := []\<rparr>],
            Epilogue = FollowingText (last bs)\<rparr>)"

lemma wb_text_region: "wb_text b = region_text b @ FollowingText b"
  by (simp add: wb_text_def region_text_def)

lemma region_text_following [simp]: "region_text (b\<lparr>FollowingText := t\<rparr>) = region_text b"
  by (simp add: region_text_def begin_text_def end_text_def attrs_of_def)

lemma items_text: "texts_until is @ concat (map wb_text (regions is)) = concat (map item_text is)"
  by (induction "is" rule: regions.induct) (simp_all add: wb_text_region)

lemma page_text_assemble: "page_text (assemble is) = concat (map item_text is)"
proof (cases "regions is" rule: rev_cases)
  case Nil
  with items_text [of "is"] show ?thesis by (simp add: assemble_def page_text_def)
next
  case (snoc bs b)
  with items_text [of "is"] show ?thesis by (simp add: assemble_def page_text_def wb_text_region)
qed

text \<open>Free text that keeps clear of markers, line by line.\<close>

lemma no_begin_Nil: "no_begin []"
  by (simp add: no_begin_def)

definition ok_text :: "gostring \<Rightarrow> bool" where
  "ok_text t = (no_begin t \<and> (t = [] \<or> last t = NL))"

definition ok_region :: "wiki_block \<Rightarrow> bool" where
  "ok_region b = clean_block (b\<lparr>FollowingText := []\<rparr>)"

fun ok_item :: "gostring + wiki_block \<Rightarrow> bool" where
  "ok_item (Inl t) = ok_text t"
| "ok_item (Inr b) = ok_region b"

lemma no_begin_join:
  assumes "no_begin a" and "no_begin b" and "a = [] \<or> last a = NL"
  shows "no_begin (a @ b)"
proof (rule ccontr)
  assume "\<not> no_begin (a @ b)"
  then obtain x y where e: "a @ b = x @ ''CURATOR:BEGIN'' @ y" by (auto simp: no_begin_def Contains_iff)
  consider (left) u where "a = x @ ''CURATOR:BEGIN'' @ u" | (right) u where "b = u @ ''CURATOR:BEGIN'' @ y"
    | (across) p q where "p \<noteq> []" "q \<noteq> []" "''CURATOR:BEGIN'' = p @ q" "a = x @ p"
  proof -
    from e have "(\<exists>u. a = x @ u \<and> u @ b = ''CURATOR:BEGIN'' @ y) \<or> (\<exists>u. a @ u = x \<and> b = u @ ''CURATOR:BEGIN'' @ y)"
      by (auto simp: append_eq_append_conv2)
    then show thesis
    proof (elim disjE exE conjE)
      fix u assume u: "a = x @ u" "u @ b = ''CURATOR:BEGIN'' @ y"
      from u(2) consider v where "u = ''CURATOR:BEGIN'' @ v" | v where "u @ v = ''CURATOR:BEGIN''" "b = v @ y"
        unfolding append_eq_append_conv2 by metis
      then show thesis
      proof cases
        case 1
        with u that(1) show ?thesis by auto
      next
        case (2 v)
        show ?thesis
        proof (cases "u = [] \<or> v = []")
          case True
          with 2 u that(1) [of "[]"] that(2) [of "[]"] show ?thesis by auto
        next
          case False
          with 2 u show ?thesis by (metis that(3))
        qed
      qed
    next
      fix u assume "a @ u = x" "b = u @ ''CURATOR:BEGIN'' @ y"
      then show thesis by (rule_tac that(2))
    qed
  qed
  then show False
  proof cases
    case across
    then have "last a = last p" "a \<noteq> []" by auto
    with assms(3) have "last p = NL" by simp
    with across(1) have "NL \<in> set p" using last_in_set by metis
    with across(3) have "NL \<in> set ''CURATOR:BEGIN''" by (metis Un_iff set_append)
    then show False by simp
  qed (use assms(1,2) in \<open>auto simp: no_begin_def Contains_iff\<close>)
qed

lemma ok_texts_until: "list_all ok_item is \<Longrightarrow> no_begin (texts_until is)"
proof (induction "is" rule: texts_until.induct)
  case (1 t "is")
  then show ?case by (auto simp: ok_text_def intro: no_begin_join)
qed (simp_all add: no_begin_def)

lemma ok_regions: "list_all ok_item is \<Longrightarrow> list_all clean_block (regions is)"
  by (induction "is" rule: regions.induct) (auto simp: ok_region_def clean_block_def ok_texts_until)

lemma clean_assemble:
  assumes "list_all ok_item is"
  shows "clean_page (assemble is)"
proof (cases "regions is = []")
  case True
  with ok_texts_until [OF assms] show ?thesis by (simp add: assemble_def clean_page_def no_begin_Nil)
next
  case False
  note r = ok_regions [OF assms]
  have l: "clean_block ((last (regions is))\<lparr>FollowingText := []\<rparr>)" "no_begin (FollowingText (last (regions is)))"
    using r False by (auto simp: list_all_iff clean_block_def no_begin_def)
  have "list_all clean_block (butlast (regions is))" using r by (auto simp: list_all_iff dest: in_set_butlastD)
  with l False ok_texts_until [OF assms] show ?thesis by (simp add: assemble_def Let_def clean_page_def)
qed

text \<open>The blocks without what follows them.\<close>

definition bare :: "wiki_block \<Rightarrow> wiki_block" where "bare b = b\<lparr>FollowingText := []\<rparr>"

fun item_blocks :: "page_items \<Rightarrow> wiki_block list" where
  "item_blocks [] = []"
| "item_blocks (Inl t # is) = item_blocks is"
| "item_blocks (Inr b # is) = bare b # item_blocks is"

lemma regions_bare: "map bare (regions is) = item_blocks is"
  by (induction "is" rule: regions.induct) (simp_all add: bare_def)

lemma assemble_blocks: "map bare (pd_Blocks (assemble is)) = item_blocks is"
proof (cases "regions is" rule: rev_cases)
  case Nil
  then show ?thesis using regions_bare [of "is"] by (simp add: assemble_def)
next
  case (snoc bs b)
  then show ?thesis using regions_bare [of "is"] by (simp add: assemble_def bare_def)
qed

lemma item_blocks_append: "item_blocks (xs @ ys) = item_blocks xs @ item_blocks ys"
  by (induction xs rule: item_blocks.induct) simp_all

section \<open>What a backend writes for a marked page\<close>

text \<open>
  Both backends write a page front, then for each section a heading and the blocks, each followed by
  \<open>sep\<close>, then a footer.
\<close>

definition render_with ::
  "gostring \<Rightarrow> (block \<Rightarrow> gostring) \<Rightarrow> (frontmatter \<Rightarrow> gostring) \<Rightarrow> (gostring \<Rightarrow> gostring) \<Rightarrow> (footer \<Rightarrow> gostring) \<Rightarrow>
   ir_document \<Rightarrow> gostring" where
  "render_with sep wr front head foot doc =
     front (Frontmatter doc) @
     concat (map (\<lambda>s. head (Heading s) @ concat (map (\<lambda>b. wr b @ sep) (Blocks s))) (Sections doc)) @
     foot (Footer doc)"

text \<open>The region of the \<open>k\<close>-th block of the section \<open>n\<close>, and a page of them.\<close>

definition region_of :: "gostring \<Rightarrow> (block \<Rightarrow> gostring) \<Rightarrow> nat \<Rightarrow> nat \<Rightarrow> block \<Rightarrow> wiki_block" where
  "region_of sep wr n k b =
     \<lparr>wb_ID = blockIDFor b n k, wb_Zone = zoneLabel b, wb_Provenance = InputHash (block_Provenance b),
      Body = butlast (sep @ wr b @ sep), FollowingText = []\<rparr>"

definition section_items :: "gostring \<Rightarrow> (block \<Rightarrow> gostring) \<Rightarrow> nat \<Rightarrow> block list \<Rightarrow> page_items" where
  "section_items sep wr n bs =
     concat (map (\<lambda>(k, b). [Inr (region_of sep wr n k b), Inl (NL # sep)]) (List.enumerate 0 bs))"

definition doc_items ::
  "gostring \<Rightarrow> (block \<Rightarrow> gostring) \<Rightarrow> (frontmatter \<Rightarrow> gostring) \<Rightarrow> (gostring \<Rightarrow> gostring) \<Rightarrow> (footer \<Rightarrow> gostring) \<Rightarrow>
   ir_document \<Rightarrow> page_items" where
  "doc_items sep wr front head foot doc =
     Inl (front (Frontmatter doc)) #
     concat (map (\<lambda>(n, s). Inl (head (Heading s)) # section_items sep wr n (Blocks s)) (List.enumerate 0 (Sections doc))) @
     [Inl (foot (Footer doc))]"

text \<open>
  A block that can be marked: its kind is not a marker, its input hash is there, and its text ends its
  line.  A document renders cleanly when its blocks can be marked and neither they nor the text
  around them contain marker text.
\<close>

definition markable :: "gostring \<Rightarrow> (block \<Rightarrow> gostring) \<Rightarrow> block \<Rightarrow> bool" where
  "markable sep wr b =
     (\<not> is_marker b \<and> InputHash (block_Provenance b) \<noteq> [] \<and> sep @ wr b @ sep \<noteq> [] \<and> last (sep @ wr b @ sep) = NL)"

definition renders_cleanly ::
  "gostring \<Rightarrow> (block \<Rightarrow> gostring) \<Rightarrow> (frontmatter \<Rightarrow> gostring) \<Rightarrow> (gostring \<Rightarrow> gostring) \<Rightarrow> (footer \<Rightarrow> gostring) \<Rightarrow>
   ir_document \<Rightarrow> bool" where
  "renders_cleanly sep wr front head foot doc =
     (list_all (markable sep wr) (doc_blocks doc) \<and> list_all ok_item (doc_items sep wr front head foot doc))"

text \<open>The marked regions of a document, in order.\<close>

definition doc_regions :: "gostring \<Rightarrow> (block \<Rightarrow> gostring) \<Rightarrow> ir_document \<Rightarrow> wiki_block list" where
  "doc_regions sep wr doc =
     concat (map (\<lambda>(n, s). map (\<lambda>(k, b). region_of sep wr n k b) (List.enumerate 0 (Blocks s)))
       (List.enumerate 0 (Sections doc)))"

lemma region_bare [simp]: "bare (region_of sep wr n k b) = region_of sep wr n k b"
  by (simp add: bare_def region_of_def)

lemma item_blocks_doc: "item_blocks (doc_items sep wr front head foot doc) = doc_regions sep wr doc"
proof -
  have sec: "item_blocks (section_items sep wr n bs) = map (\<lambda>(k, b). region_of sep wr n k b) (List.enumerate 0 bs)" for n bs
  proof -
    have "item_blocks (concat (map (\<lambda>(k, b). [Inr (region_of sep wr n k b), Inl (NL # sep)]) (List.enumerate j bs))) =
        map (\<lambda>(k, b). region_of sep wr n k b) (List.enumerate j bs)" for j
      by (induction bs arbitrary: j) simp_all
    then show ?thesis by (simp add: section_items_def)
  qed
  have "item_blocks (concat (map (\<lambda>(n, s). Inl (head (Heading s)) # section_items sep wr n (Blocks s)) (List.enumerate j ss))) =
      concat (map (\<lambda>(n, s). map (\<lambda>(k, b). region_of sep wr n k b) (List.enumerate 0 (Blocks s))) (List.enumerate j ss))"
    for j and ss :: "ir_section list"
    by (induction ss arbitrary: j) (simp_all add: item_blocks_append sec)
  then show ?thesis by (simp add: doc_items_def doc_regions_def item_blocks_append)
qed

locale marked_backend =
  fixes sep :: gostring and wr :: "block \<Rightarrow> gostring"
  assumes markers: "wr (MarkerBlock pos bid prov ofZone) = writeMarkerBlock pos bid ofZone prov"
begin

lemma bracket_text:
  assumes "markable sep wr b"
  shows "concat (map (\<lambda>b. wr b @ sep) (bracket n k b)) = region_text (region_of sep wr n k b) @ NL # sep"
proof -
  have body: "sep @ wr b @ sep = butlast (sep @ wr b @ sep) @ [NL]"
    using assms append_butlast_last_id [of "sep @ wr b @ sep"] by (simp add: markable_def)
  have z: "zoneLabel b \<noteq> []" by (simp add: zoneLabel_def)
  let ?r = "region_of sep wr n k b"
  have 1: "wr (MarkerBlock MarkerBegin (blockIDFor b n k) (block_Provenance b) (zoneLabel b)) = begin_text ?r @ [NL]"
    using assms z by (simp add: markers writeMarkerBlock_def begin_text_def region_of_def attrs_of_def markable_def)
  have 2: "wr (MarkerBlock MarkerEnd (blockIDFor b n k) (block_Provenance b) (zoneLabel b)) = end_text ?r @ [NL]"
    by (simp add: markers writeMarkerBlock_def end_text_def region_of_def)
  have "concat (map (\<lambda>b. wr b @ sep) (bracket n k b)) = begin_text ?r @ [NL] @ (sep @ wr b @ sep) @ end_text ?r @ [NL] @ sep"
    by (simp add: bracket_def 1 2)
  also have "\<dots> = begin_text ?r @ [NL] @ (Body ?r @ [NL]) @ end_text ?r @ [NL] @ sep"
    using body by (simp add: region_of_def)
  finally show ?thesis by (simp add: region_text_def)
qed

lemma section_text:
  assumes "list_all (markable sep wr) bs"
  shows "concat (map (\<lambda>b. wr b @ sep) (wrapBlocks bs n)) = concat (map item_text (section_items sep wr n bs))"
proof -
  have "concat (map (\<lambda>b. wr b @ sep) (concat (map (\<lambda>(k, b). bracket n k b) (List.enumerate j bs)))) =
      concat (map item_text (concat (map (\<lambda>(k, b). [Inr (region_of sep wr n k b), Inl (NL # sep)]) (List.enumerate j bs))))" for j
    using assms by (induction bs arbitrary: j) (simp_all add: bracket_text)
  moreover have "\<forall>b \<in> set bs. \<not> is_marker b" using assms by (auto simp: list_all_iff markable_def)
  ultimately show ?thesis by (simp add: wrapBlocks_fresh section_items_def)
qed

lemma doc_text:
  assumes "list_all (markable sep wr) (doc_blocks doc)"
  shows "render_with sep wr front head foot (wrap_doc doc) =
    concat (map item_text (doc_items sep wr front head foot doc))"
proof -
  have "concat (map (\<lambda>s. head (Heading s) @ concat (map (\<lambda>b. wr b @ sep) (Blocks s)))
        (map (\<lambda>(i, s). s\<lparr>Blocks := wrapBlocks (Blocks s) i\<rparr>) (List.enumerate j ss))) =
      concat (map item_text (concat (map (\<lambda>(n, s). Inl (head (Heading s)) # section_items sep wr n (Blocks s)) (List.enumerate j ss))))"
    if "list_all (\<lambda>s. list_all (markable sep wr) (Blocks s)) ss" for j ss
    using that by (induction ss arbitrary: j) (simp_all add: section_text)
  moreover have "list_all (\<lambda>s. list_all (markable sep wr) (Blocks s)) (Sections doc)"
    using assms by (auto simp: list_all_iff doc_blocks_def)
  ultimately show ?thesis by (simp add: render_with_def wrap_doc_def doc_items_def)
qed

text \<open>The rendered page is the text of a clean page, and the parser reads its regions back.\<close>

lemma render_is_page:
  assumes "renders_cleanly sep wr front head foot doc"
  shows "render_with sep wr front head foot (wrap_doc doc) = page_text (assemble (doc_items sep wr front head foot doc))"
    and "clean_page (assemble (doc_items sep wr front head foot doc))"
  using assms by (simp_all add: renders_cleanly_def doc_text page_text_assemble clean_assemble)

lemma reads_back:
  assumes "renders_cleanly sep wr front head foot doc"
  shows "map bare (pd_Blocks (Parse (render_with sep wr front head foot (wrap_doc doc)))) = doc_regions sep wr doc"
  by (simp add: render_is_page [OF assms] parse_page_text assemble_blocks item_blocks_doc)

end

interpretation markdown: marked_backend "[NL]" md_block
  by unfold_locales simp

interpretation wikitext: marked_backend "[]" mw_block
  by unfold_locales simp

lemma md_Render_with: "md_Render doc = render_with [NL] md_block md_front md_heading md_footer doc"
  by (simp add: md_Render_def md_section_def [abs_def] render_with_def)

lemma mw_Render_with: "mw_Render doc = render_with [] mw_block mw_provenance mw_heading mw_footer doc"
  by (simp add: mw_Render_def mw_section_def [abs_def] render_with_def)

section \<open>Identifiers\<close>

lemma position_ids_distinct:
  "distinct (concat (map (\<lambda>(n, s). map (\<lambda>(k, b). position_id n k) (List.enumerate 0 (Blocks s))) (List.enumerate j ss)))"
proof (induction ss arbitrary: j)
  case (Cons s ss)
  have "distinct (map (\<lambda>(k, b). position_id j k) (List.enumerate i bs))" for i and bs :: "block list"
    by (induction bs arbitrary: i) (auto simp: in_set_enumerate_eq)
  moreover have "set (map (\<lambda>(k, b). position_id j k) (List.enumerate 0 (Blocks s))) \<inter>
      set (concat (map (\<lambda>(n, s). map (\<lambda>(k, b). position_id n k) (List.enumerate 0 (Blocks s))) (List.enumerate (Suc j) ss))) = {}"
    by (auto simp: in_set_enumerate_eq)
  ultimately show ?case using Cons by simp
qed simp

lemma region_ids:
  assumes "list_all no_own_id (doc_blocks doc)"
  shows "distinct (map wb_ID (doc_regions sep wr doc))"
proof -
  have id: "wb_ID (region_of sep wr n k b) = position_id n k" if "no_own_id b" for n k b
    using no_own_id_D [OF that] by (simp add: region_of_def)
  have bs: "map (\<lambda>(k, b). wb_ID (region_of sep wr n k b)) (List.enumerate i bs) =
      map (\<lambda>(k, b). position_id n k) (List.enumerate i bs)" if "list_all no_own_id bs" for n i bs
    using that by (induction bs arbitrary: i) (simp_all add: id)
  have ids: "map wb_ID (concat (map (\<lambda>(n, s). map (\<lambda>(k, b). region_of sep wr n k b) (List.enumerate 0 (Blocks s))) (List.enumerate j ss))) =
      concat (map (\<lambda>(n, s). map (\<lambda>(k, b). position_id n k) (List.enumerate 0 (Blocks s))) (List.enumerate j ss))"
    if "list_all (\<lambda>s. list_all no_own_id (Blocks s)) ss" for j ss
    using that by (induction ss arbitrary: j) (auto simp: comp_def case_prod_beta' bs [unfolded case_prod_beta'])
  have "list_all (\<lambda>s. list_all no_own_id (Blocks s)) (Sections doc)"
    using assms by (auto simp: list_all_iff doc_blocks_def)
  then show ?thesis unfolding doc_regions_def by (subst ids) (assumption, rule position_ids_distinct)
qed

lemma region_set:
  assumes "r \<in> set (doc_regions sep wr doc)"
  shows "\<exists>n k b. b \<in> set (doc_blocks doc) \<and> r = region_of sep wr n k b"
proof -
  from assms obtain n s k b where "(n, s) \<in> set (List.enumerate 0 (Sections doc))"
    "(k, b) \<in> set (List.enumerate 0 (Blocks s))" "r = region_of sep wr n k b"
    unfolding doc_regions_def by auto
  moreover from this have "s \<in> set (Sections doc)" "b \<in> set (Blocks s)"
    by (auto simp: in_set_enumerate_eq)
  ultimately show ?thesis unfolding doc_blocks_def by auto
qed

section \<open>Properties\<close>

text \<open>
  C28. The wiki parser reads back what the wikitext backend wrote: when the blocks of a document have
  an input hash and no text of it looks like a marker, parsing the page rendered from the marked
  document gives its blocks in order, each with its id, its zone, its hash and exactly the text the
  backend wrote between the markers.
\<close>

theorem wikitext_reads_back:
  assumes "renders_cleanly [] mw_block mw_provenance mw_heading mw_footer doc"
  shows "map bare (pd_Blocks (Parse (mw_Render (wrap_doc doc)))) = doc_regions [] mw_block doc"
  unfolding mw_Render_with by (rule wikitext.reads_back [OF assms])

text \<open>
  C6. Human polish survives a whole rendering: when a document is rendered to markdown and merged
  into a page of the wiki, the editorial blocks whose inputs did not change keep the text the page
  has for them, and every other block gets the text of the render.
\<close>

theorem polish_survives_render:
  assumes "clean_page ex" and "renders_cleanly [NL] md_block md_front md_heading md_footer doc"
    and "list_all no_own_id (doc_blocks doc)" and "r \<in> set (doc_regions [NL] md_block doc)"
  shows "\<exists>m. BlockByID (Parse (MergeBlocks (page_text ex) (md_Render (wrap_doc doc)))) (wb_ID r) = Some m \<and>
     Body m = (case BlockByID ex (wb_ID r) of
                 Some h \<Rightarrow> if wb_Zone r = ''editorial'' \<and> wb_Provenance h = wb_Provenance r then Body h else Body r
               | None \<Rightarrow> Body r)"
proof -
  let ?d = "assemble (doc_items [NL] md_block md_front md_heading md_footer doc)"
  have d: "md_Render (wrap_doc doc) = page_text ?d" "clean_page ?d"
    using markdown.render_is_page [OF assms(2)] by (simp_all add: md_Render_with)
  have bare: "map bare (pd_Blocks ?d) = doc_regions [NL] md_block doc" by (simp add: assemble_blocks item_blocks_doc)
  have "map wb_ID (pd_Blocks ?d) = map wb_ID (map bare (pd_Blocks ?d))" by (simp add: bare_def)
  with bare region_ids [OF assms(3)] have ids: "distinct (map wb_ID (pd_Blocks ?d))" by simp
  have "r \<in> bare ` set (pd_Blocks ?d)" using assms(4) unfolding bare [symmetric] by simp
  then obtain b where b: "b \<in> set (pd_Blocks ?d)" "r = bare b" by blast
  have "list_all (markable [NL] md_block) (doc_blocks doc)" using assms(2) by (simp add: renders_cleanly_def)
  then have pv: "wb_Provenance r \<noteq> []"
    using region_set [OF assms(4)] by (auto simp: region_of_def list_all_iff markable_def)
  have p: "Parse (MergeBlocks (page_text ex) (page_text ?d)) = merge_spec ex ?d"
    using assms(1) d(2) by (simp add: merge_text parse_page_text clean_merge_spec)
  obtain m where m: "BlockByID (merge_spec ex ?d) (wb_ID b) = Some m" "Body m = chooseBody b ex"
    using BlockByID_merge_spec [OF ids b(1)] by blast
  have "Body m = (case BlockByID ex (wb_ID r) of
      Some h \<Rightarrow> if wb_Zone r = ''editorial'' \<and> wb_Provenance h = wb_Provenance r then Body h else Body r
    | None \<Rightarrow> Body r)"
    using m(2) pv b(2) by (auto simp: chooseBody_def bare_def split: option.splits)
  with m(1) p d(1) b(2) show ?thesis by (simp add: bare_def)
qed

section \<open>The properties at work\<close>

definition greeting_doc :: ir_document where
  "greeting_doc =
     (new_document ''P'' ''abc'' ''c1'')\<lparr>Sections :=
        [\<lparr>Heading = ''Intro'', Blocks = [ProseBlock ''Hello'' (no_prov\<lparr>InputHash := ''h1''\<rparr>)]\<rparr>]\<rparr>"

lemma greeting_simps [simp]:
  "doc_blocks greeting_doc = [ProseBlock ''Hello'' (no_prov\<lparr>InputHash := ''h1''\<rparr>)]"
  "Sections greeting_doc = [\<lparr>Heading = ''Intro'', Blocks = [ProseBlock ''Hello'' (no_prov\<lparr>InputHash := ''h1''\<rparr>)]\<rparr>]"
  "Frontmatter greeting_doc = \<lparr>Title = ''P'', SpecHash = ''abc'', KBCommit = ''c1'', GeneratedAt = zero_time\<rparr>"
  "Footer greeting_doc = no_footer"
  by (simp_all add: greeting_doc_def doc_blocks_def new_document_def)

lemma hello_mw: "mw_block (ProseBlock ''Hello'' p) = ''Hello'' @ [NL, NL]"
proof -
  have "writeParagraph ''Hello'' = ''Hello'' @ [NL, NL]" by code_simp
  then show ?thesis by simp
qed

lemma hello_md: "md_block (ProseBlock ''Hello'' p) = ''Hello'' @ [NL]"
  by (simp add: trim_lines_def TrimRight_def)

lemma position_00: "position_id 0 0 = ''s0-b0''"
  by code_simp

lemma greeting_region:
  "region_of [] mw_block 0 0 (ProseBlock ''Hello'' (no_prov\<lparr>InputHash := ''h1''\<rparr>)) =
     \<lparr>wb_ID = ''s0-b0'', wb_Zone = ''editorial'', wb_Provenance = ''h1'', Body = ''Hello'' @ [NL], FollowingText = []\<rparr>"
  "region_of [NL] md_block 0 0 (ProseBlock ''Hello'' (no_prov\<lparr>InputHash := ''h1''\<rparr>)) =
     \<lparr>wb_ID = ''s0-b0'', wb_Zone = ''editorial'', wb_Provenance = ''h1'', Body = [NL] @ ''Hello'' @ [NL], FollowingText = []\<rparr>"
  by (simp_all add: region_of_def blockIDFor_def zoneLabel_def position_00 hello_mw hello_md del: mw_block.simps md_block.simps)

lemma greeting_clean:
  "renders_cleanly [] mw_block mw_provenance mw_heading mw_footer greeting_doc"
  "renders_cleanly [NL] md_block md_front md_heading md_footer greeting_doc"
  by (simp_all add: renders_cleanly_def markable_def doc_items_def section_items_def greeting_region hello_mw hello_md
      mw_provenance_def mw_heading_def mw_footer_def md_front_def md_frontmatter_def md_heading_def md_footer_def
      no_footer_def ok_text_def no_begin_def ok_region_def clean_block_def HasPrefix_def re_space_def
      del: mw_block.simps md_block.simps)

theorem wikitext_reads_back_witness:
  "map bare (pd_Blocks (Parse (mw_Render (wrap_doc greeting_doc)))) =
     [\<lparr>wb_ID = ''s0-b0'', wb_Zone = ''editorial'', wb_Provenance = ''h1'', Body = ''Hello'' @ [NL], FollowingText = []\<rparr>]"
  using wikitext_reads_back [OF greeting_clean(1)] by (simp add: doc_regions_def greeting_region)

definition polished_page :: parsed_doc where
  "polished_page =
     \<lparr>Prologue = [],
      pd_Blocks = [\<lparr>wb_ID = ''s0-b0'', wb_Zone = ''editorial'', wb_Provenance = ''h1'', Body = ''Hello, dear reader'',
                    FollowingText = []\<rparr>],
      Epilogue = [NL]\<rparr>"

theorem polish_survives_render_witness:
  "\<exists>m. BlockByID (Parse (MergeBlocks (page_text polished_page) (md_Render (wrap_doc greeting_doc)))) ''s0-b0'' = Some m \<and>
     Body m = ''Hello, dear reader''"
proof -
  let ?r = "\<lparr>wb_ID = ''s0-b0'', wb_Zone = ''editorial'', wb_Provenance = ''h1'', Body = [NL] @ ''Hello'' @ [NL], FollowingText = []\<rparr>"
  have "clean_page polished_page"
    by (simp add: polished_page_def clean_page_def clean_block_def no_begin_def HasPrefix_def re_space_def)
  moreover have "list_all no_own_id (doc_blocks greeting_doc)" by (simp add: no_own_id_def)
  moreover have "?r \<in> set (doc_regions [NL] md_block greeting_doc)" by (simp add: doc_regions_def greeting_region)
  ultimately show ?thesis
    using polish_survives_render [of polished_page greeting_doc ?r] greeting_clean(2)
    by (simp add: polished_page_def [THEN arg_cong [of _ _ pd_Blocks]] BlockByID_def [of polished_page])
qed

text \<open>The page of a projection whose area has no entries: its introduction.\<close>

definition intro_doc :: ir_document where
  "intro_doc =
     (new_document ''P'' ''abc'' ''c1'')\<lparr>Sections := [area_header
        \<lparr>a_ID = ''net'', a_Name = ''Net'', a_Summary = ''The network.'', a_Tags = [], a_Entries = []\<rparr>]\<rparr>"

text \<open>
  A block without an input hash is not marked, although it stands between markers: the
  introduction of a projected area is an editorial block, but the backends write its provenance
  attribute without a value, which the parser does not accept, so no block is found in the page and
  merging throws away whatever a human wrote into it.
\<close>

theorem unhashed_block_unmarked:
  "length (doc_blocks intro_doc) = 1 \<and> list_all (\<lambda>b. block_Zone b = ZoneEditorial) (doc_blocks intro_doc) \<and>
   pd_Blocks (Parse (md_Render (wrap_doc intro_doc))) = [] \<and>
   MergeBlocks human (md_Render (wrap_doc intro_doc)) = md_Render (wrap_doc intro_doc)"
proof -
  have p: "Parse (md_Render (wrap_doc intro_doc)) =
      \<lparr>Prologue = md_Render (wrap_doc intro_doc), pd_Blocks = [], Epilogue = []\<rparr>"
    by code_simp
  then have "MergeBlocks human (md_Render (wrap_doc intro_doc)) = md_Render (wrap_doc intro_doc)"
    by (simp add: MergeBlocks_def)
  with p show ?thesis
    by (simp add: intro_doc_def doc_blocks_def new_document_def area_header_def)
qed

end
