(* ===== verification/GoPath.thy ===== *)
theory GoPath
  imports Prelude
begin

text \<open>
  Packages \<open>path\<close> and \<open>path/filepath\<close> on a system whose separator is the slash: \<open>Clean\<close>,
  \<open>Join\<close>, \<open>Base\<close>, \<open>Ext\<close> and \<open>Rel\<close>.  A path is handled by its elements.
\<close>

abbreviation SLASH :: char where "SLASH \<equiv> CHR ''/''"

definition rooted :: "gostring \<Rightarrow> bool" where
  "rooted p = (p \<noteq> [] \<and> hd p = SLASH)"

text \<open>The elements that are left so far, the last one first.\<close>

definition clean_step :: "bool \<Rightarrow> gostring list \<Rightarrow> gostring \<Rightarrow> gostring list" where
  "clean_step r out e =
     (if e = [] \<or> e = ''.'' then out
      else if e = ''..'' then
        (case out of
           [] \<Rightarrow> if r then [] else [''..'']
         | d # ds \<Rightarrow> if d = ''..'' then ''..'' # out else ds)
      else e # out)"

definition path_elems :: "gostring \<Rightarrow> gostring list" where
  "path_elems p = rev (foldl (clean_step (rooted p)) [] (Split SLASH p))"

definition elems_text :: "bool \<Rightarrow> gostring list \<Rightarrow> gostring" where
  "elems_text r es = (if r then SLASH # Join [SLASH] es else if es = [] then ''.'' else Join [SLASH] es)"

definition Clean :: "gostring \<Rightarrow> gostring" where
  "Clean p = elems_text (rooted p) (path_elems p)"

definition path_Join :: "gostring list \<Rightarrow> gostring" where
  "path_Join es = (let ne = filter (\<lambda>e. e \<noteq> []) es in if ne = [] then [] else Clean (Join [SLASH] ne))"

definition path_Base :: "gostring \<Rightarrow> gostring" where
  "path_Base p =
     (if p = [] then ''.''
      else (let q = TrimRight p [SLASH] in
            if q = [] then [SLASH]
            else (case LastIndexByte q SLASH of None \<Rightarrow> q | Some i \<Rightarrow> drop (Suc i) q)))"

definition path_Ext :: "gostring \<Rightarrow> gostring" where
  "path_Ext p =
     (let b = (case LastIndexByte p SLASH of None \<Rightarrow> p | Some i \<Rightarrow> drop (Suc i) p) in
      case LastIndexByte b (CHR ''.'') of None \<Rightarrow> [] | Some i \<Rightarrow> drop i b)"

fun strip_common :: "gostring list \<Rightarrow> gostring list \<Rightarrow> gostring list \<times> gostring list" where
  "strip_common (a # as) (b # bs) = (if a = b then strip_common as bs else (a # as, b # bs))"
| "strip_common as bs = (as, bs)"

text \<open>The base \<open>.\<close> has no elements, but the target \<open>.\<close> has one, as in the code of \<open>Rel\<close>.\<close>

definition Rel :: "gostring \<Rightarrow> gostring \<Rightarrow> gostring res" where
  "Rel base targ =
     (let b = Clean base; t = Clean targ in
      if t = b then Inr ''.''
      else if rooted b \<noteq> rooted t then Inl (errorf ''Rel: can't make %s relative to %s'' [targ, base])
      else (case strip_common (path_elems base) (if t = ''.'' then [''.''] else path_elems targ) of
              (bs, ts) \<Rightarrow>
                if bs \<noteq> [] \<and> hd bs = ''..'' then Inl (errorf ''Rel: can't make %s relative to %s'' [targ, base])
                else Inr (Join [SLASH] (replicate (length bs) ''..'' @ ts))))"

section \<open>Elements\<close>

text \<open>What a cleaned path can look like: parent references only at the start of an unrooted path.\<close>

definition clean_elems :: "bool \<Rightarrow> gostring list \<Rightarrow> bool" where
  "clean_elems r es =
     (list_all (\<lambda>e. e \<noteq> [] \<and> e \<noteq> ''.'' \<and> SLASH \<notin> set e) es \<and>
      ''..'' \<notin> set (if r then es else dropWhile (\<lambda>e. e = ''..'') es))"

lemma strip_common_append:
  "strip_common as bs = (as', bs') \<Longrightarrow> \<exists>cs. as = cs @ as' \<and> bs = cs @ bs'"
proof (induction as bs rule: strip_common.induct)
  case (1 a as b bs)
  show ?case
  proof (cases "a = b")
    case True
    with 1 obtain cs where "as = cs @ as'" "bs = cs @ bs'" by auto
    with True show ?thesis by (intro exI [of _ "a # cs"]) simp
  next
    case False
    with 1 show ?thesis by simp
  qed
qed auto

text \<open>The elements left so far, last first: parent references are at the end, and none in a rooted path.\<close>

definition clean_out :: "bool \<Rightarrow> gostring list \<Rightarrow> bool" where
  "clean_out r out =
     (list_all (\<lambda>e. e \<noteq> [] \<and> e \<noteq> ''.'' \<and> SLASH \<notin> set e) out \<and>
      (\<exists>ns n. out = ns @ replicate n ''..'' \<and> ''..'' \<notin> set ns \<and> (r \<longrightarrow> n = 0)))"

lemma clean_outE:
  assumes "clean_out r out"
  obtains ns n where "out = ns @ replicate n ''..''" "''..'' \<notin> set ns" "r \<longrightarrow> n = 0"
    "list_all (\<lambda>e. e \<noteq> [] \<and> e \<noteq> ''.'' \<and> SLASH \<notin> set e) out"
  using assms unfolding clean_out_def by blast

lemma clean_step_out: "clean_out r out \<Longrightarrow> SLASH \<notin> set e \<Longrightarrow> clean_out r (clean_step r out e)"
proof -
  assume out: "clean_out r out" and e: "SLASH \<notin> set e"
  from out obtain ns n where ns: "out = ns @ replicate n ''..''" "''..'' \<notin> set ns" "r \<longrightarrow> n = 0"
    "list_all (\<lambda>e. e \<noteq> [] \<and> e \<noteq> ''.'' \<and> SLASH \<notin> set e) out"
    by (rule clean_outE)
  consider "e = [] \<or> e = ''.''" | "e = ''..''" | "e \<noteq> []" "e \<noteq> ''.''" "e \<noteq> ''..''" by blast
  then show ?thesis
  proof cases
    case 1
    with out show ?thesis by (auto simp: clean_step_def)
  next
    case 2
    show ?thesis
    proof (cases ns)
      case Nil
      show ?thesis
      proof (cases n)
        case 0
        have "clean_out False [''..'']"
          unfolding clean_out_def by (intro conjI exI [of _ "[]"] exI [of _ 1]) simp_all
        moreover have "clean_out True []" by (auto simp: clean_out_def)
        ultimately show ?thesis using 2 Nil ns 0 by (cases r) (auto simp: clean_step_def)
      next
        case (Suc m)
        with 2 Nil ns have "clean_step r out e = replicate (Suc (Suc m)) ''..''" "\<not> r" by (auto simp: clean_step_def)
        then show ?thesis
          by (auto simp: clean_out_def list_all_iff intro!: exI [of _ "[]"] exI [of _ "Suc (Suc m)"])
      qed
    next
      case (Cons d ds)
      with 2 ns have "clean_step r out e = ds @ replicate n ''..''" by (auto simp: clean_step_def)
      with Cons ns show ?thesis by (auto simp: clean_out_def)
    qed
  next
    case 3
    with ns e show ?thesis
      by (auto simp: clean_step_def clean_out_def intro!: exI [of _ "e # ns"] exI [of _ n])
  qed
qed

lemma clean_elems_path: "clean_elems (rooted p) (path_elems p)"
proof -
  have "clean_out r (foldl (clean_step r) out es)" if "clean_out r out" "\<forall>e \<in> set es. SLASH \<notin> set e" for r out es
    using that by (induction es arbitrary: out) (auto intro: clean_step_out)
  moreover have "clean_out r []" for r by (auto simp: clean_out_def)
  ultimately have "clean_out (rooted p) (foldl (clean_step (rooted p)) [] (Split SLASH p))"
    using Split_no_sep by blast
  then obtain ns n where ns: "foldl (clean_step (rooted p)) [] (Split SLASH p) = ns @ replicate n ''..''" "''..'' \<notin> set ns"
    "rooted p \<longrightarrow> n = 0"
    "list_all (\<lambda>e. e \<noteq> [] \<and> e \<noteq> ''.'' \<and> SLASH \<notin> set e) (foldl (clean_step (rooted p)) [] (Split SLASH p))"
    by (rule clean_outE)
  have "dropWhile (\<lambda>e. e = ''..'') (replicate n ''..'' @ rev ns) = dropWhile (\<lambda>e. e = ''..'') (rev ns)"
    by (induction n) auto
  then have "''..'' \<notin> set (dropWhile (\<lambda>e. e = ''..'') (replicate n ''..'' @ rev ns))"
    using ns(2) by (auto dest: set_dropWhileD)
  with ns show ?thesis by (auto simp: clean_elems_def path_elems_def list_all_iff)
qed

text \<open>A cleaned path that neither is a parent reference nor starts with one has none at all.\<close>

lemma Clean_inside:
  assumes "Clean p \<noteq> ''..''" and "\<not> HasPrefix (Clean p) ''../''" and "\<not> HasPrefix (Clean p) ''/''"
  shows "\<not> rooted p \<and> ''..'' \<notin> set (path_elems p) \<and> ''..'' \<notin> set (Split SLASH (Clean p))"
proof -
  have r: "\<not> rooted p" using assms(3) by (auto simp: Clean_def elems_text_def HasPrefix_iff)
  have es: "list_all (\<lambda>e. e \<noteq> [] \<and> e \<noteq> ''.'' \<and> SLASH \<notin> set e) (path_elems p)"
    "''..'' \<notin> set (dropWhile (\<lambda>e. e = ''..'') (path_elems p))"
    using clean_elems_path [of p] r by (auto simp: clean_elems_def)
  have "''..'' \<notin> set (path_elems p)"
  proof
    assume "''..'' \<in> set (path_elems p)"
    with es(2) obtain ds where ds: "path_elems p = ''..'' # ds"
      by (cases "path_elems p") (auto split: if_splits)
    with assms(1,2) r show False by (cases ds) (auto simp: Clean_def elems_text_def HasPrefix_iff)
  qed
  moreover have "''..'' \<notin> set (Split SLASH (Clean p))"
  proof (cases "path_elems p = []")
    case True
    with r show ?thesis by (simp add: Clean_def elems_text_def)
  next
    case False
    have "list_all (\<lambda>e. SLASH \<notin> set e) (path_elems p)" using es(1) by (auto simp: list_all_iff)
    with False r calculation show ?thesis by (simp add: Clean_def elems_text_def Split_Join)
  qed
  ultimately show ?thesis using r by blast
qed

end
