(* ===== verification/KBSources.thy ===== *)
theory KBSources
  imports KB GoPath "HOL-Library.List_Lexorder" "HOL-Library.Char_ord"
begin

text \<open>
  Where the knowledge base is read from: a directory (internal/adapters/kb/local/local.go) and a
  git clone of one (internal/adapters/kb/git/git.go).

  \<open>encoding/json\<close> is the record \<open>json_lib\<close> of what it decodes, the file system the record
  \<open>kb_fs\<close> of what it answers, and go-git the record \<open>git_lib\<close>.  The loops of the code are
  modelled in full: the scanner with its line limit, the resolution of an append-only file to its
  latest entries, the area files, the diff of two commits and the sort of its result.
\<close>

section \<open>Entries of a JSON-lines file\<close>

record raw_entry =
  rw_ID :: gostring
  rw_Area :: gostring
  rw_Type :: gostring
  rw_Text :: gostring
  rw_Tags :: "gostring option"
  rw_Zone :: gostring
  rw_Created :: gostring
  rw_Updated :: gostring
  rw_Deleted :: bool
  rw_Status :: gostring
  rw_Source :: gostring
  rw_Why :: gostring
  rw_Rejected :: gostring
  rw_Context :: gostring
  rw_URL :: gostring

record area_meta =
  am_ID :: gostring
  am_Name :: gostring
  am_Summary :: gostring
  am_Tags :: "gostring option"

text \<open>
  The decoder: the bytes of the \<open>tags\<close> field, which go to \<open>csvOrList.UnmarshalJSON\<close>, are kept as
  they are (\<open>None\<close> when the field is absent).
\<close>

record json_lib =
  js_entry :: "gostring \<Rightarrow> raw_entry res"
  js_area :: "gostring \<Rightarrow> area_meta res"
  js_strings :: "gostring \<Rightarrow> gostring list res"
  js_string :: "gostring \<Rightarrow> gostring res"

definition csvOrList :: "json_lib \<Rightarrow> gostring \<Rightarrow> gostring list res" where
  "csvOrList J b =
     (if b \<noteq> [] \<and> hd b = CHR ''['' then js_strings J b
      else (case js_string J b of
              Inl e \<Rightarrow> Inl e
            | Inr s \<Rightarrow>
                Inr (filter (\<lambda>f. f \<noteq> [])
                      (map TrimSpace (FieldsFunc (\<lambda>c. c = CHR '','' \<or> c = CHR '' '') s)))))"

definition tags_of :: "json_lib \<Rightarrow> gostring option \<Rightarrow> gostring list res" where
  "tags_of J f = (case f of None \<Rightarrow> Inr [] | Some b \<Rightarrow> csvOrList J b)"

definition entry_of :: "raw_entry \<Rightarrow> gostring list \<Rightarrow> entry" where
  "entry_of r tags =
     \<lparr>e_ID = rw_ID r, e_Area = rw_Area r, e_Type = rw_Type r, e_Text = rw_Text r, e_Tags = tags,
      e_Zone = rw_Zone r, e_Created = rw_Created r, e_Updated = rw_Updated r,
      e_Provenance = \<lparr>Status = rw_Status r, ep_Source = rw_Source r\<rparr>,
      e_Why = rw_Why r, e_Rejected = rw_Rejected r, e_Context = rw_Context r, e_URL = rw_URL r\<rparr>"

text \<open>\<open>order\<close> and \<open>latest\<close> of \<open>loadJSONL\<close>; the inner \<open>None\<close> is the nil of a tombstone.\<close>

record jsonl_state =
  js_order :: "gostring list"
  js_latest :: "gostring \<Rightarrow> entry option option"

text \<open>One version of an entry: its identifier, and its contents unless it is a tombstone.\<close>

type_synonym version = "gostring \<times> entry option"

definition decode_line :: "json_lib \<Rightarrow> gostring \<Rightarrow> version res" where
  "decode_line J line =
     (case js_entry J line of
        Inl e \<Rightarrow> Inl e
      | Inr r \<Rightarrow> (case tags_of J (rw_Tags r) of
                    Inl e \<Rightarrow> Inl e
                  | Inr tags \<Rightarrow> Inr (rw_ID r, if rw_Deleted r then None else Some (entry_of r tags))))"

definition store_version :: "version \<Rightarrow> jsonl_state \<Rightarrow> jsonl_state" where
  "store_version v st =
     st\<lparr>js_order := (if js_latest st (fst v) = None then js_order st @ [fst v] else js_order st),
        js_latest := (js_latest st)(fst v := Some (snd v))\<rparr>"

fun load_lines :: "json_lib \<Rightarrow> gostring list \<Rightarrow> jsonl_state \<Rightarrow> jsonl_state res" where
  "load_lines J [] st = Inr st"
| "load_lines J (l # ls) st =
     (let line = TrimSpace l in
      if line = [] then load_lines J ls st
      else (case decode_line J line of
              Inl e \<Rightarrow> Inl (wrapf ''parse entry: %w (line: %s)'' [line] e)
            | Inr v \<Rightarrow> load_lines J ls (store_version v st)))"

subsection \<open>The scanner\<close>

text \<open>
  \<open>bufio.Scanner\<close> with a buffer of a megabyte: the lines without their line ends, and the error
  it stops with.  A line that does not fit stops it; a read fault \<open>fault\<close> is reported after what
  was read before it.
\<close>

definition max_token :: nat where "max_token = 1024 * 1024"

definition dropCR :: "gostring \<Rightarrow> gostring" where
  "dropCR l = (if l \<noteq> [] \<and> last l = CR then butlast l else l)"

definition raw_lines :: "gostring \<Rightarrow> gostring list" where
  "raw_lines s = (let ls = Split NL s in if last ls = [] then butlast ls else ls)"

definition scan_lines :: "gostring \<Rightarrow> gomsg option \<Rightarrow> gostring list \<times> gomsg option" where
  "scan_lines s fault =
     (let ls = raw_lines s; fit = takeWhile (\<lambda>l. length l < max_token) ls in
      (map dropCR fit, if fit = ls then fault else Some (errorf ''bufio.Scanner: token too long'' [])))"

definition live_entries :: "jsonl_state \<Rightarrow> entry list" where
  "live_entries st =
     concat (map (\<lambda>i. case js_latest st i of Some (Some e) \<Rightarrow> [e] | _ \<Rightarrow> []) (js_order st))"

datatype opened = NotExist gomsg | OpenFailed gomsg | Opened gostring "gomsg option"

text \<open>\<open>loadJSONL\<close>; \<open>Inl (True, e)\<close> is an error for which \<open>errIsNotExist\<close> holds.\<close>

definition loadJSONL :: "json_lib \<Rightarrow> opened \<Rightarrow> (bool \<times> gomsg) + entry list" where
  "loadJSONL J f =
     (case f of
        NotExist e \<Rightarrow> Inl (True, e)
      | OpenFailed e \<Rightarrow> Inl (False, e)
      | Opened s fault \<Rightarrow>
          (case scan_lines s fault of
             (ls, err) \<Rightarrow>
               (case load_lines J ls \<lparr>js_order = [], js_latest = Map.empty\<rparr> of
                  Inl e \<Rightarrow> Inl (False, e)
                | Inr st \<Rightarrow> (case err of Some e \<Rightarrow> Inl (False, e) | None \<Rightarrow> Inr (live_entries st)))))"

section \<open>The directory\<close>

record kb_fs =
  fs_isdir :: "gostring \<Rightarrow> bool res"
  fs_readdir :: "gostring \<Rightarrow> (gostring \<times> bool) list res"
  fs_readfile :: "gostring \<Rightarrow> gostring res"
  fs_open :: "gostring \<Rightarrow> opened"

definition area_files :: "gostring list" where
  "area_files = [''facts.jsonl'', ''decisions.jsonl'', ''gotchas.jsonl'', ''patterns.jsonl'', ''links.jsonl'']"

fun load_files :: "json_lib \<Rightarrow> kb_fs \<Rightarrow> gostring \<Rightarrow> gostring list \<Rightarrow> entry list res" where
  "load_files J F dir [] = Inr []"
| "load_files J F dir (n # ns) =
     (let path = path_Join [dir, n] in
      case loadJSONL J (fs_open F path) of
        Inl (gone, e) \<Rightarrow>
          if gone then load_files J F dir ns else Inl (wrapf ''local kb: %s: %w'' [path] e)
      | Inr es \<Rightarrow> map_sum id (\<lambda>r. es @ r) (load_files J F dir ns))"

definition loadArea :: "json_lib \<Rightarrow> kb_fs \<Rightarrow> gostring \<Rightarrow> area res" where
  "loadArea J F dir =
     (let areaJSON = path_Join [dir, ''area.json''] in
      case fs_readfile F areaJSON of
        Inl e \<Rightarrow> Inl (wrapf ''local kb: read %s: %w'' [areaJSON] e)
      | Inr meta \<Rightarrow>
          (case js_area J meta of
             Inl e \<Rightarrow> Inl (wrapf ''local kb: parse %s: %w'' [areaJSON] e)
           | Inr m \<Rightarrow>
               (case tags_of J (am_Tags m) of
                  Inl e \<Rightarrow> Inl (wrapf ''local kb: parse %s: %w'' [areaJSON] e)
                | Inr tags \<Rightarrow>
                    map_sum id (\<lambda>es. \<lparr>a_ID = am_ID m, a_Name = am_Name m, a_Summary = am_Summary m,
                                      a_Tags = tags, a_Entries = es\<rparr>)
                      (load_files J F dir area_files))))"

fun load_areas :: "json_lib \<Rightarrow> kb_fs \<Rightarrow> gostring \<Rightarrow> (gostring \<times> bool) list \<Rightarrow> area list res" where
  "load_areas J F areasDir [] = Inr []"
| "load_areas J F areasDir ((n, isdir) # es) =
     (if \<not> isdir then load_areas J F areasDir es
      else (case loadArea J F (path_Join [areasDir, n]) of
              Inl e \<Rightarrow> Inl e
            | Inr a \<Rightarrow> map_sum id (\<lambda>r. a # r) (load_areas J F areasDir es)))"

text \<open>
  \<open>Source.Pull\<close>.  \<open>sort.Slice\<close> is not stable, so for areas that share an identifier Go may leave
  them in another order than \<open>sort_key\<close> does.
\<close>

definition local_Pull :: "json_lib \<Rightarrow> kb_fs \<Rightarrow> gostring \<Rightarrow> snapshot res" where
  "local_Pull J F root =
     (let areasDir = path_Join [root, ''areas''] in
      case fs_isdir F areasDir of
        Inl e \<Rightarrow> Inl (wrapf ''local kb: stat %q: %w'' [areasDir] e)
      | Inr isdir \<Rightarrow>
          if \<not> isdir then Inl (errorf ''local kb: %q is not a directory'' [areasDir])
          else (case fs_readdir F areasDir of
                  Inl e \<Rightarrow> Inl (wrapf ''local kb: read %q: %w'' [areasDir] e)
                | Inr entries \<Rightarrow>
                    map_sum id (\<lambda>as. \<lparr>Commit = [], ChangedAreas = [], Areas = sort_key a_ID as\<rparr>)
                      (load_areas J F areasDir entries)))"

definition local_DiffSince :: "gostring \<Rightarrow> diff_result" where
  "local_DiffSince prev = DiffNotSupported"

section \<open>The git clone\<close>

text \<open>
  The calls of go-git on the world: whether the work directory has a \<open>.git\<close>, making it, cloning
  (URL, branch), opening, pulling with \<open>Force\<close> (an up-to-date repository is no error), the hash
  of \<open>HEAD\<close>, the hard reset, resolving a revision to the hash of its commit, and the file
  patches between two commits with their old and new paths.
\<close>

record 'w git_lib =
  gl_isRepo :: "gostring \<Rightarrow> 'w \<Rightarrow> bool \<times> 'w"
  gl_mkdir :: "gostring \<Rightarrow> 'w \<Rightarrow> gomsg option \<times> 'w"
  gl_clone :: "gostring \<Rightarrow> gostring \<Rightarrow> gostring option \<Rightarrow> 'w \<Rightarrow> gomsg option \<times> 'w"
  gl_open :: "gostring \<Rightarrow> 'w \<Rightarrow> gomsg option \<times> 'w"
  gl_worktree :: "gostring \<Rightarrow> 'w \<Rightarrow> gomsg option \<times> 'w"
  gl_pull :: "gostring \<Rightarrow> 'w \<Rightarrow> gomsg option \<times> 'w"
  gl_head :: "gostring \<Rightarrow> 'w \<Rightarrow> gostring res \<times> 'w"
  gl_reset :: "gostring \<Rightarrow> gostring \<Rightarrow> 'w \<Rightarrow> gomsg option \<times> 'w"
  gl_commit :: "gostring \<Rightarrow> gostring \<Rightarrow> 'w \<Rightarrow> gostring res \<times> 'w"
  gl_patch :: "gostring \<Rightarrow> gostring \<Rightarrow> gostring \<Rightarrow> 'w \<Rightarrow> (gostring option \<times> gostring option) list res \<times> 'w"

record git_source =
  gs_remote :: gostring
  gs_workDir :: gostring
  gs_branch :: gostring

definition git_clone :: "'w git_lib \<Rightarrow> git_source \<Rightarrow> 'w \<Rightarrow> gostring res \<times> 'w" where
  "git_clone G s w =
     (case gl_mkdir G (gs_workDir s) w of
        (Some e, w) \<Rightarrow> (Inl (wrapf ''git kb: mkdir workdir: %w'' [] e), w)
      | (None, w) \<Rightarrow>
          (case gl_clone G (gs_workDir s) (gs_remote s)
                  (if gs_branch s \<noteq> [] then Some (gs_branch s) else None) w of
             (Some e, w) \<Rightarrow> (Inl (wrapf ''git kb: clone %s: %w'' [gs_remote s] e), w)
           | (None, w) \<Rightarrow>
               (case gl_head G (gs_workDir s) w of
                  (Inl e, w) \<Rightarrow> (Inl (wrapf ''git kb: HEAD: %w'' [] e), w)
                | (Inr h, w) \<Rightarrow> (Inr h, w))))"

definition fetchAndReset :: "'w git_lib \<Rightarrow> git_source \<Rightarrow> 'w \<Rightarrow> gostring res \<times> 'w" where
  "fetchAndReset G s w =
     (case gl_open G (gs_workDir s) w of
        (Some e, w) \<Rightarrow> (Inl (wrapf ''git kb: open workdir: %w'' [] e), w)
      | (None, w) \<Rightarrow>
          (case gl_worktree G (gs_workDir s) w of
             (Some e, w) \<Rightarrow> (Inl (wrapf ''git kb: worktree: %w'' [] e), w)
           | (None, w) \<Rightarrow>
               (case gl_pull G (gs_workDir s) w of
                  (Some e, w) \<Rightarrow> (Inl (wrapf ''git kb: pull: %w'' [] e), w)
                | (None, w) \<Rightarrow>
                    (case gl_head G (gs_workDir s) w of
                       (Inl e, w) \<Rightarrow> (Inl (wrapf ''git kb: HEAD: %w'' [] e), w)
                     | (Inr h, w) \<Rightarrow>
                         (case gl_reset G (gs_workDir s) h w of
                            (Some e, w) \<Rightarrow> (Inl (wrapf ''git kb: reset: %w'' [] e), w)
                          | (None, w) \<Rightarrow> (Inr h, w))))))"

definition cloneOrFetch :: "'w git_lib \<Rightarrow> git_source \<Rightarrow> 'w \<Rightarrow> gostring res \<times> 'w" where
  "cloneOrFetch G s w =
     (case gl_isRepo G (gs_workDir s) w of
        (True, w) \<Rightarrow> fetchAndReset G s w
      | (False, w) \<Rightarrow> git_clone G s w)"

text \<open>\<open>fs w\<close>: the file system of the world \<open>w\<close>.\<close>

definition git_Pull :: "json_lib \<Rightarrow> ('w \<Rightarrow> kb_fs) \<Rightarrow> 'w git_lib \<Rightarrow> git_source \<Rightarrow> 'w \<Rightarrow> snapshot res \<times> 'w" where
  "git_Pull J fs G s w =
     (case cloneOrFetch G s w of
        (Inl e, w) \<Rightarrow> (Inl e, w)
      | (Inr c, w) \<Rightarrow> (map_sum id (\<lambda>snap. snap\<lparr>Commit := c\<rparr>) (local_Pull J (fs w) (gs_workDir s)), w))"

definition areaIDForPath :: "gostring \<Rightarrow> gostring" where
  "areaIDForPath p =
     (case strip_prefix ''areas/'' p of
        None \<Rightarrow> []
      | Some rest \<Rightarrow>
          (case IndexByte rest SLASH of
             None \<Rightarrow> []
           | Some i \<Rightarrow> if i = 0 then [] else take i rest))"

text \<open>\<open>sortStrings\<close>: the inner loop swaps \<open>s[j-1]\<close> and \<open>s[j]\<close> while they are out of order.\<close>

fun sink_down :: "nat \<Rightarrow> gostring list \<Rightarrow> gostring list" where
  "sink_down 0 s = s"
| "sink_down (Suc j) s =
     (if s ! j > s ! Suc j then sink_down j (s[j := s ! Suc j, Suc j := s ! j]) else s)"

definition sortStrings :: "gostring list \<Rightarrow> gostring list" where
  "sortStrings s = fold sink_down [1..<length s] s"

definition patch_paths :: "(gostring option \<times> gostring option) list \<Rightarrow> gostring list" where
  "patch_paths fps = concat (map (\<lambda>(from, to). case_option [] (\<lambda>p. [p]) from @ case_option [] (\<lambda>p. [p]) to) fps)"

text \<open>
  \<open>seen\<close> is a set; its elements come out of the range over the map in some order, which the sort
  removes, so the list without duplicates stands for it.
\<close>

definition changed_areas :: "(gostring option \<times> gostring option) list \<Rightarrow> gostring list" where
  "changed_areas fps = sortStrings (remdups (filter (\<lambda>a. a \<noteq> []) (map areaIDForPath (patch_paths fps))))"

definition git_DiffSince :: "'w git_lib \<Rightarrow> git_source \<Rightarrow> gostring \<Rightarrow> 'w \<Rightarrow> diff_result \<times> 'w" where
  "git_DiffSince G s prev w =
     (if prev = [] then (DiffNotSupported, w)
      else (case gl_open G (gs_workDir s) w of
              (Some e, w) \<Rightarrow> (DiffFailed (wrapf ''git kb diff: open: %w'' [] e), w)
            | (None, w) \<Rightarrow>
                (case gl_commit G (gs_workDir s) prev w of
                   (Inl e, w) \<Rightarrow> (DiffFailed (wrapf ''git kb diff: prev commit %s: %w'' [prev] e), w)
                 | (Inr p, w) \<Rightarrow>
                     (case gl_commit G (gs_workDir s) ''HEAD'' w of
                        (Inl e, w) \<Rightarrow> (DiffFailed (wrapf ''git kb diff: head: %w'' [] e), w)
                      | (Inr h, w) \<Rightarrow>
                          if p = h then (Changed [], w)
                          else (case gl_patch G (gs_workDir s) p h w of
                                  (Inl e, w) \<Rightarrow> (DiffFailed (wrapf ''git kb diff: patch: %w'' [] e), w)
                                | (Inr fps, w) \<Rightarrow> (Changed (changed_areas fps), w))))))"

section \<open>Latest version wins\<close>

text \<open>
  The specification of an append-only file: its lines are the versions of entries, an entry stands
  where its identifier was first seen and has the contents of its last version.
\<close>

definition first_seen :: "gostring list \<Rightarrow> gostring list" where
  "first_seen ids = rev (remdups (rev ids))"

definition pick :: "(gostring \<Rightarrow> entry option option) \<Rightarrow> gostring list \<Rightarrow> entry list" where
  "pick m is = concat (map (\<lambda>i. case m i of Some (Some e) \<Rightarrow> [e] | _ \<Rightarrow> []) is)"

definition resolve_versions :: "version list \<Rightarrow> entry list" where
  "resolve_versions vs = pick (map_of (rev vs)) (first_seen (map fst vs))"

fun decode_all :: "json_lib \<Rightarrow> gostring list \<Rightarrow> version list res" where
  "decode_all J [] = Inr []"
| "decode_all J (l # ls) =
     (if TrimSpace l = [] then decode_all J ls
      else (case decode_line J (TrimSpace l) of
              Inl e \<Rightarrow> Inl (wrapf ''parse entry: %w (line: %s)'' [TrimSpace l] e)
            | Inr v \<Rightarrow> map_sum id (\<lambda>vs. v # vs) (decode_all J ls)))"

lemma first_seen_snoc: "first_seen (is @ [i]) = (if i \<in> set is then first_seen is else first_seen is @ [i])"
  by (simp add: first_seen_def)

lemma set_first_seen [simp]: "set (first_seen is) = set is"
  by (simp add: first_seen_def)

lemma distinct_first_seen [simp]: "distinct (first_seen is)"
  by (simp add: first_seen_def)

lemma first_seen_distinct: "distinct is \<Longrightarrow> first_seen is = is"
  by (simp add: first_seen_def distinct_remdups_id)

lemma pick_simps [simp]:
  "pick m [] = []"
  "pick m (i # is) = (case m i of Some (Some e) \<Rightarrow> [e] | _ \<Rightarrow> []) @ pick m is"
  "pick m (is @ js) = pick m is @ pick m js"
  by (simp_all add: pick_def)

text \<open>The state of the loop after the versions \<open>vs\<close>.\<close>

definition state_of :: "version list \<Rightarrow> jsonl_state" where
  "state_of vs = \<lparr>js_order = first_seen (map fst vs), js_latest = map_of (rev vs)\<rparr>"

lemma store_state: "store_version v (state_of vs) = state_of (vs @ [v])"
proof -
  have "map_of (rev vs) (fst v) = None \<longleftrightarrow> fst v \<notin> fst ` set vs" by (simp add: map_of_eq_None_iff)
  then show ?thesis by (cases v) (auto simp: store_version_def state_of_def first_seen_snoc)
qed

lemma load_lines_state:
  "load_lines J ls (state_of us) = map_sum id (\<lambda>vs. state_of (us @ vs)) (decode_all J ls)"
proof (induction J ls arbitrary: us rule: decode_all.induct)
  case (2 J l ls)
  show ?case
  proof (cases "TrimSpace l = []")
    case False
    show ?thesis
    proof (cases "decode_line J (TrimSpace l)")
      case (Inr v)
      have "load_lines J ls (state_of (us @ [v])) = map_sum id (\<lambda>vs. state_of ((us @ [v]) @ vs)) (decode_all J ls)"
        by (rule "2.IH"(2) [OF False Inr])
      with False Inr show ?thesis
        by (simp add: Let_def store_state sum.map_comp comp_def id_def)
    qed (use False in \<open>simp add: Let_def\<close>)
  qed (use 2 in \<open>simp add: Let_def\<close>)
qed simp

lemma live_state: "live_entries (state_of vs) = resolve_versions vs"
  by (simp add: live_entries_def state_of_def resolve_versions_def pick_def)

text \<open>
  C31. Reading an append-only file of entries gives every entry once, where its identifier was first
  seen, with the contents of its last version, and leaves out the entries whose last version is a
  tombstone; the first line that does not decode, or else the line that is too long or the read
  fault, is the error.
\<close>

theorem jsonl_latest_wins:
  "loadJSONL J (Opened s fault) =
     (case scan_lines s fault of
        (ls, err) \<Rightarrow>
          (case decode_all J ls of
             Inl e \<Rightarrow> Inl (False, e)
           | Inr vs \<Rightarrow> (case err of Some e \<Rightarrow> Inl (False, e) | None \<Rightarrow> Inr (resolve_versions vs))))"
proof -
  have "\<lparr>js_order = [], js_latest = Map.empty\<rparr> = state_of []" by (simp add: state_of_def first_seen_def)
  then show ?thesis
    by (auto simp: loadJSONL_def load_lines_state live_state split: sum.splits option.splits prod.splits)
qed

subsection \<open>Appending to a file\<close>

definition named :: "(gostring \<Rightarrow> entry option option) \<Rightarrow> bool" where
  "named m = (\<forall>i e. m i = Some (Some e) \<longrightarrow> e_ID e = i)"

lemma pick_ids: "named m \<Longrightarrow> map e_ID (pick m is) = filter (\<lambda>i. \<exists>e. m i = Some (Some e)) is"
  by (induction "is") (auto simp: named_def split: option.splits)

lemma pick_cong: "(\<And>i. i \<in> set is \<Longrightarrow> m i = n i) \<Longrightarrow> pick m is = pick n is"
  by (simp add: pick_def cong: map_cong)

lemma pick_mem: "i \<in> set is \<Longrightarrow> m i = Some (Some n) \<Longrightarrow> n \<in> set (pick m is)"
  by (induction "is") auto

lemma pick_delete: "named m \<Longrightarrow> pick (m(i := Some None)) is = filter (\<lambda>e. e_ID e \<noteq> i) (pick m is)"
  by (induction "is") (auto simp: named_def split: option.splits)

lemma pick_replace:
  "named m \<Longrightarrow> m i = Some (Some o') \<Longrightarrow>
     pick (m(i := Some (Some n))) is = map (\<lambda>e. if e_ID e = i then n else e) (pick m is)"
  by (induction "is") (auto simp: named_def split: option.splits)

lemma pick_other:
  "named m \<Longrightarrow> e_ID n = i \<Longrightarrow>
     filter (\<lambda>e. e_ID e \<noteq> i) (pick (m(i := Some (Some n))) is) = filter (\<lambda>e. e_ID e \<noteq> i) (pick m is)"
  by (induction "is") (auto simp: named_def split: option.splits)

lemma pick_all: "distinct (map e_ID es) \<Longrightarrow> pick (map_of (map (\<lambda>e. (e_ID e, Some e)) es)) (map e_ID es) = es"
proof (induction es)
  case (Cons e es)
  then have "pick (map_of (map (\<lambda>e. (e_ID e, Some e)) (e # es))) (map e_ID es) =
      pick (map_of (map (\<lambda>e. (e_ID e, Some e)) es)) (map e_ID es)"
    using Cons.prems by (intro pick_cong) (simp, metis imageE)
  with Cons show ?case by (simp add: fun_upd_def)
qed simp

lemma decode_named:
  assumes "decode_all J ls = Inr vs"
  shows "named (map_of (rev vs))"
proof -
  have "snd v = Some e \<longrightarrow> e_ID e = fst v" if "decode_line J l = Inr v" for l v e
    using that by (auto simp: decode_line_def entry_of_def split: sum.splits if_splits)
  with assms have "\<forall>v \<in> set vs. \<forall>e. snd v = Some e \<longrightarrow> e_ID e = fst v"
    by (induction J ls arbitrary: vs rule: decode_all.induct) (fastforce split: if_splits sum.splits simp: map_sum_def)+
  then show ?thesis by (fastforce simp: named_def dest!: map_of_SomeD)
qed

lemma live_id:
  assumes "named (map_of (rev vs))"
  shows "i \<in> e_ID ` set (resolve_versions vs) \<longleftrightarrow> (\<exists>e. map_of (rev vs) i = Some (Some e))"
proof -
  have "e_ID ` set (resolve_versions vs) = set (filter (\<lambda>i. \<exists>e. map_of (rev vs) i = Some (Some e)) (first_seen (map fst vs)))"
    using pick_ids [OF assms, of "first_seen (map fst vs)"]
    by (simp add: resolve_versions_def flip: set_map)
  moreover have "i \<in> fst ` set vs" if "map_of (rev vs) i = Some (Some e)" for e
    using that by (force dest!: map_of_SomeD)
  ultimately show ?thesis by auto
qed

text \<open>
  What appending to the file does: identifiers stay unique, a tombstone removes its entry and
  nothing else, a new version replaces a live entry where it stands, a version of an identifier never
  seen goes to the end, a version of a deleted one brings it back, and compacting the file to its
  live entries changes nothing.
\<close>

theorem jsonl_append_only:
  "case decode_all J ls of
     Inl e \<Rightarrow> True
   | Inr vs \<Rightarrow>
       distinct (map e_ID (resolve_versions vs)) \<and>
       resolve_versions (vs @ [(i, None)]) = filter (\<lambda>e. e_ID e \<noteq> i) (resolve_versions vs) \<and>
       (let r = resolve_versions (vs @ [(e_ID n, Some n)]) in
        if e_ID n \<in> e_ID ` set (resolve_versions vs)
        then r = map (\<lambda>e. if e_ID e = e_ID n then n else e) (resolve_versions vs)
        else if e_ID n \<in> fst ` set vs
        then n \<in> set r \<and> filter (\<lambda>e. e_ID e \<noteq> e_ID n) r = resolve_versions vs
        else r = resolve_versions vs @ [n]) \<and>
       resolve_versions (map (\<lambda>e. (e_ID e, Some e)) (resolve_versions vs)) = resolve_versions vs"
proof (cases "decode_all J ls")
  case (Inr vs)
  let ?m = "map_of (rev vs)" and ?is = "first_seen (map fst vs)"
  have m: "named ?m" by (rule decode_named [OF Inr])
  have d: "distinct (map e_ID (resolve_versions vs))"
    using pick_ids [OF m, of ?is] by (simp add: resolve_versions_def)
  have del: "resolve_versions (vs @ [(i, None)]) = filter (\<lambda>e. e_ID e \<noteq> i) (resolve_versions vs)"
    using pick_delete [OF m, of i ?is] by (simp add: resolve_versions_def first_seen_snoc)
  have live: "e_ID n \<in> e_ID ` set (resolve_versions vs) \<longleftrightarrow> (\<exists>e. ?m (e_ID n) = Some (Some e))"
    by (rule live_id [OF m])
  let ?r = "resolve_versions (vs @ [(e_ID n, Some n)])"
  have r: "?r = pick (?m(e_ID n \<mapsto> Some n)) ?is @ (if e_ID n \<in> fst ` set vs then [] else [n])"
    by (simp add: resolve_versions_def first_seen_snoc)
  have replaced: "?r = map (\<lambda>e. if e_ID e = e_ID n then n else e) (resolve_versions vs)"
    if "?m (e_ID n) = Some (Some e)" for e
  proof -
    have "e_ID n \<in> fst ` set vs" using that by (force dest!: map_of_SomeD)
    with r pick_replace [OF m that, of n ?is] show ?thesis by (simp add: resolve_versions_def)
  qed
  have gone: "filter (\<lambda>e. e_ID e \<noteq> e_ID n) (resolve_versions vs) = resolve_versions vs"
    if "e_ID n \<notin> e_ID ` set (resolve_versions vs)"
    using that by (intro filter_True) (metis imageI)
  have revived: "n \<in> set ?r \<and> filter (\<lambda>e. e_ID e \<noteq> e_ID n) ?r = resolve_versions vs"
    if "e_ID n \<notin> e_ID ` set (resolve_versions vs)" and "e_ID n \<in> fst ` set vs"
  proof -
    have "filter (\<lambda>e. e_ID e \<noteq> e_ID n) ?r = resolve_versions vs"
      using r that pick_other [OF m refl, of n ?is] gone by (simp add: resolve_versions_def)
    moreover have "n \<in> set (pick (?m(e_ID n \<mapsto> Some n)) ?is)"
      by (rule pick_mem [of "e_ID n"]) (use that(2) in simp_all)
    ultimately show ?thesis using r that by simp
  qed
  have new: "?r = resolve_versions vs @ [n]" if "e_ID n \<notin> fst ` set vs"
  proof -
    have "pick (?m(e_ID n \<mapsto> Some n)) ?is = pick ?m ?is"
      by (intro pick_cong) (metis fun_upd_other set_first_seen set_map that)
    with r that show ?thesis by (simp add: resolve_versions_def)
  qed
  have ids: "map fst (map (\<lambda>e. (e_ID e, Some e)) (resolve_versions vs)) = map e_ID (resolve_versions vs)" by simp
  have "map_of (rev (map (\<lambda>e. (e_ID e, Some e)) (resolve_versions vs))) =
      map_of (map (\<lambda>e. (e_ID e, Some e)) (resolve_versions vs))"
    using d by (subst map_of_inject_set) (simp_all add: comp_def rev_map [symmetric])
  with d ids have "resolve_versions (map (\<lambda>e. (e_ID e, Some e)) (resolve_versions vs)) = resolve_versions vs"
    by (simp only: resolve_versions_def [of "map _ _"] first_seen_distinct pick_all)
  with Inr d del live replaced revived new show ?thesis
    by (auto simp: Let_def)
qed simp

section \<open>The sort of the changed areas\<close>

text \<open>One round of the inner loop inserts the element at \<open>j\<close> into the sorted elements before it.\<close>

lemma insort_before: "x < z \<Longrightarrow> insort x (zs @ [z]) = insort x zs @ [z]"
  by (induction zs) auto

lemma sink_down_insert:
  assumes "sorted xs" and "length xs = j"
  shows "sink_down j (xs @ x # ys) = insort x xs @ ys"
  using assms
proof (induction j arbitrary: xs ys)
  case (Suc j)
  then obtain zs z where xs: "xs = zs @ [z]" and zs: "sorted zs" "length zs = j" "\<forall>y \<in> set zs. y \<le> z"
    by (cases xs rule: rev_cases) (auto simp: sorted_append)
  show ?case
  proof (cases "x < z")
    case True
    have "sink_down (Suc j) (xs @ x # ys) = sink_down j (zs @ x # z # ys)"
      using True xs zs by (simp add: nth_append list_update_append)
    also have "\<dots> = insort x zs @ z # ys" using Suc.IH [OF zs(1,2)] .
    also have "\<dots> = insort x xs @ ys"
      using True insort_before [of x z zs] xs by simp
    finally show ?thesis .
  next
    case False
    then have "insort x xs = xs @ [x]"
      using xs zs Suc.prems(1) by (intro sorted_insort_is_snoc) force+
    with False xs zs show ?thesis by (simp add: nth_append)
  qed
qed simp

lemma sort_rounds:
  "k \<le> length s \<Longrightarrow> fold sink_down [1..<k] s = sort (take k s) @ drop k s"
proof (induction k)
  case (Suc k)
  show ?case
  proof (cases "k = 0")
    case True
    with Suc show ?thesis by (cases s) auto
  next
    case False
    then have "fold sink_down [1..<Suc k] s = sink_down k (sort (take k s) @ s ! k # drop (Suc k) s)"
      using Suc by (simp add: Cons_nth_drop_Suc)
    also have "\<dots> = insort (s ! k) (sort (take k s)) @ drop (Suc k) s"
      using Suc by (intro sink_down_insert) auto
    also have "insort (s ! k) (sort (take k s)) = sort (take (Suc k) s)"
      using Suc by (intro properties_for_sort [symmetric]) (simp_all add: take_Suc_conv_app_nth sorted_insort)
    finally show ?thesis .
  qed
qed simp

lemma sortStrings_sort [simp]: "sortStrings s = sort s"
  using sort_rounds [of "length s" s] by (simp add: sortStrings_def)

lemma changed_areas_set:
  "set (changed_areas fps) = areaIDForPath ` set (patch_paths fps) - {[]}"
  by (auto simp: changed_areas_def)

section \<open>The diff of two commits names every changed area\<close>

text \<open>The directory of an area, and when two work trees have the same files of it.\<close>

definition area_dir :: "gostring \<Rightarrow> gostring \<Rightarrow> gostring" where
  "area_dir root d = path_Join [path_Join [root, ''areas''], d]"

definition listed :: "kb_fs \<Rightarrow> gostring \<Rightarrow> gostring \<Rightarrow> bool" where
  "listed F root d = (case fs_readdir F (path_Join [root, ''areas'']) of Inl e \<Rightarrow> False | Inr es \<Rightarrow> (d, True) \<in> set es)"

definition same_area_files :: "kb_fs \<Rightarrow> kb_fs \<Rightarrow> gostring \<Rightarrow> gostring \<Rightarrow> bool" where
  "same_area_files F F' root d =
     (listed F root d = listed F' root d \<and>
      fs_readfile F (path_Join [area_dir root d, ''area.json'']) =
        fs_readfile F' (path_Join [area_dir root d, ''area.json'']) \<and>
      list_all (\<lambda>n. fs_open F (path_Join [area_dir root d, n]) = fs_open F' (path_Join [area_dir root d, n])) area_files)"

text \<open>Every area whose files differ has a path below its directory among those of a patch.\<close>

definition patch_complete :: "gostring \<Rightarrow> kb_fs \<Rightarrow> kb_fs \<Rightarrow> (gostring option \<times> gostring option) list \<Rightarrow> bool" where
  "patch_complete root F F' fps =
     (\<forall>d. listed F root d \<or> listed F' root d \<longrightarrow>
        same_area_files F F' root d \<or> list_ex (\<lambda>q. HasPrefix q (''areas/'' @ d @ ''/'')) (patch_paths fps))"

text \<open>The layout of a brain: the directory of an area has the area's identifier as its name.\<close>

definition dirs_named :: "json_lib \<Rightarrow> kb_fs \<Rightarrow> gostring \<Rightarrow> bool" where
  "dirs_named J F root =
     (\<forall>d a. listed F root d \<longrightarrow>
        d \<noteq> [] \<and> SLASH \<notin> set d \<and> (loadArea J F (area_dir root d) = Inr a \<longrightarrow> a_ID a = d))"

lemma areaIDForPath_below:
  assumes "HasPrefix q (''areas/'' @ d @ ''/'')" and "d \<noteq> []" and "SLASH \<notin> set d"
  shows "areaIDForPath q = d"
proof -
  obtain r where q: "q = ''areas/'' @ d @ SLASH # r"
    using assms(1) by (auto simp: HasPrefix_iff prefix_def)
  have "IndexByte (d @ SLASH # r) SLASH = Some (length d)" using assms(3) by (induction d) auto
  moreover have "strip_prefix ''areas/'' q = Some (d @ SLASH # r)" using q by (simp add: strip_prefix_Some)
  ultimately show ?thesis using assms(2) by (simp add: areaIDForPath_def)
qed

lemma load_files_same:
  "list_all (\<lambda>n. fs_open F (path_Join [dir, n]) = fs_open F' (path_Join [dir, n])) ns \<Longrightarrow>
     load_files J F dir ns = load_files J F' dir ns"
  by (induction ns) (auto simp: Let_def split: sum.splits prod.splits)

lemma loadArea_same:
  assumes "same_area_files F F' root d"
  shows "loadArea J F (area_dir root d) = loadArea J F' (area_dir root d)"
proof -
  have "load_files J F (area_dir root d) area_files = load_files J F' (area_dir root d) area_files"
    using assms by (intro load_files_same) (simp add: same_area_files_def)
  with assms show ?thesis by (simp add: loadArea_def same_area_files_def Let_def split: sum.split)
qed

lemma load_areas_set:
  "load_areas J F dir es = Inr as \<Longrightarrow>
     set as = {a. \<exists>d. (d, True) \<in> set es \<and> loadArea J F (path_Join [dir, d]) = Inr a} \<and>
     (\<forall>d. (d, True) \<in> set es \<longrightarrow> (\<exists>a. loadArea J F (path_Join [dir, d]) = Inr a))"
proof (induction es arbitrary: "as")
  case (Cons e es)
  obtain n isdir where e: "e = (n, isdir)" by fastforce
  show ?case
  proof (cases isdir)
    case True
    with Cons.prems e obtain a bs where a: "loadArea J F (path_Join [dir, n]) = Inr a"
      and bs: "load_areas J F dir es = Inr bs" "as = a # bs"
      by (auto split: sum.splits simp: map_sum_def)
    from Cons.IH [OF bs(1)] show ?thesis using True e a bs(2) by auto
  next
    case False
    with Cons e show ?thesis by auto
  qed
qed simp

text \<open>The area \<open>d\<close> of a pulled snapshot is what the directory \<open>d\<close> holds.\<close>

lemma Area_of_directory:
  assumes "local_Pull J F root = Inr s" and "dirs_named J F root"
  shows "Area s d = (if listed F root d then (case loadArea J F (area_dir root d) of Inl _ \<Rightarrow> None | Inr a \<Rightarrow> Some a) else None)"
proof -
  obtain es as where es: "fs_readdir F (path_Join [root, ''areas'']) = Inr es"
    and as: "load_areas J F (path_Join [root, ''areas'']) es = Inr as" and s: "Areas s = sort_key a_ID as"
    using assms(1) by (auto simp: local_Pull_def Let_def split: sum.splits if_splits simp: map_sum_def)
  have mem: "a \<in> set (Areas s) \<longleftrightarrow> (\<exists>d. listed F root d \<and> loadArea J F (area_dir root d) = Inr a)" for a
    using load_areas_set [OF as] s es by (auto simp add: listed_def area_dir_def)
  have name: "a_ID a = d" if "listed F root d" "loadArea J F (area_dir root d) = Inr a" for a d
    using assms(2) that by (simp add: dirs_named_def)
  show ?thesis
  proof (cases "listed F root d")
    case True
    then obtain a where a: "loadArea J F (area_dir root d) = Inr a"
      using load_areas_set [OF as] es by (auto simp: listed_def area_dir_def)
    then have "a \<in> set (Areas s)" "a_ID a = d" using mem name True by blast+
    then obtain b where b: "Area s d = Some b" using Area_None [of s d] by (cases "Area s d") auto
    then have "b \<in> set (Areas s)" "a_ID b = d" using Area_Some by blast+
    then obtain d' where "listed F root d'" "loadArea J F (area_dir root d') = Inr b" using mem by blast
    with \<open>a_ID b = d\<close> name a have "b = a" by fastforce
    with True a b show ?thesis by simp
  next
    case False
    then have "d \<notin> a_ID ` set (Areas s)" using mem name by fastforce
    with False show ?thesis by (simp add: Area_None)
  qed
qed

lemma unchanged_area:
  assumes "local_Pull J F root = Inr s" and "dirs_named J F root"
    and "local_Pull J F' root = Inr t" and "dirs_named J F' root"
    and "patch_complete root F F' fps" and "d \<notin> set (changed_areas fps)"
  shows "Area s d = Area t d"
proof -
  consider "\<not> listed F root d" "\<not> listed F' root d" | "same_area_files F F' root d"
    | q where "q \<in> set (patch_paths fps)" "HasPrefix q (''areas/'' @ d @ ''/'')" "listed F root d \<or> listed F' root d"
    using assms(5) by (auto simp: patch_complete_def list_ex_iff)
  then show ?thesis
  proof cases
    case 1
    with Area_of_directory [OF assms(1,2)] Area_of_directory [OF assms(3,4)] show ?thesis by simp
  next
    case 2
    with loadArea_same [OF 2, of J] Area_of_directory [OF assms(1,2)] Area_of_directory [OF assms(3,4)]
    show ?thesis by (simp add: same_area_files_def)
  next
    case 3
    then have "d \<noteq> []" "SLASH \<notin> set d" using assms(2,4) by (auto simp: dirs_named_def)
    then have "d \<in> set (changed_areas fps)"
      using areaIDForPath_below [OF 3(2)] 3(1) by (force simp: changed_areas_set)
    with assms(6) show ?thesis by contradiction
  qed
qed

end
