(* ===== verification/GitRun.thy ===== *)
theory GitRun
  imports RunProps KBSources
begin

text \<open>
  A run that reads its knowledge base from a git clone: the diff of the git source is truthful, which
  is what skipping unchanged specs (\<open>RunProps.projection_skip_sound\<close>) relies on.
\<close>

section \<open>Commits, work trees and patches\<close>

text \<open>
  What git documents of them.  The tree of a commit has the content of every path.  A work tree shows it: the
  directory of an area is there when the tree has a path below it, and what reading a file gives depends on the
  path and the tree alone.  A patch has an entry for every path that differs, with the old path
  when the old tree has the path and with the new path when the new tree has it: of a new file there is no old path, of
  a deleted one no new path, and of a renamed one the two differ.
\<close>

type_synonym git_tree = "gostring \<rightharpoonup> gostring"

definition area_path :: "gostring \<Rightarrow> gostring \<Rightarrow> gostring" where
  "area_path d n = ''areas/'' @ d @ ''/'' @ n"

definition shows_tree :: "gostring \<Rightarrow> git_tree \<Rightarrow> kb_fs \<Rightarrow> bool" where
  "shows_tree root T F = (\<forall>d. d \<noteq> [] \<longrightarrow> SLASH \<notin> set d \<longrightarrow> (listed F root d \<longleftrightarrow> (\<exists>n. T (area_path d n) \<noteq> None)))"

definition reads_alike :: "gostring \<Rightarrow> git_tree \<Rightarrow> kb_fs \<Rightarrow> git_tree \<Rightarrow> kb_fs \<Rightarrow> bool" where
  "reads_alike root T F T' F' =
     (\<forall>d. listed F root d \<or> listed F' root d \<longrightarrow>
        (\<forall>n \<in> set (''area.json'' # area_files). T (area_path d n) = T' (area_path d n) \<longrightarrow>
        fs_readfile F (path_Join [area_dir root d, n]) = fs_readfile F' (path_Join [area_dir root d, n]) \<and>
        fs_open F (path_Join [area_dir root d, n]) = fs_open F' (path_Join [area_dir root d, n])))"

definition patch_of :: "git_tree \<Rightarrow> git_tree \<Rightarrow> (gostring option \<times> gostring option) list \<Rightarrow> bool" where
  "patch_of T T' fps =
     (\<forall>q. T q \<noteq> T' q \<longrightarrow>
        (T q \<noteq> None \<longrightarrow> Some q \<in> fst ` set fps) \<and> (T' q \<noteq> None \<longrightarrow> Some q \<in> snd ` set fps))"

text \<open>
  A clone in \<open>wd\<close> whose \<open>HEAD\<close> stays at the commit of the pulled snapshot, with one directory per area, named
  like it.  \<open>at p\<close> is the file system with the work tree of the commit \<open>p\<close> checked out, \<open>tree p\<close> its tree, and
  \<open>kb c\<close> the knowledge base at the revision \<open>c\<close>.
\<close>

definition git_history ::
  "json_lib \<Rightarrow> (gostring \<Rightarrow> git_tree) \<Rightarrow> (gostring \<Rightarrow> kb_fs) \<Rightarrow> 'w git_lib \<Rightarrow> gostring \<Rightarrow> (gostring \<Rightarrow> snapshot) \<Rightarrow> snapshot \<Rightarrow> bool" where
  "git_history J tree at G wd kb snap =
     (kb (Commit snap) = snap \<and> Areas (kb ''HEAD'') = Areas snap \<and>
      (\<forall>c w p w'. gl_commit G wd c w = (Inr p, w') \<longrightarrow>
         dirs_named J (at p) wd \<and> shows_tree wd (tree p) (at p) \<and>
         (\<exists>s. local_Pull J (at p) wd = Inr s \<and> Areas s = Areas (kb c))) \<and>
      (\<forall>p h. reads_alike wd (tree p) (at p) (tree h) (at h)) \<and>
      (\<forall>p h w fps w'. gl_patch G wd p h w = (Inr fps, w') \<longrightarrow> patch_of (tree p) (tree h) fps))"

lemma patch_paths_set: "q \<in> set (patch_paths fps) \<longleftrightarrow> Some q \<in> fst ` set fps \<or> Some q \<in> snd ` set fps"
  by (force simp: patch_paths_def image_iff split: option.splits prod.splits)

lemma patch_of_paths: "patch_of T T' fps \<Longrightarrow> T q \<noteq> T' q \<Longrightarrow> q \<in> set (patch_paths fps)"
  unfolding patch_of_def patch_paths_set by metis

lemma patch_of_complete:
  assumes "dirs_named J F root" and "dirs_named J F' root" and "shows_tree root T F" and "shows_tree root T' F'"
    and "reads_alike root T F T' F'" and "patch_of T T' fps"
  shows "patch_complete root F F' fps"
  unfolding patch_complete_def
proof (intro allI impI)
  fix d assume "listed F root d \<or> listed F' root d"
  note d' = this
  with assms(1,2) have d: "d \<noteq> []" "SLASH \<notin> set d" by (auto simp: dirs_named_def)
  show "same_area_files F F' root d \<or> list_ex (\<lambda>q. HasPrefix q (''areas/'' @ d @ ''/'')) (patch_paths fps)"
  proof (cases "\<exists>n. T (area_path d n) \<noteq> T' (area_path d n)")
    case True
    then obtain n where "area_path d n \<in> set (patch_paths fps)" using patch_of_paths [OF assms(6)] by blast
    moreover have "HasPrefix (area_path d n) (''areas/'' @ d @ ''/'')"
      using HasPrefix_append [of "''areas/'' @ d @ ''/''" n] by (simp add: area_path_def)
    ultimately show ?thesis unfolding list_ex_iff by blast
  next
    case False
    then have same: "T (area_path d n) = T' (area_path d n)" for n by blast
    from assms(3,4) d have "listed F root d \<longleftrightarrow> (\<exists>n. T (area_path d n) \<noteq> None)" "listed F' root d \<longleftrightarrow> (\<exists>n. T' (area_path d n) \<noteq> None)"
      unfolding shows_tree_def by blast+
    with same have "listed F root d = listed F' root d" by simp
    moreover from assms(5) same d' have
      "n \<in> set (''area.json'' # area_files) \<Longrightarrow>
         fs_readfile F (path_Join [area_dir root d, n]) = fs_readfile F' (path_Join [area_dir root d, n]) \<and>
         fs_open F (path_Join [area_dir root d, n]) = fs_open F' (path_Join [area_dir root d, n])" for n
      unfolding reads_alike_def by blast
    ultimately show ?thesis by (simp add: same_area_files_def list_all_iff)
  qed
qed

lemma git_diff_Changed:
  assumes "git_DiffSince G s c w = (Changed areas, w')"
  shows "\<exists>w1 w2 w3 p h. gl_commit G (gs_workDir s) c w1 = (Inr p, w2) \<and>
    gl_commit G (gs_workDir s) ''HEAD'' w2 = (Inr h, w3) \<and>
    (p = h \<or> (\<exists>fps. gl_patch G (gs_workDir s) p h w3 = (Inr fps, w') \<and> areas = changed_areas fps))"
  using assms unfolding git_DiffSince_def
  by (simp split: if_splits prod.splits sum.splits option.splits) blast+

lemma Area_cong: "Areas s = Areas t \<Longrightarrow> Area s i = Area t i"
  by (simp add: Area_def)

text \<open>
  C32. The git source names every area that changed, deleted ones and those a file was moved out of included: when the
  brain has one directory per area, named like it, and git behaves as documented, an area that
  \<open>DiffSince\<close> does not name is the same in the pulled snapshot as at the commit asked for, whatever
  commit that is.
\<close>

theorem git_diff_truthful:
  assumes "git_history J tree at G (gs_workDir src) kb snap" and "KB_DiffSince d = git_DiffSince G src"
  shows "truthful d kb snap"
  unfolding truthful_def
proof (intro conjI allI impI)
  show "kb (Commit snap) = snap" using assms(1) by (simp add: git_history_def)
next
  fix c w w' areas i
  assume diff: "KB_DiffSince d c w = (Changed areas, w')" and i: "i \<notin> set areas"
  let ?wd = "gs_workDir src"
  from git_diff_Changed diff assms(2) obtain w1 w2 w3 p h where
    p: "gl_commit G ?wd c w1 = (Inr p, w2)" and h: "gl_commit G ?wd ''HEAD'' w2 = (Inr h, w3)" and
    ph: "p = h \<or> (\<exists>fps. gl_patch G ?wd p h w3 = (Inr fps, w') \<and> areas = changed_areas fps)" by metis
  have at: "dirs_named J (at q) ?wd \<and> shows_tree ?wd (tree q) (at q) \<and> (\<exists>s. local_Pull J (at q) ?wd = Inr s \<and> Areas s = Areas (kb r))"
    if "gl_commit G ?wd r v = (Inr q, v')" for q r v v'
    using assms(1) that unfolding git_history_def by blast
  from at [OF p] obtain s where s: "local_Pull J (at p) ?wd = Inr s" "Areas s = Areas (kb c)" by blast
  from at [OF h] obtain t where t: "local_Pull J (at h) ?wd = Inr t" "Areas t = Areas (kb ''HEAD'')" by blast
  have "Area s i = Area t i"
  proof (cases "p = h")
    case True
    with s t show ?thesis by simp
  next
    case False
    with ph obtain fps where fps: "gl_patch G ?wd p h w3 = (Inr fps, w')" "areas = changed_areas fps" by blast
    have "patch_of (tree p) (tree h) fps" "reads_alike ?wd (tree p) (at p) (tree h) (at h)"
      using assms(1) fps(1) unfolding git_history_def by blast+
    with at [OF p] at [OF h] have "patch_complete ?wd (at p) (at h) fps" by (intro patch_of_complete) auto
    then show ?thesis
      using unchanged_area [OF s(1) _ t(1)] at [OF p] at [OF h] i fps(2) by simp
  qed
  moreover have "Areas (kb ''HEAD'') = Areas snap" using assms(1) by (simp add: git_history_def)
  ultimately show "Area (kb c) i = Area snap i"
    using Area_cong [OF s(2)] Area_cong [OF t(2)] Area_cong [of "kb ''HEAD''" snap] by simp
qed

text \<open>The brain of the two commits above as files, and a clone of it.\<close>

definition net_json :: json_lib where
  "net_json =
     \<lparr>js_entry = (\<lambda>l. Inl (errorf l [])),
      js_area = (\<lambda>b. Inr (if b = ''data'' then \<lparr>am_ID = ''db'', am_Name = ''Db'', am_Summary = b, am_Tags = None\<rparr>
                          else \<lparr>am_ID = ''net'', am_Name = ''Net'', am_Summary = b, am_Tags = None\<rparr>)),
      js_strings = (\<lambda>b. Inr []), js_string = (\<lambda>b. Inr b)\<rparr>"

definition net_tree :: "gostring \<Rightarrow> kb_fs" where
  "net_tree c =
     \<lparr>fs_isdir = (\<lambda>p. Inr True),
      fs_readdir = (\<lambda>p. Inr [(''db'', True), (''net'', True)]),
      fs_readfile = (\<lambda>p. Inr (if p = ''brain/areas/net/area.json'' then if c = ''c2'' then ''new'' else ''old'' else ''data'')),
      fs_open = (\<lambda>p. NotExist (errorf p []))\<rparr>"

definition net_clone :: "curator_world git_lib" where
  "net_clone =
     \<lparr>gl_isRepo = (\<lambda>wd w. (True, w)), gl_mkdir = (\<lambda>wd w. (None, w)), gl_clone = (\<lambda>wd r b w. (None, w)),
      gl_open = (\<lambda>wd w. (None, w)), gl_worktree = (\<lambda>wd w. (None, w)), gl_pull = (\<lambda>wd w. (None, w)),
      gl_head = (\<lambda>wd w. (Inr ''c2'', w)), gl_reset = (\<lambda>wd h w. (None, w)),
      gl_commit = (\<lambda>wd r w. (if r = ''HEAD'' \<or> r = ''c2'' then Inr ''c2''
                            else if r = ''c1'' then Inr ''c1'' else Inl (errorf r []), w)),
      gl_patch = (\<lambda>wd p h w. (Inr (if (p = ''c2'') = (h = ''c2'') then []
                                  else [(Some ''areas/net/area.json'', Some ''areas/net/area.json'')]), w))\<rparr>"

definition net_source :: git_source where
  "net_source = \<lparr>gs_remote = ''git@kb'', gs_workDir = ''brain'', gs_branch = []\<rparr>"

definition net_revisions :: "gostring \<Rightarrow> snapshot" where
  "net_revisions c =
     (let s = (if c = ''HEAD'' then net_history ''c2'' else net_history c) in s\<lparr>Areas := rev (Areas s)\<rparr>)"

lemma net_paths:
  "path_Join [''brain'', ''areas''] = ''brain/areas''"
  "area_dir ''brain'' ''net'' = ''brain/areas/net''" "area_dir ''brain'' ''db'' = ''brain/areas/db''"
  "path_Join [''brain/areas'', ''net''] = ''brain/areas/net''" "path_Join [''brain/areas'', ''db''] = ''brain/areas/db''"
  "path_Join [''brain/areas/net'', ''area.json''] = ''brain/areas/net/area.json''"
  "path_Join [''brain/areas/db'', ''area.json''] = ''brain/areas/db/area.json''"
  by code_simp+

lemma net_area:
  "loadArea net_json (net_tree c) ''brain/areas/net'' =
     Inr \<lparr>a_ID = ''net'', a_Name = ''Net'', a_Summary = (if c = ''c2'' then ''new'' else ''old''), a_Tags = [], a_Entries = []\<rparr>"
  "loadArea net_json (net_tree c) ''brain/areas/db'' =
     Inr \<lparr>a_ID = ''db'', a_Name = ''Db'', a_Summary = ''data'', a_Tags = [], a_Entries = []\<rparr>"
  by (simp_all add: loadArea_def net_json_def net_tree_def net_paths tags_of_def area_files_def loadJSONL_def Let_def)

lemma net_pull:
  "\<exists>s. local_Pull net_json (net_tree c) ''brain'' = Inr s \<and> Areas s = rev (Areas (net_history (if c = ''c2'' then c else ''c1'')))"
proof -
  have tree: "fs_isdir (net_tree c) p = Inr True" "fs_readdir (net_tree c) p = Inr [(''db'', True), (''net'', True)]" for p
    by (simp_all add: net_tree_def)
  show ?thesis
    by (simp add: local_Pull_def net_paths net_area tree net_history_def net_kb_def Let_def)
qed

lemma net_named: "dirs_named net_json (net_tree c) ''brain''"
  using net_area [of c] by (auto simp: dirs_named_def listed_def net_tree_def net_paths)

definition net_blobs :: "gostring \<Rightarrow> git_tree" where
  "net_blobs c = [''areas/db/area.json'' \<mapsto> ''data'', ''areas/net/area.json'' \<mapsto> if c = ''c2'' then ''new'' else ''old'']"

lemma net_area_path:
  assumes "SLASH \<notin> set d"
  shows "net_blobs c (area_path d n) =
     (if d = ''db'' \<and> n = ''area.json'' then Some ''data''
      else if d = ''net'' \<and> n = ''area.json'' then Some (if c = ''c2'' then ''new'' else ''old'') else None)"
proof -
  have split: "area_path d n = ''areas/'' @ e @ SLASH # ''area.json'' \<longleftrightarrow> d = e \<and> n = ''area.json''" if "SLASH \<notin> set e" for e
    using first_byte_split [of d SLASH n e "''area.json''"] that assms by (auto simp: area_path_def)
  have "net_blobs c q = (if q = ''areas/net/'' @ ''area.json'' then Some (if c = ''c2'' then ''new'' else ''old'')
      else if q = ''areas/db/'' @ ''area.json'' then Some ''data'' else None)" for q by (simp add: net_blobs_def)
  moreover from split [of "''db''"] split [of "''net''"]
  have "area_path d n = ''areas/db/'' @ ''area.json'' \<longleftrightarrow> d = ''db'' \<and> n = ''area.json''"
    "area_path d n = ''areas/net/'' @ ''area.json'' \<longleftrightarrow> d = ''net'' \<and> n = ''area.json''" by simp_all
  ultimately show ?thesis by (simp only: if_cancel) (simp split: if_split)
qed

lemma net_shows: "shows_tree ''brain'' (net_blobs c) (net_tree c)"
  by (auto simp: shows_tree_def net_area_path listed_def net_tree_def split: if_splits)

lemma net_files:
  "list_all (\<lambda>n. path_Join [''brain/areas/db'', n] \<noteq> ''brain/areas/net/area.json'') (''area.json'' # area_files)"
  "list_all (\<lambda>n. path_Join [''brain/areas/net'', n] \<noteq> ''brain/areas/net/area.json'') area_files"
  by code_simp+

lemma net_alike: "reads_alike ''brain'' (net_blobs p) (net_tree p) (net_blobs h) (net_tree h)"
  unfolding reads_alike_def
proof (intro allI impI ballI)
  fix d n assume listed: "listed (net_tree p) ''brain'' d \<or> listed (net_tree h) ''brain'' d" and n: "n \<in> set (''area.json'' # area_files)"
    and same: "net_blobs p (area_path d n) = net_blobs h (area_path d n)"
  have other: "f \<noteq> ''brain/areas/net/area.json'' \<Longrightarrow> fs_readfile (net_tree p) f = fs_readfile (net_tree h) f" for f
    by (simp add: net_tree_def)
  have "fs_readfile (net_tree p) (path_Join [area_dir ''brain'' d, n]) = fs_readfile (net_tree h) (path_Join [area_dir ''brain'' d, n])"
  proof (cases "d = ''db''")
    case True
    have "path_Join [''brain/areas/db'', n] \<noteq> ''brain/areas/net/area.json''"
      using n net_files(1) unfolding list_all_iff by blast
    then show ?thesis unfolding True net_paths(3) by (rule other)
  next
    case False
    with listed have d: "d = ''net''" by (auto simp: listed_def net_tree_def)
    show ?thesis
    proof (cases "n = ''area.json''")
      case True
      with same d have "(p = ''c2'') = (h = ''c2'')" by (simp add: net_area_path split: if_splits)
      then show ?thesis by (simp add: net_tree_def)
    next
      case False
      with n have "n \<in> set area_files" by simp
      then have "path_Join [''brain/areas/net'', n] \<noteq> ''brain/areas/net/area.json''"
        using net_files(2) unfolding list_all_iff by blast
      then show ?thesis unfolding d net_paths(2) by (rule other)
    qed
  qed
  moreover have "fs_open (net_tree p) f = fs_open (net_tree h) f" for f by (simp add: net_tree_def)
  ultimately show "fs_readfile (net_tree p) (path_Join [area_dir ''brain'' d, n]) = fs_readfile (net_tree h) (path_Join [area_dir ''brain'' d, n]) \<and>
      fs_open (net_tree p) (path_Join [area_dir ''brain'' d, n]) = fs_open (net_tree h) (path_Join [area_dir ''brain'' d, n])" by blast
qed

lemma net_patch: "gl_patch net_clone wd p h w = (Inr fps, w') \<Longrightarrow> patch_of (net_blobs p) (net_blobs h) fps"
  by (auto simp: patch_of_def net_clone_def net_blobs_def split: if_splits)

lemma net_git_history:
  "git_history net_json net_blobs net_tree net_clone ''brain'' net_revisions (net_revisions ''c2'')"
proof -
  have "\<exists>s. local_Pull net_json (net_tree p) ''brain'' = Inr s \<and> Areas s = Areas (net_revisions c)"
    if "gl_commit net_clone ''brain'' c w = (Inr p, w')" for c w p w'
  proof -
    from that have "net_history (if p = ''c2'' then p else ''c1'') = (if c = ''HEAD'' then net_history ''c2'' else net_history c)"
      by (auto simp: net_clone_def net_history_def split: if_splits)
    with net_pull [of p] show ?thesis by (auto simp: net_revisions_def Let_def)
  qed
  moreover have "net_revisions (Commit (net_revisions ''c2'')) = net_revisions ''c2''"
    by (simp add: net_revisions_def net_history_def net_kb_def)
  moreover have "Areas (net_revisions ''HEAD'') = Areas (net_revisions ''c2'')"
    by (simp add: net_revisions_def)
  ultimately show ?thesis
    using net_named net_shows net_alike net_patch unfolding git_history_def by blast
qed

theorem git_diff_truthful_witness:
  "truthful ((diffing ''net'')\<lparr>KB_DiffSince := git_DiffSince net_clone net_source\<rparr>) net_revisions (net_revisions ''c2'')"
  using git_diff_truthful [of net_json net_blobs net_tree net_clone net_source] net_git_history
  by (simp add: net_source_def)

end
