(* ===== verification/Diagrams.thy ===== *)
theory Diagrams
  imports Passes Llm Go_Regexp
begin

text \<open>
  The RenderDiagrams pass (passes/renderdiagrams): diagram sources are rendered to images, which are
  uploaded to the wiki; a source that does not render is handed to a repairer with the renderer's
  error, a bounded number of times, and kept as it is when that does not help.  The repairer is the
  LLM (llmrepairer.go), the renderer the mermaid command line tool (mmdc.go), whose process and
  temporary directory are a parameter.

  \<open>err.Error()\<close>, the text of an error, is the parameter \<open>message\<close>.
\<close>

section \<open>The interfaces\<close>

text \<open>What \<open>Render\<close> answers; \<open>Unsupported\<close> is an error for which \<open>errors.Is(err, ErrUnsupportedLang)\<close> holds.\<close>

datatype render_result = Rendered (img: gostring) (img_type: gostring) | Unsupported gomsg | RenderFailed gomsg

type_synonym 'w renderer_fn = "gostring \<Rightarrow> gostring \<Rightarrow> 'w \<Rightarrow> render_result \<times> 'w"
type_synonym 'w repair_fn = "gostring \<Rightarrow> gostring \<Rightarrow> gostring \<Rightarrow> 'w \<Rightarrow> gostring res \<times> 'w"
type_synonym 'w upload_fn = "gostring \<Rightarrow> gostring \<Rightarrow> gostring \<Rightarrow> gostring \<Rightarrow> 'w \<Rightarrow> gostring res \<times> 'w"

record 'w diagrams =
  dg_Render :: "'w renderer_fn"
  dg_Upload :: "'w upload_fn"
  dg_Repair :: "'w repair_fn option"
  dg_message :: "gomsg \<Rightarrow> gostring"

section \<open>The pass\<close>

definition maxRepairAttempts :: nat where "maxRepairAttempts = 4"

definition assetFilename :: "gostring \<Rightarrow> gostring \<Rightarrow> gostring" where
  "assetFilename lang source = ''diagram-'' @ take 16 (sha256_hex (lang @ [NUL] @ source)) @ ''.png''"

text \<open>
  The repair loop with \<open>n\<close> attempts left: \<open>Some (image, type)\<close> as soon as a fix renders, \<open>None\<close>
  when the repairer fails, has nothing new, or the attempts are used up.
\<close>

fun repair_loop ::
  "'w diagrams \<Rightarrow> 'w repair_fn \<Rightarrow> gostring \<Rightarrow> nat \<Rightarrow> gostring \<Rightarrow> gostring \<Rightarrow> 'w \<Rightarrow> (gostring \<times> gostring) option \<times> 'w" where
  "repair_loop D rp lang 0 cur lastErr w = (None, w)"
| "repair_loop D rp lang (Suc n) cur lastErr w =
     (case rp lang cur lastErr w of
        (Inl e, w) \<Rightarrow> (None, w)
      | (Inr fixed, w) \<Rightarrow>
          if TrimSpace fixed = [] \<or> fixed = cur then (None, w)
          else (case dg_Render D lang fixed w of
                  (Rendered i t, w) \<Rightarrow> (Some (i, t), w)
                | (Unsupported e, w) \<Rightarrow> repair_loop D rp lang n fixed (dg_message D e) w
                | (RenderFailed e, w) \<Rightarrow> repair_loop D rp lang n fixed (dg_message D e) w))"

definition upload_image ::
  "'w diagrams \<Rightarrow> gostring \<Rightarrow> gostring \<Rightarrow> provenance \<Rightarrow> gostring \<Rightarrow> gostring \<Rightarrow> 'w \<Rightarrow> block res \<times> 'w" where
  "upload_image D lang source prov i t w =
     (let filename = assetFilename lang source;
          summary = ''curator: render diagram'' @
                    (if SpecSection prov \<noteq> [] then '' for '' @ SpecSection prov else []) in
      case dg_Upload D filename i t summary w of
        (Inl e, w) \<Rightarrow> (Inl (wrapf ''renderdiagrams: upload %q: %w'' [filename] e), w)
      | (Inr ref, w) \<Rightarrow> (Inr (DiagramBlock lang source ref prov), w))"

text \<open>\<open>renderOne\<close> on a diagram of language \<open>lang\<close> with the source \<open>source\<close> and the asset \<open>asset\<close>.\<close>

definition renderOne ::
  "'w diagrams \<Rightarrow> gostring \<Rightarrow> gostring \<Rightarrow> gostring \<Rightarrow> provenance \<Rightarrow> 'w \<Rightarrow> block res \<times> 'w" where
  "renderOne D lang source asset prov w =
     (if source = [] \<or> asset \<noteq> [] then (Inr (DiagramBlock lang source asset prov), w)
      else (case dg_Render D lang source w of
              (Rendered i t, w) \<Rightarrow> upload_image D lang source prov i t w
            | (Unsupported e, w) \<Rightarrow> (Inr (DiagramBlock lang source asset prov), w)
            | (RenderFailed e, w) \<Rightarrow>
                (case dg_Repair D of
                   None \<Rightarrow> (Inr (DiagramBlock lang source asset prov), w)
                 | Some rp \<Rightarrow>
                     (case repair_loop D rp lang maxRepairAttempts source (dg_message D e) w of
                        (None, w) \<Rightarrow> (Inr (DiagramBlock lang source asset prov), w)
                      | (Some (i, t), w) \<Rightarrow> upload_image D lang source prov i t w))))"

text \<open>
  \<open>Apply\<close> writes into the slice of blocks and stops at the first error, with what it has written so
  far in the document it returns.
\<close>

fun render_blocks :: "'w diagrams \<Rightarrow> block list \<Rightarrow> 'w \<Rightarrow> (block list \<times> gomsg option) \<times> 'w" where
  "render_blocks D [] w = (([], None), w)"
| "render_blocks D (b # bs) w =
     (case (case b of DiagramBlock lang source asset prov \<Rightarrow> renderOne D lang source asset prov w | _ \<Rightarrow> (Inr b, w)) of
        (Inl e, w) \<Rightarrow> ((b # bs, Some e), w)
      | (Inr b', w) \<Rightarrow> (case render_blocks D bs w of ((bs', r), w) \<Rightarrow> ((b' # bs', r), w)))"

fun diagram_sections :: "'w diagrams \<Rightarrow> ir_section list \<Rightarrow> 'w \<Rightarrow> (ir_section list \<times> gomsg option) \<times> 'w" where
  "diagram_sections D [] w = (([], None), w)"
| "diagram_sections D (s # ss) w =
     (case render_blocks D (Blocks s) w of
        ((bs, Some e), w) \<Rightarrow> ((s\<lparr>Blocks := bs\<rparr> # ss, Some e), w)
      | ((bs, None), w) \<Rightarrow>
          (case diagram_sections D ss w of ((ss', r), w) \<Rightarrow> ((s\<lparr>Blocks := bs\<rparr> # ss', r), w)))"

definition RenderDiagrams :: "'w diagrams \<Rightarrow> 'w pass" where
  "RenderDiagrams D =
     \<lparr>pass_Name = ''render-diagrams'',
      pass_Apply = (\<lambda>doc w. case diagram_sections D (Sections doc) w of
                              ((ss, r), w) \<Rightarrow> ((doc\<lparr>Sections := ss\<rparr>, r), w))\<rparr>"

section \<open>The repairer\<close>

definition repairSystemPrompt :: gostring where
  "repairSystemPrompt =
     ''You fix invalid diagram source for a renderer. '' @
     ''Output ONLY the corrected diagram source '' @ em_dash @ '' no explanation, no prose, '' @
     ''no markdown code fences. Preserve the author'' @ [APOS] @ ''s intent and content; '' @
     ''change only what is needed to make it parse. For mermaid: never put '' @
     ''backticks, unescaped parentheses or slashes inside node labels; quote '' @
     ''multi-word subgraph titles.''"

abbreviation fence :: gostring where "fence \<equiv> [BACKQUOTE, BACKQUOTE, BACKQUOTE]"

definition stripFence :: "gostring \<Rightarrow> gostring" where
  "stripFence s =
     (case IndexStr s fence of
        None \<Rightarrow> TrimSpace s
      | Some i \<Rightarrow>
          (let rest = drop (i + 3) s;
               rest = (case IndexByte rest NL of Some nl \<Rightarrow> drop (Suc nl) rest | None \<Rightarrow> rest) in
           case IndexStr rest fence of
             Some j \<Rightarrow> TrimSpace (take j rest)
           | None \<Rightarrow> TrimSpace s))"

definition repair_prompt :: "gostring \<Rightarrow> gostring \<Rightarrow> gostring \<Rightarrow> gostring" where
  "repair_prompt lang source renderErr =
     ''The following '' @ lang @ '' diagram failed to render.'' @ [NL, NL] @ ''Renderer error:'' @ [NL] @
     renderErr @ [NL, NL] @ ''Diagram source:'' @ [NL] @ source @ [NL, NL] @
     ''Return the corrected '' @ lang @ '' diagram source only.''"

definition llm_Repair :: "'w llm_client \<Rightarrow> gostring \<Rightarrow> 'w repair_fn" where
  "llm_Repair c model lang source renderErr w =
     (case c (ask model repairSystemPrompt (repair_prompt lang source renderErr) 2048) w of
        (Inl e, w) \<Rightarrow> (Inl (wrapf ''renderdiagrams: llm repair: %w'' [] e), w)
      | (Inr resp, w) \<Rightarrow> (Inr (stripFence (Text resp)), w))"

section \<open>The mermaid renderer\<close>

text \<open>
  The two patterns of the package.  The first one, matched against one line, is a scanner: the
  indented keyword with the spaces after it, and the title without the spaces at the end of the line.
\<close>

definition subgraph_parts :: "gostring \<Rightarrow> (gostring \<times> gostring) option" where
  "subgraph_parts line =
     (let a = takeWhile re_space line in
      case strip_prefix ''subgraph'' (dropWhile re_space line) of
        None \<Rightarrow> None
      | Some r \<Rightarrow>
          (let sp = takeWhile re_space r; t = rev (dropWhile re_space (rev (dropWhile re_space r))) in
           if sp = [] \<or> t = [] then None else Some (a @ ''subgraph'' @ sp, t)))"

definition has_paren :: "gostring \<Rightarrow> bool" where
  "has_paren s = list_ex (\<lambda>c. c = CHR ''('' \<or> c = CHR '')'') s"

definition fix_subgraph :: "gostring \<Rightarrow> gostring" where
  "fix_subgraph line =
     (case subgraph_parts line of
        None \<Rightarrow> line
      | Some (m, title) \<Rightarrow>
          if HasPrefix title [QUOT] \<or> CHR ''['' \<in> set title then line
          else if has_paren title then m @ [QUOT] @ title @ [QUOT] else line)"

definition label_char :: "char \<Rightarrow> bool" where
  "label_char c = (c \<noteq> CHR ''['' \<and> c \<noteq> CHR '']'' \<and> c \<noteq> CHR ''/'')"

definition reMermaidLabel :: re where
  "reMermaidLabel = Seqs [Lit ''['', Group 1 (Plus (Cls label_char)), Lit '']'']"

definition quote_label :: "gostring \<Rightarrow> gostring" where
  "quote_label inner =
     (if HasPrefix inner [QUOT] \<and> HasSuffix inner [QUOT] then inner
      else if has_paren inner \<or> CHR '':'' \<in> set inner then [QUOT] @ inner @ [QUOT]
      else inner)"

definition SanitizeMermaid :: "gostring \<Rightarrow> gostring" where
  "SanitizeMermaid src =
     (let s = Join [NL] (map fix_subgraph (Split NL src));
          s = replace_all_func reMermaidLabel (\<lambda>c. ''['' @ quote_label (group_text c 1) @ '']'') s
      in replace_byte BACKQUOTE [] s)"

definition MmdcArgs :: "gostring \<Rightarrow> gostring \<Rightarrow> gostring \<Rightarrow> gostring list" where
  "MmdcArgs puppeteer inp out =
     [''-i'', inp, ''-o'', out, ''-e'', ''png''] @ (if puppeteer \<noteq> [] then [''-p'', puppeteer] else [])"

text \<open>
  The file system and the process of \<open>Render\<close>: making a temporary directory, writing a file,
  running a command (its combined output with the error), reading a file, and removing the
  directory, which the deferred call does on every return.
\<close>

record 'w tool =
  tl_mkdirTemp :: "'w \<Rightarrow> gostring res \<times> 'w"
  tl_write :: "gostring \<Rightarrow> gostring \<Rightarrow> 'w \<Rightarrow> gomsg option \<times> 'w"
  tl_run :: "gostring \<Rightarrow> gostring list \<Rightarrow> 'w \<Rightarrow> (gomsg \<times> gostring) option \<times> 'w"
  tl_read :: "gostring \<Rightarrow> 'w \<Rightarrow> gostring res \<times> 'w"
  tl_removeAll :: "gostring \<Rightarrow> 'w \<Rightarrow> 'w"

abbreviation ErrUnsupportedLang :: gomsg where
  "ErrUnsupportedLang \<equiv> errorf ''renderdiagrams: unsupported diagram language'' []"

definition mermaid_in_dir :: "'w tool \<Rightarrow> gostring \<Rightarrow> gostring \<Rightarrow> gostring \<Rightarrow> gostring \<Rightarrow> 'w \<Rightarrow> render_result \<times> 'w" where
  "mermaid_in_dir T bin puppeteer source dir w =
     (let inp = dir @ ''/diagram.mmd''; out = dir @ ''/diagram.png'' in
      case tl_write T inp (SanitizeMermaid source) w of
        (Some e, w) \<Rightarrow> (RenderFailed (wrapf ''mmdc: write source: %w'' [] e), w)
      | (None, w) \<Rightarrow>
          (case tl_run T bin (MmdcArgs puppeteer inp out) w of
             (Some (e, combined), w) \<Rightarrow> (RenderFailed (wrapf ''mmdc: run: %w; output=%s'' [combined] e), w)
           | (None, w) \<Rightarrow>
               (case tl_read T out w of
                  (Inl e, w) \<Rightarrow> (RenderFailed (wrapf ''mmdc: read output: %w'' [] e), w)
                | (Inr png, w) \<Rightarrow> (Rendered png ''image/png'', w))))"

definition mermaid_Render :: "'w tool \<Rightarrow> gostring \<Rightarrow> gostring \<Rightarrow> 'w renderer_fn" where
  "mermaid_Render T bin puppeteer lang source w =
     (if lang \<noteq> [] \<and> lang \<noteq> ''mermaid'' then (Unsupported (wrapf ''%w: %q'' [lang] ErrUnsupportedLang), w)
      else (case tl_mkdirTemp T w of
              (Inl e, w) \<Rightarrow> (RenderFailed (wrapf ''mmdc: tempdir: %w'' [] e), w)
            | (Inr dir, w) \<Rightarrow>
                (case mermaid_in_dir T (if bin = [] then ''mmdc'' else bin) puppeteer source dir w of
                   (r, w) \<Rightarrow> (r, tl_removeAll T dir w))))"

section \<open>What the pass changes\<close>

text \<open>\<open>with_asset b b'\<close>: the block may have become a diagram with an asset, nothing else.\<close>

fun with_asset :: "block \<Rightarrow> block \<Rightarrow> bool" where
  "with_asset (DiagramBlock lang source asset prov) b' =
     (b' = DiagramBlock lang source asset prov \<or>
      source \<noteq> [] \<and> asset = [] \<and> (\<exists>ref. b' = DiagramBlock lang source ref prov))"
| "with_asset b b' = (b' = b)"

lemma with_asset_refl [simp]: "with_asset b b"
  by (cases b) auto

text \<open>The last call of the pass was an upload that failed.\<close>

definition upload_failed :: "'w diagrams \<Rightarrow> 'w \<Rightarrow> bool" where
  "upload_failed D w' = (\<exists>f i t s w e. dg_Upload D f i t s w = (Inl e, w'))"

lemma upload_image_result:
  "upload_image D lang source prov i t w = (Inr b', w') \<Longrightarrow> \<exists>ref. b' = DiagramBlock lang source ref prov"
  by (auto simp: upload_image_def Let_def split: prod.splits sum.splits)

lemma upload_image_error:
  "upload_image D lang source prov i t w = (Inl e, w') \<Longrightarrow> upload_failed D w'"
  unfolding upload_image_def upload_failed_def Let_def by (fastforce split: prod.splits sum.splits)

lemma renderOne_asset:
  assumes "renderOne D lang source asset prov w = (Inr b', w')"
  shows "with_asset (DiagramBlock lang source asset prov) b'"
  using assms
  by (auto simp: renderOne_def dest: upload_image_result
      split: if_splits prod.splits render_result.splits option.splits)

lemma renderOne_error:
  assumes "renderOne D lang source asset prov w = (Inl e, w')"
  shows "upload_failed D w'"
  using assms
  by (auto simp: renderOne_def dest: upload_image_error
      split: if_splits prod.splits render_result.splits option.splits)

text \<open>The result on one block, the diagrams being the blocks that can change.\<close>

definition step_block :: "'w diagrams \<Rightarrow> block \<Rightarrow> 'w \<Rightarrow> block res \<times> 'w" where
  "step_block D b w =
     (case b of DiagramBlock lang source asset prov \<Rightarrow> renderOne D lang source asset prov w | _ \<Rightarrow> (Inr b, w))"

lemma step_block_ok: "step_block D b w = (Inr b', w') \<Longrightarrow> with_asset b b'"
  by (cases b) (auto simp: step_block_def dest!: renderOne_asset)

lemma step_block_error: "step_block D b w = (Inl e, w') \<Longrightarrow> upload_failed D w'"
  by (cases b) (auto simp: step_block_def dest!: renderOne_error)

lemma render_blocks_step:
  "render_blocks D (b # bs) w =
     (case step_block D b w of
        (Inl e, w) \<Rightarrow> ((b # bs, Some e), w)
      | (Inr b', w) \<Rightarrow> (case render_blocks D bs w of ((bs', r), w) \<Rightarrow> ((b' # bs', r), w)))"
  by (simp add: step_block_def)

declare render_blocks.simps(2) [simp del]

lemma render_blocks_assets:
  "render_blocks D bs w = ((bs', r), w') \<Longrightarrow>
     list_all2 with_asset bs bs' \<and>
     (r = None \<or> upload_failed D w')"
proof (induction bs arbitrary: bs' w r w')
  case (Cons b bs)
  show ?case
  proof (cases "step_block D b w")
    case (Pair x w1)
    show ?thesis
    proof (cases x)
      case (Inl e)
      with Cons.prems Pair have "bs' = b # bs" "w' = w1" by (auto simp: render_blocks_step)
      moreover have "upload_failed D w1" using step_block_error [of D b w e w1] Pair Inl by simp
      ultimately show ?thesis by (simp add: list.rel_refl)
    next
      case (Inr b')
      obtain cs r' w2 where "render_blocks D bs w1 = ((cs, r'), w2)" by (metis prod.collapse)
      with Cons Pair Inr step_block_ok show ?thesis by (force simp: render_blocks_step)
    qed
  qed
qed simp

definition section_with_assets :: "ir_section \<Rightarrow> ir_section \<Rightarrow> bool" where
  "section_with_assets s t = (Heading t = Heading s \<and> list_all2 with_asset (Blocks s) (Blocks t))"

lemma section_with_assets_refl [simp]: "section_with_assets s s"
  by (simp add: section_with_assets_def list.rel_refl)

lemma diagram_sections_assets:
  "diagram_sections D ss w = ((ss', r), w') \<Longrightarrow>
     list_all2 section_with_assets ss ss' \<and>
     (r = None \<or> upload_failed D w')"
proof (induction ss arbitrary: ss' w r w')
  case (Cons s ss)
  obtain bs r1 w1 where bs: "render_blocks D (Blocks s) w = ((bs, r1), w1)" by (metis prod.collapse)
  note B = render_blocks_assets [OF bs]
  then have s: "section_with_assets s (s\<lparr>Blocks := bs\<rparr>)" by (simp add: section_with_assets_def)
  show ?case
  proof (cases r1)
    case None
    obtain ts r2 w2 where ts: "diagram_sections D ss w1 = ((ts, r2), w2)" by (metis prod.collapse)
    with Cons.prems bs None have "ss' = s\<lparr>Blocks := bs\<rparr> # ts" "r = r2" "w' = w2" by auto
    with Cons.IH [OF ts] s show ?thesis by auto
  next
    case (Some e)
    with Cons.prems bs have "ss' = s\<lparr>Blocks := bs\<rparr> # ss" "r = Some e" "w' = w1" by auto
    with B s Some show ?thesis by (auto simp: list.rel_refl)
  qed
qed simp

text \<open>
  C33. A diagram never costs the page: whatever the renderer and the repairer do, the pass changes no
  block but a diagram with a source and no asset, and of that nothing but the asset; it only fails
  when an upload failed.
\<close>

theorem render_diagrams_degrades:
  "case pass_Apply (RenderDiagrams D) doc w of
     ((out, r), w') \<Rightarrow>
       list_all2 section_with_assets (Sections doc) (Sections out) \<and>
       Frontmatter out = Frontmatter doc \<and> Footer out = Footer doc \<and>
       (case r of
          None \<Rightarrow> True
        | Some e \<Rightarrow> upload_failed D w')"
proof -
  obtain ss r w' where "diagram_sections D (Sections doc) w = ((ss, r), w')" by (metis prod.collapse)
  with diagram_sections_assets [OF this] show ?thesis
    by (auto simp: RenderDiagrams_def split: option.splits)
qed

section \<open>What the pass costs\<close>

text \<open>\<open>calls n D\<close>: a call of a collaborator raises the count \<open>n\<close> by at most one.\<close>

definition calls :: "('w \<Rightarrow> nat) \<Rightarrow> 'w diagrams \<Rightarrow> bool" where
  "calls n D =
     ((\<forall>l s w. n (snd (dg_Render D l s w)) \<le> n w + 1) \<and>
      (\<forall>f i t s w. n (snd (dg_Upload D f i t s w)) \<le> n w + 1) \<and>
      (\<forall>rp l c e w. dg_Repair D = Some rp \<longrightarrow> n (snd (rp l c e w)) \<le> n w + 1))"

lemma callsD:
  assumes "calls n D"
  shows "dg_Render D l s w = (x, w') \<Longrightarrow> n w' \<le> n w + 1"
    and "dg_Upload D f i t s w = (y, w') \<Longrightarrow> n w' \<le> n w + 1"
    and "dg_Repair D = Some rp \<Longrightarrow> rp l c e w = (z, w') \<Longrightarrow> n w' \<le> n w + 1"
  using assms unfolding calls_def by (metis snd_conv)+

lemma repair_loop_calls:
  assumes "calls n D" and "dg_Repair D = Some rp"
  shows "repair_loop D rp lang k cur err w = (r, w') \<Longrightarrow> n w' \<le> n w + 2 * k"
proof (induction k arbitrary: cur err w)
  case (Suc k)
  obtain x w1 where rp: "rp lang cur err w = (x, w1)" by fastforce
  have 1: "n w1 \<le> n w + 1" by (rule callsD(3) [OF assms rp])
  show ?case
  proof (cases "\<exists>fixed. x = Inr fixed \<and> TrimSpace fixed \<noteq> [] \<and> fixed \<noteq> cur")
    case True
    then obtain fixed where fixed: "x = Inr fixed" "TrimSpace fixed \<noteq> []" "fixed \<noteq> cur" by blast
    obtain y w2 where rn: "dg_Render D lang fixed w1 = (y, w2)" by fastforce
    have 2: "n w2 \<le> n w1 + 1" by (rule callsD(1) [OF assms(1) rn])
    consider "w' = w2" | e where "repair_loop D rp lang k fixed e w2 = (r, w')"
      using Suc.prems rp fixed rn by (cases y) auto
    then show ?thesis using 1 2 Suc.IH by cases fastforce+
  next
    case False
    with Suc.prems rp have "w' = w1" by (auto split: sum.splits if_splits)
    with 1 show ?thesis by simp
  qed
qed simp

lemma upload_image_calls:
  "calls n D \<Longrightarrow> upload_image D lang source prov i t w = (r, w') \<Longrightarrow> n w' \<le> n w + 1"
  unfolding upload_image_def Let_def by (auto split: prod.splits sum.splits dest: callsD(2))

lemma renderOne_calls:
  assumes "calls n D" and "renderOne D lang source asset prov w = (r, w')"
  shows "n w' \<le> n w + 10"
proof -
  obtain x w1 where rn: "dg_Render D lang source w = (x, w1)" by fastforce
  have 1: "n w1 \<le> n w + 1" by (rule callsD(1) [OF assms(1) rn])
  consider "w' = w \<or> w' = w1" | i t where "upload_image D lang source prov i t w1 = (r, w')"
    | rp e p where "dg_Repair D = Some rp" "repair_loop D rp lang maxRepairAttempts source e w1 = (p, w')"
    | rp e p w2 i t where "dg_Repair D = Some rp" "repair_loop D rp lang maxRepairAttempts source e w1 = (p, w2)"
        "upload_image D lang source prov i t w2 = (r, w')"
    using assms(2) rn
    by (auto simp: renderOne_def split: if_splits prod.splits render_result.splits option.splits)
  then show ?thesis
  proof cases
    case 2
    with 1 upload_image_calls [OF assms(1)] show ?thesis by fastforce
  next
    case 3
    with 1 repair_loop_calls [OF assms(1) 3(1,2)] show ?thesis by (simp add: maxRepairAttempts_def)
  next
    case 4
    have "n w2 \<le> n w1 + 8" using repair_loop_calls [OF assms(1) 4(1,2)] by (simp add: maxRepairAttempts_def)
    with 1 4(3) upload_image_calls [OF assms(1)] show ?thesis by fastforce
  qed (use 1 in auto)
qed

definition is_diagram :: "block \<Rightarrow> bool" where
  "is_diagram b = (case b of DiagramBlock _ _ _ _ \<Rightarrow> True | _ \<Rightarrow> False)"

lemma step_block_calls:
  assumes "calls n D" and "step_block D b w = (r, w')"
  shows "n w' \<le> n w + (if is_diagram b then 10 else 0)"
  using assms renderOne_calls [OF assms(1)] by (cases b) (auto simp: step_block_def is_diagram_def)

lemma render_blocks_calls:
  assumes "calls n D"
  shows "render_blocks D bs w = ((bs', r), w') \<Longrightarrow> n w' \<le> n w + 10 * length (filter is_diagram bs)"
proof (induction bs arbitrary: bs' w r w')
  case (Cons b bs)
  obtain x w1 where x: "step_block D b w = (x, w1)" by fastforce
  have 1: "n w1 \<le> n w + (if is_diagram b then 10 else 0)" by (rule step_block_calls [OF assms x])
  obtain cs r2 w2 where cs: "render_blocks D bs w1 = ((cs, r2), w2)" by (metis prod.collapse)
  have "w' = w1 \<or> w' = w2"
    using Cons.prems x cs by (auto simp: render_blocks_step split: sum.splits)
  with 1 Cons.IH [OF cs] show ?case by (auto split: if_splits)
qed simp

text \<open>
  C34. Rendering is bounded: a diagram costs at most one render, four repairs with a render each, and
  one upload, so the pass makes at most ten calls per diagram of the document and none for any other
  block, however the collaborators answer.
\<close>

theorem diagram_calls_bounded:
  assumes "calls n D" and "pass_Apply (RenderDiagrams D) doc w = (r, w')"
  shows "n w' \<le> n w + 10 * length (filter is_diagram (doc_blocks doc))"
proof -
  have "n w' \<le> n w + 10 * length (filter is_diagram (concat (map Blocks ss)))"
    if "diagram_sections D ss w = ((ss', r), w')" for ss ss' r w w'
    using that
  proof (induction ss arbitrary: ss' r w w')
    case (Cons s ss)
    obtain bs r1 w1 where bs: "render_blocks D (Blocks s) w = ((bs, r1), w1)" by (metis prod.collapse)
    obtain ts r2 w2 where ts: "diagram_sections D ss w1 = ((ts, r2), w2)" by (metis prod.collapse)
    have "w' = w1 \<or> w' = w2" using Cons.prems bs ts by (auto split: option.splits)
    with render_blocks_calls [OF assms(1) bs] Cons.IH [OF ts] show ?case by auto
  qed simp
  with assms(2) show ?thesis
    by (auto simp: RenderDiagrams_def doc_blocks_def split: prod.splits)
qed

text \<open>A renderer that never succeeds and a repairer with ever new ideas reach the bound less the upload.\<close>

definition stubborn :: "nat diagrams" where
  "stubborn =
     \<lparr>dg_Render = (\<lambda>l s n. (RenderFailed (errorf ''parse error'' []), Suc n)),
      dg_Upload = (\<lambda>f i t s n. (Inr f, Suc n)),
      dg_Repair = Some (\<lambda>l c e n. (Inr (c @ ''x''), Suc n)),
      dg_message = msg_format\<rparr>"

definition one_diagram :: ir_document where
  "one_diagram = (new_document ''P'' [] [])\<lparr>Sections :=
     [\<lparr>Heading = ''D'', Blocks = [ProseBlock ''text'' no_prov, DiagramBlock ''mermaid'' ''graph'' [] no_prov]\<rparr>]\<rparr>"

theorem diagram_calls_bounded_witness:
  "pass_Apply (RenderDiagrams stubborn) one_diagram 0 = ((one_diagram, None), 9) \<and>
   (9::nat) \<le> 0 + 10 * length (filter is_diagram (doc_blocks one_diagram))"
proof -
  have run: "pass_Apply (RenderDiagrams stubborn) one_diagram 0 = ((one_diagram, None), 9)" by code_simp
  have "calls (\<lambda>n. n) stubborn" by (auto simp: calls_def stubborn_def)
  from diagram_calls_bounded [OF this run] run show ?thesis by simp
qed

end
