(* ===== verification/Mermaid.thy ===== *)
theory Mermaid
  imports Diagrams
begin

text \<open>
  The sanitizer of mermaid sources (passes/renderdiagrams/mmdc.go) is idempotent on sources without
  backticks.  The replacement of labels by a regular expression is a scanner over the brackets, and
  quoting labels puts no subgraph title into a state that needs quoting again.
\<close>

section \<open>Labels\<close>

text \<open>A label follows the byte \<open>c\<close>: an opening bracket, some label characters, a closing bracket.\<close>

definition at_label :: "char \<Rightarrow> gostring \<Rightarrow> bool" where
  "at_label c s =
     (c = CHR ''['' \<and> takeWhile label_char s \<noteq> [] \<and>
      (\<exists>u. dropWhile label_char s = CHR '']'' # u))"

function labels :: "gostring \<Rightarrow> gostring" where
  "labels [] = []"
| "labels (c # s) =
     (if at_label c s
      then CHR ''['' # quote_label (takeWhile label_char s) @ CHR '']'' # labels (tl (dropWhile label_char s))
      else c # labels s)"
  by pat_completeness auto
termination
proof (relation "measure length")
  fix c s
  have "length (dropWhile label_char s) \<le> length s" by (simp add: length_dropWhile_le)
  then show "(tl (dropWhile label_char s), c # s) \<in> measure length" by simp
qed auto

declare labels.simps(2) [simp del]

lemma label_matches:
  assumes "(d, t) \<in> set (matches reMermaidLabel p s)"
  obtains inner where "s = CHR ''['' # inner @ CHR '']'' # t" "inner \<noteq> []" "\<forall>c \<in> set inner. label_char c"
proof -
  note m = assms [unfolded reMermaidLabel_def Seqs.simps]
  from m obtain c1 t1 d1 where 1: "(c1, t1) \<in> set (matches (Lit ''['') p s)"
    "(d1, t) \<in> set (matches (Seq (Group 1 (Plus (Cls label_char))) (Seq (Lit '']'') Eps)) (before p s t1) t1)"
    by (rule matches_SeqE)
  from 1(2) obtain c2 t2 d2 where 2: "(c2, t2) \<in> set (matches (Group 1 (Plus (Cls label_char))) (before p s t1) t1)"
    "(d2, t) \<in> set (matches (Seq (Lit '']'') Eps) (before (before p s t1) t1 t2) t2)"
    by (rule matches_SeqE)
  from 2(2) obtain c3 t3 d3 where 3: "(c3, t3) \<in> set (matches (Lit '']'') (before (before p s t1) t1 t2) t2)"
    "(d3, t) \<in> set (matches Eps (before (before (before p s t1) t1 t2) t2 t3) t3)"
    by (rule matches_SeqE)
  from 2(1) obtain c4 where "(c4, t2) \<in> set (matches (Seq (Cls label_char) (Star (Cls label_char))) (before p s t1) t1)"
    by (auto simp: Plus_def)
  then obtain c5 t5 d5 where 5: "(c5, t5) \<in> set (matches (Cls label_char) (before p s t1) t1)"
    "(d5, t2) \<in> set (matches (Star (Cls label_char)) (before (before p s t1) t1 t5) t5)"
    by (rule matches_SeqE)
  obtain w where w: "t5 = w @ t2" "\<forall>x \<in> set w. label_char x"
    using matches_Star_Cls_set [OF 5(2)] by blast
  obtain c where c: "t1 = c # t5" "label_char c" using 5(1) by (cases t1) (auto split: if_splits)
  have "s = ''['' @ t1" "t2 = '']'' @ t3" "t = t3" using 1(1) 3 by (auto simp: matches_Lit_set)
  with w c show ?thesis by (intro that [of "c # w"]) auto
qed

lemma label_first_match:
  assumes "inner \<noteq> []" and "\<forall>c \<in> set inner. label_char c"
  shows "first_match reMermaidLabel p (CHR ''['' # inner @ CHR '']'' # u) [(1, inner)] u"
proof -
  have "first_match (Plus (Cls label_char)) q (inner @ CHR '']'' # u) [] (CHR '']'' # u)" for q
    using assms by (intro first_match_Plus_run) (auto simp: label_char_def)
  from first_match_Group [OF this]
  have g: "first_match (Group 1 (Plus (Cls label_char))) q (inner @ CHR '']'' # u) [(1, inner)] (CHR '']'' # u)" for q
    by simp
  have "first_match (Seqs [Lit '']'']) q (CHR '']'' # u) [] u" for q
    using first_match_Seq_plain [of "Lit '']''" "CHR '']'' # u" u Eps "[]" u q] first_match_Lit [of "'']''" _ u]
    by simp
  from first_match_Seq_all [OF g this]
  have "first_match (Seqs [Group 1 (Plus (Cls label_char)), Lit '']'']) q (inner @ CHR '']'' # u) [(1, inner)] u" for q
    by simp
  from first_match_Seq_plain [OF _ this] show ?thesis
    using first_match_Lit [of "''[''" _ "inner @ CHR '']'' # u"] by (simp add: reMermaidLabel_def)
qed

lemma takeWhile_run: "\<forall>c \<in> set w. P c \<Longrightarrow> t = [] \<or> \<not> P (hd t) \<Longrightarrow> takeWhile P (w @ t) = w"
  by (induction w) (auto simp: takeWhile_eq_Nil_iff)

lemma no_label_chars [simp]: "\<not> label_char (CHR '']'')" "\<not> label_char (CHR ''['')"
  by (simp_all add: label_char_def)

lemma labels_token:
  "inner \<noteq> [] \<Longrightarrow> \<forall>c \<in> set inner. label_char c \<Longrightarrow>
     labels (CHR ''['' # inner @ CHR '']'' # u) = CHR ''['' # quote_label inner @ CHR '']'' # labels u"
  by (simp add: labels.simps(2) at_label_def takeWhile_run dropWhile_run)

lemma at_label_iff:
  "at_label c s \<longleftrightarrow>
     (\<exists>inner u. c # s = CHR ''['' # inner @ CHR '']'' # u \<and> inner \<noteq> [] \<and> (\<forall>x \<in> set inner. label_char x))"
proof
  assume "at_label c s"
  then obtain u where "c = CHR ''[''" "takeWhile label_char s \<noteq> []" "dropWhile label_char s = CHR '']'' # u"
    by (auto simp: at_label_def)
  then show "\<exists>inner u. c # s = CHR ''['' # inner @ CHR '']'' # u \<and> inner \<noteq> [] \<and> (\<forall>x \<in> set inner. label_char x)"
    by (metis set_takeWhileD takeWhile_dropWhile_id)
next
  assume "\<exists>inner u. c # s = CHR ''['' # inner @ CHR '']'' # u \<and> inner \<noteq> [] \<and> (\<forall>x \<in> set inner. label_char x)"
  then show "at_label c s" by (auto simp: at_label_def takeWhile_run dropWhile_run)
qed

lemma find_label:
  "find_from reMermaidLabel p s =
     (case s of [] \<Rightarrow> None
      | c # s' \<Rightarrow> (case matches reMermaidLabel p s of
                   (d, t) # _ \<Rightarrow> Some (0, d, t)
                 | [] \<Rightarrow> map_option (\<lambda>(i, d, t). (Suc i, d, t)) (find_from reMermaidLabel (Some c) s')))"
proof (cases s)
  case Nil
  then have "matches reMermaidLabel p s = []"
    using label_matches [of _ _ p "[]"] by (cases "matches reMermaidLabel p s") auto
  with Nil show ?thesis by simp
qed simp

lemma replace_labels:
  "replace_from reMermaidLabel (\<lambda>c. ''['' @ quote_label (group_text c 1) @ '']'') p s = labels s"
proof (induction "length s" arbitrary: p s rule: less_induct)
  case less
  let ?f = "\<lambda>c. ''['' @ quote_label (group_text c 1) @ '']''"
  show ?case
  proof (cases s)
    case Nil
    then show ?thesis using find_label [of p "[]"] by (simp add: replace_from.simps)
  next
    case (Cons c s')
    show ?thesis
    proof (cases "\<exists>inner u. s = CHR ''['' # inner @ CHR '']'' # u \<and> inner \<noteq> [] \<and> (\<forall>x \<in> set inner. label_char x)")
      case True
      then obtain inner u where s: "s = CHR ''['' # inner @ CHR '']'' # u"
        and inner: "inner \<noteq> []" "\<forall>x \<in> set inner. label_char x" by blast
      obtain ms where "matches reMermaidLabel p s = ([(1, inner)], u) # ms"
        using label_first_match [OF inner, of p u] s by (auto simp: first_match_def)
      then have "find_from reMermaidLabel p s = Some (0, [(1, inner)], u)"
        using find_label [of p s] s by simp
      moreover have "length u < length s" "s \<noteq> []" using s by simp_all
      ultimately have "replace_from reMermaidLabel ?f p s =
          ?f [(1, inner)] @ replace_from reMermaidLabel ?f (before p s u) u"
        by (subst replace_from.simps) simp
      also have "\<dots> = ?f [(1, inner)] @ labels u" using less s by simp
      finally show ?thesis using labels_token [OF inner] s by (simp add: group_text_def)
    next
      case False
      then have none: "matches reMermaidLabel p s = []"
        using label_matches by (metis ex_in_conv prod.collapse set_empty)
      have shorter: "length t < length s'" if "find_from reMermaidLabel (Some c) s' = Some (i, d, t)" for i d t
        using find_from_Seq_Lit_shorter [of "''[''" "Seqs [Group 1 (Plus (Cls label_char)), Lit '']'']"] that
        by (simp add: reMermaidLabel_def)
      have "replace_from reMermaidLabel ?f p s = c # replace_from reMermaidLabel ?f (Some c) s'"
      proof (cases "find_from reMermaidLabel (Some c) s'")
        case None
        with none Cons find_label [of p s] show ?thesis by (simp add: replace_from.simps)
      next
        case (Some m)
        obtain i d t where m: "m = (i, d, t)" by (metis prod.collapse)
        with Some shorter have t: "length t < length s'" by blast
        have "find_from reMermaidLabel p s = Some (Suc i, d, t)"
          using none Cons Some m find_label [of p s] by simp
        moreover have "before p s t = before (Some c) s' t"
          using t Cons by (simp add: before_def nth_Cons')
        moreover have "length t < length s" "s \<noteq> []" "s' \<noteq> []" using t Cons by auto
        ultimately have "replace_from reMermaidLabel ?f p s =
            take (Suc i) s @ ?f d @ replace_from reMermaidLabel ?f (before (Some c) s' t) t"
          by (subst replace_from.simps) simp
        moreover have "replace_from reMermaidLabel ?f (Some c) s' =
            take i s' @ ?f d @ replace_from reMermaidLabel ?f (before (Some c) s' t) t"
          using Some m t \<open>s' \<noteq> []\<close> by (subst replace_from.simps) simp
        ultimately show ?thesis using Cons by simp
      qed
      also have "\<dots> = c # labels s'" using less Cons by simp
      also have "\<not> at_label c s'" using at_label_iff [of c s'] False Cons by blast
      then have "c # labels s' = labels s" using Cons by (simp add: labels.simps(2))
      finally show ?thesis .
    qed
  qed
qed

lemma quote_label_chars:
  "\<forall>x \<in> set (quote_label i). label_char x" if "\<forall>x \<in> set i. label_char x"
  using that by (auto simp: quote_label_def label_char_def)

lemma quote_label_idem [simp]: "quote_label (quote_label i) = quote_label i"
  by (auto simp: quote_label_def HasPrefix_iff HasSuffix_def)

lemma quote_label_Nil: "quote_label i = [] \<longleftrightarrow> i = []"
  by (auto simp: quote_label_def has_paren_def)

text \<open>What \<open>labels\<close> changes comes after a bracket.\<close>

lemma labels_front: "\<forall>x \<in> set w. x \<noteq> CHR ''['' \<Longrightarrow> labels (w @ t) = w @ labels t"
  by (induction w) (auto simp: labels.simps(2) at_label_def)

lemma labels_hd: "s \<noteq> [] \<Longrightarrow> labels s \<noteq> [] \<and> hd (labels s) = hd s"
  by (cases s) (auto simp: labels.simps(2) at_label_def)

lemma labels_runs:
  "takeWhile label_char (labels s) = takeWhile label_char s"
  "dropWhile label_char (labels s) = labels (dropWhile label_char s)"
proof -
  let ?i = "takeWhile label_char s" and ?r = "dropWhile label_char s"
  have i: "\<forall>x \<in> set ?i. label_char x" by (meson set_takeWhileD)
  have "\<forall>x \<in> set ?i. x \<noteq> CHR ''[''" using i by fastforce
  then have s: "labels s = ?i @ labels ?r" using labels_front [of ?i ?r] by simp
  have "labels ?r = [] \<or> \<not> label_char (hd (labels ?r))"
  proof (cases "?r = []")
    case True
    then show ?thesis by (simp only: labels.simps(1) simp_thms)
  next
    case False
    with labels_hd [OF False] hd_dropWhile [OF False] show ?thesis by (simp only: simp_thms)
  qed
  with i show "takeWhile label_char (labels s) = ?i" "dropWhile label_char (labels s) = labels ?r"
    unfolding s by (simp_all only: takeWhile_run dropWhile_run)
qed

lemma at_label_labels: "at_label c (labels s) \<longleftrightarrow> at_label c s"
proof -
  have "(\<exists>u. labels r = CHR '']'' # u) \<longleftrightarrow> (\<exists>u. r = CHR '']'' # u)" for r
    using labels_hd [of r] by (cases r) (auto, metis list.exhaust_sel)
  then show ?thesis by (simp add: at_label_def labels_runs)
qed

lemma labels_idem: "labels (labels s) = labels s"
proof (induction s rule: labels.induct)
  case (2 c s)
  let ?i = "takeWhile label_char s" and ?r = "dropWhile label_char s"
  have i: "\<forall>x \<in> set ?i. label_char x" by (meson set_takeWhileD)
  show ?case
  proof (cases "at_label c s")
    case True
    then have "?i \<noteq> []" by (simp add: at_label_def)
    have "labels (c # s) = CHR ''['' # quote_label ?i @ CHR '']'' # labels (tl ?r)"
      using True by (simp add: labels.simps(2))
    moreover have "labels (labels (tl ?r)) = labels (tl ?r)" using 2(1) True by blast
    ultimately show ?thesis
      using labels_token [of "quote_label ?i"] quote_label_chars [OF i] \<open>?i \<noteq> []\<close>
      by (simp add: quote_label_Nil)
  next
    case False
    then have s1: "labels (c # s) = c # labels s" by (simp add: labels.simps(2))
    have "labels (labels s) = labels s" using 2(2) False by blast
    with s1 at_label_labels [of c s] False show ?thesis by (simp add: labels.simps(2))
  qed
qed simp

section \<open>Subgraph titles\<close>

lemma subgraph_parts_Some:
  "subgraph_parts l = Some (m, t) \<longleftrightarrow>
     (\<exists>a sp tr. l = a @ ''subgraph'' @ sp @ t @ tr \<and> m = a @ ''subgraph'' @ sp \<and>
        list_all re_space a \<and> sp \<noteq> [] \<and> list_all re_space sp \<and> list_all re_space tr \<and>
        t \<noteq> [] \<and> \<not> re_space (hd t) \<and> \<not> re_space (last t))"
  (is "_ \<longleftrightarrow> ?rhs")
proof
  assume "subgraph_parts l = Some (m, t)"
  then obtain r where r: "dropWhile re_space l = ''subgraph'' @ r"
    and sp: "takeWhile re_space r \<noteq> []"
    and t: "t = rev (dropWhile re_space (rev (dropWhile re_space r)))" "t \<noteq> []"
    and m: "m = takeWhile re_space l @ ''subgraph'' @ takeWhile re_space r"
    by (auto simp: subgraph_parts_def Let_def strip_prefix_Some split: option.splits if_splits)
  let ?b = "dropWhile re_space r"
  have b: "?b = t @ rev (takeWhile re_space (rev ?b))"
    using t(1) by (metis rev_append rev_rev_ident takeWhile_dropWhile_id)
  have "l = takeWhile re_space l @ ''subgraph'' @ takeWhile re_space r @ t @ rev (takeWhile re_space (rev ?b))"
    using r b by (metis takeWhile_dropWhile_id append.assoc)
  moreover have "list_all re_space (takeWhile re_space x)" for x by (simp add: list_all_iff) (meson set_takeWhileD)
  moreover have "\<not> re_space (hd t)"
    using b t(2) hd_dropWhile [of re_space r] by (metis append_is_Nil_conv hd_append2)
  moreover have "\<not> re_space (last t)"
    using t hd_dropWhile [of re_space "rev ?b"] by (simp add: last_rev)
  ultimately show ?rhs using m sp t(2)
    by (intro exI [of _ "takeWhile re_space l"] exI [of _ "takeWhile re_space r"]
          exI [of _ "rev (takeWhile re_space (rev ?b))"]) (simp add: list_all_rev)
next
  assume ?rhs
  then obtain a sp tr where l: "l = a @ ''subgraph'' @ sp @ t @ tr" and m: "m = a @ ''subgraph'' @ sp"
    and s: "list_all re_space a" "sp \<noteq> []" "list_all re_space sp" "list_all re_space tr"
    and t: "t \<noteq> []" "\<not> re_space (hd t)" "\<not> re_space (last t)" by blast
  have a: "takeWhile re_space l = a" "dropWhile re_space l = ''subgraph'' @ sp @ t @ tr"
    using s(1) unfolding l by (simp_all add: takeWhile_run dropWhile_run list_all_iff re_space_def)
  have sp: "takeWhile re_space (sp @ t @ tr) = sp" "dropWhile re_space (sp @ t @ tr) = t @ tr"
    using s(3) t takeWhile_run [of sp re_space "t @ tr"] dropWhile_run [of sp re_space "t @ tr"]
    by (simp_all add: list_all_iff)
  have "dropWhile re_space (rev tr @ rev t) = rev t"
    using s(4) t(1,3) by (intro dropWhile_run) (auto simp: list_all_iff hd_rev)
  with a sp s(2) t(1) m show "subgraph_parts l = Some (m, t)"
    by (simp add: subgraph_parts_def Let_def strip_prefix_Some split: option.split)
qed

definition fine_line :: "gostring \<Rightarrow> bool" where
  "fine_line l =
     (case subgraph_parts l of
        None \<Rightarrow> True
      | Some (m, t) \<Rightarrow> hd t = QUOT \<or> CHR ''['' \<in> set t \<or> \<not> has_paren t)"

lemma subgraph_title_Nil: "subgraph_parts l = Some (m, t) \<Longrightarrow> t \<noteq> []"
  by (auto simp: subgraph_parts_Some)

lemma HasPrefix_QUOT: "t \<noteq> [] \<Longrightarrow> HasPrefix t [QUOT] \<longleftrightarrow> hd t = QUOT"
  by (cases t) (auto simp: HasPrefix_iff)

lemma fix_fine: "fine_line l \<Longrightarrow> fix_subgraph l = l"
  by (auto simp: fine_line_def fix_subgraph_def HasPrefix_QUOT dest: subgraph_title_Nil split: option.splits)

lemma fine_fix: "fine_line (fix_subgraph l)"
proof (cases "fine_line l")
  case True
  then show ?thesis by (simp add: fix_fine)
next
  case False
  then obtain m t where p: "subgraph_parts l = Some (m, t)" "hd t \<noteq> QUOT" "CHR ''['' \<notin> set t" "has_paren t"
    by (auto simp: fine_line_def split: option.splits)
  then have l: "fix_subgraph l = m @ [QUOT] @ t @ [QUOT]"
    using subgraph_title_Nil [OF p(1)] by (simp add: fix_subgraph_def HasPrefix_QUOT)
  obtain a sp where "m = a @ ''subgraph'' @ sp" "list_all re_space a" "sp \<noteq> []" "list_all re_space sp"
    using p(1) by (auto simp: subgraph_parts_Some)
  then have "subgraph_parts (m @ [QUOT] @ t @ [QUOT]) = Some (m, [QUOT] @ t @ [QUOT])"
    unfolding subgraph_parts_Some
    by (intro exI [of _ a] exI [of _ sp] exI [of _ "[]"]) (simp add: re_space_def)
  then show ?thesis by (simp add: l fine_line_def)
qed

text \<open>\<open>quoted s s'\<close>: quotation marks were put after opening and before closing brackets.\<close>

inductive quoted :: "gostring \<Rightarrow> gostring \<Rightarrow> bool" where
  quoted_Nil: "quoted [] []"
| quoted_same: "quoted s s' \<Longrightarrow> quoted (c # s) (c # s')"
| quoted_open: "quoted s s' \<Longrightarrow> quoted (CHR ''['' # s) (CHR ''['' # QUOT # s')"
| quoted_close: "quoted s s' \<Longrightarrow> quoted (CHR '']'' # s) (QUOT # CHR '']'' # s')"

inductive_cases quoted_NilE: "quoted s []"
inductive_cases quoted_ConsE: "quoted s (c # s')"

lemma quoted_run: "quoted s s' \<Longrightarrow> quoted (w @ s) (w @ s')"
  by (induction w) (auto intro: quoted_same)

lemma quoted_labels: "quoted s (labels s)"
proof (induction s rule: labels.induct)
  case (2 c s)
  show ?case
  proof (cases "at_label c s")
    case True
    then obtain inner u where s: "c # s = CHR ''['' # inner @ CHR '']'' # u" "inner \<noteq> []"
      "\<forall>x \<in> set inner. label_char x" by (auto simp: at_label_iff)
    then have "tl (dropWhile label_char s) = u" by (simp add: dropWhile_run)
    with 2(1) True have u: "quoted u (labels u)" by simp
    have "quote_label inner = inner \<or> quote_label inner = QUOT # inner @ [QUOT]" by (simp add: quote_label_def)
    then have "quoted (CHR ''['' # inner @ CHR '']'' # u) (CHR ''['' # quote_label inner @ CHR '']'' # labels u)"
      by (elim disjE) (simp_all add: quoted_same quoted_open quoted_close quoted_run u)
    with labels_token [OF s(2,3)] s(1) show ?thesis by simp
  qed (use 2 in \<open>simp add: labels.simps(2) quoted_same\<close>)
qed (simp add: quoted_Nil)

lemma Split_Cons_sep: "Split x (x # s) = [] # Split x s" by simp

lemma quoted_lines: "quoted s s' \<Longrightarrow> list_all2 quoted (Split NL s) (Split NL s')"
proof (induction rule: quoted.induct)
  case (quoted_same s s' c)
  then show ?case by (cases "Split NL s"; cases "Split NL s'") (auto intro: quoted.intros)
next
  case (quoted_open s s')
  then show ?case by (cases "Split NL s"; cases "Split NL s'") (auto intro: quoted.intros)
next
  case (quoted_close s s')
  then show ?case by (cases "Split NL s"; cases "Split NL s'") (auto intro: quoted.intros)
qed (simp add: quoted_Nil)

lemma quoted_prefix:
  "quoted l (m @ u') \<Longrightarrow> QUOT \<notin> set m \<Longrightarrow> CHR ''['' \<notin> set m \<Longrightarrow> \<exists>u. l = m @ u \<and> quoted u u'"
proof (induction m arbitrary: l)
  case (Cons c m)
  then show ?case by (auto elim!: quoted_ConsE)
qed simp

lemma quoted_set: "quoted s s' \<Longrightarrow> set s \<subseteq> set s' \<and> set s' \<subseteq> insert QUOT (set s)"
  by (induction rule: quoted.induct) auto

lemma quoted_head: "quoted u (c # u') \<Longrightarrow> c \<noteq> QUOT \<Longrightarrow> \<exists>v. u = c # v"
  by (erule quoted_ConsE) auto

lemma quoted_fine:
  assumes "quoted l l'" and "fine_line l"
  shows "fine_line l'"
proof (rule ccontr)
  assume "\<not> fine_line l'"
  then obtain m t' where p: "subgraph_parts l' = Some (m, t')" "hd t' \<noteq> QUOT" "CHR ''['' \<notin> set t'" "has_paren t'"
    by (auto simp: fine_line_def split: option.splits)
  then obtain a sp tr where l': "l' = m @ t' @ tr" and m: "m = a @ ''subgraph'' @ sp"
    and s: "list_all re_space a" "sp \<noteq> []" "list_all re_space sp" "list_all re_space tr"
    and t': "t' \<noteq> []" "\<not> re_space (hd t')" by (auto simp: subgraph_parts_Some)
  have sp: "\<not> re_space QUOT" "\<not> re_space (CHR ''['')" "\<not> re_space (CHR ''('')" "\<not> re_space (CHR '')'')"
    by (simp_all add: re_space_def)
  have "QUOT \<notin> set m" "CHR ''['' \<notin> set m" using m s(1,3) sp by (auto simp: list_all_iff)
  then obtain u where u: "l = m @ u" "quoted u (t' @ tr)"
    using quoted_prefix assms(1) l' by blast
  obtain v where v: "u = hd t' # v"
    using quoted_head [of u "hd t'" "tl t' @ tr"] u(2) t'(1) p(2) by (cases t') auto
  have in_u: "c \<in> set u \<longleftrightarrow> c \<in> set (t' @ tr)" if "c \<noteq> QUOT" for c
    using quoted_set [OF u(2)] that by auto
  let ?t = "rev (dropWhile re_space (rev u))" and ?tr = "rev (takeWhile re_space (rev u))"
  have ut: "u = ?t @ ?tr" by (metis rev_append rev_rev_ident takeWhile_dropWhile_id)
  have tr: "list_all re_space ?tr" by (simp add: list_all_iff) (meson set_takeWhileD)
  have ne: "?t \<noteq> []"
  proof
    assume "?t = []"
    then have "u = ?tr" using ut by (metis append_Nil)
    then have "list_all re_space u" using tr by metis
    with v t'(2) show False by simp
  qed
  then have hd: "hd ?t = hd t'" using ut v by (metis hd_append2 list.sel(1))
  have "\<not> re_space (last ?t)" using ne hd_dropWhile [of re_space "rev u"] by (simp add: last_rev)
  then have "subgraph_parts l = Some (m, ?t)"
    unfolding subgraph_parts_Some
    using u(1) ut m s(1-3) tr ne hd t'(2) by (intro exI [of _ a] exI [of _ sp] exI [of _ ?tr]) simp
  moreover have "CHR ''['' \<notin> set ?t"
  proof -
    have "CHR ''['' \<notin> set u" using in_u [of "CHR ''[''"] p(3) s(4) sp by (auto simp: list_all_iff)
    then show ?thesis using set_dropWhileD by fastforce
  qed
  moreover have "has_paren ?t"
  proof -
    obtain c where c: "c \<in> set t'" "c = CHR ''('' \<or> c = CHR '')''" using p(4) by (auto simp: has_paren_def list_ex_iff)
    then have "c \<in> set u" using in_u [of c] by auto
    then have "c \<in> set ?t \<or> c \<in> set ?tr" using ut by (metis Un_iff set_append)
    with c tr sp show ?thesis by (auto simp: has_paren_def list_ex_iff list_all_iff)
  qed
  ultimately have "\<not> fine_line l" using hd p(2) by (simp add: fine_line_def)
  with assms(2) show False by contradiction
qed

section \<open>The sanitizer\<close>

lemma sanitize_parts:
  "SanitizeMermaid s = replace_byte BACKQUOTE [] (labels (Join [NL] (map fix_subgraph (Split NL s))))"
  unfolding SanitizeMermaid_def replace_all_func_def replace_labels Let_def ..

lemma fix_subgraph_set: "set (fix_subgraph l) \<subseteq> insert QUOT (set l)"
  by (auto simp: fix_subgraph_def subgraph_parts_Some split: option.splits)

lemma Join_set: "set (Join sep ls) \<subseteq> set sep \<union> \<Union> (set ` set ls)"
  by (induction sep ls rule: Join.induct) auto

lemma Split_set: "l \<in> set (Split x s) \<Longrightarrow> set l \<subseteq> set s"
proof (induction s arbitrary: l)
  case (Cons c s)
  then show ?case by (cases "Split x s") (fastforce split: if_splits)+
qed simp

lemma fixed_text:
  assumes "list_all fine_line (Split NL s)"
  shows "Join [NL] (map fix_subgraph (Split NL s)) = s"
proof -
  have "map fix_subgraph (Split NL s) = Split NL s"
    using assms by (intro map_idI) (simp add: list_all_iff fix_fine)
  then show ?thesis by (simp add: Join_Split)
qed

lemma text_fixed: "list_all fine_line (Split NL (Join [NL] (map fix_subgraph (Split NL s))))"
proof -
  have "list_all (\<lambda>l. NL \<notin> set l) (map fix_subgraph (Split NL s))"
    using fix_subgraph_set Split_no_sep by (fastforce simp: list_all_iff)
  then show ?thesis by (simp add: Split_Join list_all_iff fine_fix)
qed

text \<open>
  Sanitizing is idempotent on sources without backticks: what has been repaired, and what needed
  no repair, goes through byte for byte.
\<close>

theorem sanitize_idempotent:
  assumes "BACKQUOTE \<notin> set s"
  shows "SanitizeMermaid (SanitizeMermaid s) = SanitizeMermaid s"
proof -
  let ?f = "Join [NL] (map fix_subgraph (Split NL s))"
  have "set ?f \<subseteq> insert NL (insert QUOT (set s))"
    using Join_set [of "[NL]" "map fix_subgraph (Split NL s)"] fix_subgraph_set Split_set by fastforce
  then have b: "BACKQUOTE \<notin> set (labels ?f)" using assms quoted_set [OF quoted_labels, of ?f] by auto
  then have s: "SanitizeMermaid s = labels ?f" by (simp add: sanitize_parts replace_byte_idem)
  have "list_all2 quoted (Split NL ?f) (Split NL (labels ?f))" by (intro quoted_lines quoted_labels)
  with text_fixed [of s] have "list_all fine_line (Split NL (labels ?f))"
    using quoted_fine by (fastforce simp: list_all2_conv_all_nth list_all_length)
  from fixed_text [OF this] show ?thesis
    unfolding s by (simp add: sanitize_parts labels_idem replace_byte_idem b)
qed

theorem sanitize_idempotent_witness:
  "SanitizeMermaid ''subgraph A (b)'' = ''subgraph '' @ [QUOT] @ ''A (b)'' @ [QUOT] \<and>
   SanitizeMermaid (SanitizeMermaid ''subgraph A (b)'') = SanitizeMermaid ''subgraph A (b)''"
proof
  show "SanitizeMermaid ''subgraph A (b)'' = ''subgraph '' @ [QUOT] @ ''A (b)'' @ [QUOT]" by code_simp
  show "SanitizeMermaid (SanitizeMermaid ''subgraph A (b)'') = SanitizeMermaid ''subgraph A (b)''"
    by (rule sanitize_idempotent) simp
qed

text \<open>A backtick that hides the keyword is removed last, and the title is quoted the next time only.\<close>

lemma sanitize_backtick:
  "SanitizeMermaid (''sub'' @ [BACKQUOTE] @ ''graph A (b)'') = ''subgraph A (b)'' \<and>
   SanitizeMermaid ''subgraph A (b)'' \<noteq> ''subgraph A (b)''"
  by code_simp

end
