(* ===== verification/TextPasses.thy ===== *)
theory TextPasses
  imports Passes KB Go_Regexp "HOL-Library.List_Lexorder" "HOL-Library.Char_ord"
begin

text \<open>
  The passes that work on the text of a document: references to knowledge-base entries are replaced
  by the entries (passes/resolvekbrefs), the house style is applied to prose and headings
  (passes/applystylerules), and internal links are checked against the known pages
  (passes/validatelinks).

  Go's case mapping works on runes.  The tables of package \<open>unicode\<close> beyond ASCII are the record
  \<open>unicode\<close>; decoding and encoding UTF-8 and the ASCII part are modelled.
\<close>

section \<open>Runes\<close>

definition code :: "char \<Rightarrow> nat" where "code c = of_char c"

definition code_in :: "nat \<Rightarrow> nat \<Rightarrow> char \<Rightarrow> bool" where
  "code_in a b c = (a \<le> code c \<and> code c \<le> b)"

definition cont_byte :: "char \<Rightarrow> bool" where
  "cont_byte c = code_in 0x80 0xBF c"

text \<open>
  \<open>utf8.DecodeRuneInString\<close> on a non-empty string: the rune and its width, U+FFFD and one byte
  where the bytes are not valid.
\<close>

fun decode_rune :: "gostring \<Rightarrow> nat \<times> nat" where
  "decode_rune [] = (0xFFFD, 0)"
| "decode_rune (a # s) =
     (if code a < 0x80 then (code a, 1)
      else if code_in 0xC2 0xDF a then
        (case s of
           b # _ \<Rightarrow> if cont_byte b then ((code a - 0xC0) * 64 + (code b - 0x80), 2) else (0xFFFD, 1)
         | _ \<Rightarrow> (0xFFFD, 1))
      else if code_in 0xE0 0xEF a then
        (case s of
           b # c # _ \<Rightarrow>
             if code_in (if code a = 0xE0 then 0xA0 else 0x80) (if code a = 0xED then 0x9F else 0xBF) b \<and> cont_byte c
             then ((code a - 0xE0) * 4096 + (code b - 0x80) * 64 + (code c - 0x80), 3) else (0xFFFD, 1)
         | _ \<Rightarrow> (0xFFFD, 1))
      else if code_in 0xF0 0xF4 a then
        (case s of
           b # c # d # _ \<Rightarrow>
             if code_in (if code a = 0xF0 then 0x90 else 0x80) (if code a = 0xF4 then 0x8F else 0xBF) b \<and>
                cont_byte c \<and> cont_byte d
             then ((code a - 0xF0) * 262144 + (code b - 0x80) * 4096 + (code c - 0x80) * 64 + (code d - 0x80), 4)
             else (0xFFFD, 1)
         | _ \<Rightarrow> (0xFFFD, 1))
      else (0xFFFD, 1))"

lemma decode_rune_width: "s \<noteq> [] \<Longrightarrow> 0 < snd (decode_rune s)"
  by (cases s) (auto split: list.splits)

function runes :: "gostring \<Rightarrow> nat list" where
  "runes [] = []"
| "runes (c # s) = fst (decode_rune (c # s)) # runes (drop (snd (decode_rune (c # s))) (c # s))"
  by pat_completeness auto
termination
proof (relation "measure length")
  fix c s
  have "0 < snd (decode_rune (c # s))" by (rule decode_rune_width) simp
  then show "(drop (snd (decode_rune (c # s))) (c # s), c # s) \<in> measure length"
    by (cases "snd (decode_rune (c # s))") auto
qed simp

definition encode_rune :: "nat \<Rightarrow> gostring" where
  "encode_rune r =
     map char_of
       (if r < 0x80 then [r]
        else if r < 0x800 then [0xC0 + r div 64, 0x80 + r mod 64]
        else if r < 0x10000 then [0xE0 + r div 4096, 0x80 + r div 64 mod 64, 0x80 + r mod 64]
        else [0xF0 + r div 262144, 0x80 + r div 4096 mod 64, 0x80 + r div 64 mod 64, 0x80 + r mod 64])"

definition of_runes :: "nat list \<Rightarrow> gostring" where
  "of_runes rs = concat (map encode_rune rs)"

record unicode =
  uni_lower :: "nat \<Rightarrow> nat"
  uni_upper :: "nat \<Rightarrow> nat"
  uni_letter :: "nat \<Rightarrow> bool"

definition lower_rune :: "unicode \<Rightarrow> nat \<Rightarrow> nat" where
  "lower_rune U r = (if r < 128 then if 65 \<le> r \<and> r \<le> 90 then r + 32 else r else uni_lower U r)"

definition upper_rune :: "unicode \<Rightarrow> nat \<Rightarrow> nat" where
  "upper_rune U r = (if r < 128 then if 97 \<le> r \<and> r \<le> 122 then r - 32 else r else uni_upper U r)"

definition name_rune :: "unicode \<Rightarrow> nat \<Rightarrow> bool" where
  "name_rune U r =
     (if r < 128 then 48 \<le> r \<and> r \<le> 57 \<or> 65 \<le> r \<and> r \<le> 90 \<or> 97 \<le> r \<and> r \<le> 122 \<or> r = 95 else uni_letter U r)"

definition ToLower :: "unicode \<Rightarrow> gostring \<Rightarrow> gostring" where
  "ToLower U s = of_runes (map (lower_rune U) (runes s))"

section \<open>References to entries\<close>

definition formatEntry :: "entry \<Rightarrow> gostring" where
  "formatEntry e =
     (if e_Type e = ''decision'' then
        e_Text e @ (if e_Why e \<noteq> [] then [NL] @ ''Why: '' @ e_Why e else []) @
        (if e_Rejected e \<noteq> [] then [NL] @ ''Rejected: '' @ e_Rejected e else [])
      else if e_Type e = ''link'' then
        e_Text e @ (if e_URL e \<noteq> [] then [NL] @ right_arrow @ '' '' @ e_URL e else [])
      else e_Text e)"

definition placeholder :: "gostring \<Rightarrow> gostring \<Rightarrow> gostring \<Rightarrow> block" where
  "placeholder area ident why =
     ProseBlock (''[UNRESOLVED kb-ref: area='' @ area @ '' id='' @ ident @ '' '' @ em_dash @ '' '' @ why @ '']'')
       (no_prov\<lparr>SpecSection := ''unresolved-kbref'', Sources := [''area/'' @ area @ ''/?/'' @ ident]\<rparr>)"

definition resolve_ref :: "snapshot \<Rightarrow> gostring \<Rightarrow> gostring \<Rightarrow> block" where
  "resolve_ref snap area ident =
     (case Area snap area of
        None \<Rightarrow> placeholder area ident ''area not in snapshot''
      | Some a \<Rightarrow>
          (case List.find (\<lambda>e. e_ID e = ident) (a_Entries a) of
             None \<Rightarrow> placeholder area ident ''entry id not in area''
           | Some e \<Rightarrow>
               ProseBlock (formatEntry e)
                 \<lparr>SpecSection = ''resolved-kbref'',
                  Sources = [''area/'' @ area @ ''/'' @ e_Type e @ ''/'' @ e_ID e],
                  InputHash = e_Updated e\<rparr>))"

fun resolve_block :: "snapshot \<Rightarrow> block \<Rightarrow> block" where
  "resolve_block snap (KBRefBlock area ident _ _) = resolve_ref snap area ident"
| "resolve_block snap b = b"

definition resolve_doc :: "snapshot \<Rightarrow> ir_document \<Rightarrow> ir_document" where
  "resolve_doc snap = map_blocks (map (resolve_block snap))"

definition ResolveKBRefs :: "snapshot \<Rightarrow> 'w pass" where
  "ResolveKBRefs snap = \<lparr>pass_Name = ''resolve-kb-refs'', pass_Apply = (\<lambda>doc w. ((resolve_doc snap doc, None), w))\<rparr>"

section \<open>Style rules\<close>

record style_rule =
  rule_Name :: gostring
  rule_Apply :: "ir_document \<Rightarrow> ir_document"

definition ApplyStyleRules :: "style_rule list \<Rightarrow> 'w pass" where
  "ApplyStyleRules rules =
     \<lparr>pass_Name = ''apply-style-rules'',
      pass_Apply = (\<lambda>doc w. ((fold rule_Apply rules doc, None), w))\<rparr>"

fun map_prose_block :: "(gostring \<Rightarrow> gostring) \<Rightarrow> block \<Rightarrow> block" where
  "map_prose_block f (ProseBlock t v) = ProseBlock (f t) v"
| "map_prose_block f (Callout s b m v) = Callout s (f b) m v"
| "map_prose_block f b = b"

definition mapProse :: "ir_document \<Rightarrow> (gostring \<Rightarrow> gostring) \<Rightarrow> ir_document" where
  "mapProse doc f =
     doc\<lparr>Sections := map (\<lambda>s. s\<lparr>Heading := f (Heading s), Blocks := map (map_prose_block f) (Blocks s)\<rparr>) (Sections doc)\<rparr>"

text \<open>
  \<open>Regexp.ReplaceAllString\<close> expands the replacement: \<open>$name\<close> and \<open>${name}\<close> stand for a
  group.  The patterns of the rule have no groups, so \<open>$0\<close> is the matched text and every other
  name is empty; \<open>$$\<close> is a dollar sign, and a dollar sign no name follows is itself.
\<close>

definition name_bytes :: "unicode \<Rightarrow> gostring \<Rightarrow> nat" where
  "name_bytes U s = length (of_runes (takeWhile (name_rune U) (runes s)))"

text \<open>\<open>extract\<close>: the name after a dollar sign, and the rest of the template.\<close>

definition template_name :: "unicode \<Rightarrow> gostring \<Rightarrow> (gostring \<times> gostring) option" where
  "template_name U s =
     (let brace = (s \<noteq> [] \<and> hd s = CHR ''{''); t = (if brace then tl s else s); i = name_bytes U t in
      if i = 0 then None
      else if brace then
        (if drop i t \<noteq> [] \<and> hd (drop i t) = CHR ''}'' then Some (take i t, drop (Suc i) t) else None)
      else Some (take i t, drop i t))"

lemma template_name_shorter: "template_name U s = Some (n, r) \<Longrightarrow> length r \<le> length s"
  by (auto simp: template_name_def Let_def split: if_splits)

function expand_template :: "unicode \<Rightarrow> gostring \<Rightarrow> gostring \<Rightarrow> gostring" where
  "expand_template U m [] = []"
| "expand_template U m (c # s) =
     (if c \<noteq> CHR ''$'' then c # expand_template U m s
      else if s \<noteq> [] \<and> hd s = CHR ''$'' then CHR ''$'' # expand_template U m (tl s)
      else (case template_name U s of
              None \<Rightarrow> CHR ''$'' # expand_template U m s
            | Some (n, r) \<Rightarrow> (if n = ''0'' then m else []) @ expand_template U m r))"
  by pat_completeness auto
termination
  by (relation "measure (\<lambda>(U, m, s). length s)") (auto dest: template_name_shorter)

definition whole_word :: "gostring \<Rightarrow> re" where
  "whole_word k = Seqs [WordBoundary, Lit k, WordBoundary]"

text \<open>
  \<open>NewTerminologyRule\<close> of a map, given as its list of pairs: the pairs with a non-empty key in
  the order of the keys.
\<close>

definition term_pats :: "(gostring \<times> gostring) list \<Rightarrow> (gostring \<times> gostring) list" where
  "term_pats repl = filter (\<lambda>p. fst p \<noteq> []) (sort_key fst repl)"

definition replace_terms :: "unicode \<Rightarrow> (gostring \<times> gostring) list \<Rightarrow> gostring \<Rightarrow> gostring" where
  "replace_terms U pats s =
     fold (\<lambda>(k, v) s. replace_all_func (whole_word k) (\<lambda>_. expand_template U k v) s) pats s"

definition TerminologyRule :: "unicode \<Rightarrow> (gostring \<times> gostring) list \<Rightarrow> style_rule" where
  "TerminologyRule U repl =
     \<lparr>rule_Name = ''terminology'', rule_Apply = (\<lambda>doc. mapProse doc (replace_terms U (term_pats repl)))\<rparr>"

definition toSentenceCase :: "unicode \<Rightarrow> gostring \<Rightarrow> gostring" where
  "toSentenceCase U s =
     (case runes (ToLower U s) of [] \<Rightarrow> s | r # rs \<Rightarrow> of_runes (upper_rune U r # rs))"

definition capitalise :: "unicode \<Rightarrow> gostring \<Rightarrow> gostring" where
  "capitalise U w = (case runes w of [] \<Rightarrow> w | r # rs \<Rightarrow> of_runes (upper_rune U r # rs))"

definition toTitleCase :: "unicode \<Rightarrow> gostring \<Rightarrow> gostring" where
  "toTitleCase U s = Join '' '' (map (capitalise U) (Split (CHR '' '') s))"

definition map_headings :: "(gostring \<Rightarrow> gostring) \<Rightarrow> ir_document \<Rightarrow> ir_document" where
  "map_headings f doc = doc\<lparr>Sections := map (\<lambda>s. s\<lparr>Heading := f (Heading s)\<rparr>) (Sections doc)\<rparr>"

definition recase :: "unicode \<Rightarrow> gostring \<Rightarrow> gostring \<Rightarrow> gostring" where
  "recase U mode h =
     (if mode = ''sentence'' then toSentenceCase U h else if mode = ''title'' then toTitleCase U h else h)"

definition NewHeadingCaseRule :: "unicode \<Rightarrow> gostring \<Rightarrow> style_rule res" where
  "NewHeadingCaseRule U mode =
     (if mode = ''sentence'' \<or> mode = ''title''
      then Inr \<lparr>rule_Name = ''heading-case'', rule_Apply = map_headings (recase U mode)\<rparr>
      else Inl (errorf ''applystylerules: unknown heading-case mode %q (want sentence or title)'' [mode]))"

section \<open>Links\<close>

definition linkRE :: re where
  "linkRE =
     Seqs [Lit ''[['', Group 1 (Plus (Cls (\<lambda>c. c \<noteq> CHR '']'' \<and> c \<noteq> CHR ''|''))),
           Opt (Seqs [Lit ''|'', Plus (Cls (\<lambda>c. c \<noteq> CHR '']''))]), Lit '']]'']"

fun textOf :: "block \<Rightarrow> gostring" where
  "textOf (ProseBlock t _) = t"
| "textOf (Callout _ b _ _) = b"
| "textOf (MachineBlock _ _ b _) = b"
| "textOf (EscapeHatch _ r _) = r"
| "textOf _ = []"

definition link_targets :: "block \<Rightarrow> gostring list" where
  "link_targets b =
     filter (\<lambda>t. t \<noteq> [])
       (case b of
          IndexBlock es _ \<Rightarrow> map (\<lambda>e. TrimSpace (ie_Page e)) es
        | _ \<Rightarrow> map (\<lambda>c. TrimSpace (group_text c 1)) (find_all linkRE (textOf b)))"

definition broken_links :: "(gostring \<Rightarrow> bool) \<Rightarrow> ir_document \<Rightarrow> gostring list" where
  "broken_links known doc = filter (\<lambda>t. \<not> known t) (concat (map link_targets (doc_blocks doc)))"

abbreviation ErrBrokenLinks :: gomsg where
  "ErrBrokenLinks \<equiv> errorf ''validate-links: broken internal links'' []"

text \<open>\<open>broken\<close> is a set; its elements are sorted for the message.\<close>

definition validate_doc :: "(gostring \<Rightarrow> bool) \<Rightarrow> ir_document \<Rightarrow> gomsg option" where
  "validate_doc known doc =
     (case sort (remdups (broken_links known doc)) of
        [] \<Rightarrow> None
      | ns \<Rightarrow> Some (wrapf ''%w: %s'' [Join '', '' ns] ErrBrokenLinks))"

definition ValidateLinks :: "(gostring \<Rightarrow> bool) \<Rightarrow> 'w pass" where
  "ValidateLinks known = \<lparr>pass_Name = ''validate-links'', pass_Apply = (\<lambda>doc w. ((doc, validate_doc known doc), w))\<rparr>"

end
