(* ===== verification/Deployment.thy ===== *)
theory Deployment
  imports Orchestrator Architecture TextPasses Diagrams ZoneMarkers Backends KBSources
begin

text \<open>
  The configuration of a wiki (internal/config/config.go), the per-wiki lock (internal/lock/lock.go)
  and the composition root (cmd/mykb-curator/main.go): which implementation each collaborator of a
  run is, in which order the passes are put together, and what happens to a rendered page besides the
  push of the orchestrator.  The implementations the
  root constructs are the record \<open>collaborators\<close>.
\<close>

section \<open>Configuration\<close>

record style_config =
  Terminology :: "(gostring \<times> gostring) list"
  HeadingCase :: gostring

record source_config =
  kbs_Type :: gostring
  kbs_Repo :: gostring
  kbs_Branch :: gostring

record target_config =
  wt_Type :: gostring
  wt_URL :: gostring
  wt_User :: gostring
  wt_PasswordEnv :: gostring
  wt_DisableBotAssert :: bool

record llm_config =
  Provider :: gostring
  lc_Model :: gostring
  APIKeyEnv :: gostring
  lc_Endpoint :: gostring

record email_config =
  SMTPAddr :: gostring
  em_Username :: gostring
  em_PasswordEnv :: gostring
  em_From :: gostring
  em_To :: "gostring list"

record sinks_config =
  SlackWebhookEnv :: gostring
  Email :: email_config
  sc_KBJournal :: bool

record config =
  cf_Wiki :: gostring
  KBSource :: source_config
  SpecStore_Type :: gostring
  SpecStore_Repo :: gostring
  cf_Target :: target_config
  Writeback_Type :: gostring
  Writeback_BaseBranch :: gostring
  cf_LLM :: llm_config
  CacheDir :: gostring
  Style :: style_config
  Sinks :: sinks_config
  Git_Root :: gostring
  Git_Repos :: "gostring \<rightharpoonup> gostring"
  MaxRefineIterations :: "int option"
  OrphanPruning :: bool

definition DefaultRefineIterations :: int where "DefaultRefineIterations = 3"

definition RefineIterations :: "config \<Rightarrow> int" where
  "RefineIterations c = (case MaxRefineIterations c of None \<Rightarrow> DefaultRefineIterations | Some n \<Rightarrow> n)"

definition config_Validate :: "config \<Rightarrow> gomsg option" where
  "config_Validate c =
     (if cf_Wiki c = [] then Some (errorf ''wiki: required'' [])
      else if kbs_Type (KBSource c) = [] then Some (errorf ''kb_source.type: required'' [])
      else if SpecStore_Type c = [] then Some (errorf ''spec_store.type: required'' [])
      else if wt_Type (cf_Target c) = [] then Some (errorf ''wiki_target.type: required'' [])
      else if HeadingCase (Style c) \<notin> {[], ''sentence'', ''title''}
      then Some (errorf (''style.heading_case: %q invalid (want '' @ [QUOT] @ ''sentence'' @ [QUOT] @ '', '' @
                         [QUOT] @ ''title'' @ [QUOT] @ '', or empty)'') [HeadingCase (Style c)])
      else (case MaxRefineIterations c of
              None \<Rightarrow> None
            | Some n \<Rightarrow>
                if n < 0
                then Some (errorf ''judge.max_refine_iterations: %d invalid (must be >= 0; 0 = off)'' [int_dec n])
                else None))"

text \<open>\<open>Load\<close>, of what reading the file and decoding its YAML give.\<close>

definition config_Load :: "gostring \<Rightarrow> gostring res \<Rightarrow> (gostring \<Rightarrow> config res) \<Rightarrow> config res" where
  "config_Load path file decode =
     (case file of
        Inl e \<Rightarrow> Inl (wrapf ''config: read %s: %w'' [path] e)
      | Inr data \<Rightarrow>
          (case decode data of
             Inl e \<Rightarrow> Inl (wrapf ''config: parse %s: %w'' [path] e)
           | Inr c \<Rightarrow> (case config_Validate c of
                        Some e \<Rightarrow> Inl (wrapf ''config: invalid %s: %w'' [path] e)
                      | None \<Rightarrow> Inr c)))"

section \<open>The lock of a wiki\<close>

text \<open>The system calls: \<open>Inl (True, e)\<close> of \<open>flock\<close> is \<open>EWOULDBLOCK\<close>.\<close>

record 'w flock_sys =
  fl_open :: "gostring \<Rightarrow> 'w \<Rightarrow> nat res \<times> 'w"
  fl_lock :: "nat \<Rightarrow> 'w \<Rightarrow> (bool \<times> gomsg) option \<times> 'w"
  fl_unlock :: "nat \<Rightarrow> 'w \<Rightarrow> gomsg option \<times> 'w"
  fl_close :: "nat \<Rightarrow> 'w \<Rightarrow> gomsg option \<times> 'w"

datatype lock_error = Locked gostring | LockFailed gomsg

record file_lock =
  lk_path :: gostring
  lk_file :: "nat option"

definition Acquire :: "'w flock_sys \<Rightarrow> gostring \<Rightarrow> 'w \<Rightarrow> (lock_error + file_lock) \<times> 'w" where
  "Acquire S path w =
     (case fl_open S path w of
        (Inl e, w) \<Rightarrow> (Inl (LockFailed (wrapf ''lock: open %s: %w'' [path] e)), w)
      | (Inr fd, w) \<Rightarrow>
          (case fl_lock S fd w of
             (Some (wouldblock, e), w) \<Rightarrow>
               (let w = snd (fl_close S fd w) in
                (Inl (if wouldblock then Locked path else LockFailed (wrapf ''lock: flock %s: %w'' [path] e)), w))
           | (None, w) \<Rightarrow> (Inr \<lparr>lk_path = path, lk_file = Some fd\<rparr>, w)))"

definition Release :: "'w flock_sys \<Rightarrow> file_lock \<Rightarrow> 'w \<Rightarrow> (gomsg option \<times> file_lock) \<times> 'w" where
  "Release S l w =
     (case lk_file l of
        None \<Rightarrow> ((None, l), w)
      | Some fd \<Rightarrow>
          (case fl_unlock S fd w of
             (ferr, w) \<Rightarrow>
               (case fl_close S fd w of
                  (cerr, w) \<Rightarrow>
                    ((case ferr of
                        Some e \<Rightarrow> Some (wrapf ''lock: unlock %s: %w'' [lk_path l] e)
                      | None \<Rightarrow> map_option (wrapf ''lock: close %s: %w'' [lk_path l]) cerr,
                      l\<lparr>lk_file := None\<rparr>), w))))"

section \<open>Passes\<close>

definition buildStyleRules :: "unicode \<Rightarrow> style_config \<Rightarrow> style_rule list" where
  "buildStyleRules U st =
     (if Terminology st \<noteq> [] then [TerminologyRule U (Terminology st)] else []) @
     (if HeadingCase st \<noteq> []
      then (case NewHeadingCaseRule U (HeadingCase st) of Inl e \<Rightarrow> [] | Inr hc \<Rightarrow> [hc]) else [])"

text \<open>
  \<open>buildKnownPages\<close>, of what the two stores pull: the known titles, as a list.
\<close>

definition known_of_specs :: "spec list res \<Rightarrow> gostring list" where
  "known_of_specs pulled =
     (case pulled of Inl e \<Rightarrow> [] | Inr ss \<Rightarrow> filter (\<lambda>t. t \<noteq> []) (map sp_Page ss))"

definition known_of_files :: "doc_file list res \<Rightarrow> gostring list" where
  "known_of_files pulled =
     (case pulled of
        Inl e \<Rightarrow> []
      | Inr fs \<Rightarrow>
          concat (map (\<lambda>f. concat (map (\<lambda>p. filter (\<lambda>t. t \<noteq> []) (dp_Page p # Related p)) (spec_pages (df_Spec f)))) fs))"

definition buildKnownPages ::
  "('w \<Rightarrow> spec list res \<times> 'w) \<Rightarrow> ('w \<Rightarrow> doc_file list res \<times> 'w) option \<Rightarrow> 'w \<Rightarrow> gostring list \<times> 'w" where
  "buildKnownPages store docStore w =
     (case store w of
        (ss, w) \<Rightarrow>
          (case docStore of
             None \<Rightarrow> (known_of_specs ss, w)
           | Some pull \<Rightarrow> (case pull w of (fs, w) \<Rightarrow> (known_of_specs ss @ known_of_files fs, w))))"

definition composePassPipeline ::
  "unicode \<Rightarrow> style_config \<Rightarrow> 'w diagrams \<Rightarrow> gostring list \<Rightarrow> snapshot \<Rightarrow> 'w pass list" where
  "composePassPipeline U style D known snap =
     [ResolveKBRefs snap, ApplyStyleRules (buildStyleRules U style), RenderDiagrams D, ApplyZoneMarkers,
      ValidateLinks (\<lambda>t. t \<in> set known)]"

section \<open>What a rendered page goes to\<close>

definition composeBackend :: "config \<Rightarrow> backend" where
  "composeBackend c =
     (if wt_Type (cf_Target c) = ''mediawiki''
      then \<lparr>be_Name = ''mediawiki'', be_Render = (\<lambda>doc. Inr (mw_Render doc))\<rparr>
      else \<lparr>be_Name = ''markdown'', be_Render = (\<lambda>doc. Inr (md_Render doc))\<rparr>)"

type_synonym 'w rendered_sink = "gostring \<Rightarrow> gostring \<Rightarrow> ir_document \<Rightarrow> 'w \<Rightarrow> gomsg option \<times> 'w"

definition makeDiskSink :: "(gostring \<Rightarrow> gostring \<Rightarrow> 'w \<Rightarrow> gomsg option \<times> 'w) \<Rightarrow> gostring \<Rightarrow> 'w rendered_sink" where
  "makeDiskSink write outDir specID rendered doc w =
     (let safe = TrimSuffix (replace_byte SLASH ''_'' specID) ''.spec.md'' in
      write (path_Join [outDir, safe @ ''.md'']) rendered w)"

definition makeWikiUpsertSink :: "'w wiki_target \<Rightarrow> 'w rendered_sink" where
  "makeWikiUpsertSink T specID rendered doc w =
     (let title = Title (Frontmatter doc) in
      if title = [] then (Some (errorf ''wiki upsert: spec %s produced IR with empty frontmatter.Title'' [specID]), w)
      else (case UpsertPage T title rendered (''mykb-curator: rendered from '' @ specID) w of
              (Inl e, w) \<Rightarrow> (Some e, w)
            | (Inr _, w) \<Rightarrow> (None, w)))"

text \<open>\<open>mkdir\<close> makes the output directory; when it fails there is no sink.\<close>

definition composeOnRenderedSink ::
  "(gostring \<Rightarrow> 'w \<Rightarrow> gomsg option \<times> 'w) \<Rightarrow> (gostring \<Rightarrow> gostring \<Rightarrow> 'w \<Rightarrow> gomsg option \<times> 'w) \<Rightarrow>
   config \<Rightarrow> 'w wiki_target \<Rightarrow> gostring \<Rightarrow> 'w \<Rightarrow> 'w rendered_sink option \<times> 'w" where
  "composeOnRenderedSink mkdir write c T outDir w =
     (if outDir \<noteq> [] then
        (case mkdir outDir w of
           (Some e, w) \<Rightarrow> (None, w)
         | (None, w) \<Rightarrow> (Some (makeDiskSink write outDir), w))
      else if wt_Type (cf_Target c) = ''mediawiki'' \<or> wt_Type (cf_Target c) = ''memory''
      then (Some (makeWikiUpsertSink T), w)
      else (None, w))"

section \<open>Which implementations\<close>

text \<open>\<open>env\<close> is \<open>os.Getenv\<close>.  The cache directory of the wiki, and the paths below it.\<close>

definition cacheBase :: "(gostring \<Rightarrow> gostring) \<Rightarrow> config \<Rightarrow> gostring" where
  "cacheBase env c =
     (if CacheDir c = [] then path_Join [env ''HOME'', ''.cache'', ''mykb-curator'', cf_Wiki c] else CacheDir c)"

definition llmCacheDir :: "(gostring \<Rightarrow> gostring) \<Rightarrow> config \<Rightarrow> gostring" where
  "llmCacheDir env c = path_Join [cacheBase env c, ''llm'']"

definition kbWorkDir :: "(gostring \<Rightarrow> gostring) \<Rightarrow> config \<Rightarrow> gostring" where
  "kbWorkDir env c =
     (if CacheDir c \<noteq> [] then path_Join [CacheDir c, ''kb-clone'']
      else path_Join [env ''HOME'', ''.cache'', ''mykb-curator'', cf_Wiki c, ''kb-clone''])"

definition wikiLockPath ::
  "(gostring \<Rightarrow> gostring) \<Rightarrow> gostring \<Rightarrow> (gostring \<Rightarrow> 'w \<Rightarrow> gomsg option \<times> 'w) \<Rightarrow> config \<Rightarrow> 'w \<Rightarrow> gostring \<times> 'w" where
  "wikiLockPath env tmp mkdir c w =
     (case mkdir (cacheBase env c) w of
        (None, w) \<Rightarrow> (path_Join [cacheBase env c, ''curator.lock''], w)
      | (Some e, w) \<Rightarrow>
          (let base = path_Join [tmp, ''mykb-curator-'' @ cf_Wiki c] in
           (path_Join [base, ''curator.lock''], snd (mkdir base w))))"

datatype llm_choice = AnthropicLLM gostring gostring gostring | PiLLM gostring | ReplayLLM gostring

definition composeLLMClient :: "(gostring \<Rightarrow> gostring) \<Rightarrow> config \<Rightarrow> llm_choice option res" where
  "composeLLMClient env c =
     (let l = cf_LLM c in
      if Provider l = [] \<or> Provider l = ''none'' then Inr None
      else if Provider l = ''anthropic'' then
        (if env (APIKeyEnv l) = [] then Inl (errorf ''llm.api_key_env=%q: env var unset'' [APIKeyEnv l])
         else Inr (Some (AnthropicLLM (lc_Endpoint l) (env (APIKeyEnv l)) (path_Join [llmCacheDir env c, ''anthropic'']))))
      else if Provider l = ''pi'' then
        (if lc_Endpoint l = [] then Inl (errorf ''llm.provider=pi requires llm.endpoint (the pi-harness URL)'' [])
         else Inr (Some (PiLLM (lc_Endpoint l))))
      else if Provider l = ''replay'' then
        Inr (Some (ReplayLLM (if lc_Endpoint l = [] then path_Join [llmCacheDir env c, ''anthropic''] else lc_Endpoint l)))
      else Inl (errorf ''llm.provider=%q: unknown (known: anthropic, pi, replay, none)'' [Provider l]))"

datatype wiki_choice = MediaWikiTarget gostring mw_config bool | MemoryTarget gostring

definition composeWikiTarget :: "(gostring \<Rightarrow> gostring) \<Rightarrow> config \<Rightarrow> wiki_choice res" where
  "composeWikiTarget env c =
     (let t = cf_Target c in
      if wt_Type t = ''mediawiki'' then
        (if wt_URL t = [] then Inl (errorf ''wiki_target.url: required for type=mediawiki'' [])
         else if wt_User t = [] then Inl (errorf ''wiki_target.auth.user: required for type=mediawiki'' [])
         else if env (wt_PasswordEnv t) = []
         then Inl (errorf ''wiki_target.auth.password_env=%q: env var unset or empty'' [wt_PasswordEnv t])
         else Inr (MediaWikiTarget (wt_URL t) \<lparr>BotUser = wt_User t, BotPass = env (wt_PasswordEnv t)\<rparr>
                     (wt_DisableBotAssert t)))
      else if wt_Type t = ''memory'' then
        Inr (MemoryTarget (if wt_User t = [] then ''User:Mykb-Curator'' else wt_User t))
      else if wt_Type t = ''markdown'' then Inr (MemoryTarget ''User:Markdown-Dryrun'')
      else Inl (errorf ''wiki_target.type=%q: unknown (known: mediawiki, memory, markdown)'' [wt_Type t]))"

definition composeSpecStore :: "config \<Rightarrow> gostring res" where
  "composeSpecStore c =
     (if SpecStore_Type c = ''local'' then
        (if SpecStore_Repo c = []
         then Inl (errorf ''spec_store.repo: required for type=local (path to the spec directory)'' [])
         else Inr (SpecStore_Repo c))
      else if SpecStore_Type c = ''git''
      then Inl (errorf ''spec_store.type=git: not yet implemented (v0.1 roadmap)'' [])
      else Inl (errorf ''spec_store.type=%q: unknown'' [SpecStore_Type c]))"

datatype kb_choice = LocalKB gostring | GitKB git_source

definition composeKBSource :: "(gostring \<Rightarrow> gostring) \<Rightarrow> config \<Rightarrow> kb_choice res" where
  "composeKBSource env c =
     (let k = KBSource c in
      if kbs_Type k = ''local'' then
        (if kbs_Repo k = []
         then Inl (errorf ''kb_source.repo: required for type=local (path to the kb directory)'' [])
         else Inr (LocalKB (kbs_Repo k)))
      else if kbs_Type k = ''git'' then
        (if kbs_Repo k = []
         then Inl (errorf ''kb_source.repo: required for type=git (remote URL or local repo path)'' [])
         else Inr (GitKB \<lparr>gs_remote = kbs_Repo k, gs_workDir = kbWorkDir env c, gs_branch = kbs_Branch k\<rparr>))
      else if kbs_Type k = ''daemon''
      then Inl (errorf ''kb_source.type=daemon: not yet implemented (mykb v2 roadmap)'' [])
      else Inl (errorf ''kb_source.type=%q: unknown (known: local, git)'' [kbs_Type k]))"

section \<open>Maintenance\<close>

definition optedInExternalTruthAreas :: "spec list res \<Rightarrow> gostring list" where
  "optedInExternalTruthAreas pulled =
     (case pulled of
        Inl e \<Rightarrow> []
      | Inr ss \<Rightarrow>
          rev (remdups (rev (concat (map (\<lambda>s. inc_Areas (Include s))
            (filter (\<lambda>s. \<not> (case map_of (FactCheck s) ''external_truth'' of None \<Rightarrow> True | Some v \<Rightarrow> v = [])) ss))))))"

definition noop_search :: "gostring \<Rightarrow> 'w \<Rightarrow> search_hit list res \<times> 'w" where
  "noop_search q w = (Inr [], w)"

text \<open>
  \<open>composeMaintenance\<close>: the checks, none when there is no write-back.  \<open>optedIn\<close> are the areas
  \<open>optedInExternalTruthAreas\<close> finds.
\<close>

definition composeMaintenance ::
  "(gostring \<Rightarrow> int option) \<Rightarrow> ('w \<Rightarrow> int \<times> 'w) \<Rightarrow> (gostring \<Rightarrow> 'w \<Rightarrow> probe_result \<times> 'w) \<Rightarrow>
   config \<Rightarrow> gostring list \<Rightarrow> 'w llm_client option \<Rightarrow> 'w maint_check list option" where
  "composeMaintenance parse now head c opted llm =
     (if Writeback_Type c = [] \<or> Writeback_Type c = ''none'' then None
      else Some
        ([\<lparr>ck_Name = ''staleness'',
           ck_Run = stale_Run parse \<lparr>threshold = 90 * 24 * 3600 * 1000000000, threshold_text = ''2160h0m0s'', st_now = now\<rparr>\<rparr>,
          \<lparr>ck_Name = ''link-rot'', ck_Run = linkrot_Run head\<rparr>] @
         (case llm of
            None \<Rightarrow> []
          | Some client \<Rightarrow>
              if opted = [] then []
              else [\<lparr>ck_Name = ''external-truth'',
                     ck_Run = truth_Run \<lparr>optedIn = opted, Search = noop_search, tc_llm = client,
                                         tc_model = lc_Model (cf_LLM c), tc_now = now\<rparr>\<rparr>])))"

definition baseBranch :: "config \<Rightarrow> gostring" where
  "baseBranch c = (if Writeback_BaseBranch c = [] then ''main'' else Writeback_BaseBranch c)"

section \<open>The run's collaborators\<close>

text \<open>
  What \<open>runFromConfig\<close> hands to the orchestrator.  The fields of \<open>collaborators\<close> are the
  implementations it has constructed; \<open>co_known\<close> are the pages \<open>buildKnownPages\<close> finds when the
  pipeline of the run is built.
\<close>

record 'w collaborators =
  co_KB_Pull :: "'w \<Rightarrow> snapshot res \<times> 'w"
  co_KB_DiffSince :: "gostring \<Rightarrow> 'w \<Rightarrow> diff_result \<times> 'w"
  co_Specs_Pull :: "'w \<Rightarrow> spec list res \<times> 'w"
  co_DocSpecs_Pull :: "'w \<Rightarrow> doc_file list res \<times> 'w"
  co_Wiki :: "'w wiki_target"
  co_LLM :: "'w llm_client option"
  co_Cluster :: "'w renderer"
  co_Reviewer :: "'w reviewer"
  co_Reviser :: "'w reviser"
  co_Render :: "'w renderer_fn"
  co_message :: "gomsg \<Rightarrow> gostring"
  co_unicode :: unicode
  co_known :: "gostring list"
  co_RunState :: "(spec_state, 'w) store"
  co_IRCache :: "(ir_document, 'w) store"
  co_ClusterCache :: "(page_result list, 'w) store"
  co_Manifest :: "'w manifest_store"
  co_Maintenance :: "'w maint_check list option"
  co_OnMaintenance :: "(proposal list \<Rightarrow> 'w \<Rightarrow> gomsg option \<times> 'w) option"
  co_BuildID :: gostring
  co_Clock :: "'w \<Rightarrow> gotime \<times> 'w"
  co_RandomID :: "'w \<Rightarrow> gostring \<times> 'w"

definition composeFrontends :: "config \<Rightarrow> 'w llm_client option \<Rightarrow> 'w fe_registry option" where
  "composeFrontends c llm =
     (let r = Option.bind (Register projection_frontend Map.empty) (Register hub_frontend) in
      case llm of None \<Rightarrow> r | Some client \<Rightarrow> Option.bind r (Register (editorial_frontend client (lc_Model (cf_LLM c)))))"

definition composeDiagrams :: "config \<Rightarrow> 'w collaborators \<Rightarrow> 'w diagrams" where
  "composeDiagrams c co =
     \<lparr>dg_Render = co_Render co, dg_Upload = UploadFile (co_Wiki co),
      dg_Repair = map_option (\<lambda>client. llm_Repair client (lc_Model (cf_LLM c))) (co_LLM co),
      dg_message = co_message co\<rparr>"

definition docspecs_wired :: "config \<Rightarrow> 'w collaborators \<Rightarrow> bool" where
  "docspecs_wired c co = (co_LLM co \<noteq> None \<and> SpecStore_Type c = ''local'' \<and> SpecStore_Repo c \<noteq> [])"

definition composeDeps :: "config \<Rightarrow> 'w collaborators \<Rightarrow> 'w rendered_sink option \<Rightarrow> 'w deps" where
  "composeDeps c co sink =
     (let docs = docspecs_wired c co in
      \<lparr>o_Wiki = cf_Wiki c, KB_Pull = co_KB_Pull co, KB_DiffSince = co_KB_DiffSince co,
       Specs_Pull = co_Specs_Pull co, WikiTarget = Some (co_Wiki co),
       o_Frontends = composeFrontends c (co_LLM co), o_Passes = None,
       BuildPasses = Some (\<lambda>snap. Some (composePassPipeline (co_unicode co) (Style c) (composeDiagrams c co) (co_known co) snap)),
       o_Backend = Some (composeBackend c), OnRendered = sink,
       RunState = Some (co_RunState co), IRCache = Some (co_IRCache co),
       o_Manifest = (if OrphanPruning c then Some (co_Manifest co) else None),
       ClusterCache = Some (co_ClusterCache co), PipelineVersion = co_BuildID co,
       o_Maintenance = co_Maintenance co, OnMaintenance = co_OnMaintenance co,
       DocSpecs = (if docs then Some (co_DocSpecs_Pull co) else None),
       o_Cluster = (if docs then Some (co_Cluster co) else None),
       o_Judge = (if docs then Some (co_Reviewer co) else None),
       Refiner = (if docs then Some \<lparr>reviser = co_Reviser co, reviewer = co_Reviewer co, maxIters = RefineIterations c\<rparr> else None),
       Clock = co_Clock co, RandomID = co_RandomID co\<rparr>)"

lemma composeDeps_simps [simp]:
  "WikiTarget (composeDeps c co sink) = Some (co_Wiki co)"
  "OnRendered (composeDeps c co sink) = sink"
  "o_Backend (composeDeps c co sink) = Some (composeBackend c)"
  "o_Passes (composeDeps c co sink) = None"
  "o_Frontends (composeDeps c co sink) = composeFrontends c (co_LLM co)"
  by (simp_all add: composeDeps_def Let_def)

lemma composeFrontends_Some: "composeFrontends c llm \<noteq> None"
  by (simp add: composeFrontends_def Register_def projection_frontend_def hub_frontend_def editorial_frontend_def Let_def
      split: option.split)

section \<open>What the passes of a run guarantee\<close>

definition is_kbref :: "block \<Rightarrow> bool" where
  "is_kbref b = (case b of KBRefBlock _ _ _ _ \<Rightarrow> True | _ \<Rightarrow> False)"

text \<open>The text functions the style rules of a configuration apply to prose and to headings.\<close>

definition style_text :: "unicode \<Rightarrow> style_config \<Rightarrow> gostring \<Rightarrow> gostring" where
  "style_text U st = (if Terminology st \<noteq> [] then replace_terms U (term_pats (Terminology st)) else id)"

definition style_doc :: "unicode \<Rightarrow> style_config \<Rightarrow> ir_document \<Rightarrow> ir_document" where
  "style_doc U st doc =
     doc\<lparr>Sections := map (\<lambda>s. s\<lparr>Heading := recase U (HeadingCase st) (style_text U st (Heading s)),
                                Blocks := map (map_prose_block (style_text U st)) (Blocks s)\<rparr>) (Sections doc)\<rparr>"

lemma map_prose_block_id [simp]: "map_prose_block id = id" "map_prose_block (\<lambda>x. x) = id"
proof -
  have "map_prose_block (\<lambda>x. x) b = b" for b by (cases b) auto
  then show "map_prose_block id = id" "map_prose_block (\<lambda>x. x) = id" by (auto simp: id_def fun_eq_iff)
qed

lemma style_rules_doc: "fold rule_Apply (buildStyleRules U st) doc = style_doc U st doc"
  by (auto simp: buildStyleRules_def style_doc_def style_text_def TerminologyRule_def NewHeadingCaseRule_def mapProse_def
      map_headings_def recase_def comp_def id_def intro!: arg_cong [of _ _ "\<lambda>ss. doc\<lparr>Sections := ss\<rparr>"])

text \<open>What becomes of a block: the reference is resolved, prose is styled, a diagram may get an asset.\<close>

definition finished :: "unicode \<Rightarrow> style_config \<Rightarrow> snapshot \<Rightarrow> block \<Rightarrow> block \<Rightarrow> bool" where
  "finished U st snap b b' = with_asset (map_prose_block (style_text U st) (resolve_block snap b)) b'"

definition links_known :: "gostring list \<Rightarrow> block \<Rightarrow> bool" where
  "links_known known b = list_all (\<lambda>t. t \<in> set known) (link_targets b)"

lemma finished_marker: "finished U st snap b b' \<Longrightarrow> is_marker b' = is_marker b"
  by (cases b) (auto simp: finished_def resolve_ref_def placeholder_def split: option.splits)

lemma finished_kbref: "finished U st snap b b' \<Longrightarrow> \<not> is_kbref b'"
  by (cases b) (auto simp: finished_def resolve_ref_def placeholder_def is_kbref_def split: option.splits)

lemma finished_content:
  "list_all2 (finished U st snap) bs cs \<Longrightarrow>
     list_all2 (finished U st snap) (filter (\<lambda>b. \<not> is_marker b) bs) (filter (\<lambda>b. \<not> is_marker b) cs)"
  by (induction rule: list_all2_induct) (auto simp: finished_marker)

lemma list_all2_source: "list_all2 P xs ys \<Longrightarrow> y \<in> set ys \<Longrightarrow> \<exists>x \<in> set xs. P x y"
  by (induction rule: list_all2_induct) auto

lemma sort_nil: "sort xs = [] \<longleftrightarrow> xs = []"
  using length_sort [of "\<lambda>x. x" xs] by (cases xs; cases "sort xs"; simp)

lemma broken_nil: "broken_links known doc = [] \<longleftrightarrow> list_all (\<lambda>b. list_all known (link_targets b)) (doc_blocks doc)"
  by (auto simp: broken_links_def filter_empty_conv list_all_iff)

lemma links_validate_None: "validate_doc known doc = None \<longleftrightarrow> list_all (\<lambda>b. list_all known (link_targets b)) (doc_blocks doc)"
proof -
  have "validate_doc known doc = None \<longleftrightarrow> sort (remdups (broken_links known doc)) = []"
    by (simp add: validate_doc_def split: list.split)
  then show ?thesis by (simp add: sort_nil broken_nil)
qed

lemma style_resolved:
  "Sections (style_doc U st (resolve_doc snap doc)) =
     map (\<lambda>s. s\<lparr>Heading := recase U (HeadingCase st) (style_text U st (Heading s)),
               Blocks := map (map_prose_block (style_text U st) \<circ> resolve_block snap) (Blocks s)\<rparr>) (Sections doc)"
  by (simp add: style_doc_def resolve_doc_def map_blocks_def comp_def)

text \<open>
  C3. When the passes of a run succeed, no reference to the knowledge base is left, every block stands
  between its markers, every internal link leads to a known page, and apart from the markers the
  blocks are those of the frontend in their order: references resolved, prose in house style, diagrams
  with an asset at most, and machine content byte for byte.
\<close>

theorem pipeline_output:
  "case pipeline_Apply (composePassPipeline U st D known snap) doc w of
     ((out, None), w') \<Rightarrow>
       Frontmatter out = Frontmatter doc \<and> Footer out = Footer doc \<and>
       list_all2 (\<lambda>s t. Heading t = recase U (HeadingCase st) (style_text U st (Heading s)) \<and>
                   all_wrapped None (Blocks t) \<and>
                   list_all2 (finished U st snap) (filter (\<lambda>b. \<not> is_marker b) (Blocks s))
                     (filter (\<lambda>b. \<not> is_marker b) (Blocks t)))
         (Sections doc) (Sections out) \<and>
       list_all (\<lambda>b. \<not> is_kbref b \<and> links_known known b) (doc_blocks out)
   | _ \<Rightarrow> True"
proof -
  let ?d1 = "style_doc U st (resolve_doc snap doc)"
  obtain ss r w1 where run: "diagram_sections D (Sections ?d1) w = ((ss, r), w1)" by (metis prod.collapse)
  let ?d2 = "?d1\<lparr>Sections := ss\<rparr>"
  show ?thesis
  proof (cases "r = None \<and> validate_doc (\<lambda>t. t \<in> set known) (wrap_doc ?d2) = None")
    case True
    have out: "pipeline_Apply (composePassPipeline U st D known snap) doc w = ((wrap_doc ?d2, None), w1)"
      using True run
      by (simp add: composePassPipeline_def ResolveKBRefs_def ApplyStyleRules_def style_rules_doc RenderDiagrams_def
          ApplyZoneMarkers_def ValidateLinks_def)
    have links: "list_all (links_known known) (doc_blocks (wrap_doc ?d2))"
      using True by (simp add: links_validate_None links_known_def [abs_def])
    have fin: "list_all2 (\<lambda>s t. Heading t = recase U (HeadingCase st) (style_text U st (Heading s)) \<and>
        list_all2 (finished U st snap) (Blocks s) (Blocks t)) (Sections doc) ss"
      using conjunct1 [OF diagram_sections_assets [OF run]]
      unfolding style_resolved list.rel_map(1)
      by (rule list.rel_mono_strong) (simp add: section_with_assets_def list.rel_map finished_def [abs_def] comp_def)
    have wrapped: "list_all2 (\<lambda>s t. Heading t = Heading s \<and> all_wrapped None (Blocks t) \<and>
        filter (\<lambda>b. \<not> is_marker b) (Blocks t) = filter (\<lambda>b. \<not> is_marker b) (Blocks s)) ss (Sections (wrap_doc ?d2))"
      by (auto simp: wrap_doc_def list_all2_conv_all_nth nth_enumerate_eq wrapBlocks_all_wrapped wrapBlocks_content)
    have refs: "\<not> is_kbref b" if mem: "b \<in> set (doc_blocks (wrap_doc ?d2))" for b
    proof (cases "is_marker b")
      case False
      obtain t where t: "t \<in> set (Sections (wrap_doc ?d2))" "b \<in> set (Blocks t)"
        using mem by (auto simp: doc_blocks_def)
      obtain s where s: "s \<in> set ss" "filter (\<lambda>b. \<not> is_marker b) (Blocks t) = filter (\<lambda>b. \<not> is_marker b) (Blocks s)"
        using list_all2_source [OF wrapped t(1)] by blast
      have "b \<in> set (filter (\<lambda>b. \<not> is_marker b) (Blocks t))" using t(2) False by simp
      with s have b: "b \<in> set (Blocks s)" by simp
      obtain s0 :: ir_section where "list_all2 (finished U st snap) (Blocks s0) (Blocks s)"
        using list_all2_source [OF fin s(1)] by blast
      from list_all2_source [OF this b] obtain a where "finished U st snap a b" by blast
      then show ?thesis by (rule finished_kbref)
    qed (cases b, simp_all add: is_kbref_def)
    have "list_all2 (\<lambda>s t. Heading t = recase U (HeadingCase st) (style_text U st (Heading s)) \<and>
        all_wrapped None (Blocks t) \<and>
        list_all2 (finished U st snap) (filter (\<lambda>b. \<not> is_marker b) (Blocks s)) (filter (\<lambda>b. \<not> is_marker b) (Blocks t)))
        (Sections doc) (Sections (wrap_doc ?d2))"
      using list_all2_trans [OF _ fin wrapped] finished_content by simp
    then show ?thesis
      unfolding out using links refs
      by (auto simp: list_all_iff wrap_doc_def style_doc_def resolve_doc_def)
  next
    case False
    then have "snd (fst (pipeline_Apply (composePassPipeline U st D known snap) doc w)) \<noteq> None"
      using run
      by (auto simp: composePassPipeline_def ResolveKBRefs_def ApplyStyleRules_def style_rules_doc RenderDiagrams_def
          ApplyZoneMarkers_def ValidateLinks_def split: option.splits)
    then show ?thesis by (auto split: prod.splits option.splits)
  qed
qed

end
