(* ===== verification/GoText.thy ===== *)
theory GoText
  imports Prelude
begin

text \<open>
  Facts on the text functions of the standard library that several components rest on: the first
  occurrence of a string, trimming from the left, and the words of a text.
\<close>

section \<open>First occurrences and trimming\<close>

lemma IndexStr_first:
  assumes "x \<notin> set q"
  shows "\<not> Contains a (x # q) \<Longrightarrow> IndexStr (a @ x # q @ b) (x # q) = Some (length a)"
proof (induction a)
  case Nil
  show ?case by (simp add: HasPrefix_iff)
next
  case (Cons c a)
  have "\<not> prefix (x # q) (c # a @ x # q @ b)"
  proof
    assume "prefix (x # q) (c # a @ x # q @ b)"
    then have "c = x" "prefix q (a @ x # q @ b)" by auto
    with Cons.prems have "\<not> prefix q a" by (simp add: HasPrefix_iff)
    with \<open>prefix q (a @ x # q @ b)\<close> obtain us where "q = a @ us" "prefix us (x # q @ b)" "us \<noteq> []"
      unfolding prefix_append by auto
    then have "x \<in> set q" by (cases us) auto
    with assms show False ..
  qed
  with Cons show ?case by (simp add: HasPrefix_iff)
qed

lemma IndexStr_None: "IndexStr s p = None \<longleftrightarrow> \<not> Contains s p"
  by (induction s) auto

lemma IndexStr_split:
  "p \<noteq> [] \<Longrightarrow> IndexStr s p = Some i \<Longrightarrow>
     s = take i s @ p @ drop (i + length p) s \<and> \<not> Contains (take i s) p \<and> i \<le> length s"
proof (induction s arbitrary: i)
  case (Cons c s)
  show ?case
  proof (cases "HasPrefix (c # s) p")
    case True
    with Cons.prems show ?thesis by (auto simp: HasPrefix_iff prefix_def)
  next
    case False
    with Cons.prems obtain j where j: "IndexStr s p = Some j" "i = Suc j" by auto
    with Cons.IH [OF Cons.prems(1) j(1)]
    have *: "s = take j s @ p @ drop (j + length p) s" "\<not> Contains (take j s) p" "j \<le> length s" by auto
    have "\<not> prefix p (c # take j s)"
    proof
      assume "prefix p (c # take j s)"
      also have "prefix (c # take j s) (c # s)" by (simp add: take_is_prefix)
      finally show False using False by (simp add: HasPrefix_iff)
    qed
    with * j show ?thesis by (auto simp: HasPrefix_iff)
  qed
qed (simp split: if_splits)

lemma TrimLeft_iff:
  "TrimLeft s cs = t \<longleftrightarrow> (\<exists>ws. s = ws @ t \<and> set ws \<subseteq> set cs \<and> (t = [] \<or> hd t \<notin> set cs))"
proof
  assume "TrimLeft s cs = t"
  then show "\<exists>ws. s = ws @ t \<and> set ws \<subseteq> set cs \<and> (t = [] \<or> hd t \<notin> set cs)"
    unfolding TrimLeft_def
    by (intro exI [of _ "takeWhile (\<lambda>c. c \<in> set cs) s"]) (auto dest: set_takeWhileD hd_dropWhile)
next
  assume "\<exists>ws. s = ws @ t \<and> set ws \<subseteq> set cs \<and> (t = [] \<or> hd t \<notin> set cs)"
  then obtain ws where ws: "s = ws @ t" "\<forall>c \<in> set ws. c \<in> set cs" "t = [] \<or> hd t \<notin> set cs" by auto
  then have "dropWhile (\<lambda>c. c \<in> set cs) t = t" by (cases t) auto
  with ws show "TrimLeft s cs = t" by (simp add: TrimLeft_def dropWhile_append2)
qed

section \<open>Words\<close>

text \<open>A word: no Unicode space starts in it, so none does when an ASCII byte follows.\<close>

definition wordish :: "gostring \<Rightarrow> bool" where
  "wordish w = (w \<noteq> [] \<and> (\<forall>i < length w. space_len (drop i w) = 0))"

lemma space_len_prefix: "0 < space_len u \<Longrightarrow> space_len (u @ v) = space_len u"
  by (cases u) (auto split: list.splits if_splits)

lemma space_len_bound: "space_len s \<le> length s"
  by (cases s) (auto split: list.splits)

lemma ascii_not_continuation:
  "ascii_space c \<Longrightarrow> \<not> space2 a c \<and> \<not> space3 a c d \<and> \<not> space3 a b c"
  unfolding ascii_space_def by (elim disjE) (simp_all add: space2_def space3_def)

lemma space_len_ascii:
  assumes "u \<noteq> []" and "space_len u = 0" and "ascii_space c"
  shows "space_len (u @ c # v) = 0"
proof -
  obtain a u' where u: "u = a # u'" using assms(1) by (cases u) auto
  show ?thesis
  proof (cases u')
    case Nil
    with u assms ascii_not_continuation [OF assms(3)] show ?thesis by (auto split: list.splits)
  next
    case (Cons b u'')
    with u assms ascii_not_continuation [OF assms(3)] show ?thesis
      by (cases u'') (auto split: if_splits)
  qed
qed

lemma wordish_tl: "wordish (c # w) \<Longrightarrow> w \<noteq> [] \<Longrightarrow> wordish w"
  unfolding wordish_def
proof (elim conjE, intro conjI allI impI)
  fix i assume "\<forall>i < length (c # w). space_len (drop i (c # w)) = 0" "i < length w"
  then have "space_len (drop (Suc i) (c # w)) = 0" by (metis Suc_less_eq length_Cons)
  then show "space_len (drop i w) = 0" by simp
qed

lemma fields_from_word:
  "wordish w \<Longrightarrow> ascii_space c \<Longrightarrow> fields_from acc (w @ c # s) = (rev acc @ w) # fields_from [] s"
proof (induction w arbitrary: acc)
  case (Cons x w)
  have "space_len ((x # w) @ c # s) = 0"
    using Cons.prems by (intro space_len_ascii) (auto simp: wordish_def dest!: spec [where x = 0])
  then have step: "fields_from acc ((x # w) @ c # s) = fields_from (x # acc) (w @ c # s)"
    by (subst fields_from.simps) simp
  show ?case
  proof (cases "w = []")
    case True
    have "space_len (c # s) = 1" using Cons.prems(2) by simp
    then have "fields_from (x # acc) (c # s) = [rev (x # acc)] @ fields_from [] s"
      by (subst fields_from.simps) (simp del: space_len.simps)
    with step True show ?thesis by simp
  next
    case False
    with Cons wordish_tl [OF Cons.prems(1)] step show ?thesis by simp
  qed
qed (simp add: wordish_def)

lemma fields_from_last: "wordish w \<Longrightarrow> fields_from acc w = [rev acc @ w]"
proof (induction w arbitrary: acc)
  case (Cons x w)
  have "space_len (x # w) = 0"
    using Cons.prems by (auto simp: wordish_def dest!: spec [where x = 0])
  then have step: "fields_from acc (x # w) = fields_from (x # acc) w"
    by (subst fields_from.simps) simp
  show ?case
  proof (cases "w = []")
    case True
    have "fields_from (x # acc) [] = [rev (x # acc)]" by (subst fields_from.simps) simp
    with step True show ?thesis by simp
  next
    case False
    with Cons wordish_tl [OF Cons.prems] step show ?thesis by simp
  qed
qed (simp add: wordish_def)

lemma Fields_Join: "list_all wordish ws \<Longrightarrow> ascii_space c \<Longrightarrow> Fields (Join [c] ws) = ws"
proof (induction ws rule: induct_list012)
  case 1
  show ?case by (simp add: Fields_def) (subst fields_from.simps, simp)
next
  case (2 w)
  then show ?case by (simp add: Fields_def fields_from_last)
next
  case (3 w v ws)
  then show ?case by (simp add: Fields_def fields_from_word)
qed

text \<open>Lines of words, joined by line ends.\<close>

lemma fields_from_words:
  "list_all wordish ws \<Longrightarrow> ws \<noteq> [] \<Longrightarrow> ascii_space b \<Longrightarrow> ascii_space c \<Longrightarrow>
     fields_from [] (Join [b] ws @ c # s) = ws @ fields_from [] s"
  by (induction ws rule: induct_list012) (auto simp: fields_from_word)

lemma Fields_lines:
  "list_all (\<lambda>ws. ws \<noteq> [] \<and> list_all wordish ws) lines \<Longrightarrow>
     Fields (Join [NL] (map (Join '' '') lines)) = concat lines"
proof (induction lines rule: induct_list012)
  case 1
  show ?case by (simp add: Fields_def) (subst fields_from.simps, simp)
next
  case (2 ws)
  then show ?case using Fields_Join [of ws "CHR '' ''"] by (simp add: ascii_space_def)
next
  case (3 ws vs lines)
  then show ?case
    using fields_from_words [of ws "CHR '' ''" NL "Join [NL] (map (Join '' '') (vs # lines))"]
    by (simp add: Fields_def ascii_space_def)
qed

lemma Fields_wordish: "list_all wordish (Fields s)"
proof -
  have "list_all wordish (fields_from acc s)"
    if "acc = [] \<or> (\<forall>i < length acc. space_len (drop i (rev acc) @ s) = 0)" for acc
    using that
  proof (induction acc s rule: fields_from.induct)
    case (1 acc s)
    have word: "acc = [] \<or> wordish (rev acc)"
    proof (cases "acc = []")
      case False
      with 1(3) have "space_len (drop i (rev acc)) = 0" if "i < length acc" for i
        using that space_len_prefix [of "drop i (rev acc)" s] by (cases "space_len (drop i (rev acc))") auto
      with False show ?thesis by (simp add: wordish_def)
    qed simp
    consider "s = []" | "s \<noteq> []" "0 < space_len s" | "s \<noteq> []" "space_len s = 0" by blast
    then show ?case
    proof cases
      case 1
      with word show ?thesis by (subst fields_from.simps) auto
    next
      case 2
      with word 1(1) [OF 2] show ?thesis by (subst fields_from.simps) auto
    next
      case 3
      have "space_len (drop i (rev (hd s # acc)) @ tl s) = 0" if "i < length (hd s # acc)" for i
      proof (cases "i < length acc")
        case True
        with 1(3) 3 that show ?thesis by (cases s) auto
      next
        case False
        with 3 that show ?thesis by (cases s) auto
      qed
      with 1(2) 3 show ?thesis by (subst fields_from.simps) auto
    qed
  qed
  then show ?thesis by (simp add: Fields_def)
qed

end
