(* ===== verification/SpecParser.thy ===== *)
theory SpecParser
  imports Specs Sha256 GoText
begin

text \<open>
  The parser of page specs (internal/specs/parser/parser.go): a markdown file with YAML frontmatter.
  Decoding YAML is the parameter \<open>decode\<close>; of the one field with a decoder of its own, \<open>workspaces\<close>,
  it returns the node, when there is one that is not null.
\<close>

section \<open>Frontmatter\<close>

record link_yaml =
  ly_Page :: gostring
  ly_Label :: gostring
  ly_Desc :: gostring
  ly_Area :: gostring

record hub_section_yaml =
  hsy_Title :: gostring
  hsy_Desc :: gostring
  hsy_Links :: "link_yaml list"

record hub_yaml =
  hy_Members :: gostring
  hy_Sections :: "hub_section_yaml list"

text \<open>A YAML node: a sequence comes with what decoding it to a list of strings gives.\<close>

datatype yaml_node = ScalarNode gostring | SequenceNode "gostring list res" | OtherNode nat

record include_yaml =
  iy_Areas :: "gostring list"
  iy_Workspaces :: "yaml_node option"
  iy_ExcludeZones :: "gostring list"

record spec_frontmatter =
  fm_Wiki :: gostring
  fm_Page :: gostring
  fm_Kind :: gostring
  fm_Version :: int
  fm_Include :: include_yaml
  fm_FactCheck :: "(gostring \<times> gostring) list"
  fm_ProtectedBlocks :: "gostring list"
  fm_Hub :: "hub_yaml option"
  fm_Nav :: placement

definition spec_kinds :: "gostring list" where
  "spec_kinds = [''projection'', ''editorial'', ''hub'', ''runbook'']"

definition stringOrList :: "yaml_node option \<Rightarrow> gostring list res" where
  "stringOrList n =
     (case n of
        None \<Rightarrow> Inr []
      | Some (ScalarNode v) \<Rightarrow> Inr [v]
      | Some (SequenceNode r) \<Rightarrow> r
      | Some (OtherNode k) \<Rightarrow> Inl (errorf ''expected string or list of strings, got yaml kind=%d'' [nat_dec k]))"

section \<open>The delimiters\<close>

abbreviation fmDelim :: gostring where "fmDelim \<equiv> ''---''"

definition trimLeadingNewline :: "gostring \<Rightarrow> gostring" where
  "trimLeadingNewline b =
     (case b of
        c # b' \<Rightarrow>
          if c = NL then b'
          else (case b' of d # b'' \<Rightarrow> if c = CR \<and> d = NL then b'' else b | [] \<Rightarrow> b)
      | [] \<Rightarrow> b)"

definition splitFrontmatter :: "gostring \<Rightarrow> (gostring \<times> gostring) res" where
  "splitFrontmatter content =
     (case strip_prefix fmDelim (TrimLeft content [CHR '' '', TAB, CR, NL]) of
        None \<Rightarrow> Inl (errorf (''missing frontmatter (expected leading '' @ [APOS] @ ''---'' @ [APOS] @ '')'') [])
      | Some r \<Rightarrow>
          (let rest = trimLeadingNewline r in
           case IndexStr rest (NL # fmDelim) of
             None \<Rightarrow> Inl (errorf (''missing closing frontmatter delimiter ('' @ [APOS] @ ''---'' @ [APOS] @ '')'') [])
           | Some i \<Rightarrow> Inr (take i rest, trimLeadingNewline (drop (i + length fmDelim + 1) rest))))"

section \<open>Validation\<close>

fun check_links :: "nat \<Rightarrow> nat \<Rightarrow> link_yaml list \<Rightarrow> gomsg option" where
  "check_links i j [] = None"
| "check_links i j (l # ls) =
     (if ly_Page l = []
      then Some (errorf ''hub.sections[%d].links[%d]: page is required'' [nat_dec i, nat_dec j])
      else check_links i (Suc j) ls)"

fun check_hub_sections :: "bool \<Rightarrow> nat \<Rightarrow> hub_section_yaml list \<Rightarrow> gomsg option" where
  "check_hub_sections isAuto i [] = None"
| "check_hub_sections isAuto i (s # ss) =
     (if \<not> isAuto \<and> hsy_Links s = []
      then Some (errorf ''hub.sections[%d] (%q): has no links'' [nat_dec i, hsy_Title s])
      else (case check_links i 0 (hsy_Links s) of
              Some e \<Rightarrow> Some e
            | None \<Rightarrow> check_hub_sections isAuto (Suc i) ss))"

definition validateFrontmatter :: "spec_frontmatter \<Rightarrow> gomsg option" where
  "validateFrontmatter f =
     (if fm_Wiki f = [] then Some (errorf ''wiki: required'' [])
      else if fm_Page f = [] then Some (errorf ''page: required'' [])
      else if fm_Kind f = [] then Some (errorf ''kind: required'' [])
      else if fm_Kind f \<notin> set spec_kinds
      then Some (errorf ''kind: %q unknown (known: projection, editorial, hub, runbook)'' [fm_Kind f])
      else if fm_Kind f = ''hub'' then
        (case fm_Hub f of
           None \<Rightarrow> Some (errorf ''hub: kind=hub requires a hub block'' [])
         | Some h \<Rightarrow>
             (let isAuto = (hy_Members h = ''auto'') in
              if \<not> isAuto \<and> hy_Sections h = []
              then Some (errorf ''hub: kind=hub requires a non-empty hub.sections (or members: auto)'' [])
              else check_hub_sections isAuto 0 (hy_Sections h)))
      else None)"

definition toHubSpec :: "hub_yaml option \<Rightarrow> hub_spec option" where
  "toHubSpec h =
     map_option (\<lambda>h.
       \<lparr>hub_Sections =
          map (\<lambda>s. \<lparr>hs_Title = hsy_Title s, hs_Desc = hsy_Desc s,
                     hs_Links = map (\<lambda>l. \<lparr>hl_Page = ly_Page l, hl_Label = ly_Label l,
                                           hl_Desc = ly_Desc l, hl_Area = ly_Area l\<rparr>) (hsy_Links s)\<rparr>)
            (hy_Sections h),
        Auto = (hy_Members h = ''auto'')\<rparr>) h"

definition spec_Parse :: "(gostring \<Rightarrow> spec_frontmatter res) \<Rightarrow> gostring \<Rightarrow> gostring \<Rightarrow> spec res" where
  "spec_Parse decode ident content =
     (case splitFrontmatter content of
        Inl e \<Rightarrow> Inl (wrapf ''spec %s: %w'' [ident] e)
      | Inr (fm, body) \<Rightarrow>
          (case decode fm of
             Inl e \<Rightarrow> Inl (wrapf ''spec %s: frontmatter yaml: %w'' [ident] e)
           | Inr f \<Rightarrow>
               (case stringOrList (iy_Workspaces (fm_Include f)) of
                  Inl e \<Rightarrow> Inl (wrapf ''spec %s: frontmatter yaml: %w'' [ident] e)
                | Inr ws \<Rightarrow>
                    (case validateFrontmatter f of
                       Some e \<Rightarrow> Inl (wrapf ''spec %s: %w'' [ident] e)
                     | None \<Rightarrow>
                         Inr \<lparr>sp_ID = ident, Wiki = fm_Wiki f, sp_Page = fm_Page f, sp_Kind = fm_Kind f,
                              Include = \<lparr>inc_Areas = iy_Areas (fm_Include f), Workspaces = ws,
                                         ExcludeZones = iy_ExcludeZones (fm_Include f)\<rparr>,
                              FactCheck = fm_FactCheck f, sp_Body = body, Hash = sha256_hex content,
                              Hub = toHubSpec (fm_Hub f), sp_Nav = fm_Nav f\<rparr>))))"

section \<open>What the parser accepts\<close>

text \<open>What may stand after a delimiter: one line end, or none where no line ends.\<close>

definition line_end :: "gostring \<Rightarrow> gostring \<Rightarrow> bool" where
  "line_end e t = (e = [NL] \<or> e = [CR, NL] \<or> e = [] \<and> \<not> prefix [NL] t \<and> \<not> prefix [CR, NL] t)"

lemma trimLeadingNewline_iff: "trimLeadingNewline b = t \<longleftrightarrow> (\<exists>e. b = e @ t \<and> line_end e t)"
  by (auto simp: trimLeadingNewline_def line_end_def prefix_def split: list.splits)

text \<open>
  A spec file is split exactly where its format says: after white space there is a delimiter,
  the frontmatter is the text up to the first line that starts with the delimiter, and the body is
  what follows it; a line end after a delimiter belongs to neither.
\<close>

theorem frontmatter_split:
  "splitFrontmatter content = Inr (fm, body) \<longleftrightarrow>
     (\<exists>ws e1 e2. content = ws @ ''---'' @ e1 @ fm @ [NL] @ ''---'' @ e2 @ body \<and>
        set ws \<subseteq> {CHR '' '', TAB, CR, NL} \<and> \<not> Contains fm ([NL] @ ''---'') \<and>
        line_end e1 (fm @ [NL] @ ''---'' @ e2 @ body) \<and> line_end e2 body)"
  (is "?split = ?shape")
proof
  assume ?split
  then obtain r i where r: "TrimLeft content [CHR '' '', TAB, CR, NL] = fmDelim @ r"
    and i: "IndexStr (trimLeadingNewline r) (NL # fmDelim) = Some i" "fm = take i (trimLeadingNewline r)"
      "body = trimLeadingNewline (drop (i + 4) (trimLeadingNewline r))"
    by (auto simp: splitFrontmatter_def strip_prefix_Some Let_def numeral_eq_Suc split: option.splits)
  from r obtain ws where ws: "content = ws @ fmDelim @ r" "set ws \<subseteq> {CHR '' '', TAB, CR, NL}"
    unfolding TrimLeft_iff by auto
  obtain e1 where e1: "r = e1 @ trimLeadingNewline r" "line_end e1 (trimLeadingNewline r)"
    using trimLeadingNewline_iff [of r "trimLeadingNewline r"] by auto
  obtain e2 where e2: "drop (i + 4) (trimLeadingNewline r) = e2 @ body" "line_end e2 body"
    using trimLeadingNewline_iff [of "drop (i + 4) (trimLeadingNewline r)" body] i(3) by auto
  have "trimLeadingNewline r = fm @ (NL # fmDelim) @ e2 @ body" "\<not> Contains fm (NL # fmDelim)"
    using IndexStr_split [OF _ i(1)] i(2) e2(1) by (auto simp: numeral_eq_Suc)
  with ws e1 e2 show ?shape
    by (intro exI [of _ ws] exI [of _ e1] exI [of _ e2]) simp
next
  assume ?shape
  then obtain ws e1 e2 where *: "content = ws @ fmDelim @ e1 @ fm @ NL # fmDelim @ e2 @ body"
    "set ws \<subseteq> {CHR '' '', TAB, CR, NL}" "\<not> Contains fm (NL # fmDelim)"
    "line_end e1 (fm @ NL # fmDelim @ e2 @ body)" "line_end e2 body" by auto
  have t: "TrimLeft content [CHR '' '', TAB, CR, NL] = fmDelim @ e1 @ fm @ NL # fmDelim @ e2 @ body"
    unfolding TrimLeft_iff using * by (intro exI [of _ ws]) auto
  have "trimLeadingNewline (e1 @ fm @ NL # fmDelim @ e2 @ body) = fm @ NL # fmDelim @ e2 @ body"
    "trimLeadingNewline (e2 @ body) = body"
    using * by (auto simp: trimLeadingNewline_iff)
  moreover have "IndexStr (fm @ NL # fmDelim @ e2 @ body) (NL # fmDelim) = Some (length fm)"
    using IndexStr_first [of NL fmDelim fm "e2 @ body"] *(3) by simp
  ultimately show ?split
    unfolding splitFrontmatter_def t by (simp add: strip_prefix_Some Let_def)
qed

lemma closing_line_not_alone:
  "splitFrontmatter (''---'' @ [NL] @ ''wiki: w'' @ [NL] @ ''---draft'') = Inr (''wiki: w'', ''draft'')"
  by code_simp

definition valid_hub :: "hub_spec \<Rightarrow> bool" where
  "valid_hub h =
     ((Auto h \<or> hub_Sections h \<noteq> []) \<and>
      list_all (\<lambda>s. (Auto h \<or> hs_Links s \<noteq> []) \<and> list_all (\<lambda>l. hl_Page l \<noteq> []) (hs_Links s)) (hub_Sections h))"

lemma check_links_None: "check_links i j ls = None \<longleftrightarrow> list_all (\<lambda>l. ly_Page l \<noteq> []) ls"
  by (induction ls arbitrary: j) auto

lemma check_hub_sections_None:
  "check_hub_sections isAuto i ss = None \<longleftrightarrow>
     list_all (\<lambda>s. (isAuto \<or> hsy_Links s \<noteq> []) \<and> list_all (\<lambda>l. ly_Page l \<noteq> []) (hsy_Links s)) ss"
proof (induction ss arbitrary: i)
  case (Cons s ss)
  then show ?case using check_links_None [of i 0 "hsy_Links s"] by (simp split: option.split) auto
qed simp

lemma valid_toHubSpec:
  "toHubSpec (Some h) = Some h' \<Longrightarrow>
     valid_hub h' \<longleftrightarrow> (hy_Members h = ''auto'' \<or> hy_Sections h \<noteq> []) \<and>
       check_hub_sections (hy_Members h = ''auto'') 0 (hy_Sections h) = None"
  by (auto simp: toHubSpec_def valid_hub_def check_hub_sections_None list.pred_map comp_def)

definition valid_spec :: "spec \<Rightarrow> bool" where
  "valid_spec s =
     (Wiki s \<noteq> [] \<and> sp_Page s \<noteq> [] \<and> sp_Kind s \<in> set spec_kinds \<and>
      (sp_Kind s = ''hub'' \<longrightarrow> (case Hub s of None \<Rightarrow> False | Some h \<Rightarrow> valid_hub h)))"

text \<open>What is read of a frontmatter, with the workspaces its node stands for.\<close>

definition reads_hub :: "hub_yaml \<Rightarrow> hub_spec \<Rightarrow> bool" where
  "reads_hub y h =
     ((Auto h \<longleftrightarrow> hy_Members y = ''auto'') \<and>
      list_all2 (\<lambda>s t. hs_Title t = hsy_Title s \<and> hs_Desc t = hsy_Desc s \<and>
          list_all2 (\<lambda>l k. hl_Page k = ly_Page l \<and> hl_Label k = ly_Label l \<and> hl_Desc k = ly_Desc l \<and> hl_Area k = ly_Area l)
            (hsy_Links s) (hs_Links t))
        (hy_Sections y) (hub_Sections h))"

definition reads_frontmatter :: "spec_frontmatter \<Rightarrow> gostring list \<Rightarrow> spec \<Rightarrow> bool" where
  "reads_frontmatter f ws s =
     (Wiki s = fm_Wiki f \<and> sp_Page s = fm_Page f \<and> sp_Kind s = fm_Kind f \<and>
      inc_Areas (Include s) = iy_Areas (fm_Include f) \<and> Workspaces (Include s) = ws \<and>
      ExcludeZones (Include s) = iy_ExcludeZones (fm_Include f) \<and> FactCheck s = fm_FactCheck f \<and>
      sp_Nav s = fm_Nav f \<and> rel_option reads_hub (fm_Hub f) (Hub s))"

lemma reads_toHubSpec: "rel_option reads_hub y h \<longleftrightarrow> h = toHubSpec y"
proof -
  have links: "list_all2 (\<lambda>l k. hl_Page k = ly_Page l \<and> hl_Label k = ly_Label l \<and> hl_Desc k = ly_Desc l \<and> hl_Area k = ly_Area l) ls ks \<longleftrightarrow>
      ks = map (\<lambda>l. \<lparr>hl_Page = ly_Page l, hl_Label = ly_Label l, hl_Desc = ly_Desc l, hl_Area = ly_Area l\<rparr>) ls" for ls ks
    by (induction ls arbitrary: ks) (auto simp: list_all2_Cons1)
  have sections: "list_all2 (\<lambda>s t. hs_Title t = hsy_Title s \<and> hs_Desc t = hsy_Desc s \<and>
          hs_Links t = map (\<lambda>l. \<lparr>hl_Page = ly_Page l, hl_Label = ly_Label l, hl_Desc = ly_Desc l, hl_Area = ly_Area l\<rparr>) (hsy_Links s))
        ss ts \<longleftrightarrow>
      ts = map (\<lambda>s. \<lparr>hs_Title = hsy_Title s, hs_Desc = hsy_Desc s,
        hs_Links = map (\<lambda>l. \<lparr>hl_Page = ly_Page l, hl_Label = ly_Label l, hl_Desc = ly_Desc l, hl_Area = ly_Area l\<rparr>) (hsy_Links s)\<rparr>) ss" for ss ts
    by (induction ss arbitrary: ts) (auto simp: list_all2_Cons1)
  show ?thesis
    by (cases y; cases h) (auto simp: reads_hub_def toHubSpec_def links sections)
qed

lemma validateFrontmatter_valid:
  assumes "reads_frontmatter f ws s"
  shows "validateFrontmatter f = None \<longleftrightarrow> valid_spec s"
proof -
  from assms have eq: "Wiki s = fm_Wiki f" "sp_Page s = fm_Page f" "sp_Kind s = fm_Kind f" "Hub s = toHubSpec (fm_Hub f)"
    by (simp_all add: reads_frontmatter_def reads_toHubSpec)
  have hub: "valid_hub (the (toHubSpec (Some h))) \<longleftrightarrow> (hy_Members h = ''auto'' \<or> hy_Sections h \<noteq> []) \<and>
      check_hub_sections (hy_Members h = ''auto'') 0 (hy_Sections h) = None" for h
    using valid_toHubSpec [of h] by (simp add: toHubSpec_def)
  show ?thesis
    using hub eq
    by (cases "fm_Hub f") (auto simp: valid_spec_def validateFrontmatter_def Let_def toHubSpec_def spec_kinds_def)
qed

lemma spec_Parse_Inr:
  "spec_Parse decode ident content = Inr s \<longleftrightarrow>
     (\<exists>fm f ws. splitFrontmatter content = Inr (fm, sp_Body s) \<and> decode fm = Inr f \<and>
        stringOrList (iy_Workspaces (fm_Include f)) = Inr ws \<and> reads_frontmatter f ws s \<and> validateFrontmatter f = None) \<and>
     sp_ID s = ident \<and> Hash s = sha256_hex content"
  (is "?parsed \<longleftrightarrow> ?read")
proof
  show "?parsed \<Longrightarrow> ?read"
    by (auto simp: spec_Parse_def reads_frontmatter_def reads_toHubSpec split: sum.splits prod.splits option.splits)
  assume ?read
  then obtain fm f ws where "splitFrontmatter content = Inr (fm, sp_Body s)" "decode fm = Inr f"
    "stringOrList (iy_Workspaces (fm_Include f)) = Inr ws" "reads_frontmatter f ws s" "validateFrontmatter f = None"
    "sp_ID s = ident" "Hash s = sha256_hex content" by blast
  then show ?parsed
    by (cases s; cases "Include s") (simp add: spec_Parse_def reads_frontmatter_def reads_toHubSpec)
qed

lemma parsed_spec_valid: "spec_Parse decode ident content = Inr s \<Longrightarrow> valid_spec s"
  using validateFrontmatter_valid by (auto simp: spec_Parse_Inr)

text \<open>The blocks that a file protects are not in the spec: protecting others, or none, gives the same spec.\<close>

lemma protected_blocks_dropped:
  "spec_Parse (\<lambda>t. map_sum id (\<lambda>f. f\<lparr>fm_ProtectedBlocks := p f\<rparr>) (decode t)) ident content = spec_Parse decode ident content"
proof -
  have "validateFrontmatter (f\<lparr>fm_ProtectedBlocks := p f\<rparr>) = validateFrontmatter f" for f
    by (simp add: validateFrontmatter_def Let_def)
  then show ?thesis by (simp add: spec_Parse_def split: sum.split prod.split option.split)
qed

text \<open>
  C13. The parser returns a spec exactly when the file has a frontmatter that decodes and the spec is
  valid: it names its wiki and its page, its kind is known, and a hub has its sections, its links unless it is
  automatic, and a page in every link.  The spec has the identifier it was read under, the digest and the body of the
  file, and every field as the frontmatter has it: wiki, page, kind, what it includes and excludes, checks,
  placement, and the sections and links of a hub, in their order.  The version and the protected blocks are
  decoded and not kept.
\<close>

theorem spec_parse_valid:
  "spec_Parse decode ident content = Inr s \<longleftrightarrow>
     (\<exists>fm f ws. splitFrontmatter content = Inr (fm, sp_Body s) \<and> decode fm = Inr f \<and>
        stringOrList (iy_Workspaces (fm_Include f)) = Inr ws \<and> reads_frontmatter f ws s) \<and>
     valid_spec s \<and> sp_ID s = ident \<and> Hash s = sha256_hex content"
  using validateFrontmatter_valid unfolding spec_Parse_Inr by blast

end
