(* ===== verification/DeployProps.thy ===== *)
theory DeployProps
  imports CuratorSteps Deployment SpecParser
begin

text \<open>
  Whole specs in the deployment the composition root builds: which of the specs the parser accepts
  it can render, and what it leaves of a page on the in-memory wiki.
\<close>

section \<open>Kinds\<close>

lemma composed_frontends:
  "composeFrontends c llm =
     Some ([''projection'' \<mapsto> projection_frontend, ''hub'' \<mapsto> hub_frontend] ++
           (case llm of None \<Rightarrow> Map.empty
            | Some client \<Rightarrow> [''editorial'' \<mapsto> editorial_frontend client (lc_Model (cf_LLM c))]))"
proof -
  have kinds: "fe_Kind projection_frontend = ''projection''" "fe_Kind hub_frontend = ''hub''"
    "fe_Kind (editorial_frontend client m) = ''editorial''" for client m
    by (simp_all add: projection_frontend_def hub_frontend_def editorial_frontend_def)
  show ?thesis by (cases llm) (simp_all add: composeFrontends_def Register_def kinds)
qed

text \<open>
  Of the specs that the parser accepts a run can render the projections, the hubs and, with an
  LLM, the editorials: for exactly these kinds the deployment has a frontend.  A runbook parses, and
  no deployment renders it.
\<close>

theorem parsed_kind_has_frontend:
  "case spec_Parse decode ident content of
     Inl e \<Rightarrow> True
   | Inr s \<Rightarrow> sp_Kind s \<in> set spec_kinds \<and>
       (\<exists>reg. composeFrontends c llm = Some reg \<and>
          ((\<exists>fe. For reg (sp_Kind s) = Inr fe) \<longleftrightarrow>
             sp_Kind s \<in> {''projection'', ''hub''} \<union> (case llm of None \<Rightarrow> {} | Some client \<Rightarrow> {''editorial''})))"
proof (cases "spec_Parse decode ident content")
  case (Inr s)
  then have "sp_Kind s \<in> set spec_kinds" using parsed_spec_valid by (simp add: valid_spec_def)
  then show ?thesis using Inr composed_frontends [of c llm] by (auto simp: For_def split: option.split)
qed simp

section \<open>The second push\<close>

text \<open>A wiki shows what was written last, as it keeps a text: MediaWiki trims the end, the in-memory wiki nothing.\<close>

definition shows_writes :: "'w wiki_target \<Rightarrow> (gostring \<Rightarrow> gostring) \<Rightarrow> bool" where
  "shows_writes T kept \<longleftrightarrow>
     (\<forall>title text summary w rv w'. UpsertPage T title text summary w = (Inr rv, w') \<longrightarrow>
        (\<exists>p w''. GetPage T title w' = (Inr (Some p), w'') \<and> pg_Content p = kept text))"

lemma memory_shows_writes: "shows_writes curator_target (\<lambda>text. text)"
  by (auto simp: shows_writes_def curator_target_def on_wiki_def mem_UpsertPage_def mem_write_def mem_GetPage_def prepend_def Let_def)

lemma notified_write:
  assumes "OnRendered d = Some (makeWikiUpsertSink T)"
    and "notify_rendered d ident rendered doc res w = (r, w')" and "sr_Status r \<noteq> StatusFailed"
  shows "\<exists>rv. UpsertPage T (Title (Frontmatter doc)) rendered (''mykb-curator: rendered from '' @ ident) w = (Inr rv, w')"
proof -
  have title: "Title (Frontmatter doc) \<noteq> []"
    using assms by (auto simp: notify_rendered_def makeWikiUpsertSink_def Let_def split: if_splits)
  obtain rv w1 where up: "UpsertPage T (Title (Frontmatter doc)) rendered
      (''mykb-curator: rendered from '' @ ident) w = (rv, w1)" by fastforce
  with assms title show ?thesis
    by (auto simp: notify_rendered_def makeWikiUpsertSink_def Let_def split: sum.splits)
qed

text \<open>The text of a page in the format of the wiki.\<close>

definition rendered_for :: "config \<Rightarrow> ir_document \<Rightarrow> gostring" where
  "rendered_for c doc = (if wt_Type (cf_Target c) = ''mediawiki'' then mw_Render doc else md_Render doc)"

lemma composed_render: "be_Render (composeBackend c) doc = Inr (rendered_for c doc)"
  by (simp add: composeBackend_def rendered_for_def)

text \<open>
  C2. In the deployment for a wiki that is not previewed on disk, MediaWiki or in memory, the page of a spec is pushed
  twice: first what the reconciler merged with the human edits, then, by the callback for rendered pages, the render
  itself.  So when the spec does not fail, the push of the merged page has succeeded, the very last thing that happened
  is the upsert of the bare render, and the wiki shows the bare render, as it keeps a text (\<open>kept\<close>), whatever humans wrote into the page and whatever the merge had kept of it.
\<close>

theorem deployed_push_overwrites:
  assumes "composeOnRenderedSink mkdir write c T [] w0 = (sink, w1)"
    and "wt_Type (cf_Target c) = ''memory'' \<or> wt_Type (cf_Target c) = ''mediawiki''"
    and "co_Wiki co = T" and "sp_Page s \<noteq> []"
    and "shows_writes T kept"
    and "processSpec (composeDeps c co sink) s snap pp w = (r, w')" and "sr_Status r \<noteq> StatusFailed"
  shows "\<exists>fe doc0 w2 doc w3 pr w4 rv p w5.
    Option.bind (composeFrontends c (co_LLM co)) (\<lambda>reg. reg (sp_Kind s)) = Some fe \<and>
    buildOrReuseIR (composeDeps c co sink) s snap fe w = (Inr doc0, w2) \<and>
    apply_pipeline pp doc0 w2 = (Inr doc, w3) \<and>
    reconcileAndPush (composeDeps c co sink) T (sp_ID s) (sp_Page s) (rendered_for c doc) (Commit snap) w3 = (Inr pr, w4) \<and>
    UpsertPage T (Title (Frontmatter doc)) (rendered_for c doc) (''mykb-curator: rendered from '' @ sp_ID s) w4 = (Inr rv, w') \<and>
    GetPage T (Title (Frontmatter doc)) w' = (Inr (Some p), w5) \<and> pg_Content p = kept (rendered_for c doc)"
proof -
  let ?d = "composeDeps c co sink"
  have sink: "OnRendered ?d = Some (makeWikiUpsertSink T)"
    using assms(1,2) by (auto simp: composeOnRenderedSink_def)
  obtain reg where reg: "composeFrontends c (co_LLM co) = Some reg" using composeFrontends_Some by blast
  obtain fe where fe: "For reg (sp_Kind s) = Inr fe" "reg (sp_Kind s) = Some fe"
    using assms(6,7) reg by (auto simp: processSpec_def For_def Let_def split: option.splits)
  obtain doc0 w2 where d0: "buildOrReuseIR ?d s snap fe w = (Inr doc0, w2)"
    using assms(6,7) reg fe by (auto simp: processSpec_def Let_def split: prod.splits sum.splits)
  obtain doc w3 where d: "apply_pipeline pp doc0 w2 = (Inr doc, w3)"
    using assms(6,7) reg fe d0 by (auto simp: processSpec_def Let_def split: prod.splits sum.splits)
  obtain pr w4 where push: "reconcileAndPush ?d T (sp_ID s) (sp_Page s) (rendered_for c doc) (Commit snap) w3 = (Inr pr, w4)"
    using assms(3,4,6,7) reg fe d0 d
    by (auto simp: processSpec_def composed_render Let_def split: prod.splits sum.splits)
  obtain res where "notify_rendered ?d (sp_ID s) (rendered_for c doc) doc res w4 = (r, w')"
    using assms(3,4,6) reg fe d0 d push by (auto simp: processSpec_def composed_render Let_def)
  from notified_write [OF sink this assms(7)] obtain rv where up:
    "UpsertPage T (Title (Frontmatter doc)) (rendered_for c doc) (''mykb-curator: rendered from '' @ sp_ID s) w4 = (Inr rv, w')" ..
  with assms(5) obtain p w5 where "GetPage T (Title (Frontmatter doc)) w' = (Inr (Some p), w5)"
    "pg_Content p = kept (rendered_for c doc)" unfolding shows_writes_def by blast
  with reg fe(2) d0 d push up show ?thesis by fastforce
qed

definition no_sinks :: sinks_config where
  "no_sinks =
     \<lparr>SlackWebhookEnv = [], Email = \<lparr>SMTPAddr = [], em_Username = [], em_PasswordEnv = [], em_From = [], em_To = []\<rparr>,
      sc_KBJournal = False\<rparr>"

definition demo_config :: "gostring \<Rightarrow> config" where
  "demo_config target =
     \<lparr>cf_Wiki = ''w'', KBSource = \<lparr>kbs_Type = ''local'', kbs_Repo = ''kb'', kbs_Branch = []\<rparr>,
      SpecStore_Type = ''local'', SpecStore_Repo = ''specs'',
      cf_Target = \<lparr>wt_Type = target, wt_URL = [], wt_User = ''User:Bot'', wt_PasswordEnv = [], wt_DisableBotAssert = False\<rparr>,
      Writeback_Type = ''none'', Writeback_BaseBranch = [],
      cf_LLM = \<lparr>Provider = ''none'', lc_Model = [], APIKeyEnv = [], lc_Endpoint = []\<rparr>,
      CacheDir = [], Style = \<lparr>Terminology = [], HeadingCase = []\<rparr>, Sinks = no_sinks,
      Git_Root = [], Git_Repos = Map.empty, MaxRefineIterations = None, OrphanPruning = False\<rparr>"

definition no_cache :: "('a, 'w) store" where
  "no_cache = \<lparr>st_Get = (\<lambda>k w. (Inr None, w)), st_Set = (\<lambda>k v w. (None, w))\<rparr>"

definition demo_collaborators :: "curator_world collaborators" where
  "demo_collaborators =
     \<lparr>co_KB_Pull = (\<lambda>w. (Inr (net_kb ''c1'' ''old''), w)), co_KB_DiffSince = (\<lambda>c w. (DiffNotSupported, w)),
      co_Specs_Pull = (\<lambda>w. (Inr [front_page], w)), co_DocSpecs_Pull = (\<lambda>w. (Inr [], w)), co_Wiki = curator_target,
      co_LLM = None, co_Cluster = (\<lambda>p sn w. (Inl no_msg, w)), co_Reviewer = (\<lambda>a b c w. (Inl no_msg, w)),
      co_Reviser = (\<lambda>a b c e w. (Inl no_msg, w)), co_Render = (\<lambda>l s w. (RenderFailed no_msg, w)), co_message = (\<lambda>e. []),
      co_unicode = \<lparr>uni_lower = id, uni_upper = id, uni_letter = (\<lambda>r. False)\<rparr>, co_known = [''P''],
      co_RunState = curator_state, co_IRCache = no_cache, co_ClusterCache = no_cache,
      co_Manifest = curator_manifest, co_Maintenance = None, co_OnMaintenance = None, co_BuildID = ''b'',
      co_Clock = (\<lambda>w. (cw_time w, w)), co_RandomID = (\<lambda>w. (''run'', w))\<rparr>"

definition demo_deps :: "gostring \<Rightarrow> curator_world deps" where
  "demo_deps target = composeDeps (demo_config target) demo_collaborators (Some (makeWikiUpsertSink curator_target))"

lemma demo_deps_simps [simp]:
  "o_Frontends (demo_deps target) = Some plain_frontends" "RunState (demo_deps target) = Some curator_state"
  "IRCache (demo_deps target) = Some no_cache" "WikiTarget (demo_deps target) = Some curator_target"
  "o_Backend (demo_deps target) = Some (composeBackend (demo_config target))"
  "OnRendered (demo_deps target) = Some (makeWikiUpsertSink curator_target)" "Clock (demo_deps target) = (\<lambda>w. (cw_time w, w))"
  by (simp_all add: demo_deps_def composeDeps_def demo_collaborators_def composeFrontends_def plain_frontends_def
      demo_config_def Register_def Let_def projection_frontend_def hub_frontend_def)

lemma push_succeeds:
  assumes "cw_ok w" and "RunState d = Some curator_state"
  shows "\<exists>pr w'. reconcileAndPush d curator_target ident title rendered c w = (Inr pr, w')"
proof -
  have "lookupLastBotRev d ident w = (last_bot w ident, w)"
    using assms(2) by (simp add: lookupLastBotRev_def last_bot_def split: option.splits sum.splits)
  moreover obtain r w1 where "UpsertPage curator_target title (push_text w ident title rendered)
      (''mykb-curator: spec='' @ ident) w = (Inr r, w1)" using upsert_ok by blast
  ultimately show ?thesis
    using deployed.Reconcile_decide [OF assms(1), of title rendered "last_bot w ident"]
    by (simp add: reconcileAndPush_def push_text_def Let_def)
qed

lemma edited_ok: "cw_ok edited_world"
  using tracked_reachable [OF edited_reachable start_tracked] edited_facts(1)
  by (simp add: tracked_def exhausted_def in_order_def)

lemma front_title: "sp_Page front_page = ''P''" "Hash front_page = ''h''" "TrimSpace (sp_Body front_page) = []"
  "(new_document t h c)\<lparr>Sections := []\<rparr> = new_document t h c"
proof -
  have "TrimSpace [] = []" by code_simp
  then show "TrimSpace (sp_Body front_page) = []" by (simp add: front_page_def plain_spec_def)
qed (simp_all add: front_page_def plain_spec_def new_document_def)

lemma demo_succeeds:
  "\<exists>r w'. processSpec (demo_deps target) front_page (net_kb ''c1'' ''old'') (Some [ApplyZoneMarkers]) edited_world = (r, w') \<and>
     sr_Status r \<noteq> StatusFailed"
proof -
  let ?doc = "wrap_doc (new_document ''P'' ''h'' ''c1'')"
  let ?text = "rendered_for (demo_config target) ?doc"
  obtain pr w1 where p: "reconcileAndPush (demo_deps target) curator_target ''s'' ''P'' ?text ''c1'' edited_world = (Inr pr, w1)"
    using push_succeeds [OF edited_ok] by fastforce
  obtain r w2 where u: "UpsertPage curator_target ''P'' ?text (''mykb-curator: rendered from '' @ ''s'') w1 = (Inr r, w2)"
    using upsert_ok by blast
  have t: "Title (Frontmatter ?doc) = ''P''" by (simp add: wrap_doc_def new_document_def)
  show ?thesis
    using p u t
    by (simp add: processSpec_def hub_registered Let_def buildOrReuseIR_def hub_frontend_def hub_Build_def front_title
        apply_pipeline_def no_cache_def ApplyZoneMarkers_def composed_render notify_rendered_def makeWikiUpsertSink_def net_kb_def
        pushed_def spec_result_of_def del: curator_target_simps)
qed

theorem deployed_push_overwrites_witness:
  "(\<exists>r w' doc p w5.
     processSpec (demo_deps ''memory'') front_page (net_kb ''c1'' ''old'') (Some [ApplyZoneMarkers]) edited_world = (r, w') \<and>
     GetPage curator_target (Title (Frontmatter doc)) w' = (Inr (Some p), w5) \<and> pg_Content p = rendered_for (demo_config ''memory'') doc) \<and>
   (\<exists>r w' doc p w5.
     processSpec (demo_deps ''mediawiki'') front_page (net_kb ''c1'' ''old'') (Some [ApplyZoneMarkers]) edited_world = (r, w') \<and>
     GetPage curator_target (Title (Frontmatter doc)) w' = (Inr (Some p), w5) \<and> pg_Content p = rendered_for (demo_config ''mediawiki'') doc)"
proof -
  have "\<exists>r w' doc p w5.
     processSpec (demo_deps target) front_page (net_kb ''c1'' ''old'') (Some [ApplyZoneMarkers]) edited_world = (r, w') \<and>
     GetPage curator_target (Title (Frontmatter doc)) w' = (Inr (Some p), w5) \<and> pg_Content p = rendered_for (demo_config target) doc" if target: "target \<in> {''memory'', ''mediawiki''}" for target
  proof -
    obtain r w' where run: "processSpec (demo_deps target) front_page (net_kb ''c1'' ''old'') (Some [ApplyZoneMarkers]) edited_world = (r, w')"
      "sr_Status r \<noteq> StatusFailed" using demo_succeeds by blast
    have composed: "composeOnRenderedSink (\<lambda>p w. (None, w)) (\<lambda>p t w. (None, w)) (demo_config target) curator_target [] edited_world =
        (Some (makeWikiUpsertSink curator_target), edited_world)"
      "wt_Type (cf_Target (demo_config target)) = ''memory'' \<or> wt_Type (cf_Target (demo_config target)) = ''mediawiki''"
      "co_Wiki demo_collaborators = curator_target" "sp_Page front_page \<noteq> []"
      using target by (auto simp: composeOnRenderedSink_def demo_config_def demo_collaborators_def front_title)
    from deployed_push_overwrites [OF composed memory_shows_writes run [unfolded demo_deps_def]] run(1) show ?thesis by blast
  qed
  then show ?thesis by blast
qed

end
