(* ===== verification/LlmTransport.thy ===== *)
theory LlmTransport
  imports Llm KBSources
begin

text \<open>
  The clients that reach a model over HTTP (internal/llm/pi.go, internal/llm/anthropic.go) and the shim
  in front of the \<open>pi\<close> command (cmd/pi-wrapper/main.go), whose output is a stream of JSON events.
  \<open>net/http\<close>, \<open>encoding/json\<close> and starting the command are parameters.
\<close>

section \<open>HTTP\<close>

text \<open>A POST, its answer with the error reading the body ends with, and the two ways to get none.\<close>

record web_request =
  wq_URL :: gostring
  wq_Headers :: "(gostring \<times> gostring) list"
  wq_Body :: gostring

record web_reply =
  wr_Status :: int
  wr_Body :: gostring
  wr_fault :: "gomsg option"

record 'w web =
  web_check :: "gostring \<Rightarrow> gomsg option"
  web_do :: "web_request \<Rightarrow> 'w \<Rightarrow> web_reply res \<times> 'w"

definition json_content :: "gostring \<times> gostring" where
  "json_content = (''Content-Type'', ''application/json'')"

section \<open>The pi client\<close>

record pi_request =
  pq_prompt :: gostring
  pq_model :: gostring
  pq_max_tokens :: int
  pq_system :: gostring

record pi_reply =
  pr_text :: gostring
  pr_tokens_in :: int
  pr_tokens_out :: int

text \<open>
  The JSON of both ends, and the text of an error.  Encoding a request or a reply, of strings and
  integers, has no error.
\<close>

record pi_wire =
  encode_request :: "pi_request \<Rightarrow> gostring"
  decode_request :: "gostring \<Rightarrow> pi_request res"
  encode_reply :: "pi_reply \<Rightarrow> gostring"
  decode_reply :: "gostring \<Rightarrow> pi_reply res"
  error_text :: "gomsg \<Rightarrow> gostring"

definition pi_request_of :: "request \<Rightarrow> pi_request" where
  "pi_request_of req =
     \<lparr>pq_prompt = Prompt req, pq_model = Model req, pq_max_tokens = MaxTokens req, pq_system = System req\<rparr>"

definition pi_Complete :: "pi_wire \<Rightarrow> 'w web \<Rightarrow> gostring \<Rightarrow> 'w llm_client" where
  "pi_Complete J http endpoint req w =
     (let url = endpoint @ ''/complete'' in
      case web_check http url of
        Some e \<Rightarrow> (Inl (wrapf ''pi: build request: %w'' [] e), w)
      | None \<Rightarrow>
          (case web_do http \<lparr>wq_URL = url, wq_Headers = [json_content], wq_Body = encode_request J (pi_request_of req)\<rparr> w of
             (Inl e, w) \<Rightarrow> (Inl (wrapf ''pi: post %s/complete: %w'' [endpoint] e), w)
           | (Inr resp, w) \<Rightarrow>
               ((if wr_Status resp < 200 \<or> wr_Status resp \<ge> 300
                 then Inl (errorf ''pi: harness returned %d: %s'' [int_dec (wr_Status resp), wr_Body resp])
                 else (case decode_reply J (wr_Body resp) of
                         Inl e \<Rightarrow> Inl (wrapf ''pi: decode response: %w; body=%s'' [wr_Body resp] e)
                       | Inr pr \<Rightarrow>
                           if pr_text pr = []
                           then Inl (errorf ''pi: harness returned empty completion text (contract violation)'' [])
                           else Inr \<lparr>Text = pr_text pr, TokensIn = pr_tokens_in pr, TokensOut = pr_tokens_out pr,
                                     CacheHit = False\<rparr>)), w)))"

section \<open>The Anthropic client\<close>

record anthropic_config =
  ac_Endpoint :: gostring
  ac_APIKey :: gostring
  ac_Version :: gostring

definition NewAnthropicClient :: "anthropic_config \<Rightarrow> anthropic_config" where
  "NewAnthropicClient c =
     c\<lparr>ac_Endpoint := (if ac_Endpoint c = [] then ''https://api.anthropic.com'' else ac_Endpoint c),
       ac_Version := (if ac_Version c = [] then ''2023-06-01'' else ac_Version c)\<rparr>"

record messages_request =
  mq_model :: gostring
  mq_max_tokens :: int
  mq_system :: gostring
  mq_messages :: "(gostring \<times> gostring) list"
  mq_stop :: "gostring list"

record messages_reply =
  ms_content :: "(gostring \<times> gostring) list"
  ms_input_tokens :: int
  ms_output_tokens :: int
  ms_error :: "(gostring \<times> gostring) option"

definition messages_request_of :: "request \<Rightarrow> messages_request" where
  "messages_request_of req =
     \<lparr>mq_model = Model req, mq_max_tokens = (if MaxTokens req = 0 then 4096 else MaxTokens req),
      mq_system = System req, mq_messages = [(''user'', Prompt req)], mq_stop = Stop req\<rparr>"

text \<open>The texts of the blocks of type text, one after the other.\<close>

definition text_blocks :: "(gostring \<times> gostring) list \<Rightarrow> gostring" where
  "text_blocks blocks = concat (map snd (filter (\<lambda>b. fst b = ''text'') blocks))"

definition anthropic_Complete ::
  "(messages_request \<Rightarrow> gostring) \<Rightarrow> (gostring \<Rightarrow> messages_reply res) \<Rightarrow> 'w web \<Rightarrow> anthropic_config \<Rightarrow> 'w llm_client" where
  "anthropic_Complete encode decode http c req w =
     (let url = ac_Endpoint c @ ''/v1/messages'' in
      case web_check http url of
        Some e \<Rightarrow> (Inl (wrapf ''anthropic: new request: %w'' [] e), w)
      | None \<Rightarrow>
          (case web_do http
                  \<lparr>wq_URL = url,
                   wq_Headers = [json_content, (''x-api-key'', ac_APIKey c), (''anthropic-version'', ac_Version c)],
                   wq_Body = encode (messages_request_of req)\<rparr> w of
             (Inl e, w) \<Rightarrow> (Inl (wrapf ''anthropic: http: %w'' [] e), w)
           | (Inr resp, w) \<Rightarrow>
               ((case wr_fault resp of
                   Some e \<Rightarrow> Inl (wrapf ''anthropic: read body: %w'' [] e)
                 | None \<Rightarrow>
                     (case decode (wr_Body resp) of
                        Inl e \<Rightarrow> Inl (wrapf ''anthropic: decode response (status=%d): %w; body=%s''
                                        [int_dec (wr_Status resp), wr_Body resp] e)
                      | Inr m \<Rightarrow>
                          (case ms_error m of
                             Some (t, msg) \<Rightarrow> Inl (errorf ''anthropic: api error %s: %s'' [t, msg])
                           | None \<Rightarrow>
                               if wr_Status resp \<ge> 400
                               then Inl (errorf ''anthropic: http status %d: %s'' [int_dec (wr_Status resp), wr_Body resp])
                               else Inr \<lparr>Text = text_blocks (ms_content m), TokensIn = ms_input_tokens m,
                                         TokensOut = ms_output_tokens m, CacheHit = False\<rparr>))), w)))"

section \<open>The event stream of pi\<close>

record pi_msg =
  pm_Role :: gostring
  pm_Content :: "(gostring \<times> gostring) list"
  pm_Input :: int
  pm_Output :: int

record pi_event =
  pe_Type :: gostring
  pe_Messages :: "pi_msg list"
  pe_Message :: "pi_msg option"

definition assistant :: "pi_msg \<Rightarrow> bool" where "assistant m = (pm_Role m = ''assistant'')"

text \<open>The message an event puts into \<open>final\<close>, if any; \<open>agent_end\<close> is searched from its end.\<close>

definition event_message :: "pi_event \<Rightarrow> pi_msg option" where
  "event_message ev =
     (if pe_Type ev = ''agent_end'' then find assistant (rev (pe_Messages ev))
      else if pe_Type ev = ''turn_end'' \<or> pe_Type ev = ''message_end'' then
        (case pe_Message ev of None \<Rightarrow> None | Some m \<Rightarrow> if assistant m then Some m else None)
      else None)"

definition pi_step :: "pi_event \<Rightarrow> pi_msg option \<Rightarrow> pi_msg option" where
  "pi_step ev final = (case event_message ev of None \<Rightarrow> final | Some m \<Rightarrow> Some m)"

definition pi_line :: "(gostring \<Rightarrow> pi_event res) \<Rightarrow> gostring \<Rightarrow> pi_msg option \<Rightarrow> pi_msg option" where
  "pi_line decode l final =
     (let l = TrimSpace l in
      if l = [] then final else (case decode l of Inl _ \<Rightarrow> final | Inr ev \<Rightarrow> pi_step ev final))"

text \<open>\<open>bufio.Scanner\<close> over the buffer, with tokens of at most 4 MB: the lines before one too long, and whether there is one.\<close>

definition pi_max_token :: nat where "pi_max_token = 4 * 1024 * 1024"

definition pi_lines :: "gostring \<Rightarrow> gostring list \<times> bool" where
  "pi_lines s =
     (let ls = raw_lines s; fit = takeWhile (\<lambda>l. length l < pi_max_token) ls in (map dropCR fit, fit \<noteq> ls))"

definition final_reply :: "pi_msg option \<Rightarrow> pi_reply res" where
  "final_reply final =
     (case final of
        None \<Rightarrow> Inl (errorf ''pi produced no assistant message'' [])
      | Some m \<Rightarrow>
          if text_blocks (pm_Content m) = []
          then Inl (errorf ''pi assistant message had no text content'' [])
          else Inr \<lparr>pr_text = text_blocks (pm_Content m), pr_tokens_in = pm_Input m, pr_tokens_out = pm_Output m\<rparr>)"

definition parsePiStream :: "(gostring \<Rightarrow> pi_event res) \<Rightarrow> gostring \<Rightarrow> pi_reply res" where
  "parsePiStream decode s =
     (case pi_lines s of
        (ls, tooLong) \<Rightarrow>
          if tooLong then Inl (wrapf ''pi stream read: %w'' [] (errorf ''bufio.Scanner: token too long'' []))
          else final_reply (fold (pi_line decode) ls None))"

section \<open>The shim\<close>

text \<open>Running pi: its arguments and its standard input; an error comes with what it wrote to stderr.\<close>

type_synonym 'w pi_exec =
  "gostring \<Rightarrow> gostring list \<Rightarrow> gostring \<Rightarrow> 'w \<Rightarrow> ((gomsg \<times> gostring) + gostring) \<times> 'w"

definition pi_args :: "pi_request \<Rightarrow> gostring list" where
  "pi_args req =
     [''--print'', ''--mode'', ''json'', ''--no-tools'', ''--no-session'', ''--no-extensions'', ''--no-skills''] @
     (if pq_model req \<noteq> [] then [''--model'', pq_model req] else []) @
     (if TrimSpace (pq_system req) \<noteq> [] then [''--system-prompt'', pq_system req] else [])"

definition invokePi ::
  "(gostring \<Rightarrow> pi_event res) \<Rightarrow> 'w pi_exec \<Rightarrow> gostring \<Rightarrow> pi_request \<Rightarrow> 'w \<Rightarrow> pi_reply res \<times> 'w" where
  "invokePi decode exec piBin req w =
     (case exec piBin (pi_args req) (pq_prompt req) w of
        (Inl (e, stderr), w) \<Rightarrow> (Inl (wrapf ''pi exec failed: %v; stderr=%s'' [TrimSpace stderr] e), w)
      | (Inr stdout, w) \<Rightarrow> (parsePiStream decode stdout, w))"

text \<open>\<open>http.Error\<close> and an encoded body, both with a final newline.\<close>

definition web_error :: "gostring \<Rightarrow> int \<Rightarrow> web_reply" where
  "web_error msg code = \<lparr>wr_Status = code, wr_Body = msg @ [NL], wr_fault = None\<rparr>"

definition pi_complete ::
  "pi_wire \<Rightarrow> (gostring \<Rightarrow> pi_event res) \<Rightarrow> 'w pi_exec \<Rightarrow> gostring \<Rightarrow> gostring \<Rightarrow> gostring \<Rightarrow> 'w \<Rightarrow> web_reply \<times> 'w" where
  "pi_complete J decode exec piBin httpMethod body w =
     (if httpMethod \<noteq> ''POST'' then (web_error ''POST required'' 405, w)
      else (case decode_request J body of
              Inl e \<Rightarrow> (web_error (''decode request: '' @ error_text J e) 400, w)
            | Inr req \<Rightarrow>
                if TrimSpace (pq_prompt req) = [] then (web_error ''prompt: required'' 400, w)
                else (case invokePi decode exec piBin req w of
                        (Inl e, w) \<Rightarrow> (web_error (error_text J e) 502, w)
                      | (Inr resp, w) \<Rightarrow> (\<lparr>wr_Status = 200, wr_Body = encode_reply J resp @ [NL], wr_fault = None\<rparr>, w))))"

definition pi_healthz :: "pi_wire \<Rightarrow> 'w pi_exec \<Rightarrow> gostring \<Rightarrow> 'w \<Rightarrow> web_reply \<times> 'w" where
  "pi_healthz J exec piBin w =
     (case exec piBin [''--version''] [] w of
        (Inl (e, _), w) \<Rightarrow> (web_error (''pi binary not reachable: '' @ error_text J e) 503, w)
      | (Inr _, w) \<Rightarrow> (\<lparr>wr_Status = 200, wr_Body = ''ok'', wr_fault = None\<rparr>, w))"

section \<open>Which message is the answer\<close>

text \<open>The events of the lines, without those that are not JSON, and the messages they bring.\<close>

definition stream_events :: "(gostring \<Rightarrow> pi_event res) \<Rightarrow> gostring list \<Rightarrow> pi_event list" where
  "stream_events decode ls =
     concat (map (\<lambda>l. if TrimSpace l = [] then [] else (case decode (TrimSpace l) of Inl _ \<Rightarrow> [] | Inr ev \<Rightarrow> [ev])) ls)"

definition assistant_messages :: "pi_event \<Rightarrow> pi_msg list" where
  "assistant_messages ev =
     (if pe_Type ev = ''agent_end'' then filter assistant (pe_Messages ev)
      else if pe_Type ev \<in> {''turn_end'', ''message_end''} then filter assistant (case pe_Message ev of None \<Rightarrow> [] | Some m \<Rightarrow> [m])
      else [])"

definition last_message :: "pi_event list \<Rightarrow> pi_msg option" where
  "last_message evs = (let ms = concat (map assistant_messages evs) in if ms = [] then None else Some (last ms))"

definition carries :: "pi_event \<Rightarrow> bool" where "carries ev = (assistant_messages ev \<noteq> [])"

text \<open>
  The extraction of the contract (docs/pi-harness-contract.md): from the last \<open>agent_end\<close>, and only if there is none
  from the last \<open>turn_end\<close>, the last assistant message of its \<open>messages\<close>; without either, the last assistant
  message of a \<open>message_end\<close>.  An event without an assistant message gives no answer, whatever came before it.
\<close>

definition of_type :: "gostring \<Rightarrow> pi_event list \<Rightarrow> pi_event list" where
  "of_type t evs = filter (\<lambda>ev. pe_Type ev = t) evs"

definition last_assistant :: "pi_msg list \<Rightarrow> pi_msg option" where
  "last_assistant ms = (case filter assistant ms of [] \<Rightarrow> None | as \<Rightarrow> Some (last as))"

definition contract_message :: "pi_event list \<Rightarrow> pi_msg option" where
  "contract_message evs =
     (if of_type ''agent_end'' evs \<noteq> [] then last_assistant (pe_Messages (last (of_type ''agent_end'' evs)))
      else if of_type ''turn_end'' evs \<noteq> [] then last_assistant (pe_Messages (last (of_type ''turn_end'' evs)))
      else last_assistant (concat (map (\<lambda>ev. case pe_Message ev of None \<Rightarrow> [] | Some m \<Rightarrow> [m]) (of_type ''message_end'' evs))))"

text \<open>
  The order of events the contract documents: an \<open>agent_end\<close> with an assistant message ends the stream, as far as
  messages go; or the stream broke off before any turn ended.
\<close>

definition well_ended :: "pi_event list \<Rightarrow> bool" where
  "well_ended evs =
     ((case dropWhile (\<lambda>ev. pe_Type ev \<noteq> ''agent_end'' \<and> \<not> carries ev) (rev evs) of
         [] \<Rightarrow> False | ev # _ \<Rightarrow> pe_Type ev = ''agent_end'' \<and> carries ev) \<or>
      list_all (\<lambda>ev. pe_Type ev \<notin> {''agent_end'', ''turn_end''}) evs)"

lemma fold_pi_line: "fold (pi_line decode) ls final = fold pi_step (stream_events decode ls) final"
  by (induction ls arbitrary: final) (auto simp: stream_events_def pi_line_def Let_def split: sum.split)

lemma event_message_last: "event_message ev = (if carries ev then Some (last (assistant_messages ev)) else None)"
proof -
  have find_rev: "find assistant (rev ms) = (if filter assistant ms = [] then None else Some (last (filter assistant ms)))" for ms
    by (induction ms rule: rev_induct) auto
  show ?thesis
    by (auto simp: event_message_def assistant_messages_def carries_def find_rev split: option.split)
qed

lemma carries_event: "carries ev \<longleftrightarrow> event_message ev \<noteq> None"
  by (simp add: event_message_last)

lemma last_message_snoc: "last_message (evs @ [ev]) = (if carries ev then event_message ev else last_message evs)"
  by (simp add: last_message_def event_message_last carries_def Let_def)

lemma fold_pi_step: "fold pi_step evs final = (case last_message evs of None \<Rightarrow> final | Some m \<Rightarrow> Some m)"
proof (induction evs rule: rev_induct)
  case (snoc ev evs)
  then show ?case by (auto simp: last_message_snoc pi_step_def carries_event split: option.split)
qed (simp add: last_message_def)

lemma last_message_skip: "list_all (\<lambda>e. \<not> carries e) post \<Longrightarrow> last_message (evs @ post) = last_message evs"
proof (induction post rule: rev_induct)
  case (snoc e post)
  then show ?case using last_message_snoc [of "evs @ post" e] by simp
qed simp

lemma contract_last: assumes "well_ended evs" shows "contract_message evs = last_message evs"
proof (cases "list_all (\<lambda>ev. pe_Type ev \<notin> {''agent_end'', ''turn_end''}) evs")
  case True
  then have none: "of_type ''agent_end'' evs = []" "of_type ''turn_end'' evs = []"
    by (auto simp: of_type_def filter_empty_conv list_all_iff)
  have "concat (map assistant_messages evs) =
      filter assistant (concat (map (\<lambda>ev. case pe_Message ev of None \<Rightarrow> [] | Some m \<Rightarrow> [m]) (of_type ''message_end'' evs)))"
    using True by (induction evs) (auto simp: assistant_messages_def of_type_def)
  then show ?thesis
    by (simp add: contract_message_def none last_message_def last_assistant_def Let_def split: list.split)
next
  case False
  let ?skip = "\<lambda>ev. pe_Type ev \<noteq> ''agent_end'' \<and> \<not> carries ev"
  from assms False obtain ev pre where ev: "dropWhile ?skip (rev evs) = ev # pre" "pe_Type ev = ''agent_end''" "carries ev"
    by (auto simp: well_ended_def split: list.splits)
  define post where "post = rev (takeWhile ?skip (rev evs))"
  have "rev evs = takeWhile ?skip (rev evs) @ ev # pre" using takeWhile_dropWhile_id [of ?skip "rev evs"] unfolding ev(1) by (rule sym)
  then have "rev (rev evs) = rev (takeWhile ?skip (rev evs) @ ev # pre)" by (rule arg_cong)
  then have evs: "evs = rev pre @ ev # post" by (simp add: post_def)
  have post: "list_all ?skip post" unfolding post_def list_all_iff by (auto dest: set_takeWhileD)
  then have "of_type ''agent_end'' evs = of_type ''agent_end'' (rev pre) @ [ev]"
    using ev(2) unfolding evs by (auto simp: of_type_def filter_empty_conv list_all_iff)
  then have "contract_message evs = last_assistant (pe_Messages ev)" by (simp add: contract_message_def)
  also have "\<dots> = event_message ev"
    using ev(2,3) by (auto simp: event_message_last last_assistant_def assistant_messages_def carries_def split: list.split)
  also have "\<dots> = last_message ((rev pre @ [ev]) @ post)"
    using post ev(3) by (subst last_message_skip) (auto simp: list_all_iff last_message_snoc)
  finally show ?thesis by (simp add: evs)
qed

text \<open>
  C37. The shim reads the answer the contract of the harness names: of a stream that an \<open>agent_end\<close> with an
  assistant message ends, or that broke off before a turn ended, it returns the text and the token counts of
  the message the contract extracts, or the error for none, whatever else is in the stream.
\<close>

theorem pi_stream_contract:
  assumes "well_ended (stream_events decode (fst (pi_lines s)))" and "\<not> snd (pi_lines s)"
  shows "parsePiStream decode s = final_reply (contract_message (stream_events decode (fst (pi_lines s))))"
  using assms by (auto simp: parsePiStream_def fold_pi_line fold_pi_step contract_last split: prod.split option.split)

text \<open>The events of the witnesses, by the texts of their lines, and the stream they are written as.\<close>

definition says :: "gostring \<Rightarrow> pi_msg" where
  "says t = \<lparr>pm_Role = ''assistant'', pm_Content = [(''text'', t)], pm_Input = 615, pm_Output = 6\<rparr>"

definition pong_event :: "gostring \<Rightarrow> pi_event res" where
  "pong_event l =
     (if l = ''{message_end}'' then Inr \<lparr>pe_Type = ''message_end'', pe_Messages = [], pe_Message = Some (says ''po'')\<rparr>
      else if l = ''{turn_end}'' then Inr \<lparr>pe_Type = ''turn_end'', pe_Messages = [], pe_Message = Some (says ''pon'')\<rparr>
      else if l = ''{agent_end}'' then Inr \<lparr>pe_Type = ''agent_end'', pe_Messages = [says ''pi'', says ''pong''], pe_Message = None\<rparr>
      else if l = ''{empty}'' then Inr \<lparr>pe_Type = ''agent_end'', pe_Messages = [], pe_Message = None\<rparr>
      else Inl (errorf ''invalid character'' []))"

definition pong :: "gostring list \<Rightarrow> gostring" where
  "pong ls = concat (map (\<lambda>l. l @ [NL]) ls)"

definition pong_lines :: "gostring list" where
  "pong_lines = [''{message_end}'', [], ''{turn_end}'', ''warning'', ''{agent_end}'']"

lemma pi_lines_pong: "pi_lines (pong pong_lines) = (pong_lines, False)"
  by (simp add: pong_lines_def pong_def pi_lines_def raw_lines_def pi_max_token_def dropCR_def Let_def)

lemma pong_reply: "parsePiStream pong_event (pong pong_lines) = Inr \<lparr>pr_text = ''pong'', pr_tokens_in = 615, pr_tokens_out = 6\<rparr>"
  unfolding parsePiStream_def pi_lines_pong by code_simp

theorem pi_stream_contract_witness:
  "final_reply (contract_message (stream_events pong_event (fst (pi_lines (pong pong_lines))))) =
     Inr \<lparr>pr_text = ''pong'', pr_tokens_in = 615, pr_tokens_out = 6\<rparr>"
proof -
  have "well_ended (stream_events pong_event (fst (pi_lines (pong pong_lines))))" "\<not> snd (pi_lines (pong pong_lines))"
    unfolding pi_lines_pong by code_simp+
  from pi_stream_contract [OF this] pong_reply show ?thesis by simp
qed

text \<open>A message after the end of the agent replaces the answer, against the contract.\<close>

lemma late_message_wins:
  "final_reply (fold (pi_line pong_event) [''{agent_end}'', ''{message_end}''] None) =
     Inr \<lparr>pr_text = ''po'', pr_tokens_in = 615, pr_tokens_out = 6\<rparr>"
  "final_reply (contract_message (stream_events pong_event [''{agent_end}'', ''{message_end}''])) =
     Inr \<lparr>pr_text = ''pong'', pr_tokens_in = 615, pr_tokens_out = 6\<rparr>"
  by code_simp+

text \<open>
  An \<open>agent_end\<close> without an assistant message leaves the answer of an earlier event in place, where the contract
  names an error.
\<close>

lemma earlier_message_kept:
  "final_reply (fold (pi_line pong_event) [''{turn_end}'', ''{empty}''] None) =
     Inr \<lparr>pr_text = ''pon'', pr_tokens_in = 615, pr_tokens_out = 6\<rparr>"
  "contract_message (stream_events pong_event [''{turn_end}'', ''{empty}'']) = None"
  by code_simp+

text \<open>
  Of a \<open>turn_end\<close> the contract takes \<open>messages\<close>, and the code \<open>message\<close>, which is what pi writes
  (test/fixtures/pi/pong.jsonl).
\<close>

lemma turn_end_message:
  "final_reply (fold (pi_line pong_event) [''{turn_end}''] None) =
     Inr \<lparr>pr_text = ''pon'', pr_tokens_in = 615, pr_tokens_out = 6\<rparr>"
  "contract_message (stream_events pong_event [''{turn_end}'']) = None"
  by code_simp+

section \<open>The client in front of the shim\<close>

text \<open>A network on which the shim answers at the endpoint.\<close>

definition shim_web ::
  "pi_wire \<Rightarrow> (gostring \<Rightarrow> pi_event res) \<Rightarrow> 'w pi_exec \<Rightarrow> gostring \<Rightarrow> gostring \<Rightarrow> 'w web" where
  "shim_web J decode exec piBin endpoint =
     \<lparr>web_check = (\<lambda>url. None),
      web_do = (\<lambda>r w. if wq_URL r = endpoint @ ''/complete''
                      then (case pi_complete J decode exec piBin ''POST'' (wq_Body r) w of (reply, w) \<Rightarrow> (Inr reply, w))
                      else (Inr (web_error ''404 page not found'' 404), w))\<rparr>"

definition harness_error :: "int \<Rightarrow> gostring \<Rightarrow> gomsg" where
  "harness_error code msg = errorf ''pi: harness returned %d: %s'' [int_dec code, msg @ [NL]]"

definition response_of :: "pi_reply \<Rightarrow> response" where
  "response_of r = \<lparr>Text = pr_text r, TokensIn = pr_tokens_in r, TokensOut = pr_tokens_out r, CacheHit = False\<rparr>"

lemma parsePiStream_text: "parsePiStream decode s = Inr r \<Longrightarrow> pr_text r \<noteq> []"
  by (auto simp: parsePiStream_def final_reply_def split: prod.splits option.splits if_splits)

text \<open>
  C24. The two halves of the transport make one client: a request through the shim runs pi exactly once,
  as a plain model without tools, session, extensions or skills and with the prompt on its standard input, and
  the answer is the one that is read from the stream; a blank prompt, a failure of pi and a stream without an answer are
  errors with what the shim said.
\<close>

theorem pi_end_to_end:
  assumes "decode_request J (encode_request J (pi_request_of req)) = Inr (pi_request_of req)"
    and "\<And>r. decode_reply J (encode_reply J r @ [NL]) = Inr r"
  shows "pi_Complete J (shim_web J decode exec piBin endpoint) endpoint req w =
     (if TrimSpace (Prompt req) = [] then (Inl (harness_error 400 ''prompt: required''), w)
      else (case exec piBin (pi_args (pi_request_of req)) (Prompt req) w of
              (Inl (e, stderr), w) \<Rightarrow>
                (Inl (harness_error 502 (error_text J (wrapf ''pi exec failed: %v; stderr=%s'' [TrimSpace stderr] e))), w)
            | (Inr stdout, w) \<Rightarrow>
                ((case parsePiStream decode stdout of
                    Inl e \<Rightarrow> Inl (harness_error 502 (error_text J e))
                  | Inr r \<Rightarrow> Inr (response_of r)), w)))"
proof (cases "TrimSpace (Prompt req) = []")
  case True
  with assms(1) show ?thesis
    by (simp add: pi_Complete_def shim_web_def pi_complete_def web_error_def harness_error_def pi_request_of_def)
next
  case False
  obtain ran w' where run: "exec piBin (pi_args (pi_request_of req)) (Prompt req) w = (ran, w')" by fastforce
  have [simp]: "pq_prompt (pi_request_of req) = Prompt req" by (simp add: pi_request_of_def)
  show ?thesis
  proof (cases ran)
    case (Inl err)
    obtain e stderr where "err = (e, stderr)" by fastforce
    with False run Inl assms(1) show ?thesis
      by (simp add: pi_Complete_def shim_web_def pi_complete_def invokePi_def web_error_def harness_error_def)
  next
    case (Inr out)
    with False run assms show ?thesis
      by (cases "parsePiStream decode out")
         (simp_all add: pi_Complete_def shim_web_def pi_complete_def invokePi_def web_error_def harness_error_def
            response_of_def parsePiStream_text)
  qed
qed

definition plain_wire :: pi_wire where
  "plain_wire =
     \<lparr>encode_request = pq_prompt,
      decode_request = (\<lambda>b. Inr \<lparr>pq_prompt = b, pq_model = ''m'', pq_max_tokens = 5, pq_system = []\<rparr>),
      encode_reply = (\<lambda>r. json_encode plain_codec (response_of r)),
      decode_reply = (\<lambda>b. map_sum id (\<lambda>r. \<lparr>pr_text = Text r, pr_tokens_in = TokensIn r, pr_tokens_out = TokensOut r\<rparr>)
                             (json_decode plain_codec (butlast b))),
      error_text = msg_format\<rparr>"

definition answers_pong :: "nat pi_exec" where
  "answers_pong bin args stdin n =
     (if args = [''--print'', ''--mode'', ''json'', ''--no-tools'', ''--no-session'', ''--no-extensions'', ''--no-skills'', ''--model'', ''m'']
      then (Inr (pong pong_lines), Suc n)
      else (Inl (errorf ''bad arguments'' [], []), n))"

theorem pi_end_to_end_witness:
  "pi_Complete plain_wire (shim_web plain_wire pong_event answers_pong ''pi'' ''http://pi:8080'') ''http://pi:8080''
     (ask ''m'' [] ''ping'' 5) 0 = (Inr \<lparr>Text = ''pong'', TokensIn = 615, TokensOut = 6, CacheHit = False\<rparr>, 1)"
proof -
  have reply: "decode_reply plain_wire (encode_reply plain_wire r @ [NL]) = Inr r" for r
    by (simp add: plain_wire_def plain_codec_roundtrip response_of_def)
  have request: "decode_request plain_wire (encode_request plain_wire (pi_request_of (ask ''m'' [] ''ping'' 5))) =
      Inr (pi_request_of (ask ''m'' [] ''ping'' 5))"
    by (simp add: plain_wire_def pi_request_of_def ask_def)
  have run: "answers_pong ''pi'' (pi_args (pi_request_of (ask ''m'' [] ''ping'' 5))) (Prompt (ask ''m'' [] ''ping'' 5)) 0 =
      (Inr (pong pong_lines), 1)"
    by code_simp
  have prompt: "TrimSpace (Prompt (ask ''m'' [] ''ping'' 5)) \<noteq> []" by code_simp
  show ?thesis
    unfolding pi_end_to_end [OF request reply] run using prompt by (simp add: pong_reply response_of_def)
qed

end
