(* ===== verification/Connections.thy ===== *)
theory Connections
  imports Deployment LlmTransport Stores
begin

text \<open>
  What the composition root opens (cmd/mykb-curator/main.go): the LLM client and the wiki target that the
  configuration chooses, over the network and the cache directory of the wiki.
\<close>

section \<open>Opening\<close>

text \<open>
  The database library of the run state, by handles of open databases; the HTTP client and the codecs of the LLM clients,
  the files below a directory with the fault the next write meets, and the constructors of the wiki library and of the
  in-memory target.
\<close>

record 'w bolt_lib =
  bolt_Open :: "gostring \<Rightarrow> 'w \<Rightarrow> nat res \<times> 'w"
  bolt_CreateBucket :: "nat \<Rightarrow> gostring \<Rightarrow> 'w \<Rightarrow> gomsg option \<times> 'w"
  bolt_Close :: "nat \<Rightarrow> 'w \<Rightarrow> gomsg option \<times> 'w"
  bolt_Get :: "nat \<Rightarrow> gostring \<Rightarrow> 'w \<Rightarrow> spec_state res bolt_read \<times> 'w"
  bolt_Put :: "nat \<Rightarrow> gostring \<Rightarrow> spec_state res \<Rightarrow> 'w \<Rightarrow> bolt_write \<times> 'w"

record 'w connections =
  cn_http :: "'w web"
  cn_messages :: "messages_request \<Rightarrow> gostring"
  cn_reply :: "gostring \<Rightarrow> messages_reply res"
  cn_pi :: pi_wire
  cn_codec :: codec
  cn_files :: "gostring \<Rightarrow> 'w \<Rightarrow> gostring files"
  cn_set_files :: "gostring \<Rightarrow> gostring files \<Rightarrow> 'w \<Rightarrow> 'w"
  cn_fault :: "gostring \<Rightarrow> 'w \<Rightarrow> gostring write_fault option"
  cn_mw :: "gostring \<Rightarrow> gostring \<Rightarrow> bool \<Rightarrow> 'w mw_client res"
  cn_memory :: "gostring \<Rightarrow> 'w \<Rightarrow> 'w wiki_target \<times> 'w"
  cn_bolt :: "'w bolt_lib"

definition live_client :: "'w connections \<Rightarrow> gostring \<Rightarrow> gostring \<Rightarrow> 'w llm_client" where
  "live_client K endpoint key =
     anthropic_Complete (cn_messages K) (cn_reply K) (cn_http K)
       (NewAnthropicClient \<lparr>ac_Endpoint = endpoint, ac_APIKey = key, ac_Version = []\<rparr>)"

definition cached_client :: "'w connections \<Rightarrow> gostring \<Rightarrow> 'w llm_client \<Rightarrow> 'w llm_client" where
  "cached_client K dir inner req w =
     (case cache_Complete (cn_codec K) inner (cn_fault K dir w) req (cn_files K dir w, w) of
        (r, (fs, w)) \<Rightarrow> (r, cn_set_files K dir fs w))"

definition open_llm :: "'w connections \<Rightarrow> llm_choice \<Rightarrow> 'w llm_client" where
  "open_llm K choice =
     (case choice of
        AnthropicLLM endpoint key dir \<Rightarrow> cached_client K dir (live_client K endpoint key)
      | PiLLM endpoint \<Rightarrow> pi_Complete (cn_pi K) (cn_http K) endpoint
      | ReplayLLM dir \<Rightarrow> (\<lambda>req w. (fst (replay_Complete (cn_codec K) dir req (cn_files K dir w)), w)))"

text \<open>The constructor of the MediaWiki target: an agent that is not given has a default, and the bot is asserted unless that is disabled.\<close>

definition mw_New ::
  "(gostring \<Rightarrow> gostring \<Rightarrow> bool \<Rightarrow> 'w mw_client res) \<Rightarrow> gostring \<Rightarrow> gostring \<Rightarrow> bool \<Rightarrow> mw_config \<Rightarrow> 'w wiki_target res" where
  "mw_New connect url agent disableBotAssert cfg =
     (case connect url (if agent = [] then ''mykb-curator/0.0'' else agent) (\<not> disableBotAssert) of
        Inl e \<Rightarrow> Inl (wrapf ''mediawiki: new client: %w'' [] e)
      | Inr cl \<Rightarrow> Inr (mediawiki_target cl cfg))"

definition open_wiki :: "'w connections \<Rightarrow> wiki_choice \<Rightarrow> 'w \<Rightarrow> 'w wiki_target res \<times> 'w" where
  "open_wiki K choice w =
     (case choice of
        MediaWikiTarget url cfg disable \<Rightarrow> (mw_New (cn_mw K) url [] disable cfg, w)
      | MemoryTarget bot_user \<Rightarrow> (case cn_memory K bot_user w of (T, w) \<Rightarrow> (Inr T, w)))"

definition runstate_Open :: "'w bolt_lib \<Rightarrow> gostring \<Rightarrow> 'w \<Rightarrow> nat res \<times> 'w" where
  "runstate_Open B path w =
     (case bolt_Open B path w of
        (Inl e, w) \<Rightarrow> (Inl (wrapf ''runstate: open %s: %w'' [path] e), w)
      | (Inr db, w) \<Rightarrow>
          (case bolt_CreateBucket B db ''spec-state'' w of
             (Some e, w) \<Rightarrow> (Inl (wrapf ''runstate: init bucket: %w'' [] e), snd (bolt_Close B db w))
           | (None, w) \<Rightarrow> (Inr db, w)))"

definition runstate_cache :: "'w bolt_lib \<Rightarrow> nat \<Rightarrow> (spec_state, 'w) store" where
  "runstate_cache B db = \<lparr>st_Get = runstate_Get (bolt_Get B db), st_Set = runstate_Set (bolt_Put B db)\<rparr>"

section \<open>Sessions\<close>

text \<open>
  A disk without faults on which what is written is there, and a codec that reads what it writes.
\<close>

definition sound_files :: "'w connections \<Rightarrow> gostring \<Rightarrow> bool" where
  "sound_files K dir =
     ((\<forall>fs w. unreadable fs = Map.empty \<longrightarrow> cn_files K dir (cn_set_files K dir fs w) = fs) \<and>
      (\<forall>w. cn_fault K dir w = None \<and> unreadable (cn_files K dir w) = Map.empty) \<and>
      (\<forall>r. json_decode (cn_codec K) (json_encode (cn_codec K) r) = Inr r))"

definition replayed :: "response \<Rightarrow> response" where "replayed r = r\<lparr>CacheHit := True\<rparr>"

text \<open>What a client finds for a request, and what it leaves there.\<close>

definition found :: "'w connections \<Rightarrow> gostring \<Rightarrow> request \<Rightarrow> 'w \<Rightarrow> response option" where
  "found K dir req w = read_response (cn_codec K) (response_path req) (cn_files K dir w)"

lemma found_stored:
  assumes "sound_files K dir"
  shows "found K dir req w = Option.bind (stored (cn_files K dir w) (response_path req))
           (\<lambda>data. case json_decode (cn_codec K) data of Inl e \<Rightarrow> None | Inr r \<Rightarrow> Some r)"
  using assms by (simp add: found_def read_response_def sound_files_def split: option.split)

lemma path_not_tmp: "response_path req \<noteq> response_path req' @ ''.tmp''"
proof
  assume "response_path req = response_path req' @ ''.tmp''"
  then have "last (response_path req) = last (response_path req' @ ''.tmp'')" by simp
  then show False by (simp add: response_path_def)
qed

lemma cached_found:
  assumes sound: "sound_files K dir" and run: "cached_client K dir (live_client K endpoint key) req w = (Inr r, w')"
  shows "map_option replayed (found K dir req w') = Some (replayed r)"
    and "found K dir req' w = Some a \<Longrightarrow> found K dir req' w' = Some a"
proof -
  let ?inner = "live_client K endpoint key"
  obtain fs v where c: "cache_Complete (cn_codec K) ?inner None req (cn_files K dir w, w) = (Inr r, (fs, v))" and w': "w' = cn_set_files K dir fs v"
    using run sound by (auto simp: cached_client_def sound_files_def split: prod.splits)
  have clean: "unreadable (cn_files K dir v) = Map.empty" for v using sound by (simp add: sound_files_def)
  from c have "unreadable fs = Map.empty"
    by (auto simp: cache_Complete_def clean write_atomically_def split: option.splits prod.splits sum.splits)
  with w' sound have files: "cn_files K dir w' = fs" by (simp add: sound_files_def)
  have "map_option replayed (found K dir req w') = Some (replayed r) \<and>
      (found K dir req' w = Some a \<longrightarrow> found K dir req' w' = Some a)"
  proof (cases "found K dir req w")
    case (Some r0)
    with c have "r = replayed r0" "fs = cn_files K dir w" by (auto simp: cache_Complete_def found_def replayed_def)
    with Some files show ?thesis by (simp add: found_def replayed_def)
  next
    case None
    with c obtain err where wr: "write_atomically None (response_path req) (json_encode (cn_codec K) (r\<lparr>CacheHit := False\<rparr>))
        (cn_files K dir w) = (err, fs)"
      by (auto simp: cache_Complete_def found_def split: prod.splits sum.splits)
    note target = write_atomically_target [OF wr]
    have "found K dir req w' = Some (r\<lparr>CacheHit := False\<rparr>)"
      using target sound by (simp add: found_stored files sound_files_def)
    moreover have "found K dir req' w' = Some a" if "found K dir req' w = Some a"
    proof -
      have "response_path req' \<noteq> response_path req" using that None by (auto simp: found_def)
      with that target path_not_tmp show ?thesis by (simp add: found_stored [OF sound] files)
    qed
    ultimately show ?thesis by (simp add: replayed_def)
  qed
  then show "map_option replayed (found K dir req w') = Some (replayed r)"
    and "found K dir req' w = Some a \<Longrightarrow> found K dir req' w' = Some a" by auto
qed

lemma session_found:
  assumes sound: "sound_files K dir"
    and run: "complete_all (cached_client K dir (live_client K endpoint key)) reqs w = (Inr rs, w')"
  shows "map (\<lambda>req. map_option replayed (found K dir req w')) reqs = map (\<lambda>r. Some (replayed r)) rs"
    and "found K dir req' w = Some a \<Longrightarrow> found K dir req' w' = Some a"
proof -
  have "map (\<lambda>req. map_option replayed (found K dir req w')) reqs = map (\<lambda>r. Some (replayed r)) rs \<and>
      (\<forall>req' a. found K dir req' w = Some a \<longrightarrow> found K dir req' w' = Some a)"
    using run
  proof (induction reqs arbitrary: w rs)
    case (Cons req reqs)
    then obtain r v rs' where one: "cached_client K dir (live_client K endpoint key) req w = (Inr r, v)"
      and rest: "complete_all (cached_client K dir (live_client K endpoint key)) reqs v = (Inr rs', w')" and rs: "rs = r # rs'"
      by (auto split: prod.splits sum.splits)
    note found = cached_found [OF sound one] and IH = Cons.IH [OF rest]
    from found(1) obtain a where "found K dir req v = Some a" "replayed a = replayed r" by auto
    with IH have "map_option replayed (found K dir req w') = Some (replayed r)" by auto
    with IH rs found(2) show ?case by auto
  qed simp
  then show "map (\<lambda>req. map_option replayed (found K dir req w')) reqs = map (\<lambda>r. Some (replayed r)) rs"
    and "found K dir req' w = Some a \<Longrightarrow> found K dir req' w' = Some a" by blast+
qed

lemma replay_found:
  assumes "sound_files K dir" and "map_option replayed (found K dir req w) = Some r"
  shows "open_llm K (ReplayLLM dir) req w = (Inr r, w)"
  using assms
  by (auto simp: open_llm_def replay_Complete_def found_stored sound_files_def replayed_def Let_def
      split: option.splits sum.splits bind_splits)

lemma replay_session:
  assumes "sound_files K dir" and "map (\<lambda>req. map_option replayed (found K dir req w)) reqs = map (\<lambda>r. Some (replayed r)) rs"
  shows "complete_all (open_llm K (ReplayLLM dir)) reqs w = (Inr (map replayed rs), w)"
  using assms(2)
proof (induction reqs arbitrary: rs)
  case (Cons req reqs)
  then show ?case by (cases rs) (auto simp: replay_found [OF assms(1)])
qed simp

text \<open>
  C38. The cache of a live wiki serves as its fixtures: after a session of successful requests to the
  Anthropic client of a configuration, the same configuration with the provider \<open>replay\<close> answers every request
  of the session again, in any number, with the same answer and without the network.
\<close>

theorem cache_serves_as_fixtures:
  assumes "composeLLMClient env c = Inr (Some (AnthropicLLM endpoint key dir))" and "sound_files K dir"
    and "complete_all (open_llm K (AnthropicLLM endpoint key dir)) reqs w = (Inr rs, w')"
  shows "\<exists>replay. composeLLMClient env (c\<lparr>cf_LLM := (cf_LLM c)\<lparr>Provider := ''replay'', lc_Endpoint := []\<rparr>\<rparr>) = Inr (Some replay) \<and>
     complete_all (open_llm K replay) reqs w' = (Inr (map replayed rs), w')"
proof -
  have "dir = path_Join [llmCacheDir env c, ''anthropic'']"
    using assms(1) by (auto simp: composeLLMClient_def Let_def split: if_splits)
  then have "composeLLMClient env (c\<lparr>cf_LLM := (cf_LLM c)\<lparr>Provider := ''replay'', lc_Endpoint := []\<rparr>\<rparr>) = Inr (Some (ReplayLLM dir))"
    by (simp add: composeLLMClient_def llmCacheDir_def cacheBase_def Let_def)
  moreover have "open_llm K (AnthropicLLM endpoint key dir) = cached_client K dir (live_client K endpoint key)"
    by (simp add: open_llm_def)
  ultimately show ?thesis
    using replay_session [OF assms(2) session_found(1) [OF assms(2)]] assms(3) by auto
qed

text \<open>A network that echoes the prompt, counting its requests, and a cache directory in memory.\<close>

type_synonym desk = "(gostring \<rightharpoonup> gostring) \<times> nat"

definition no_mw :: "'w mw_client" where
  "no_mw =
     (let e = errorf ''no wiki'' [] in
      \<lparr>Login = (\<lambda>u p w. (LoginFailed e, w)), GetRaw = (\<lambda>q w. (Inl e, w)), decode_parse = (\<lambda>b. Inl e), drop_csrf = id,
       Edit = (\<lambda>q w. (EditFailed e, w)), GetToken = (\<lambda>t w. (Inl e, w)), Post = (\<lambda>q n b w. (Inl e, w)),
       decode_upload = (\<lambda>b. Inl e), Get_revisions = (\<lambda>q w. (Inl e, w)), Now = (\<lambda>w. zero_time)\<rparr>)"

definition echo_net :: "desk connections" where
  "echo_net =
     \<lparr>cn_http = \<lparr>web_check = Map.empty,
         web_do = (\<lambda>r (fs, n). (Inr \<lparr>wr_Status = 200, wr_Body = wq_Body r, wr_fault = None\<rparr>, (fs, Suc n)))\<rparr>,
      cn_messages = (\<lambda>m. snd (hd (mq_messages m))),
      cn_reply = (\<lambda>body. Inr \<lparr>ms_content = [(''text'', body)], ms_input_tokens = 1, ms_output_tokens = 2, ms_error = None\<rparr>),
      cn_pi = plain_wire, cn_codec = plain_codec,
      cn_files = (\<lambda>dir w. \<lparr>stored = fst w, unreadable = Map.empty\<rparr>),
      cn_set_files = (\<lambda>dir fs w. (stored fs, snd w)), cn_fault = (\<lambda>dir w. None),
      cn_mw = (\<lambda>url agent bot_assert. Inl (errorf ''no wiki'' [])),
      cn_memory = (\<lambda>u w. (mediawiki_target no_mw \<lparr>BotUser = u, BotPass = []\<rparr>, w)),
      cn_bolt = \<lparr>bolt_Open = (\<lambda>path w. (Inr 3, w)), bolt_CreateBucket = (\<lambda>db name w. (None, w)), bolt_Close = (\<lambda>db w. (None, w)),
         bolt_Get = (\<lambda>db k w. (ReadValue None, w)), bolt_Put = (\<lambda>db k v w. (Written, w))\<rparr>\<rparr>"

definition live_config :: config where
  "live_config =
     \<lparr>cf_Wiki = ''w'', KBSource = \<lparr>kbs_Type = ''local'', kbs_Repo = ''kb'', kbs_Branch = []\<rparr>,
      SpecStore_Type = ''local'', SpecStore_Repo = ''specs'',
      cf_Target = \<lparr>wt_Type = ''memory'', wt_URL = [], wt_User = ''User:Bot'', wt_PasswordEnv = [], wt_DisableBotAssert = False\<rparr>,
      Writeback_Type = ''none'', Writeback_BaseBranch = [],
      cf_LLM = \<lparr>Provider = ''anthropic'', lc_Model = ''m'', APIKeyEnv = ''KEY'', lc_Endpoint = []\<rparr>,
      CacheDir = ''/cache'', Style = \<lparr>Terminology = [], HeadingCase = []\<rparr>,
      Sinks = \<lparr>SlackWebhookEnv = [], Email = \<lparr>SMTPAddr = [], em_Username = [], em_PasswordEnv = [], em_From = [], em_To = []\<rparr>,
               sc_KBJournal = False\<rparr>,
      Git_Root = [], Git_Repos = Map.empty, MaxRefineIterations = None, OrphanPruning = False\<rparr>"

lemma echo_sound: "sound_files echo_net dir"
  by (simp add: sound_files_def echo_net_def plain_codec_roundtrip)

lemma echo_net_simps [simp]:
  "cn_codec echo_net = plain_codec" "cn_fault echo_net dir w = None"
  "cn_files echo_net dir w = \<lparr>stored = fst w, unreadable = Map.empty\<rparr>" "cn_set_files echo_net dir fs w = (stored fs, snd w)"
  by (simp_all add: echo_net_def)

lemma echo_live:
  "live_client echo_net endpoint key req (fs, n) =
     (Inr \<lparr>Text = Prompt req, TokensIn = 1, TokensOut = 2, CacheHit = False\<rparr>, (fs, Suc n))"
  by (simp add: live_client_def anthropic_Complete_def echo_net_def messages_request_of_def text_blocks_def Let_def)

theorem cache_serves_as_fixtures_witness:
  "\<exists>replay w. complete_all (open_llm echo_net (AnthropicLLM [] ''key'' (path_Join [''/cache/llm'', ''anthropic''])))
        [ask ''m'' [] ''hi'' 5, ask ''m'' [] ''hi'' 5] (Map.empty, 0) =
       (Inr [\<lparr>Text = ''hi'', TokensIn = 1, TokensOut = 2, CacheHit = False\<rparr>,
             \<lparr>Text = ''hi'', TokensIn = 1, TokensOut = 2, CacheHit = True\<rparr>], w) \<and> snd w = 1 \<and>
     complete_all (open_llm echo_net replay) [ask ''m'' [] ''hi'' 5, ask ''m'' [] ''hi'' 5] w =
       (Inr [\<lparr>Text = ''hi'', TokensIn = 1, TokensOut = 2, CacheHit = True\<rparr>,
             \<lparr>Text = ''hi'', TokensIn = 1, TokensOut = 2, CacheHit = True\<rparr>], w)"
proof -
  let ?dir = "path_Join [''/cache/llm'', ''anthropic'']" and ?req = "ask ''m'' [] ''hi'' 5"
  let ?rs = "[\<lparr>Text = ''hi'', TokensIn = 1, TokensOut = 2, CacheHit = False\<rparr>, \<lparr>Text = ''hi'', TokensIn = 1, TokensOut = 2, CacheHit = True\<rparr>]"
  have "path_Join [''/cache'', ''llm''] = ''/cache/llm''" by code_simp
  then have choice: "composeLLMClient (\<lambda>v. ''key'') live_config = Inr (Some (AnthropicLLM [] ''key'' ?dir))"
    by (simp add: composeLLMClient_def live_config_def llmCacheDir_def cacheBase_def)
  obtain fs where session: "complete_all (open_llm echo_net (AnthropicLLM [] ''key'' ?dir)) [?req, ?req] (Map.empty, 0) = (Inr ?rs, (fs, 1))"
    by (simp add: open_llm_def cached_client_def cache_Complete_def echo_live write_atomically_def read_response_def
        plain_codec_roundtrip) (simp add: ask_def)
  from cache_serves_as_fixtures [OF choice echo_sound session] show ?thesis
    using session by (fastforce simp: replayed_def)
qed

end
