(* ===== verification/ReportFiles.thy ===== *)
theory ReportFiles
  imports Reporter GoPath
begin

text \<open>
  Run reports on disk (internal/reporter/persist.go): the schema of a report file, one file per run,
  and the symbolic link \<open>latest.yaml\<close> to the newest one.  What \<open>yaml.Marshal\<close> makes of the schema
  is a parameter.
\<close>

section \<open>The schema\<close>

record human_edit_yaml =
  hy_BlockID :: gostring
  hy_Action :: edit_action
  hy_Diff :: gomsg
  hy_Explanation :: gomsg
  hy_Suggestion :: gostring

record spec_result_yaml =
  sy_ID :: gostring
  sy_Status :: spec_status
  sy_Reason :: gomsg
  sy_NewRevisionID :: gostring
  sy_BlocksRegenerated :: nat
  sy_JudgeIterations :: int
  sy_JudgeVerdict :: gostring
  sy_HumanEdits :: "human_edit_yaml list"

record metrics_yaml =
  my_LLMCalls :: int
  my_LLMTokensIn :: int
  my_LLMTokensOut :: int
  my_WikiPagesChanged :: int
  my_WikiPagesSkipped :: int

record report_yaml =
  ry_RunID :: gostring
  ry_Wiki :: gostring
  ry_StartedAt :: gotime
  ry_EndedAt :: gotime
  ry_KBCommit :: gostring
  ry_Specs :: "spec_result_yaml list"
  ry_Errors :: "gomsg list"
  ry_Warnings :: "gomsg list"
  ry_Metrics :: metrics_yaml

definition edit_yaml :: "human_edit_event \<Rightarrow> human_edit_yaml" where
  "edit_yaml e =
     \<lparr>hy_BlockID = BlockID e, hy_Action = he_Action e, hy_Diff = ev_Diff e, hy_Explanation = Explanation e,
      hy_Suggestion = Suggestion e\<rparr>"

definition result_yaml :: "spec_result \<Rightarrow> spec_result_yaml" where
  "result_yaml s =
     \<lparr>sy_ID = sr_ID s, sy_Status = sr_Status s, sy_Reason = sr_Reason s, sy_NewRevisionID = NewRevisionID s,
      sy_BlocksRegenerated = BlocksRegenerated s, sy_JudgeIterations = JudgeIterations s,
      sy_JudgeVerdict = JudgeVerdict s, sy_HumanEdits = map edit_yaml (sr_HumanEdits s)\<rparr>"

definition toYAML :: "run_report \<Rightarrow> report_yaml" where
  "toYAML r =
     \<lparr>ry_RunID = RunID r, ry_Wiki = rep_Wiki r, ry_StartedAt = StartedAt r, ry_EndedAt = EndedAt r,
      ry_KBCommit = KBCommit r, ry_Specs = map result_yaml (rep_Specs r), ry_Errors = Errors r, ry_Warnings = Warnings r,
      ry_Metrics =
        \<lparr>my_LLMCalls = LLMCalls (Metrics r), my_LLMTokensIn = LLMTokensIn (Metrics r),
         my_LLMTokensOut = LLMTokensOut (Metrics r), my_WikiPagesChanged = WikiPagesChanged (Metrics r),
         my_WikiPagesSkipped = WikiPagesSkipped (Metrics r)\<rparr>\<rparr>"

definition report_Marshal :: "(report_yaml \<Rightarrow> gostring res) \<Rightarrow> run_report \<Rightarrow> gostring res" where
  "report_Marshal marshal r = marshal (toYAML r)"

section \<open>The directory\<close>

text \<open>
  Files and symbolic links, by path, and the errors the next operations meet.  A failed write may
  leave the file with any content.
\<close>

datatype fnode = FileNode gostring | LinkNode gostring

type_synonym disk = "gostring \<rightharpoonup> fnode"

record disk_faults =
  df_mkdir :: "gomsg option"
  df_write :: "(gomsg \<times> gostring option) option"
  df_remove :: "gomsg option"
  df_symlink :: "gomsg option"
  df_rename :: "gomsg option"

definition updateLatestSymlink :: "disk_faults \<Rightarrow> gostring \<Rightarrow> gostring \<Rightarrow> disk \<Rightarrow> gomsg option \<times> disk" where
  "updateLatestSymlink F dir name d =
     (let latest = path_Join [dir, ''latest.yaml''];
          tmp = latest @ ''.tmp'';
          d = (if df_remove F = None then d(tmp := None) else d) in
      case df_symlink F of
        Some e \<Rightarrow> (Some e, d)
      | None \<Rightarrow>
          if d tmp \<noteq> None then (Some (errorf ''symlink %s %s: file exists'' [name, tmp]), d)
          else (let d = d(tmp \<mapsto> LinkNode name) in
                case df_rename F of
                  Some e \<Rightarrow> (Some e, d)
                | None \<Rightarrow> (None, d(tmp := None, latest := d tmp))))"

text \<open>The written path is returned also with the error of the link.\<close>

definition WriteToDir ::
  "(report_yaml \<Rightarrow> gostring res) \<Rightarrow> disk_faults \<Rightarrow> run_report \<Rightarrow> gostring \<Rightarrow> disk \<Rightarrow> (gostring \<times> gomsg option) \<times> disk" where
  "WriteToDir marshal F r dir d =
     (case df_mkdir F of
        Some e \<Rightarrow> (([], Some (wrapf ''reporter: mkdir %q: %w'' [dir] e)), d)
      | None \<Rightarrow>
          (case report_Marshal marshal r of
             Inl e \<Rightarrow> (([], Some e), d)
           | Inr body \<Rightarrow>
               (let name = RunID r @ ''.yaml''; p = path_Join [dir, name] in
                case df_write F of
                  Some (e, left) \<Rightarrow>
                    (([], Some (wrapf ''reporter: write %q: %w'' [p] e)),
                     (case left of None \<Rightarrow> d | Some torn \<Rightarrow> d(p \<mapsto> FileNode torn)))
                | None \<Rightarrow>
                    (case updateLatestSymlink F dir name (d(p \<mapsto> FileNode body)) of
                       (Some e, d) \<Rightarrow> ((p, Some (wrapf ''reporter: update latest symlink: %w'' [] e)), d)
                     | (None, d) \<Rightarrow> ((p, None), d)))))"

section \<open>Paths of a directory\<close>

definition simple_name :: "gostring \<Rightarrow> bool" where
  "simple_name n = (n \<noteq> [] \<and> n \<noteq> ''.'' \<and> n \<noteq> ''..'' \<and> SLASH \<notin> set n)"

lemma Split_single: "x \<notin> set n \<Longrightarrow> Split x n = [n]"
  by (induction n) auto

lemma Split_append_sep: "x \<notin> set n \<Longrightarrow> Split x (s @ x # n) = Split x s @ [n]"
proof (induction s)
  case Nil
  then show ?case by (simp add: Split_single)
next
  case (Cons c s)
  then show ?case by (cases "Split x s") auto
qed

lemma path_elems_name: "d \<noteq> [] \<Longrightarrow> simple_name n \<Longrightarrow> path_elems (d @ SLASH # n) = path_elems d @ [n]"
  by (cases d) (auto simp: path_elems_def simple_name_def clean_step_def rooted_def Split_append_sep [of SLASH n "_ # _", unfolded append_Cons]
      simp del: Split.simps)

lemma path_Join_name:
  obtains pre where "\<And>n. simple_name n \<Longrightarrow> path_Join [d, n] = pre @ n"
proof (cases "d = []")
  case True
  have "path_Join [d, n] = [] @ n" if "simple_name n" for n
  proof -
    from that have "Split SLASH n = [n]" by (intro Split_single) (simp add: simple_name_def)
    with that True show ?thesis
      by (cases n) (auto simp: path_Join_def Clean_def path_elems_def elems_text_def clean_step_def simple_name_def rooted_def)
  qed
  then show ?thesis by (rule that)
next
  case False
  let ?pre = "(if rooted d then [SLASH] else []) @ (if path_elems d = [] then [] else Join [SLASH] (path_elems d) @ [SLASH])"
  have "path_Join [d, n] = ?pre @ n" if "simple_name n" for n
  proof -
    have "path_Join [d, n] = Clean (d @ SLASH # n)" using False that by (simp add: path_Join_def simple_name_def)
    moreover have "rooted (d @ SLASH # n) = rooted d" using False by (simp add: rooted_def)
    ultimately show ?thesis
      by (simp add: Clean_def elems_text_def path_elems_name [OF False that] Join_snoc)
  qed
  then show ?thesis by (rule that)
qed

section \<open>The latest report\<close>

definition read_latest :: "gostring \<Rightarrow> disk \<Rightarrow> gostring option" where
  "read_latest dir d =
     (case d (path_Join [dir, ''latest.yaml'']) of
        Some (LinkNode name) \<Rightarrow> (case d (path_Join [dir, name]) of Some (FileNode c) \<Rightarrow> Some c | _ \<Rightarrow> None)
      | _ \<Rightarrow> None)"

definition report_path :: "gostring \<Rightarrow> run_report \<Rightarrow> gostring" where
  "report_path dir r = path_Join [dir, RunID r @ ''.yaml'']"

lemma report_paths_distinct:
  assumes "SLASH \<notin> set (RunID r)" and "RunID r \<noteq> ''latest''"
  shows "report_path dir r \<noteq> path_Join [dir, ''latest.yaml'']"
    and "report_path dir r \<noteq> path_Join [dir, ''latest.yaml''] @ ''.tmp''"
proof -
  obtain pre where pre: "\<And>n. simple_name n \<Longrightarrow> path_Join [dir, n] = pre @ n" using path_Join_name by metis
  have "simple_name (RunID r @ ''.yaml'')" "simple_name ''latest.yaml''"
    using assms by (auto simp: simple_name_def Cons_eq_append_conv append_eq_Cons_conv)
  note p = this [THEN pre]
  have "RunID r @ ''.yaml'' \<noteq> ''latest.yaml''" using assms(2) append_same_eq [of "RunID r" "''.yaml''" "''latest''"] by simp
  then show "report_path dir r \<noteq> path_Join [dir, ''latest.yaml'']" by (simp add: report_path_def p)
  have "last (RunID r @ ''.yaml'') \<noteq> last (''latest.yaml'' @ ''.tmp'')" by simp
  then have "RunID r @ ''.yaml'' \<noteq> ''latest.yaml'' @ ''.tmp''" by metis
  then show "report_path dir r \<noteq> path_Join [dir, ''latest.yaml''] @ ''.tmp''" by (simp add: report_path_def p)
qed

lemma update_latest:
  assumes "updateLatestSymlink F dir name d = (res, d')"
  shows "case res of
     None \<Rightarrow> d' (path_Join [dir, ''latest.yaml'']) = Some (LinkNode name) \<and>
       (\<forall>q. q \<noteq> path_Join [dir, ''latest.yaml''] \<and> q \<noteq> path_Join [dir, ''latest.yaml''] @ ''.tmp'' \<longrightarrow> d' q = d q)
   | Some e \<Rightarrow> \<forall>q. q \<noteq> path_Join [dir, ''latest.yaml''] @ ''.tmp'' \<longrightarrow> d' q = d q"
proof -
  have "path_Join [dir, ''latest.yaml''] \<noteq> path_Join [dir, ''latest.yaml''] @ ''.tmp''" by simp
  with assms show ?thesis
    by (auto simp: updateLatestSymlink_def Let_def split: option.splits if_splits)
qed

text \<open>What the steps before the rename may have changed.\<close>

lemma read_latest_other:
  assumes "\<And>p. d' p \<noteq> d p \<Longrightarrow> p \<noteq> path_Join [dir, ''latest.yaml''] \<and> (\<forall>c. d p \<noteq> Some (FileNode c))"
  shows "read_latest dir d = None \<or> read_latest dir d' = read_latest dir d"
proof (cases "read_latest dir d")
  case (Some c)
  then obtain t where t: "d (path_Join [dir, ''latest.yaml'']) = Some (LinkNode t)" "d (path_Join [dir, t]) = Some (FileNode c)"
    by (auto simp: read_latest_def split: option.splits fnode.splits)
  with assms have "d' (path_Join [dir, ''latest.yaml'']) = d (path_Join [dir, ''latest.yaml''])"
    "d' (path_Join [dir, t]) = d (path_Join [dir, t])" by blast+
  with t show ?thesis by (simp add: read_latest_def)
qed simp

text \<open>
  C23. The latest report can be read at every moment: when writing a report reports no error, its file holds it and
  \<open>latest.yaml\<close> leads to it; after an error, whichever step failed and whatever a torn write has left,
  \<open>latest.yaml\<close> leads to the report it led to before.
\<close>

theorem latest_report_survives:
  assumes "SLASH \<notin> set (RunID r)" and "RunID r \<noteq> ''latest''" and "d (report_path dir r) = None"
    and "\<And>c. d (path_Join [dir, ''latest.yaml''] @ ''.tmp'') \<noteq> Some (FileNode c)"
  shows "case WriteToDir marshal F r dir d of
     ((p, None), d') \<Rightarrow> p = report_path dir r \<and>
       (\<exists>body. marshal (toYAML r) = Inr body \<and> d' p = Some (FileNode body) \<and> read_latest dir d' = Some body)
   | ((p, Some e), d') \<Rightarrow> read_latest dir d = None \<or> read_latest dir d' = read_latest dir d"
proof -
  let ?p = "report_path dir r" and ?latest = "path_Join [dir, ''latest.yaml'']"
  let ?tmp = "?latest @ ''.tmp''"
  note distinct = report_paths_distinct [OF assms(1,2), of dir]
  have torn: "read_latest dir d = None \<or> read_latest dir d' = read_latest dir d"
    if "\<And>q. q \<noteq> ?p \<Longrightarrow> q \<noteq> ?tmp \<Longrightarrow> d' q = d q" for d'
    using that assms(3,4) distinct by (intro read_latest_other) (metis self_append_conv list.distinct(1) option.distinct(1))
  have link: "case updateLatestSymlink F dir (RunID r @ ''.yaml'') (d(?p \<mapsto> FileNode body)) of
      (None, d') \<Rightarrow> d' ?p = Some (FileNode body) \<and> read_latest dir d' = Some body
    | (Some e, d') \<Rightarrow> read_latest dir d = None \<or> read_latest dir d' = read_latest dir d" for body
  proof -
    let ?d = "d(?p \<mapsto> FileNode body)"
    obtain res d' where up: "updateLatestSymlink F dir (RunID r @ ''.yaml'') ?d = (res, d')" by fastforce
    show ?thesis
    proof (cases res)
      case None
      with update_latest [OF up] distinct show ?thesis
        by (simp add: up read_latest_def report_path_def [symmetric])
    next
      case (Some e)
      with update_latest [OF up] torn [of d'] show ?thesis by (simp add: up)
    qed
  qed
  show ?thesis
  proof (cases "df_mkdir F")
    case None
    then show ?thesis
    proof (cases "marshal (toYAML r)")
      case (Inr body)
      with None link [of body] torn show ?thesis
        by (auto simp: WriteToDir_def report_Marshal_def Let_def report_path_def [symmetric] split: option.splits prod.splits)
    qed (simp add: WriteToDir_def report_Marshal_def)
  qed (simp add: WriteToDir_def)
qed

text \<open>A report whose link cannot be renamed, beside an older one; the files are written as their run.\<close>

definition small_report :: "gostring \<Rightarrow> run_report" where
  "small_report ident = NewBuilder ''acme'' ident zero_time"

definition older_disk :: disk where
  "older_disk = [''r/latest.yaml'' \<mapsto> LinkNode ''1a.yaml'', ''r/1a.yaml'' \<mapsto> FileNode ''1a'', ''r/latest.yaml.tmp'' \<mapsto> LinkNode ''x'']"

definition no_rename :: disk_faults where
  "no_rename = \<lparr>df_mkdir = None, df_write = None, df_remove = None, df_symlink = None, df_rename = Some (errorf ''EIO'' [])\<rparr>"

abbreviation marshal_id :: "report_yaml \<Rightarrow> gostring res" where "marshal_id y \<equiv> Inr (ry_RunID y)"

theorem latest_report_survives_witness:
  "read_latest ''r'' (snd (WriteToDir marshal_id no_rename (small_report ''2b'') ''r'' older_disk)) = Some ''1a''"
proof -
  have pre: "SLASH \<notin> set (RunID (small_report ''2b''))" "RunID (small_report ''2b'') \<noteq> ''latest''"
    "older_disk (report_path ''r'' (small_report ''2b'')) = None"
    "older_disk (path_Join [''r'', ''latest.yaml''] @ ''.tmp'') \<noteq> Some (FileNode c)" for c
    by (simp_all add: small_report_def NewBuilder_def older_disk_def report_path_def path_Join_def Clean_def path_elems_def
        elems_text_def rooted_def clean_step_def)
  have run: "fst (WriteToDir marshal_id no_rename (small_report ''2b'') ''r'' older_disk) =
      (''r/2b.yaml'', Some (wrapf ''reporter: update latest symlink: %w'' [] (errorf ''EIO'' [])))"
    and old: "read_latest ''r'' older_disk = Some ''1a''"
    by code_simp+
  from latest_report_survives [OF pre, of marshal_id no_rename] run old show ?thesis
    by (auto split: prod.splits)
qed

section \<open>Nothing of a report is lost\<close>

lemma edit_yaml_inject: "edit_yaml e = edit_yaml e' \<longleftrightarrow> e = e'"
  by (cases e; cases e') (simp add: edit_yaml_def)

lemma result_yaml_inject: "result_yaml s = result_yaml s' \<longleftrightarrow> s = s'"
  by (cases s; cases s') (auto simp: result_yaml_def inj_def edit_yaml_inject dest!: map_injective)

text \<open>
  The schema of a report file loses nothing: two reports with the same content on disk are the same
  report, down to every human edit of every spec.
\<close>

theorem report_schema_faithful: "toYAML r = toYAML r' \<longleftrightarrow> r = r'"
  by (cases r; cases r'; cases "Metrics r"; cases "Metrics r'")
     (auto simp: toYAML_def inj_def result_yaml_inject dest!: map_injective)

end
