(* ===== verification/GitSource.thy ===== *)
theory GitSource
  imports Architecture TextPasses GoPath
begin

text \<open>
  The resolver of git sources (internal/sources/git/git.go): a file of a local clone, or a digest of
  the clone, at a revision.  Running git is the parameter \<open>git\<close>, from an argument vector to the
  standard output, or the error with the standard error.
\<close>

section \<open>The source\<close>

definition maxFileBytes :: nat where "maxFileBytes = 4000"
definition maxFiles :: nat where "maxFiles = 6"
definition maxTreePaths :: nat where "maxTreePaths = 80"

definition curatedExact :: "gostring list" where "curatedExact = [''dockerfile'', ''makefile'']"

record git_resolver =
  gr_root :: gostring
  gr_repos :: "gostring \<rightharpoonup> gostring"

type_synonym 'w git_run = "gostring list \<Rightarrow> 'w \<Rightarrow> ((gomsg \<times> gostring) + gostring) \<times> 'w"

definition spec_token :: "gostring \<times> gostring \<times> gostring \<Rightarrow> gostring \<Rightarrow> gostring \<times> gostring \<times> gostring" where
  "spec_token acc tok =
     (case acc of
        (repo, ref, file) \<Rightarrow>
          if HasPrefix tok ''ref='' then (repo, TrimPrefix tok ''ref='', file)
          else if HasPrefix tok ''file='' then (repo, ref, TrimPrefix tok ''file='')
          else if repo = [] then (tok, ref, file)
          else acc)"

definition parseSpec :: "gostring \<Rightarrow> gostring \<times> gostring \<times> gostring" where
  "parseSpec spec = foldl spec_token ([], ''HEAD'', []) (Fields spec)"

definition repoDir :: "git_resolver \<Rightarrow> gostring \<Rightarrow> gostring option" where
  "repoDir r repo =
     (case gr_repos r repo of
        Some p \<Rightarrow>
          if p \<noteq> [] then Some p
          else if HasPrefix repo ''/'' then Some repo
          else if gr_root r \<noteq> [] then Some (path_Join [gr_root r, repo]) else None
      | None \<Rightarrow>
          if HasPrefix repo ''/'' then Some repo
          else if gr_root r \<noteq> [] then Some (path_Join [gr_root r, repo]) else None)"

section \<open>Texts\<close>

definition capBytes :: "gostring \<Rightarrow> gostring \<times> bool" where
  "capBytes s = (if length s \<le> maxFileBytes then (s, False) else (take maxFileBytes s, True))"

fun summarise_lines :: "gostring list \<Rightarrow> gostring" where
  "summarise_lines [] = []"
| "summarise_lines (l # ls) =
     (let t = TrimSpace l in
      if t \<noteq> [] then (if length t > 120 then take 120 t else t) else summarise_lines ls)"

definition summarise :: "gostring \<Rightarrow> gostring" where
  "summarise s = summarise_lines (Split NL s)"

definition splitNonEmpty :: "gostring \<Rightarrow> gostring list" where
  "splitNonEmpty s = filter (\<lambda>l. l \<noteq> []) (map TrimSpace (Split NL s))"

definition isCurated :: "unicode \<Rightarrow> gostring \<Rightarrow> bool" where
  "isCurated U base =
     (let b = ToLower U base in
      b \<in> set curatedExact \<or> HasPrefix b ''readme'' \<or> HasPrefix b ''docker-compose'' \<or>
      path_Ext b = ''.tf'' \<or> path_Ext b = ''.hcl'')"

definition path_depth :: "gostring \<Rightarrow> nat" where
  "path_depth p = length (filter (\<lambda>c. c = SLASH) p)"

definition pickCurated :: "unicode \<Rightarrow> gostring list \<Rightarrow> gostring list" where
  "pickCurated U paths =
     take maxFiles (sort_key (\<lambda>p. (path_depth p, p)) (filter (\<lambda>p. isCurated U (path_Base p)) paths))"

text \<open>A fenced excerpt, closed on a line of its own.\<close>

definition fenced :: "gostring \<Rightarrow> gostring" where
  "fenced content =
     (case capBytes content of
        (excerpt, truncated) \<Rightarrow>
          ''```'' @ [NL] @ excerpt @ (if HasSuffix excerpt [NL] then [] else [NL]) @
          (if truncated then ''... [truncated at '' @ nat_dec maxFileBytes @ '' bytes]'' @ [NL] else []) @
          ''```'' @ [NL])"

section \<open>Resolution\<close>

definition git_out :: "'w git_run \<Rightarrow> gostring \<Rightarrow> gostring list \<Rightarrow> 'w \<Rightarrow> gostring res \<times> 'w" where
  "git_out git dir args w =
     (case git ([''-C'', dir] @ args) w of
        (Inl (e, stderr), w) \<Rightarrow> (Inl (wrapf ''%w: %s'' [TrimSpace stderr] e), w)
      | (Inr stdout, w) \<Rightarrow> (Inr stdout, w))"

definition resolveFile ::
  "'w git_run \<Rightarrow> gostring \<Rightarrow> gostring \<Rightarrow> gostring \<Rightarrow> gostring \<Rightarrow> gostring \<Rightarrow> 'w \<Rightarrow> resolved option res \<times> 'w" where
  "resolveFile git dir repo ref commit file w =
     (let clean = Clean file in
      if clean = ''..'' \<or> HasPrefix clean ''../'' \<or> HasPrefix clean ''/''
      then (Inl (errorf ''git: file %q escapes the repo'' [file]), w)
      else (case git_out git dir [''show'', ref @ '':'' @ clean] w of
              (Inl e, w) \<Rightarrow> (Inl (wrapf ''git: show %s:%s: %w'' [ref, clean] e), w)
            | (Inr content, w) \<Rightarrow>
                (let ref0 = ''git:'' @ repo @ ''@'' @ commit @ '':'' @ clean in
                 (Inr (Some
                    \<lparr>Digest = ''### git: '' @ repo @ '' @ '' @ commit @ '' '' @ em_dash @ '' '' @ clean @ [NL] @ fenced content,
                     Rows = [[''file'', ref0, summarise content]], Refs = [ref0]\<rparr>), w))))"

text \<open>The curated files that can be shown: their part of the digest and their rows.\<close>

fun curated_files ::
  "'w git_run \<Rightarrow> gostring \<Rightarrow> gostring \<Rightarrow> gostring \<Rightarrow> gostring \<Rightarrow> gostring list \<Rightarrow> 'w \<Rightarrow>
   (gostring \<times> gostring list list) \<times> 'w" where
  "curated_files git dir repo ref commit [] w = (([], []), w)"
| "curated_files git dir repo ref commit (f # fs) w =
     (case git_out git dir [''show'', ref @ '':'' @ f] w of
        (Inl e, w) \<Rightarrow> curated_files git dir repo ref commit fs w
      | (Inr content, w) \<Rightarrow>
          (case curated_files git dir repo ref commit fs w of
             ((digest, rows), w) \<Rightarrow>
               (([NL] @ ''#### '' @ f @ [NL] @ fenced content @ digest,
                 [''file'', ''git:'' @ repo @ ''@'' @ commit @ '':'' @ f, summarise content] # rows), w)))"

definition tree_text :: "gostring list \<Rightarrow> gostring" where
  "tree_text paths =
     ''Tracked paths:'' @ [NL] @
     concat (map (\<lambda>p. ''- '' @ p @ [NL]) (take maxTreePaths paths)) @
     (if length paths > maxTreePaths
      then ''- ... ('' @ nat_dec (length paths - maxTreePaths) @ '' more)'' @ [NL] else [])"

definition resolveRepo ::
  "unicode \<Rightarrow> 'w git_run \<Rightarrow> gostring \<Rightarrow> gostring \<Rightarrow> gostring \<Rightarrow> gostring \<Rightarrow> 'w \<Rightarrow> resolved option res \<times> 'w" where
  "resolveRepo U git dir repo ref commit w =
     (case git_out git dir [''ls-tree'', ''-r'', ''--name-only'', ref] w of
        (Inl e, w) \<Rightarrow> (Inl (wrapf ''git: ls-tree %s: %w'' [ref] e), w)
      | (Inr treeOut, w) \<Rightarrow>
          (let paths = sort (splitNonEmpty treeOut);
               ref0 = ''git:'' @ repo @ ''@'' @ commit in
           case curated_files git dir repo ref commit (pickCurated U paths) w of
             ((digest, rows), w) \<Rightarrow>
               (Inr (Some
                  \<lparr>Digest = ''### git: '' @ repo @ '' @ '' @ commit @ '' ('' @ nat_dec (length paths) @ '' tracked files)'' @ [NL] @
                            tree_text paths @ digest,
                   Rows = [''repo'', ref0, nat_dec (length paths) @ '' tracked files at '' @ commit] # rows,
                   Refs = [ref0]\<rparr>), w)))"

definition git_Resolve :: "unicode \<Rightarrow> git_resolver \<Rightarrow> 'w git_run \<Rightarrow> 'w resolver" where
  "git_Resolve U r git s w =
     (if Scheme s \<noteq> ''git'' then (Inr None, w)
      else
        (case parseSpec (src_Spec s) of
           (repo, ref, file) \<Rightarrow>
             if repo = [] then (Inl (errorf ''git: source %q has no repo'' [Raw s]), w)
             else (case repoDir r repo of
                     None \<Rightarrow> (Inr None, w)
                   | Some dir \<Rightarrow>
                       (case git_out git dir [''rev-parse'', ''--is-inside-work-tree''] w of
                          (Inl e, w) \<Rightarrow> (Inl (wrapf ''git: %s is not a git work tree: %w'' [dir] e), w)
                        | (Inr _, w) \<Rightarrow>
                            (case git_out git dir [''rev-parse'', ''--short'', ref] w of
                               (Inl e, w) \<Rightarrow> (Inl (wrapf ''git: rev-parse %s: %w'' [ref] e), w)
                             | (Inr out, w) \<Rightarrow>
                                 (let commit = TrimSpace out in
                                  if file \<noteq> [] then resolveFile git dir repo ref commit file w
                                  else resolveRepo U git dir repo ref commit w))))))"

section \<open>What is run\<close>

text \<open>
  A command that only reads: one of the three read commands in a given directory, of whose later arguments only the
  known ones are options.  \<open>git\<close> takes an argument that starts with a dash for an option wherever it stands.
\<close>

definition read_command :: "gostring list \<Rightarrow> bool" where
  "read_command argv =
     (length argv \<ge> 4 \<and> argv ! 0 = ''-C'' \<and> argv ! 2 \<in> {''rev-parse'', ''ls-tree'', ''show''} \<and>
      list_all (\<lambda>a. HasPrefix a ''-'' \<longrightarrow> a \<in> {''--is-inside-work-tree'', ''--short'', ''-r'', ''--name-only''}) (drop 3 argv))"

text \<open>
  The commands a source may run: they only read; they ask for the commit and the tree of its clone or show a file of
  it, at its revision; and the file a source names lies below the clone.
\<close>

definition git_allowed :: "git_resolver \<Rightarrow> source \<Rightarrow> gostring list \<Rightarrow> bool" where
  "git_allowed r s argv =
     (read_command argv \<and>
      (case parseSpec (src_Spec s) of
        (repo, ref, file) \<Rightarrow>
          (case repoDir r repo of
             None \<Rightarrow> False
           | Some dir \<Rightarrow>
               argv = [''-C'', dir, ''rev-parse'', ''--is-inside-work-tree''] \<or>
               argv = [''-C'', dir, ''rev-parse'', ''--short'', ref] \<or>
               argv = [''-C'', dir, ''ls-tree'', ''-r'', ''--name-only'', ref] \<or>
               take 3 argv = [''-C'', dir, ''show''] \<and> length argv = 4 \<and> HasPrefix (argv ! 3) (ref @ '':'') \<and>
                 (let p = TrimPrefix (argv ! 3) (ref @ '':'') in
                  file = [] \<or> p = Clean file \<and> \<not> rooted file \<and> ''..'' \<notin> set (Split SLASH p)))))"

definition source_ref :: "source \<Rightarrow> gostring" where "source_ref s = fst (snd (parseSpec (src_Spec s)))"

definition git_guarded :: "(gostring list \<Rightarrow> bool) \<Rightarrow> 'w git_run \<Rightarrow> 'w git_run" where
  "git_guarded P git argv w = (if P argv then git argv w else (Inl (errorf [] [], []), w))"

lemma after_colon [simp]:
  "HasPrefix (ref @ CHR '':'' # p) (ref @ '':'')" "TrimPrefix (ref @ CHR '':'' # p) (ref @ '':'') = p"
  using HasPrefix_append [of "ref @ '':''" p] TrimPrefix_append [of "ref @ '':''" p] by simp_all

lemma git_out_guarded: "P ([''-C'', dir] @ args) \<Longrightarrow> git_out (git_guarded P git) dir args w = git_out git dir args w"
  by (simp add: git_out_def git_guarded_def)

lemma curated_files_guarded:
  "(\<And>f. P [''-C'', dir, ''show'', ref @ '':'' @ f]) \<Longrightarrow>
     curated_files (git_guarded P git) dir repo ref commit fs w = curated_files git dir repo ref commit fs w"
  by (induction fs arbitrary: w) (simp_all add: git_out_guarded split: prod.split sum.split)

text \<open>
  C14. Resolving a git source whose revision does not start with a dash runs git for nothing but reading: with
  a git that refuses every command but these, in the clone the source names, the result and the world are the
  same, whatever git does.
\<close>

theorem git_source_confined:
  assumes "\<not> HasPrefix (source_ref s) ''-''"
  shows "git_Resolve U r (git_guarded (git_allowed r s) git) s w = git_Resolve U r git s w"
proof -
  obtain repo ref fpath where s: "parseSpec (src_Spec s) = (repo, ref, fpath)" by (cases "parseSpec (src_Spec s)")
  with assms have ref: "\<not> HasPrefix ref ''-''" by (simp add: source_ref_def)
  then have shown: "\<not> HasPrefix (ref @ CHR '':'' # p) ''-''" for p by (cases ref) (auto simp: HasPrefix_def split: if_splits)
  show ?thesis
  proof (cases "Scheme s \<noteq> ''git'' \<or> repo = [] \<or> repoDir r repo = None")
    case True
    then show ?thesis by (auto simp: git_Resolve_def s split: option.split)
  next
    case False
    then obtain dir where dir: "repoDir r repo = Some dir" by auto
    let ?g = "git_guarded (git_allowed r s) git"
    have ask: "git_out ?g dir [''rev-parse'', ''--is-inside-work-tree''] w = git_out git dir [''rev-parse'', ''--is-inside-work-tree''] w"
      "git_out ?g dir [''rev-parse'', ''--short'', ref] w = git_out git dir [''rev-parse'', ''--short'', ref] w"
      "git_out ?g dir [''ls-tree'', ''-r'', ''--name-only'', ref] w = git_out git dir [''ls-tree'', ''-r'', ''--name-only'', ref] w" for w
      using s dir ref by (simp_all add: git_out_guarded git_allowed_def read_command_def)
    have show_file: "resolveFile ?g dir repo ref commit fpath w = resolveFile git dir repo ref commit fpath w" for commit w
    proof (cases "Clean fpath = ''..'' \<or> HasPrefix (Clean fpath) ''../'' \<or> HasPrefix (Clean fpath) ''/''")
      case False
      with Clean_inside [of fpath] have "git_allowed r s [''-C'', dir, ''show'', ref @ '':'' @ Clean fpath]"
        using s dir shown by (simp add: git_allowed_def read_command_def)
      then show ?thesis by (simp add: resolveFile_def git_out_guarded Let_def)
    qed (auto simp: resolveFile_def Let_def)
    have "resolveRepo U ?g dir repo ref commit w = resolveRepo U git dir repo ref commit w" if "fpath = []" for commit w
    proof -
      have "git_allowed r s [''-C'', dir, ''show'', ref @ '':'' @ f]" for f
        using s dir that shown by (simp add: git_allowed_def read_command_def)
      then show ?thesis by (simp add: resolveRepo_def ask curated_files_guarded Let_def split: prod.split sum.split)
    qed
    then show ?thesis
      using False s dir by (simp add: git_Resolve_def ask show_file Let_def split: prod.split sum.split)
  qed
qed

text \<open>A git that keeps the commands it is asked for.\<close>

definition logging_git :: "gostring list list git_run" where
  "logging_git argv w = (Inr ''abc123'', w @ [argv])"

definition clones :: git_resolver where "clones = \<lparr>gr_root = ''/repos'', gr_repos = Map.empty\<rparr>"

definition git_source_of :: "gostring \<Rightarrow> source" where
  "git_source_of spec = \<lparr>Scheme = ''git'', src_Spec = spec, Raw = ''git:'' @ spec\<rparr>"

definition no_letters :: unicode where "no_letters = \<lparr>uni_lower = id, uni_upper = id, uni_letter = (\<lambda>r. False)\<rparr>"

theorem git_source_confined_witness:
  "snd (git_Resolve no_letters clones (git_guarded (git_allowed clones (git_source_of ''app ref=v1 file=a/b'')) logging_git)
      (git_source_of ''app ref=v1 file=a/b'') []) =
   [[''-C'', ''/repos/app'', ''rev-parse'', ''--is-inside-work-tree''],
    [''-C'', ''/repos/app'', ''rev-parse'', ''--short'', ''v1''],
    [''-C'', ''/repos/app'', ''show'', ''v1:a/b'']]"
proof -
  have "\<not> HasPrefix (source_ref (git_source_of ''app ref=v1 file=a/b'')) ''-''" by code_simp
  note git_source_confined [OF this, of no_letters clones logging_git "[]"]
  moreover have "snd (git_Resolve no_letters clones logging_git (git_source_of ''app ref=v1 file=a/b'') []) =
     [[''-C'', ''/repos/app'', ''rev-parse'', ''--is-inside-work-tree''],
      [''-C'', ''/repos/app'', ''rev-parse'', ''--short'', ''v1''],
      [''-C'', ''/repos/app'', ''show'', ''v1:a/b'']]"
    by code_simp
  ultimately show ?thesis by simp
qed

text \<open>
  The revision of a source is an argument of git as it is, so it can be an option: this source makes git write a
  file, and the guard refuses the command.
\<close>

lemma git_ref_is_option:
  "snd (git_Resolve no_letters clones logging_git (git_source_of ''app ref=--output=x file=a'') []) =
     [[''-C'', ''/repos/app'', ''rev-parse'', ''--is-inside-work-tree''],
      [''-C'', ''/repos/app'', ''rev-parse'', ''--short'', ''--output=x''],
      [''-C'', ''/repos/app'', ''show'', ''--output=x:a'']]"
  "\<not> read_command [''-C'', ''/repos/app'', ''show'', ''--output=x:a'']"
  by code_simp+

section \<open>The files of a digest\<close>

lemma sort_key_order:
  "a \<in> set (take n (sort_key f xs)) \<Longrightarrow> b \<in> set (drop n (sort_key f xs)) \<Longrightarrow> f a \<le> f b"
proof -
  assume a: "a \<in> set (take n (sort_key f xs))" and b: "b \<in> set (drop n (sort_key f xs))"
  have "sorted (map f (take n (sort_key f xs)) @ map f (drop n (sort_key f xs)))"
    by (metis append_take_drop_id map_append sorted_sort_key)
  with a b show ?thesis by (auto simp: sorted_append)
qed

text \<open>
  The digest of a clone shows at most six files, tracked ones that are worth it, and prefers
  shallow ones: a file that is worth it is left out only when there are six that come before it by
  depth and name.
\<close>

theorem curated_files_chosen:
  "length (pickCurated U paths) \<le> 6 \<and>
   set (pickCurated U paths) \<subseteq> {p \<in> set paths. isCurated U (path_Base p)} \<and>
   (\<nexists>p q. p \<in> set paths \<and> isCurated U (path_Base p) \<and> p \<notin> set (pickCurated U paths) \<and>
      (length (pickCurated U paths) < 6 \<or>
       q \<in> set (pickCurated U paths) \<and> (path_depth p, p) < (path_depth q, q)))"
proof -
  let ?f = "\<lambda>p. (path_depth p, p)"
  let ?s = "sort_key ?f (filter (\<lambda>p. isCurated U (path_Base p)) paths)"
  have pick: "pickCurated U paths = take 6 ?s" by (simp add: pickCurated_def maxFiles_def)
  have set: "set ?s = {p \<in> set paths. isCurated U (path_Base p)}" by auto
  have rest: "p \<in> set (drop 6 ?s)" if "p \<in> set ?s" "p \<notin> set (take 6 ?s)" for p
    using that by (metis Un_iff append_take_drop_id set_append)
  have "False" if p: "p \<in> set paths" "isCurated U (path_Base p)" "p \<notin> set (take 6 ?s)" and
    q: "length (take 6 ?s) < 6 \<or> q \<in> set (take 6 ?s) \<and> ?f p < ?f q" for p q
  proof -
    have d: "p \<in> set (drop 6 ?s)" using rest [of p] p set by blast
    then have "\<not> length (take 6 ?s) < 6" by (cases "length ?s \<le> 6") auto
    with q sort_key_order [OF _ d, of q] show False by (meson leD)
  qed
  moreover have "set (take 6 ?s) \<subseteq> {p \<in> set paths. isCurated U (path_Base p)}"
    using set by (auto dest: in_set_takeD)
  ultimately show ?thesis unfolding pick by (intro conjI) (simp, blast+)
qed

end
