(* ===== verification/Command.thy ===== *)
theory Command
  imports Connections ReportFiles GitSource
begin

text \<open>
  The commands (cmd/mykb-curator/main.go, buildid.go) and the report sinks they compose
  (internal/reporter/sinks): what \<open>runFromConfig\<close> does from taking the lock of the wiki to publishing the
  report.  What it constructs from third-party packages and the operating system is the record \<open>process\<close>;
  standard output and standard error are not modelled.
\<close>

section \<open>Sinks\<close>

definition report_text :: "(gomsg \<Rightarrow> gostring) \<Rightarrow> run_report \<Rightarrow> gostring" where
  "report_text message r = Join [NL] (map message (reportText r))"

text \<open>\<open>encode\<close> is the JSON of the payload with this text.\<close>

definition slack_Publish ::
  "(gostring \<Rightarrow> gostring) \<Rightarrow> (gomsg \<Rightarrow> gostring) \<Rightarrow> 'w web \<Rightarrow> gostring \<Rightarrow> run_report \<Rightarrow> 'w \<Rightarrow> gomsg option \<times> 'w" where
  "slack_Publish encode message http url r w =
     (case web_check http url of
        Some e \<Rightarrow> (Some (wrapf ''slack: request: %w'' [] e), w)
      | None \<Rightarrow>
          (case web_do http
                  \<lparr>wq_URL = url, wq_Headers = [json_content],
                   wq_Body = encode (''mykb-curator run'' @ [NL] @ report_text message r)\<rparr> w of
             (Inl e, w) \<Rightarrow> (Some (wrapf ''slack: post: %w'' [] e), w)
           | (Inr resp, w) \<Rightarrow>
               (if wr_Status resp < 200 \<or> wr_Status resp \<ge> 300
                then (Some (errorf ''slack: webhook returned %d: %s'' [int_dec (wr_Status resp), wr_Body resp]), w)
                else (None, w))))"

record smtp_auth =
  sa_user :: gostring
  sa_password :: gostring
  sa_host :: gostring

type_synonym 'w send_mail =
  "gostring \<Rightarrow> smtp_auth option \<Rightarrow> gostring \<Rightarrow> gostring list \<Rightarrow> gostring \<Rightarrow> 'w \<Rightarrow> gomsg option \<times> 'w"

definition smtp_Send ::
  "(gostring \<Rightarrow> gostring) \<Rightarrow> 'w send_mail \<Rightarrow> email_config \<Rightarrow> gostring \<Rightarrow> gostring list \<Rightarrow> gostring \<Rightarrow> gostring \<Rightarrow> 'w \<Rightarrow>
   gomsg option \<times> 'w" where
  "smtp_Send env send e from recipients subject body w =
     send (SMTPAddr e)
       (if em_Username e \<noteq> [] \<and> em_PasswordEnv e \<noteq> []
        then Some \<lparr>sa_user = em_Username e, sa_password = env (em_PasswordEnv e),
                   sa_host = (case LastIndexByte (SMTPAddr e) (CHR '':'') of None \<Rightarrow> SMTPAddr e | Some i \<Rightarrow> take i (SMTPAddr e))\<rparr>
        else None)
       from recipients
       (''From: '' @ from @ [CR, NL] @ ''To: '' @ Join '', '' recipients @ [CR, NL] @ ''Subject: '' @ subject @
        [CR, NL, CR, NL] @ body) w"

definition email_Publish ::
  "(gostring \<Rightarrow> gostring) \<Rightarrow> (gomsg \<Rightarrow> gostring) \<Rightarrow> 'w send_mail \<Rightarrow> email_config \<Rightarrow> run_report \<Rightarrow> 'w \<Rightarrow> gomsg option \<times> 'w" where
  "email_Publish env message send e r w =
     (case smtp_Send env send e (em_From e) (em_To e) (''[mykb-curator] '' @ rep_Wiki r @ '' run '' @ RunID r) (report_text message r) w of
        (Some err, w) \<Rightarrow> (Some (wrapf ''email: send: %w'' [] err), w)
      | (None, w) \<Rightarrow> (None, w))"

type_synonym 'w run_binary = "gostring \<Rightarrow> gostring list \<Rightarrow> 'w \<Rightarrow> gomsg option \<times> 'w"

definition journal_Publish :: "(gomsg \<Rightarrow> gostring) \<Rightarrow> 'w run_binary \<Rightarrow> run_report \<Rightarrow> 'w \<Rightarrow> gomsg option \<times> 'w" where
  "journal_Publish message run r w =
     (case run ''kb'' [''work'', ''journal'', ''mykb-curator run '' @ RunID r @ '': '' @ message (Summary r)] w of
        (Some e, w) \<Rightarrow> (Some (wrapf ''kb-journal: %w'' [] e), w)
      | (None, w) \<Rightarrow> (None, w))"

section \<open>The process\<close>

record 'w process =
  ps_env :: "gostring \<Rightarrow> gostring"
  ps_temp :: gostring
  ps_mkdir :: "gostring \<Rightarrow> 'w \<Rightarrow> gomsg option \<times> 'w"
  ps_write :: "gostring \<Rightarrow> gostring \<Rightarrow> 'w \<Rightarrow> gomsg option \<times> 'w"
  ps_flock :: "'w flock_sys"
  ps_kb :: "kb_choice \<Rightarrow> 'w \<Rightarrow> snapshot res \<times> 'w"
  ps_kb_diff :: "kb_choice \<Rightarrow> gostring \<Rightarrow> 'w \<Rightarrow> diff_result \<times> 'w"
  ps_specs :: "gostring \<Rightarrow> 'w \<Rightarrow> spec list res \<times> 'w"
  ps_docspecs :: "gostring \<Rightarrow> 'w \<Rightarrow> doc_file list res \<times> 'w"
  ps_net :: "'w connections"
  ps_quote :: "gostring \<Rightarrow> gostring"
  ps_verdict :: "gostring \<Rightarrow> verdict_json res"
  ps_git :: "'w git_run"
  ps_tool :: "'w tool"
  ps_puppeteer :: gostring
  ps_message :: "gomsg \<Rightarrow> gostring"
  ps_unicode :: unicode
  ps_known :: "gostring list"
  ps_ir :: "gostring \<Rightarrow> (ir_document, 'w) store"
  ps_clusters :: "gostring \<Rightarrow> (page_result list, 'w) store"
  ps_manifest :: "gostring \<Rightarrow> 'w manifest_store"
  ps_time :: "gostring \<Rightarrow> int option"
  ps_now :: "'w \<Rightarrow> int \<times> 'w"
  ps_head :: "gostring \<Rightarrow> 'w \<Rightarrow> probe_result \<times> 'w"
  ps_pr :: "gostring \<Rightarrow> 'w pr_repo"
  ps_today :: gostring
  ps_clock :: "'w \<Rightarrow> gotime \<times> 'w"
  ps_random :: "'w \<Rightarrow> gostring \<times> 'w"
  ps_exe :: "gostring res"
  ps_read_exe :: "gostring \<Rightarrow> gostring res"
  ps_build_info :: "(gostring \<times> gostring) list option"
  ps_web :: "'w web"
  ps_slack_json :: "gostring \<Rightarrow> gostring"
  ps_mail :: "'w send_mail"
  ps_run_kb :: "'w run_binary"
  ps_marshal :: "report_yaml \<Rightarrow> gostring res"
  ps_disk :: "'w \<Rightarrow> disk_faults \<times> disk"
  ps_set_disk :: "disk \<Rightarrow> 'w \<Rightarrow> 'w"

text \<open>\<open>composeReportSinks\<close>, of the parts of the process the sinks use.\<close>

definition composeReportSinks :: "'w process \<Rightarrow> config \<Rightarrow> 'w sink list" where
  "composeReportSinks P c =
     (let s = Sinks c; e = Email s in
      (if SlackWebhookEnv s \<noteq> [] \<and> ps_env P (SlackWebhookEnv s) \<noteq> []
       then [\<lparr>sink_Name = ''slack'',
              Publish = slack_Publish (ps_slack_json P) (ps_message P) (ps_web P) (ps_env P (SlackWebhookEnv s))\<rparr>] else []) @
      (if SMTPAddr e \<noteq> [] \<and> em_From e \<noteq> [] \<and> em_To e \<noteq> []
       then [\<lparr>sink_Name = ''email'', Publish = email_Publish (ps_env P) (ps_message P) (ps_mail P) e\<rparr>] else []) @
      (if sc_KBJournal s then [\<lparr>sink_Name = ''kb-journal'', Publish = journal_Publish (ps_message P) (ps_run_kb P)\<rparr>] else []))"

definition publishReport :: "'w process \<Rightarrow> config \<Rightarrow> run_report \<Rightarrow> 'w \<Rightarrow> 'w" where
  "publishReport P c r w = snd (multi_Publish (composeReportSinks P c) r w)"

definition persistReport :: "'w process \<Rightarrow> run_report \<Rightarrow> gostring \<Rightarrow> 'w \<Rightarrow> 'w" where
  "persistReport P r reportDir w =
     (if reportDir = [] then w
      else (case ps_disk P w of (F, d) \<Rightarrow> ps_set_disk P (snd (WriteToDir (ps_marshal P) F r reportDir d)) w))"

section \<open>The build\<close>

text \<open>The loop over the build settings, later ones winning.\<close>

definition vcs_id :: "(gostring \<times> gostring) list \<Rightarrow> gostring" where
  "vcs_id settings =
     (case fold (\<lambda>(k, v) (revision, dirty).
                   (if k = ''vcs.revision'' then v else revision, if k = ''vcs.modified'' then v = ''true'' else dirty))
            settings ([], False) of
        (revision, dirty) \<Rightarrow>
          if revision = [] then []
          else ''vcs-'' @ take 12 revision @ (if dirty then ''-dirty'' else []))"

definition buildID :: "gostring res \<Rightarrow> (gostring \<Rightarrow> gostring res) \<Rightarrow> (gostring \<times> gostring) list option \<Rightarrow> gostring" where
  "buildID exe read info =
     (let from_info = (case info of None \<Rightarrow> [] | Some settings \<Rightarrow> vcs_id settings) in
      case exe of
        Inl _ \<Rightarrow> from_info
      | Inr path \<Rightarrow> (case read path of Inl _ \<Rightarrow> from_info | Inr content \<Rightarrow> ''bin-'' @ take 12 (sha256_hex content)))"

section \<open>Caches and maintenance\<close>

definition ircache_Open :: "'w process \<Rightarrow> gostring \<Rightarrow> 'w \<Rightarrow> (ir_document, 'w) store res \<times> 'w" where
  "ircache_Open P dir w =
     (case ps_mkdir P dir w of
        (Some e, w) \<Rightarrow> (Inl (wrapf ''ircache: mkdir %q: %w'' [dir] e), w)
      | (None, w) \<Rightarrow> (Inr (ps_ir P dir), w))"

definition clustercache_Open :: "'w process \<Rightarrow> gostring \<Rightarrow> 'w \<Rightarrow> (page_result list, 'w) store res \<times> 'w" where
  "clustercache_Open P dir w =
     (case ps_mkdir P dir w of
        (Some e, w) \<Rightarrow> (Inl (wrapf ''clustercache: mkdir %q: %w'' [dir] e), w)
      | (None, w) \<Rightarrow> (Inr (ps_clusters P dir), w))"

definition composeIRCache :: "'w process \<Rightarrow> config \<Rightarrow> 'w \<Rightarrow> (ir_document, 'w) store res \<times> 'w" where
  "composeIRCache P c = ircache_Open P (path_Join [cacheBase (ps_env P) c, ''ir''])"

definition composeClusterCache :: "'w process \<Rightarrow> config \<Rightarrow> 'w \<Rightarrow> (page_result list, 'w) store res \<times> 'w" where
  "composeClusterCache P c = clustercache_Open P (path_Join [cacheBase (ps_env P) c, ''cluster''])"

text \<open>The open database; closing it is the closer the code returns.\<close>

definition composeRunStateCache :: "'w process \<Rightarrow> config \<Rightarrow> 'w \<Rightarrow> nat res \<times> 'w" where
  "composeRunStateCache P c w =
     (let dir = cacheBase (ps_env P) c in
      case ps_mkdir P dir w of
        (Some e, w) \<Rightarrow> (Inl (wrapf ''cache: mkdir %q: %w'' [dir] e), w)
      | (None, w) \<Rightarrow> runstate_Open (cn_bolt (ps_net P)) (path_Join [dir, ''runstate.bolt'']) w)"

definition orphanManifest :: "'w process \<Rightarrow> config \<Rightarrow> 'w manifest_store option" where
  "orphanManifest P c =
     (if OrphanPruning c then Some (ps_manifest P (path_Join [cacheBase (ps_env P) c, ''page-manifest.json''])) else None)"

definition composeOnMaintenance :: "'w process \<Rightarrow> config \<Rightarrow> (proposal list \<Rightarrow> 'w \<Rightarrow> gomsg option \<times> 'w) option" where
  "composeOnMaintenance P c =
     (if Writeback_Type c = [] \<or> Writeback_Type c = ''none'' then None
      else if kbs_Type (KBSource c) \<noteq> ''git'' then Some (\<lambda>props w. (None, w))
      else Some (\<lambda>props w.
        (case ps_random P w of
           (runID, w) \<Rightarrow>
             (case Submit (ps_pr P (kbWorkDir (ps_env P) c)) (ps_today P)
                     \<lparr>in_RunID = runID, BaseBranch = baseBranch c, in_Proposals = props, AuthorName = [], AuthorEmail = []\<rparr> w of
                (Inl e, w) \<Rightarrow> (Some e, w)
              | (Inr _, w) \<Rightarrow> (None, w)))))"

text \<open>The areas the external-truth check may research: the specs are only pulled with a write-back.\<close>

definition opted_areas :: "'w process \<Rightarrow> config \<Rightarrow> gostring \<Rightarrow> 'w \<Rightarrow> gostring list \<times> 'w" where
  "opted_areas P c specDir w =
     (if Writeback_Type c = [] \<or> Writeback_Type c = ''none'' then ([], w)
      else (case ps_specs P specDir w of (pulled, w) \<Rightarrow> (optedInExternalTruthAreas pulled, w)))"

section \<open>A run\<close>

definition arch_of :: "'w process \<Rightarrow> config \<Rightarrow> 'w llm_client \<Rightarrow> 'w arch_frontend" where
  "arch_of P c client =
     \<lparr>fe_llm = client, fe_model = lc_Model (cf_LLM c),
      resolvers = [''git'' \<mapsto> git_Resolve (ps_unicode P) \<lparr>gr_root = Git_Root c, gr_repos = Git_Repos c\<rparr> (ps_git P)]\<rparr>"

definition no_client :: "'w llm_client" where
  "no_client req w = (Inl (errorf ''stub-llm: no impl wired yet'' []), w)"

text \<open>What has been opened when the orchestrator is made.\<close>

record 'w composed =
  op_kb :: kb_choice
  op_specs :: gostring
  op_wiki :: "'w wiki_target"
  op_llm :: "'w llm_client option"
  op_runstate :: "(spec_state, 'w) store"
  op_ir :: "(ir_document, 'w) store"
  op_clusters :: "(page_result list, 'w) store"
  op_opted :: "gostring list"

definition collaborators_of :: "'w process \<Rightarrow> config \<Rightarrow> 'w composed \<Rightarrow> 'w collaborators" where
  "collaborators_of P c op =
     (let client = (case op_llm op of None \<Rightarrow> no_client | Some client \<Rightarrow> client); arch = arch_of P c client in
      \<lparr>co_KB_Pull = ps_kb P (op_kb op), co_KB_DiffSince = ps_kb_diff P (op_kb op),
       co_Specs_Pull = ps_specs P (op_specs op), co_DocSpecs_Pull = ps_docspecs P (op_specs op), co_Wiki = op_wiki op,
       co_LLM = op_llm op, co_Cluster = arch_Render (ps_quote P) arch,
       co_Reviewer = Review (ps_verdict P) client (lc_Model (cf_LLM c)), co_Reviser = ReviseSection (ps_quote P) arch,
       co_Render = mermaid_Render (ps_tool P) [] (ps_puppeteer P), co_message = ps_message P, co_unicode = ps_unicode P,
       co_known = ps_known P, co_RunState = op_runstate op, co_IRCache = op_ir op, co_ClusterCache = op_clusters op,
       co_Manifest = (case orphanManifest P c of Some m \<Rightarrow> m | None \<Rightarrow> ps_manifest P []),
       co_Maintenance = composeMaintenance (ps_time P) (ps_now P) (ps_head P) c (op_opted op) (op_llm op),
       co_OnMaintenance = composeOnMaintenance P c, co_BuildID = buildID (ps_exe P) (ps_read_exe P) (ps_build_info P),
       co_Clock = ps_clock P, co_RandomID = ps_random P\<rparr>)"

text \<open>The run itself and what becomes of its report; the error is that of the run.\<close>

definition run_and_report ::
  "'w process \<Rightarrow> config \<Rightarrow> gostring \<Rightarrow> 'w rendered_sink option \<Rightarrow> 'w composed \<Rightarrow> 'w \<Rightarrow> gomsg option \<times> 'w" where
  "run_and_report P c reportDir sink op w =
     (case Run (composeDeps c (collaborators_of P c op) sink) w of
        ((r, err), w) \<Rightarrow> (err, publishReport P c r (persistReport P r reportDir w)))"

definition with_caches ::
  "'w process \<Rightarrow> config \<Rightarrow> gostring \<Rightarrow> 'w rendered_sink option \<Rightarrow> kb_choice \<Rightarrow> gostring \<Rightarrow> 'w wiki_target \<Rightarrow>
   'w llm_client option \<Rightarrow> (spec_state, 'w) store \<Rightarrow> 'w \<Rightarrow> gomsg option \<times> 'w" where
  "with_caches P c reportDir sink kb specDir target client runstate w =
     (case composeIRCache P c w of
        (Inl e, w) \<Rightarrow> (Some e, w)
      | (Inr ir, w) \<Rightarrow>
          (case composeClusterCache P c w of
             (Inl e, w) \<Rightarrow> (Some e, w)
           | (Inr clusters, w) \<Rightarrow>
               (case opted_areas P c specDir w of
                  (areas, w) \<Rightarrow>
                    run_and_report P c reportDir sink
                      \<lparr>op_kb = kb, op_specs = specDir, op_wiki = target, op_llm = client, op_runstate = runstate,
                       op_ir = ir, op_clusters = clusters, op_opted = areas\<rparr> w)))"

text \<open>What a run does while it holds the lock; the run-state cache is closed on every way out.\<close>

definition run_body :: "'w process \<Rightarrow> config \<Rightarrow> gostring \<Rightarrow> gostring \<Rightarrow> 'w \<Rightarrow> gomsg option \<times> 'w" where
  "run_body P c outDir reportDir w =
     (case composeSpecStore c of
        Inl e \<Rightarrow> (Some e, w)
      | Inr specDir \<Rightarrow>
          (case composeKBSource (ps_env P) c of
             Inl e \<Rightarrow> (Some e, w)
           | Inr kb \<Rightarrow>
               (case composeWikiTarget (ps_env P) c of
                  Inl e \<Rightarrow> (Some e, w)
                | Inr choice \<Rightarrow>
                    (case open_wiki (ps_net P) choice w of
                       (Inl e, w) \<Rightarrow> (Some e, w)
                     | (Inr target, w) \<Rightarrow>
                         (case composeLLMClient (ps_env P) c of
                            Inl e \<Rightarrow> (Some e, w)
                          | Inr llm \<Rightarrow>
                              (case composeOnRenderedSink (ps_mkdir P) (ps_write P) c target outDir w of
                                 (sink, w) \<Rightarrow>
                                   (case composeRunStateCache P c w of
                                      (Inl e, w) \<Rightarrow> (Some e, w)
                                    | (Inr db, w) \<Rightarrow>
                                        (case with_caches P c reportDir sink kb specDir target
                                                (map_option (open_llm (ps_net P)) llm)
                                                (runstate_cache (cn_bolt (ps_net P)) db) w of
                                           (err, w) \<Rightarrow> (err, snd (bolt_Close (cn_bolt (ps_net P)) db w))))))))))"

definition refusal :: "config \<Rightarrow> gomsg" where
  "refusal c =
     errorf ''another mykb-curator run is already active for wiki %q; refusing to run concurrently'' [cf_Wiki c]"

definition runFromConfig :: "'w process \<Rightarrow> config \<Rightarrow> gostring \<Rightarrow> gostring \<Rightarrow> 'w \<Rightarrow> gomsg option \<times> 'w" where
  "runFromConfig P c outDir reportDir w =
     (case wikiLockPath (ps_env P) (ps_temp P) (ps_mkdir P) c w of
        (path, w) \<Rightarrow>
          (case Acquire (ps_flock P) path w of
             (Inl (Locked _), w) \<Rightarrow> (Some (refusal c), w)
           | (Inl (LockFailed e), w) \<Rightarrow> (Some e, w)
           | (Inr l, w) \<Rightarrow>
               (case run_body P c outDir reportDir w of
                  (err, w) \<Rightarrow> (err, snd (Release (ps_flock P) l w)))))"

section \<open>The commands\<close>

text \<open>The command \<open>run\<close>: its flags, what reading a configuration gives, and the run.\<close>

definition config_path :: "(gostring \<Rightarrow> gostring) \<Rightarrow> gostring \<Rightarrow> gostring \<Rightarrow> gostring" where
  "config_path env wiki configPath =
     (if configPath = [] then env ''HOME'' @ ''/.config/mykb-curator/'' @ wiki @ ''.yaml'' else configPath)"

definition run_command ::
  "'w process \<Rightarrow> (gostring \<Rightarrow> gostring res) \<Rightarrow> (gostring \<Rightarrow> config res) \<Rightarrow> gostring \<Rightarrow> gostring \<Rightarrow> gostring \<Rightarrow> gostring \<Rightarrow> 'w \<Rightarrow>
   gomsg option \<times> 'w" where
  "run_command P read decode wiki configPath outDir reportDir w =
     (if wiki = [] then (Some (errorf ''--wiki is required (v0.0; --all coming later)'' []), w)
      else (let path = config_path (ps_env P) wiki configPath in
            case config_Load path (read path) decode of
              Inl e \<Rightarrow> (Some e, w)
            | Inr c \<Rightarrow> runFromConfig P c outDir reportDir w))"

section \<open>Reporting is observational\<close>

text \<open>A process with other transports for reports, and a configuration with other sinks.\<close>

definition reporting ::
  "'w web \<Rightarrow> 'w send_mail \<Rightarrow> 'w run_binary \<Rightarrow> (gostring \<Rightarrow> gostring) \<Rightarrow> (report_yaml \<Rightarrow> gostring res) \<Rightarrow>
   ('w \<Rightarrow> disk_faults \<times> disk) \<Rightarrow> (disk \<Rightarrow> 'w \<Rightarrow> 'w) \<Rightarrow> 'w process \<Rightarrow> 'w process" where
  "reporting http mail kb json marshal disk set_disk P =
     P\<lparr>ps_web := http, ps_mail := mail, ps_run_kb := kb, ps_slack_json := json, ps_marshal := marshal,
       ps_disk := disk, ps_set_disk := set_disk\<rparr>"

lemma compose_sinks [simp]:
  "cacheBase env (c\<lparr>Sinks := s\<rparr>) = cacheBase env c"
  "kbWorkDir env (c\<lparr>Sinks := s\<rparr>) = kbWorkDir env c"
  "composeSpecStore (c\<lparr>Sinks := s\<rparr>) = composeSpecStore c"
  "composeWikiTarget env (c\<lparr>Sinks := s\<rparr>) = composeWikiTarget env c"
  "refusal (c\<lparr>Sinks := s\<rparr>) = refusal c"
  by (simp_all add: cacheBase_def kbWorkDir_def composeSpecStore_def composeWikiTarget_def refusal_def)

lemma compose_sinks2 [simp]:
  "composeKBSource env (c\<lparr>Sinks := s\<rparr>) = composeKBSource env c"
  "composeLLMClient env (c\<lparr>Sinks := s\<rparr>) = composeLLMClient env c"
  "wikiLockPath env tmp mkdir (c\<lparr>Sinks := s\<rparr>) = wikiLockPath env tmp mkdir c"
  "composeOnRenderedSink mkdir wr (c\<lparr>Sinks := s\<rparr>) T outDir = composeOnRenderedSink mkdir wr c T outDir"
  "composeFrontends (c\<lparr>Sinks := s\<rparr>) client = composeFrontends c client"
  "composeDiagrams (c\<lparr>Sinks := s\<rparr>) co = composeDiagrams c co"
  by (auto simp: composeKBSource_def composeLLMClient_def llmCacheDir_def wikiLockPath_def composeOnRenderedSink_def
      composeFrontends_def composeDiagrams_def fun_eq_iff Let_def split: option.split prod.split)

lemma composeDeps_sinks: "composeDeps (c\<lparr>Sinks := s\<rparr>) co sink = composeDeps c co sink"
  by (simp add: composeDeps_def docspecs_wired_def composeBackend_def
      RefineIterations_def Let_def)

lemma reporting_simps [simp]:
  "ps_env (reporting http mail kb json marshal disk set_disk P) = ps_env P"
  "ps_temp (reporting http mail kb json marshal disk set_disk P) = ps_temp P"
  "ps_flock (reporting http mail kb json marshal disk set_disk P) = ps_flock P"
  "ps_net (reporting http mail kb json marshal disk set_disk P) = ps_net P"
  "ps_mkdir (reporting http mail kb json marshal disk set_disk P) = ps_mkdir P"
  "ps_write (reporting http mail kb json marshal disk set_disk P) = ps_write P"
  "composeRunStateCache (reporting http mail kb json marshal disk set_disk P) (c\<lparr>Sinks := s\<rparr>) = composeRunStateCache P c"
  "composeIRCache (reporting http mail kb json marshal disk set_disk P) (c\<lparr>Sinks := s\<rparr>) = composeIRCache P c"
  "composeClusterCache (reporting http mail kb json marshal disk set_disk P) (c\<lparr>Sinks := s\<rparr>) = composeClusterCache P c"
  "opted_areas (reporting http mail kb json marshal disk set_disk P) (c\<lparr>Sinks := s\<rparr>) = opted_areas P c"
  by (auto simp: reporting_def composeRunStateCache_def composeIRCache_def composeClusterCache_def opted_areas_def
      ircache_Open_def clustercache_Open_def fun_eq_iff Let_def split: prod.split option.split)

lemma collaborators_reporting:
  "collaborators_of (reporting http mail kb json marshal disk set_disk P) (c\<lparr>Sinks := s\<rparr>) op = collaborators_of P c op"
  by (simp add: collaborators_of_def reporting_def arch_of_def orphanManifest_def composeMaintenance_def
      composeOnMaintenance_def baseBranch_def Let_def split: option.split)

lemma run_and_report_outcome:
  "fst (run_and_report (reporting http mail kb json marshal disk set_disk P) (c\<lparr>Sinks := s\<rparr>) reportDir sink op w) =
   fst (run_and_report P c [] sink op w)"
  by (simp add: run_and_report_def composeDeps_sinks collaborators_reporting split: prod.split)

lemma with_caches_outcome:
  "fst (with_caches (reporting http mail kb json marshal disk set_disk P) (c\<lparr>Sinks := s\<rparr>) reportDir sink kbc dir T client st w) =
   fst (with_caches P c [] sink kbc dir T client st w)"
  by (simp add: with_caches_def run_and_report_outcome split: prod.split sum.split)

lemma run_body_outcome:
  "fst (run_body (reporting http mail kb json marshal disk set_disk P) (c\<lparr>Sinks := s\<rparr>) outDir reportDir w) =
   fst (run_body P c outDir [] w)"
  by (simp add: run_body_def with_caches_outcome split_beta split: sum.split prod.split)

text \<open>
  C9. Reporting never decides a run: with any sinks, any report directory and any disk they meet, whatever
  fails of a webhook, a mail server, the \<open>kb\<close> command or the disk, the outcome of a run is the one it
  has without reporting.
\<close>

theorem reporting_is_observational:
  "fst (runFromConfig (reporting http mail kb json marshal disk set_disk P) (c\<lparr>Sinks := s\<rparr>) outDir reportDir w) =
   fst (runFromConfig P (c\<lparr>Sinks := s'\<rparr>) outDir [] w)"
proof -
  have "fst (runFromConfig (reporting http mail kb json marshal disk set_disk P) (c\<lparr>Sinks := s\<rparr>) outDir reportDir w) =
      fst (runFromConfig P c outDir [] w)" for http mail kb json marshal disk set_disk P s reportDir
    by (simp add: runFromConfig_def run_body_outcome split_beta split: prod.split sum.split lock_error.split)
  note any = this
  have "reporting (ps_web P) (ps_mail P) (ps_run_kb P) (ps_slack_json P) (ps_marshal P) (ps_disk P) (ps_set_disk P) P = P"
    by (simp add: reporting_def)
  with any [of "ps_web P" "ps_mail P" "ps_run_kb P" "ps_slack_json P" "ps_marshal P" "ps_disk P" "ps_set_disk P" P s' "[]"] any
  show ?thesis by simp
qed

end
