(* ===== verification/DocEdit.thy ===== *)
theory DocEdit
  imports GoText
begin

text \<open>
  Edits of a doc-spec file in place (internal/specs/docspec/docedit/docedit.go): the node tree of the
  YAML library only locates the lines of a value, the edit replaces lines of the source text.  The
  library is the parameter \<open>yaml\<close>, from a text to its document node; lines and columns of a node count
  from 1.  An edit returns the document it leaves, also when it fails: the code replaces the source
  before it parses it again.
\<close>

section \<open>Documents\<close>

datatype ykind = DocumentKind | SequenceKind | MappingKind | ScalarKind | AliasKind

datatype ynode = YNode (y_kind: ykind) (y_value: gostring) (y_line: nat) (y_column: nat) (y_flow: bool)
  (y_content: "ynode list")

record document =
  doc_src :: gostring
  doc_node :: ynode

datatype edit_error = EditPanic | EditError gomsg

type_synonym yaml_parse = "gostring \<Rightarrow> ynode res"

definition check_document :: "yaml_parse \<Rightarrow> gostring \<Rightarrow> ynode res" where
  "check_document yaml src =
     (case yaml src of
        Inl e \<Rightarrow> Inl (wrapf ''docedit: parse: %w'' [] e)
      | Inr n \<Rightarrow>
          if y_kind n \<noteq> DocumentKind \<or> y_content n = [] \<or> y_kind (hd (y_content n)) \<noteq> MappingKind
          then Inl (errorf ''docedit: not a single-document mapping'' []) else Inr n)"

definition docedit_Parse :: "yaml_parse \<Rightarrow> gostring \<Rightarrow> document res" where
  "docedit_Parse yaml src =
     (case check_document yaml src of Inl e \<Rightarrow> Inl e | Inr n \<Rightarrow> Inr \<lparr>doc_src = src, doc_node = n\<rparr>)"

definition reparse :: "yaml_parse \<Rightarrow> document \<Rightarrow> edit_error option \<times> document" where
  "reparse yaml d =
     (case check_document yaml (doc_src d) of Inl e \<Rightarrow> (Some (EditError e), d) | Inr n \<Rightarrow> (None, d\<lparr>doc_node := n\<rparr>))"

definition doc_root :: "document \<Rightarrow> ynode" where "doc_root d = hd (y_content (doc_node d))"

section \<open>Finding nodes\<close>

fun entry_in :: "ynode list \<Rightarrow> gostring \<Rightarrow> (ynode \<times> ynode) option" where
  "entry_in (k # v # ns) key = (if y_value k = key then Some (k, v) else entry_in ns key)"
| "entry_in ns key = None"

definition mapEntry :: "ynode option \<Rightarrow> gostring \<Rightarrow> (ynode \<times> ynode) option" where
  "mapEntry m key =
     (case m of
        None \<Rightarrow> None
      | Some n \<Rightarrow> if y_kind n \<noteq> MappingKind then None else entry_in (y_content n) key)"

definition mapVal :: "ynode option \<Rightarrow> gostring \<Rightarrow> ynode option" where
  "mapVal m key = map_option snd (mapEntry m key)"

record page_ref =
  pr_parent :: bool
  pr_page :: gostring

definition ref_String :: "page_ref \<Rightarrow> gomsg" where
  "ref_String ref = (if pr_parent ref then errorf ''parent'' [] else errorf ''child %q'' [pr_page ref])"

text \<open>The first item of a sequence whose entry \<open>key\<close> is \<open>title\<close>.\<close>

definition titled :: "gostring \<Rightarrow> gostring \<Rightarrow> ynode list \<Rightarrow> ynode option" where
  "titled key title ns =
     List.find (\<lambda>n. case mapVal (Some n) key of None \<Rightarrow> False | Some v \<Rightarrow> TrimSpace (y_value v) = title) ns"

definition pageNode :: "document \<Rightarrow> page_ref \<Rightarrow> ynode res" where
  "pageNode d ref =
     (if pr_parent ref then
        (case mapVal (Some (doc_root d)) ''parent'' of
           None \<Rightarrow> Inl (wrapf ''docedit: %s: no parent page'' [] (ref_String ref))
         | Some p \<Rightarrow> Inr p)
      else
        (case mapVal (Some (doc_root d)) ''children'' of
           None \<Rightarrow> Inl (wrapf ''docedit: %s: no children'' [] (ref_String ref))
         | Some cs \<Rightarrow>
             if y_kind cs \<noteq> SequenceKind then Inl (wrapf ''docedit: %s: no children'' [] (ref_String ref))
             else (case titled ''page'' (pr_page ref) (y_content cs) of
                     None \<Rightarrow> Inl (wrapf ''docedit: %s: page not found'' [] (ref_String ref))
                   | Some c \<Rightarrow> Inr c)))"

definition sectionNode :: "document \<Rightarrow> page_ref \<Rightarrow> gostring \<Rightarrow> ynode res" where
  "sectionNode d ref title =
     (case pageNode d ref of
        Inl e \<Rightarrow> Inl e
      | Inr page \<Rightarrow>
          (case mapVal (Some page) ''sections'' of
             None \<Rightarrow> Inl (wrapf ''docedit: %s: no sections'' [] (ref_String ref))
           | Some secs \<Rightarrow>
               if y_kind secs \<noteq> SequenceKind then Inl (wrapf ''docedit: %s: no sections'' [] (ref_String ref))
               else (case titled ''title'' title (y_content secs) of
                       None \<Rightarrow> Inl (wrapf ''docedit: %s: section %q not found'' [title] (ref_String ref))
                     | Some s \<Rightarrow> Inr s)))"

section \<open>Lines\<close>

definition indentOf :: "gostring \<Rightarrow> nat" where
  "indentOf l = length l - length (TrimLeft l '' '')"

definition blank_line :: "gostring \<Rightarrow> bool" where "blank_line l = (TrimSpace l = [])"

text \<open>The first line from number \<open>i\<close> on that is not blank and not deeper than \<open>k\<close>.\<close>

fun find_dedent :: "nat \<Rightarrow> gostring list \<Rightarrow> nat \<Rightarrow> nat option" where
  "find_dedent k [] i = None"
| "find_dedent k (l # ls) i =
     (if blank_line l then find_dedent k ls (Suc i)
      else if indentOf l \<le> k then Some i else find_dedent k ls (Suc i))"

text \<open>The loop that takes blank lines off the end of the span, above line \<open>start\<close>.\<close>

fun trim_span :: "gostring list \<Rightarrow> nat \<Rightarrow> nat \<Rightarrow> nat" where
  "trim_span ls start 0 = 0"
| "trim_span ls start (Suc e) =
     (if Suc e > start + 1 \<and> blank_line (ls ! e) then trim_span ls start e else Suc e)"

definition valueLineSpan :: "gostring list \<Rightarrow> ynode \<Rightarrow> gostring \<Rightarrow> (nat \<times> nat) option" where
  "valueLineSpan ls m key =
     (case mapEntry (Some m) key of
        None \<Rightarrow> None
      | Some (kNode, vNode) \<Rightarrow>
          (let start = y_line vNode - 1; keyIndent = y_column kNode - 1;
               e = (case find_dedent keyIndent (drop (start + 1) ls) (start + 1) of None \<Rightarrow> length ls | Some i \<Rightarrow> i) in
           Some (start, trim_span ls start e)))"

definition splice_lines :: "yaml_parse \<Rightarrow> nat \<Rightarrow> nat \<Rightarrow> gostring list \<Rightarrow> document \<Rightarrow> edit_error option \<times> document" where
  "splice_lines yaml start e repl d =
     (let ls = Split NL (doc_src d) in
      if e > length ls \<or> start > e
      then (Some (EditError (errorf ''docedit: bad splice span [%d,%d) of %d'' [nat_dec start, nat_dec e, nat_dec (length ls)])), d)
      else reparse yaml (d\<lparr>doc_src := Join [NL] (take start ls @ repl @ drop e ls)\<rparr>))"

fun wrap_words_from :: "gostring \<Rightarrow> gostring list \<Rightarrow> nat \<Rightarrow> gostring list" where
  "wrap_words_from cur [] width = [cur]"
| "wrap_words_from cur (w # ws) width =
     (if length cur + 1 + length w > width then cur # wrap_words_from w ws width
      else wrap_words_from (cur @ '' '' @ w) ws width)"

definition wrapWords :: "gostring \<Rightarrow> nat \<Rightarrow> gostring list" where
  "wrapWords s width = (case Fields s of [] \<Rightarrow> [[]] | w # ws \<Rightarrow> wrap_words_from w ws width)"

section \<open>Edits\<close>

text \<open>The lines an intent is written as, for a key that \<open>k\<close> spaces precede.\<close>

definition intent_lines :: "nat \<Rightarrow> gostring \<Rightarrow> gostring list" where
  "intent_lines k intent =
     (let keyIndent = replicate k (CHR '' '') in
      if length intent \<le> 70 \<and> \<not> list_ex (\<lambda>c. c = NL \<or> c = CHR '':'' \<or> c = CHR ''#'') intent
      then [keyIndent @ ''intent: '' @ intent]
      else (keyIndent @ ''intent: >'') # map (\<lambda>w. keyIndent @ ''  '' @ w) (wrapWords intent 66))"

definition setIntent ::
  "yaml_parse \<Rightarrow> ynode \<Rightarrow> gomsg \<Rightarrow> gostring \<Rightarrow> document \<Rightarrow> edit_error option \<times> document" where
  "setIntent yaml m parentDesc intent d =
     (case mapEntry (Some m) ''intent'' of
        None \<Rightarrow> (Some (EditError (wrapf ''docedit: %s: no intent to set'' [] parentDesc)), d)
      | Some (kNode, _) \<Rightarrow>
          (case valueLineSpan (Split NL (doc_src d)) m ''intent'' of
             None \<Rightarrow> (Some (EditError (wrapf ''docedit: %s: cannot locate intent span'' [] parentDesc)), d)
           | Some (start, e) \<Rightarrow> splice_lines yaml start e (intent_lines (y_column kNode - 1) (TrimSpace intent)) d))"

definition SetPageIntent ::
  "yaml_parse \<Rightarrow> page_ref \<Rightarrow> gostring \<Rightarrow> document \<Rightarrow> edit_error option \<times> document" where
  "SetPageIntent yaml ref intent d =
     (case pageNode d ref of
        Inl e \<Rightarrow> (Some (EditError e), d)
      | Inr page \<Rightarrow> setIntent yaml page (ref_String ref) intent d)"

definition SetSectionIntent ::
  "yaml_parse \<Rightarrow> page_ref \<Rightarrow> gostring \<Rightarrow> gostring \<Rightarrow> document \<Rightarrow> edit_error option \<times> document" where
  "SetSectionIntent yaml ref title intent d =
     (case sectionNode d ref title of
        Inl e \<Rightarrow> (Some (EditError e), d)
      | Inr sec \<Rightarrow> setIntent yaml sec (wrapf ''%s section %q'' [title] (ref_String ref)) intent d)"

definition quoted_source :: "gostring \<Rightarrow> gostring" where
  "quoted_source source = [QUOT] @ source @ [QUOT]"

text \<open>
  The two ways to append a source: inside the brackets of a flow list, and as a line after the last
  item of a block list, whose indentation \<open>strings.Repeat\<close> makes; a negative count panics.
\<close>

definition add_flow_source :: "yaml_parse \<Rightarrow> ynode \<Rightarrow> gostring \<Rightarrow> document \<Rightarrow> edit_error option \<times> document" where
  "add_flow_source yaml items source d =
     (let ls = Split NL (doc_src d); li = y_line items - 1 in
      if li \<ge> length ls then (Some EditPanic, d)
      else (case LastIndexByte (ls ! li) (CHR '']'') of
              None \<Rightarrow> (Some (EditError (errorf ''docedit: malformed flow sources at line %d'' [nat_dec (y_line items)])), d)
            | Some i \<Rightarrow>
                splice_lines yaml li (li + 1) [take i (ls ! li) @ '', '' @ quoted_source source @ drop i (ls ! li)] d))"

definition add_block_source :: "yaml_parse \<Rightarrow> ynode \<Rightarrow> gostring \<Rightarrow> document \<Rightarrow> edit_error option \<times> document" where
  "add_block_source yaml items source d =
     (if y_content items = [] then (Some EditPanic, d)
      else
        (let lastItem = last (y_content items) in
         if y_column lastItem < 3 then (Some EditPanic, d)
         else splice_lines yaml (y_line lastItem) (y_line lastItem)
                [replicate (y_column lastItem - 3) (CHR '' '') @ ''- '' @ quoted_source source] d))"

definition AddSectionSource ::
  "yaml_parse \<Rightarrow> page_ref \<Rightarrow> gostring \<Rightarrow> gostring \<Rightarrow> document \<Rightarrow> edit_error option \<times> document" where
  "AddSectionSource yaml ref title source d =
     (case sectionNode d ref title of
        Inl e \<Rightarrow> (Some (EditError e), d)
      | Inr sec \<Rightarrow>
          (let none = (Some (EditError (wrapf ''docedit: %s section %q: no sources list to widen'' [title] (ref_String ref))), d) in
           case mapVal (Some sec) ''sources'' of
             None \<Rightarrow> none
           | Some items \<Rightarrow>
               if y_kind items \<noteq> SequenceKind then none
               else if list_ex (\<lambda>e. y_value e = source) (y_content items) then (None, d)
               else if y_flow items then add_flow_source yaml items source d
               else add_block_source yaml items source d))"

definition SetSectionSources ::
  "yaml_parse \<Rightarrow> page_ref \<Rightarrow> gostring \<Rightarrow> gostring list \<Rightarrow> document \<Rightarrow> edit_error option \<times> document" where
  "SetSectionSources yaml ref title sources d =
     (case sectionNode d ref title of
        Inl e \<Rightarrow> (Some (EditError e), d)
      | Inr sec \<Rightarrow>
          (case mapEntry (Some sec) ''sources'' of
             None \<Rightarrow> (Some (EditError (wrapf ''docedit: %s section %q: no sources key'' [title] (ref_String ref))), d)
           | Some (kNode, _) \<Rightarrow>
               (case valueLineSpan (Split NL (doc_src d)) sec ''sources'' of
                  None \<Rightarrow> (Some (EditError (wrapf ''docedit: %s section %q: cannot locate sources span'' [title] (ref_String ref))), d)
                | Some (_, e) \<Rightarrow>
                    (let keyIndent = replicate (y_column kNode - 1) (CHR '' '') in
                     splice_lines yaml (y_line kNode - 1) e
                       ((keyIndent @ ''sources:'') # map (\<lambda>s. keyIndent @ ''  - '' @ quoted_source s) sources) d))))"

section \<open>Wrapping\<close>

lemma wrap_from_groups:
  "g \<noteq> [] \<Longrightarrow> (\<exists>x. g = [x]) \<or> length (Join '' '' g) \<le> width \<Longrightarrow>
     \<exists>gs. wrap_words_from (Join '' '' g) ws width = map (Join '' '') gs \<and> concat gs = g @ ws \<and>
       list_all (\<lambda>h. h \<noteq> [] \<and> ((\<exists>x. h = [x]) \<or> length (Join '' '' h) \<le> width)) gs"
proof (induction ws arbitrary: g)
  case Nil
  then show ?case by (intro exI [of _ "[g]"]) simp
next
  case (Cons w ws)
  show ?case
  proof (cases "length (Join '' '' g) + 1 + length w > width")
    case True
    obtain gs where "wrap_words_from (Join '' '' [w]) ws width = map (Join '' '') gs" "concat gs = [w] @ ws"
      "list_all (\<lambda>h. h \<noteq> [] \<and> ((\<exists>x. h = [x]) \<or> length (Join '' '' h) \<le> width)) gs"
      using Cons.IH [of "[w]"] by blast
    with True Cons.prems show ?thesis by (intro exI [of _ "g # gs"]) simp
  next
    case False
    then have "length (Join '' '' (g @ [w])) \<le> width" using Cons.prems by (simp add: Join_snoc)
    then obtain gs where "wrap_words_from (Join '' '' (g @ [w])) ws width = map (Join '' '') gs" "concat gs = (g @ [w]) @ ws"
      "list_all (\<lambda>h. h \<noteq> [] \<and> ((\<exists>x. h = [x]) \<or> length (Join '' '' h) \<le> width)) gs"
      using Cons.IH [of "g @ [w]"] by blast
    with False Cons.prems show ?thesis by (intro exI [of _ gs]) (simp add: Join_snoc)
  qed
qed

text \<open>
  Wrapping an intent keeps its words and their order, and makes no line longer than the width but
  those that are a single word.
\<close>

theorem wrap_keeps_words:
  "Fields (Join [NL] (wrapWords s width)) = Fields s \<and>
   list_all (\<lambda>l. l \<in> set (Fields s) \<or> length l \<le> width) (wrapWords s width)"
proof (cases "Fields s")
  case Nil
  have "Fields [] = []" by code_simp
  with Nil show ?thesis by (simp add: wrapWords_def)
next
  case (Cons w ws)
  obtain gs where gs: "wrapWords s width = map (Join '' '') gs" "concat gs = Fields s"
    "list_all (\<lambda>h. h \<noteq> [] \<and> ((\<exists>x. h = [x]) \<or> length (Join '' '' h) \<le> width)) gs"
    using wrap_from_groups [of "[w]" width ws] Cons by (auto simp: wrapWords_def)
  have "list_all (\<lambda>h. h \<noteq> [] \<and> list_all wordish h) gs"
    using gs(3) Fields_wordish [of s] unfolding gs(2) [symmetric] by (auto simp: list_all_iff)
  then have words: "Fields (Join [NL] (wrapWords s width)) = Fields s"
    unfolding gs(1) gs(2) [symmetric] by (rule Fields_lines)
  have "Join '' '' h \<in> set (Fields s) \<or> length (Join '' '' h) \<le> width" if "h \<in> set gs" for h
  proof -
    from gs(3) that consider x where "h = [x]" | "length (Join '' '' h) \<le> width" by (auto simp: list_all_iff)
    then show ?thesis
    proof cases
      case 1
      with that have "[x] \<in> set gs" by simp
      then have "x \<in> set (concat gs)" by (auto intro!: bexI [of _ "[x]"])
      with 1 gs(2) show ?thesis by simp
    qed simp
  qed
  with words gs(1) show ?thesis by (simp add: list_all_iff)
qed

section \<open>What an edit leaves alone\<close>

lemma reparse_src [simp]: "doc_src (snd (reparse yaml d)) = doc_src d"
  by (simp add: reparse_def split: sum.split)

lemma splice_src:
  assumes "splice_lines yaml s e repl d = (r, d')"
  shows "r \<noteq> None \<and> doc_src d' = doc_src d \<or>
    s \<le> e \<and> e \<le> length (Split NL (doc_src d)) \<and>
    doc_src d' = Join [NL] (take s (Split NL (doc_src d)) @ repl @ drop e (Split NL (doc_src d)))"
proof (cases "e > length (Split NL (doc_src d)) \<or> s > e")
  case False
  with assms reparse_src [of yaml "d\<lparr>doc_src := Join [NL] (take s (Split NL (doc_src d)) @ repl @ drop e (Split NL (doc_src d)))\<rparr>"]
  show ?thesis by (auto simp: splice_lines_def Let_def)
qed (use assms in \<open>auto simp: splice_lines_def Let_def\<close>)

lemma find_dedent_Some:
  "find_dedent k ls i = Some j \<Longrightarrow>
     \<exists>l ls1 ls2. ls = ls1 @ l # ls2 \<and> j = i + length ls1 \<and> \<not> blank_line l \<and> indentOf l \<le> k \<and>
       list_all (\<lambda>x. blank_line x \<or> k < indentOf x) ls1"
proof (induction k ls i rule: find_dedent.induct)
  case (2 k l ls i)
  show ?case
  proof (cases "\<not> blank_line l \<and> indentOf l \<le> k")
    case True
    with 2(3) show ?thesis by (intro exI [of _ l] exI [of _ "[]"] exI [of _ ls]) simp
  next
    case False
    with 2(3) have "find_dedent k ls (Suc i) = Some j" by (auto split: if_splits)
    with 2(1,2) False obtain x ls1 ls2 where "ls = ls1 @ x # ls2" "j = Suc i + length ls1" "\<not> blank_line x" "indentOf x \<le> k"
      "list_all (\<lambda>x. blank_line x \<or> k < indentOf x) ls1" by (cases "blank_line l") auto
    with False show ?thesis by (intro exI [of _ x] exI [of _ "l # ls1"] exI [of _ ls2]) auto
  qed
qed simp

lemma find_dedent_None:
  "find_dedent k ls i = None \<Longrightarrow> list_all (\<lambda>x. blank_line x \<or> k < indentOf x) ls"
  by (induction k ls i rule: find_dedent.induct) (auto split: if_splits)

lemma trim_span_facts:
  assumes "e \<le> length ls"
  shows "trim_span ls s e \<le> e \<and> (s < e \<longrightarrow> s < trim_span ls s e) \<and>
    (\<exists>bs. drop (trim_span ls s e) ls = bs @ drop e ls \<and> list_all blank_line bs)"
  using assms
proof (induction e)
  case (Suc e)
  show ?case
  proof (cases "Suc e > s + 1 \<and> blank_line (ls ! e)")
    case True
    with Suc obtain bs where bs: "drop (trim_span ls s e) ls = bs @ drop e ls" "list_all blank_line bs"
      "trim_span ls s e \<le> e" "s < trim_span ls s e" by auto
    have "drop e ls = ls ! e # drop (Suc e) ls" using Suc.prems by (simp add: Cons_nth_drop_Suc)
    with True bs show ?thesis by (auto intro!: exI [of _ "bs @ [ls ! e]"])
  next
    case False
    then show ?thesis by (auto intro: exI [of _ "[]"])
  qed
qed simp

text \<open>What lies in the span of a value, and what comes after it.\<close>

lemma value_span:
  assumes "valueLineSpan ls m key = Some (s, e)" and "s \<le> e" and "e \<le> length ls"
    and "mapEntry (Some m) key = Some (kNode, vNode)"
  shows "list_all (\<lambda>l. blank_line l \<or> y_column kNode - 1 < indentOf l) (tl (take (e - s) (drop s ls))) \<and>
    (case filter (\<lambda>l. \<not> blank_line l) (drop e ls) of [] \<Rightarrow> True | l # _ \<Rightarrow> indentOf l \<le> y_column kNode - 1)"
proof -
  let ?k = "y_column kNode - 1"
  let ?inner = "\<lambda>l. blank_line l \<or> ?k < indentOf l"
  define e0 where "e0 = (case find_dedent ?k (drop (s + 1) ls) (s + 1) of None \<Rightarrow> length ls | Some i \<Rightarrow> i)"
  have e: "e = trim_span ls s e0" "s = y_line vNode - 1"
    using assms(1,4) by (auto simp: valueLineSpan_def e0_def Let_def)
  have dedent: "e0 \<le> length ls \<and> list_all ?inner (take (e0 - (s + 1)) (drop (s + 1) ls)) \<and>
      (case filter (\<lambda>l. \<not> blank_line l) (drop e0 ls) of [] \<Rightarrow> True | l # _ \<Rightarrow> indentOf l \<le> ?k)"
  proof (cases "find_dedent ?k (drop (s + 1) ls) (s + 1)")
    case None
    with find_dedent_None [OF None] show ?thesis by (simp add: e0_def)
  next
    case (Some i)
    with find_dedent_Some [OF Some] obtain l ls1 ls2 where *: "drop (s + 1) ls = ls1 @ l # ls2" "i = s + 1 + length ls1"
      "\<not> blank_line l" "indentOf l \<le> ?k" "list_all ?inner ls1" by auto
    have "drop i ls = drop (length ls1) (drop (s + 1) ls)" using *(2) by (simp add: add.commute)
    then have "drop i ls = l # ls2" unfolding *(1) by simp
    moreover have "i \<le> length ls" using *(1,2) by (metis calculation drop_eq_Nil2 linear list.distinct(1))
    ultimately show ?thesis using Some * by (simp add: e0_def)
  qed
  obtain bs where bs: "drop e ls = bs @ drop e0 ls" "list_all blank_line bs" "e \<le> e0"
    using trim_span_facts [of e0 ls s] dedent e by auto
  have "filter (\<lambda>l. \<not> blank_line l) (drop e ls) = filter (\<lambda>l. \<not> blank_line l) (drop e0 ls)"
    using bs by (auto simp: filter_empty_conv list_all_iff)
  moreover have "tl (take (e - s) (drop s ls)) = take (e - (s + 1)) (drop (s + 1) ls)"
    by (simp add: tl_take tl_drop drop_Suc)
  moreover have "set (take (e - (s + 1)) (drop (s + 1) ls)) \<subseteq> set (take (e0 - (s + 1)) (drop (s + 1) ls))"
    using bs(3) by (intro set_take_subset_set_take) simp
  ultimately show ?thesis using dedent by (auto simp: list_all_iff)
qed

text \<open>
  Where a page and a section stand in the tree: the value of the first entry of a key, and the first item of a
  sequence that is named.
\<close>

definition key_entry :: "ynode \<Rightarrow> gostring \<Rightarrow> ynode \<Rightarrow> ynode \<Rightarrow> bool" where
  "key_entry m key k v =
     (y_kind m = MappingKind \<and>
      (\<exists>i. 2 * i + 1 < length (y_content m) \<and> y_content m ! (2 * i) = k \<and> y_content m ! (2 * i + 1) = v \<and> y_value k = key \<and>
         (\<forall>j < i. y_value (y_content m ! (2 * j)) \<noteq> key)))"

definition named_by :: "gostring \<Rightarrow> gostring \<Rightarrow> ynode \<Rightarrow> bool" where
  "named_by key name n = (\<exists>k v. key_entry n key k v \<and> TrimSpace (y_value v) = name)"

definition first_named :: "gostring \<Rightarrow> gostring \<Rightarrow> ynode list \<Rightarrow> ynode \<Rightarrow> bool" where
  "first_named key name ns n =
     (\<exists>i < length ns. ns ! i = n \<and> named_by key name n \<and> (\<forall>j < i. \<not> named_by key name (ns ! j)))"

definition page_at :: "document \<Rightarrow> page_ref \<Rightarrow> ynode \<Rightarrow> bool" where
  "page_at d ref n =
     (if pr_parent ref then \<exists>k. key_entry (doc_root d) ''parent'' k n
      else \<exists>k cs. key_entry (doc_root d) ''children'' k cs \<and> y_kind cs = SequenceKind \<and>
             first_named ''page'' (pr_page ref) (y_content cs) n)"

definition section_at :: "document \<Rightarrow> page_ref \<Rightarrow> gostring \<Rightarrow> ynode \<Rightarrow> bool" where
  "section_at d ref title n =
     (\<exists>page k secs. page_at d ref page \<and> key_entry page ''sections'' k secs \<and> y_kind secs = SequenceKind \<and>
        first_named ''title'' title (y_content secs) n)"

lemma entry_in_nth:
  "entry_in ns key = Some (k, v) \<Longrightarrow>
     \<exists>i. 2 * i + 1 < length ns \<and> ns ! (2 * i) = k \<and> ns ! (2 * i + 1) = v \<and> y_value k = key \<and> (\<forall>j < i. y_value (ns ! (2 * j)) \<noteq> key)"
proof (induction ns key rule: entry_in.induct)
  case (1 k' v' ns key)
  show ?case
  proof (cases "y_value k' = key")
    case True
    with 1(2) show ?thesis by (intro exI [of _ 0]) simp
  next
    case False
    with 1 obtain i where "2 * i + 1 < length ns" "ns ! (2 * i) = k" "ns ! (2 * i + 1) = v" "y_value k = key"
      "\<forall>j < i. y_value (ns ! (2 * j)) \<noteq> key" by auto
    with False show ?thesis by (intro exI [of _ "Suc i"]) (auto simp: less_Suc_eq_0_disj)
  qed
qed simp_all

lemma entry_in_None: "entry_in ns key = None \<Longrightarrow> 2 * i + 1 < length ns \<Longrightarrow> y_value (ns ! (2 * i)) \<noteq> key"
proof (induction ns key arbitrary: i rule: entry_in.induct)
  case (1 k v ns key)
  then show ?case by (cases i) (auto split: if_splits)
qed simp_all

lemma mapEntry_key: "mapEntry (Some m) key = Some (k, v) \<longleftrightarrow> key_entry m key k v"
proof
  show "mapEntry (Some m) key = Some (k, v) \<Longrightarrow> key_entry m key k v"
    using entry_in_nth by (auto simp: mapEntry_def key_entry_def split: if_splits)
  assume key: "key_entry m key k v"
  then obtain i where i: "2 * i + 1 < length (y_content m)" "y_content m ! (2 * i) = k" "y_content m ! (2 * i + 1) = v" "y_value k = key"
    "\<forall>j < i. y_value (y_content m ! (2 * j)) \<noteq> key" "y_kind m = MappingKind" unfolding key_entry_def by blast
  obtain k' v' where e: "entry_in (y_content m) key = Some (k', v')"
    using entry_in_None [of "y_content m" key i] i(1,2,4) by fastforce
  from entry_in_nth [OF e] obtain j where j: "2 * j + 1 < length (y_content m)" "y_content m ! (2 * j) = k'" "y_content m ! (2 * j + 1) = v'"
    "y_value k' = key" "\<forall>i < j. y_value (y_content m ! (2 * i)) \<noteq> key" by blast
  have "j = i" using i j by (metis linorder_neqE_nat)
  with e i j show "mapEntry (Some m) key = Some (k, v)" by (simp add: mapEntry_def)
qed

lemma mapVal_key: "mapVal (Some m) key = Some v \<longleftrightarrow> (\<exists>k. key_entry m key k v)"
  using mapEntry_key by (auto simp: mapVal_def)

lemma titled_first: "titled key name ns = Some n \<Longrightarrow> first_named key name ns n"
proof -
  have "(case mapVal (Some m) key of None \<Rightarrow> False | Some v \<Rightarrow> TrimSpace (y_value v) = name) = named_by key name m" for m
  proof (cases "mapVal (Some m) key")
    case None
    with mapVal_key [of m key] show ?thesis by (auto simp: named_by_def)
  next
    case (Some a)
    with mapVal_key [of m key] have "a = v \<longleftrightarrow> (\<exists>k. key_entry m key k v)" for v by simp
    then have "(\<exists>k v. key_entry m key k v \<and> Q v) \<longleftrightarrow> Q a" for Q by metis
    then have "named_by key name m \<longleftrightarrow> TrimSpace (y_value a) = name" unfolding named_by_def .
    with Some show ?thesis by simp
  qed
  then show "titled key name ns = Some n \<Longrightarrow> first_named key name ns n"
    by (auto simp: titled_def first_named_def find_Some_iff)
qed

lemma pageNode_at: "pageNode d ref = Inr n \<Longrightarrow> page_at d ref n"
  using titled_first
  by (fastforce simp: pageNode_def page_at_def mapVal_key split: if_splits option.splits)

lemma sectionNode_at: "sectionNode d ref title = Inr n \<Longrightarrow> section_at d ref title n"
proof -
  assume "sectionNode d ref title = Inr n"
  then obtain page secs where "pageNode d ref = Inr page" "mapVal (Some page) ''sections'' = Some secs" "y_kind secs = SequenceKind"
    "titled ''title'' title (y_content secs) = Some n"
    by (auto simp: sectionNode_def split: sum.splits option.splits if_splits)
  with pageNode_at titled_first mapVal_key show ?thesis unfolding section_at_def by blast
qed

text \<open>
  \<open>intent_edited m intent d src'\<close>: the text \<open>src'\<close> is that of \<open>d\<close> with the lines of the entry \<open>intent\<close> of \<open>m\<close>
  replaced.  They begin with the line of the value; the others are blank or deeper than the key, and what
  follows them is not.  The new lines stand in the column of the key.
\<close>

definition intent_edited :: "ynode \<Rightarrow> gostring \<Rightarrow> document \<Rightarrow> gostring \<Rightarrow> bool" where
  "intent_edited m intent d src' =
     (\<exists>kNode vNode pre old post. key_entry m ''intent'' kNode vNode \<and>
        Split NL (doc_src d) = pre @ old @ post \<and> length pre = y_line vNode - 1 \<and>
        src' = Join [NL] (pre @ intent_lines (y_column kNode - 1) intent @ post) \<and>
        list_all (\<lambda>l. blank_line l \<or> y_column kNode - 1 < indentOf l) (tl old) \<and>
        (case filter (\<lambda>l. \<not> blank_line l) post of [] \<Rightarrow> True | l # _ \<Rightarrow> indentOf l \<le> y_column kNode - 1))"

lemma setIntent_edited:
  assumes "setIntent yaml m desc intent d = (r, d')"
  shows "r \<noteq> None \<and> doc_src d' = doc_src d \<or> intent_edited m (TrimSpace intent) d (doc_src d')"
proof (cases "mapEntry (Some m) ''intent''")
  case (Some kv)
  obtain kNode vNode where kv: "kv = (kNode, vNode)" by fastforce
  let ?ls = "Split NL (doc_src d)"
  obtain s e where se: "valueLineSpan ?ls m ''intent'' = Some (s, e)" and s: "s = y_line vNode - 1"
    using Some kv by (auto simp: valueLineSpan_def Let_def)
  let ?new = "intent_lines (y_column kNode - 1) (TrimSpace intent)"
  have "splice_lines yaml s e ?new d = (r, d')" using assms Some kv se by (simp add: setIntent_def)
  from splice_src [OF this] show ?thesis
  proof (elim disjE conjE)
    assume b: "s \<le> e" "e \<le> length ?ls" and new: "doc_src d' = Join [NL] (take s ?ls @ ?new @ drop e ?ls)"
    have "?ls = take s ?ls @ take (e - s) (drop s ?ls) @ drop e ?ls"
      using b(1) by (metis append_take_drop_id drop_drop le_add_diff_inverse2)
    moreover have "length (take s ?ls) = y_line vNode - 1" using b s by simp
    moreover have "key_entry m ''intent'' kNode vNode" using Some kv mapEntry_key by simp
    ultimately have "intent_edited m (TrimSpace intent) d (doc_src d')"
      using new value_span [OF se b Some [unfolded kv]] unfolding intent_edited_def by blast
    then show ?thesis ..
  qed simp
qed (use assms in \<open>auto simp: setIntent_def\<close>)

text \<open>
  C15. Setting an intent replaces the lines of the intent of the page or section that is asked for, and nothing
  else: either the edit fails and the text stays as it is, or the page is in the tree, is the parent or the first child of
  that title (the section is the first of its title on that page), and the lines of its entry \<open>intent\<close>, which
  end where the indentation returns to that of the key, give way to the new intent, and every line
  before and after them is kept.
\<close>

theorem intent_edit_contained:
  "(case SetPageIntent yaml ref intent d of
      (r, d') \<Rightarrow> r \<noteq> None \<and> doc_src d' = doc_src d \<or>
        (\<exists>page. page_at d ref page \<and> intent_edited page (TrimSpace intent) d (doc_src d'))) \<and>
   (case SetSectionIntent yaml ref title intent d of
      (r, d') \<Rightarrow> r \<noteq> None \<and> doc_src d' = doc_src d \<or>
        (\<exists>sec. section_at d ref title sec \<and> intent_edited sec (TrimSpace intent) d (doc_src d')))"
proof -
  have *: "case setIntent yaml m desc intent d of (r, d') \<Rightarrow> r \<noteq> None \<and> doc_src d' = doc_src d \<or>
      intent_edited m (TrimSpace intent) d (doc_src d')" for m desc
    using setIntent_edited by (cases "setIntent yaml m desc intent d") auto
  show ?thesis
  proof
    show "case SetPageIntent yaml ref intent d of (r, d') \<Rightarrow> r \<noteq> None \<and> doc_src d' = doc_src d \<or>
        (\<exists>page. page_at d ref page \<and> intent_edited page (TrimSpace intent) d (doc_src d'))"
    proof (cases "pageNode d ref")
      case (Inr page)
      with * [of page "ref_String ref"] pageNode_at [OF Inr] show ?thesis by (auto simp: SetPageIntent_def)
    qed (simp add: SetPageIntent_def)
    show "case SetSectionIntent yaml ref title intent d of (r, d') \<Rightarrow> r \<noteq> None \<and> doc_src d' = doc_src d \<or>
        (\<exists>sec. section_at d ref title sec \<and> intent_edited sec (TrimSpace intent) d (doc_src d'))"
    proof (cases "sectionNode d ref title")
      case (Inr sec)
      with * [of sec "wrapf ''%s section %q'' [title] (ref_String ref)"] sectionNode_at [OF Inr] show ?thesis
        by (auto simp: SetSectionIntent_def)
    qed (simp add: SetSectionIntent_def)
  qed
qed

text \<open>The section lists the source.\<close>

definition has_source :: "document \<Rightarrow> page_ref \<Rightarrow> gostring \<Rightarrow> gostring \<Rightarrow> bool" where
  "has_source d ref title source =
     (case sectionNode d ref title of
        Inl e \<Rightarrow> False
      | Inr sec \<Rightarrow> (case mapVal (Some sec) ''sources'' of
                     None \<Rightarrow> False | Some items \<Rightarrow> source \<in> y_value ` set (y_content items)))"

lemma AddSectionSource_cases:
  assumes "AddSectionSource yaml ref title source d = (r, d')"
  shows "(r \<noteq> None \<or> has_source d ref title source) \<and> doc_src d' = doc_src d \<or>
    (\<exists>items. add_flow_source yaml items source d = (r, d')) \<or>
    (\<exists>items. add_block_source yaml items source d = (r, d'))"
proof (cases "sectionNode d ref title")
  case (Inr sec)
  show ?thesis
  proof (cases "mapVal (Some sec) ''sources''")
    case (Some items)
    with Inr assms show ?thesis
      by (cases "y_kind items \<noteq> SequenceKind"; cases "list_ex (\<lambda>e. y_value e = source) (y_content items)"; cases "y_flow items")
         (auto simp: AddSectionSource_def has_source_def list_ex_iff Let_def)
  qed (use Inr assms in \<open>auto simp: AddSectionSource_def Let_def\<close>)
qed (use assms in \<open>auto simp: AddSectionSource_def\<close>)

text \<open>
  Adding a source changes at most one line: the text stays as it is, when the edit fails or the
  section has the source, or one line with the quoted
  source is put between two lines, or in one line it is put before the last bracket.
\<close>

theorem add_source_surgical:
  "case AddSectionSource yaml ref title source d of
     (r, d') \<Rightarrow>
       (case r of Some e \<Rightarrow> True | None \<Rightarrow> has_source d ref title source) \<and> doc_src d' = doc_src d \<or>
       (\<exists>pre n post. Split NL (doc_src d) = pre @ post \<and>
          doc_src d' = Join [NL] (pre @ [replicate n (CHR '' '') @ ''- '' @ [QUOT] @ source @ [QUOT]] @ post)) \<or>
       (\<exists>pre a b post. Split NL (doc_src d) = pre @ [a @ '']'' @ b] @ post \<and> CHR '']'' \<notin> set b \<and>
          doc_src d' = Join [NL] (pre @ [a @ '', '' @ [QUOT] @ source @ [QUOT] @ '']'' @ b] @ post))"
proof -
  obtain r d' where run: "AddSectionSource yaml ref title source d = (r, d')" by fastforce
  let ?ls = "Split NL (doc_src d)"
  have block: "r \<noteq> None \<and> doc_src d' = doc_src d \<or>
      (\<exists>pre n post. ?ls = pre @ post \<and>
        doc_src d' = Join [NL] (pre @ [replicate n (CHR '' '') @ ''- '' @ [QUOT] @ source @ [QUOT]] @ post))"
    if "add_block_source yaml items source d = (r, d')" for items
  proof (cases "y_content items = [] \<or> y_column (last (y_content items)) < 3")
    case False
    let ?at = "y_line (last (y_content items))"
    let ?new = "replicate (y_column (last (y_content items)) - 3) (CHR '' '') @ ''- '' @ [QUOT] @ source @ [QUOT]"
    from that False have "splice_lines yaml ?at ?at [?new] d = (r, d')"
      by (simp add: add_block_source_def Let_def quoted_source_def)
    from splice_src [OF this] show ?thesis by (metis append_take_drop_id)
  qed (use that in \<open>cases "y_content items = []"; auto simp: add_block_source_def Let_def\<close>)
  have flow: "r \<noteq> None \<and> doc_src d' = doc_src d \<or>
      (\<exists>pre a b post. ?ls = pre @ [a @ '']'' @ b] @ post \<and> CHR '']'' \<notin> set b \<and>
        doc_src d' = Join [NL] (pre @ [a @ '', '' @ [QUOT] @ source @ [QUOT] @ '']'' @ b] @ post))"
    if "add_flow_source yaml items source d = (r, d')" for items
  proof (cases "y_line items - 1 < length ?ls")
    case True
    let ?li = "y_line items - 1"
    let ?l = "?ls ! ?li"
    show ?thesis
    proof (cases "LastIndexByte ?l (CHR '']'')")
      case (Some i)
      let ?a = "take i ?l" and ?b = "drop (Suc i) ?l"
      from LastIndexByte_split [OF Some] have l: "?l = ?a @ '']'' @ ?b" "CHR '']'' \<notin> set ?b" "drop i ?l = '']'' @ ?b"
        by (auto simp: Cons_nth_drop_Suc [symmetric] nth_append dest: arg_cong [of _ _ "drop i"])
      from that True Some l(3) have "splice_lines yaml ?li (?li + 1) [?a @ '', '' @ [QUOT] @ source @ [QUOT] @ '']'' @ ?b] d = (r, d')"
        by (simp add: add_flow_source_def Let_def quoted_source_def)
      from splice_src [OF this] show ?thesis
      proof (elim disjE conjE)
        assume new: "doc_src d' = Join [NL] (take ?li ?ls @ [?a @ '', '' @ [QUOT] @ source @ [QUOT] @ '']'' @ ?b] @ drop (?li + 1) ?ls)"
        have "?ls = take ?li ?ls @ [?a @ '']'' @ ?b] @ drop (?li + 1) ?ls"
          using id_take_nth_drop [OF True] l(1) by simp
        with new l(2) show ?thesis by blast
      qed simp
    qed (use that True in \<open>auto simp: add_flow_source_def Let_def\<close>)
  qed (use that in \<open>auto simp: add_flow_source_def Let_def\<close>)
  have done_or_known: "(case r of Some e \<Rightarrow> True | None \<Rightarrow> has_source d ref title source) =
      (r \<noteq> None \<or> has_source d ref title source)"
    by (cases r) auto
  from AddSectionSource_cases [OF run] block flow show ?thesis unfolding run prod.case done_or_known by blast
qed

section \<open>Lists that the edits break\<close>

text \<open>
  A cluster whose parent page has one section, titled A, with a list of sources on the lines from the
  fourth on: its text and the tree a YAML parser builds from it.
\<close>

definition sources_text :: "gostring list \<Rightarrow> gostring" where
  "sources_text ls =
     Join [NL] ([''parent:'', ''  sections:'', ''    - title: A''] @ map (\<lambda>l. ''      '' @ l) ls)"

definition sources_tree :: "ynode \<Rightarrow> ynode" where
  "sources_tree items =
     YNode DocumentKind [] 1 1 False [YNode MappingKind [] 1 1 False
       [YNode ScalarKind ''parent'' 1 1 False [],
        YNode MappingKind [] 2 3 False
          [YNode ScalarKind ''sections'' 2 3 False [],
           YNode SequenceKind [] 3 5 False
             [YNode MappingKind [] 3 7 False
                [YNode ScalarKind ''title'' 3 7 False [], YNode ScalarKind ''A'' 3 14 False [],
                 YNode ScalarKind ''sources'' 4 7 False [], items]]]]]"

abbreviation parent_page :: page_ref where "parent_page \<equiv> \<lparr>pr_parent = True, pr_page = []\<rparr>"

text \<open>An empty flow list gets an item after nothing, which is not YAML.\<close>

lemma empty_flow_list_broken:
  "doc_src (snd (AddSectionSource yaml parent_page ''A'' ''kb:x''
      \<lparr>doc_src = sources_text [''sources: []''], doc_node = sources_tree (YNode SequenceKind [] 4 16 True [])\<rparr>)) =
    sources_text [''sources: [, '' @ [QUOT] @ ''kb:x'' @ [QUOT] @ '']'']" if "yaml = (\<lambda>t. Inr (sources_tree n))"
  unfolding that by code_simp

text \<open>
  A block list whose dashes stand below the first letter of its key, as YAML allows, is taken to end
  after its first item: the others are left below the new list.
\<close>

lemma undented_list_left_behind:
  "doc_src (snd (SetSectionSources yaml parent_page ''A'' [''kb:c'']
      \<lparr>doc_src = sources_text [''sources:'', ''- kb:a'', ''- kb:b''],
       doc_node = sources_tree (YNode SequenceKind [] 5 7 False
         [YNode ScalarKind ''kb:a'' 5 9 False [], YNode ScalarKind ''kb:b'' 6 9 False []])\<rparr>)) =
    sources_text [''sources:'', ''  - '' @ [QUOT] @ ''kb:c'' @ [QUOT], ''- kb:b'']" if "yaml = (\<lambda>t. Inr (sources_tree n))"
  unfolding that by code_simp

end
