(* ===== verification/LineDiff.thy ===== *)
theory LineDiff
  imports Prelude
begin

text \<open>
  The line diff that the curator API answers an edit with (unifiedish and splitLines of
  internal/adapters/curatorapi/curatorapi.go): a table of the lengths of longest common
  subsequences, filled from the ends, and a walk through it.
\<close>

section \<open>Lines\<close>

text \<open>\<open>acc\<close> is the line that has been read so far, reversed.\<close>

fun split_lines_from :: "gostring \<Rightarrow> gostring \<Rightarrow> gostring list" where
  "split_lines_from acc [] = (if acc = [] then [] else [rev acc])"
| "split_lines_from acc (c # cs) =
     (if c = NL then rev acc # split_lines_from [] cs else split_lines_from (c # acc) cs)"

definition splitLines :: "gostring \<Rightarrow> gostring list" where
  "splitLines s = split_lines_from [] s"

section \<open>The table\<close>

text \<open>The row of one line of the old text, of the row below it.\<close>

fun lcs_row :: "gostring \<Rightarrow> gostring list \<Rightarrow> nat list \<Rightarrow> nat list" where
  "lcs_row a (b # bs) (below # diagonal # row) =
     (let rest = lcs_row a bs (diagonal # row) in
      (if a = b then diagonal + 1 else if below \<ge> hd rest then below else hd rest) # rest)"
| "lcs_row a bs row = [0]"

fun lcs_table :: "gostring list \<Rightarrow> gostring list \<Rightarrow> nat list list" where
  "lcs_table [] bl = [replicate (Suc (length bl)) 0]"
| "lcs_table (a # al) bl = (let t = lcs_table al bl in lcs_row a bl (hd t) # t)"

section \<open>The walk\<close>

datatype diff_line = Same gostring | Removed gostring | Added gostring

function diff_walk :: "gostring list \<Rightarrow> gostring list \<Rightarrow> nat list list \<Rightarrow> nat \<Rightarrow> nat \<Rightarrow> diff_line list" where
  "diff_walk al bl lcs i j =
     (if i < length al \<and> j < length bl then
        (if al ! i = bl ! j then Same (al ! i) # diff_walk al bl lcs (i + 1) (j + 1)
         else if lcs ! (i + 1) ! j \<ge> lcs ! i ! (j + 1) then Removed (al ! i) # diff_walk al bl lcs (i + 1) j
         else Added (bl ! j) # diff_walk al bl lcs i (j + 1))
      else map Removed (drop i al) @ map Added (drop j bl))"
  by pat_completeness auto
termination
  by (relation "measure (\<lambda>(al, bl, lcs, i, j). (length al - i) + (length bl - j))") auto

declare diff_walk.simps [simp del]

fun diff_line_text :: "diff_line \<Rightarrow> gostring" where
  "diff_line_text (Same l) = ''  '' @ l @ [NL]"
| "diff_line_text (Removed l) = ''- '' @ l @ [NL]"
| "diff_line_text (Added l) = ''+ '' @ l @ [NL]"

definition unifiedish :: "gostring \<Rightarrow> gostring \<Rightarrow> gostring" where
  "unifiedish a b =
     (let al = splitLines a; bl = splitLines b in
      concat (map diff_line_text (diff_walk al bl (lcs_table al bl) 0 0)))"

section \<open>The table holds the lengths of longest common subsequences\<close>

fun lcs_length :: "'a list \<Rightarrow> 'a list \<Rightarrow> nat" where
  "lcs_length (a # al) (b # bl) =
     (if a = b then Suc (lcs_length al bl) else max (lcs_length al (b # bl)) (lcs_length (a # al) bl))"
| "lcs_length al bl = 0"

lemma lcs_length_Nil [simp]: "lcs_length al [] = 0"
  by (cases al) auto

lemma lcs_length_bound: "subseq xs al \<Longrightarrow> subseq xs bl \<Longrightarrow> length xs \<le> lcs_length al bl"
proof (induction al bl arbitrary: xs rule: lcs_length.induct)
  case step: (1 a al b bl)
  show ?case
  proof (cases xs)
    case (Cons x ys)
    consider "a = b" "x = a" | "a = b" "x \<noteq> a" | "a \<noteq> b" "x \<noteq> a" | "a \<noteq> b" "x = a" by blast
    then show ?thesis
    proof cases
      case 1
      with Cons step.prems step.IH(1) [of ys] show ?thesis by simp
    next
      case 2
      with Cons step.prems have "subseq xs al" "subseq xs bl" by simp_all
      with 2 step.IH(1) [of xs] show ?thesis by simp
    next
      case 3
      with Cons step.prems have "subseq xs al" by simp
      with 3 step.prems step.IH(2) [of xs] show ?thesis by simp
    next
      case 4
      with Cons step.prems have "subseq xs bl" by simp
      with 4 step.prems step.IH(3) [of xs] show ?thesis by simp
    qed
  qed simp
qed auto

lemma lcs_row_table:
  "row = map (\<lambda>j. lcs_length al (drop j bl)) [0..<Suc (length bl)] \<Longrightarrow>
     lcs_row a bl row = map (\<lambda>j. lcs_length (a # al) (drop j bl)) [0..<Suc (length bl)]"
proof (induction bl arbitrary: row)
  case Nil
  then show ?case by simp
next
  case (Cons b bl)
  have split: "[0..<Suc (length (b # bl))] = 0 # map Suc [0..<Suc (length bl)]"
    by (simp add: map_Suc_upt upt_conv_Cons del: upt_Suc)
  let ?row = "map (\<lambda>j. lcs_length al (drop j bl)) [0..<Suc (length bl)]"
  have row: "row = lcs_length al (b # bl) # ?row"
    using Cons.prems unfolding split by (simp add: comp_def)
  have "?row = lcs_length al bl # map (\<lambda>j. lcs_length al (drop j bl)) [1..<Suc (length bl)]"
    by (simp add: upt_conv_Cons del: upt_Suc)
  then obtain t where t: "?row = lcs_length al bl # t" ..
  have "lcs_row a bl ?row = map (\<lambda>j. lcs_length (a # al) (drop j bl)) [0..<Suc (length bl)]"
    by (rule Cons.IH) simp
  then have rest: "lcs_row a bl (lcs_length al bl # t) =
      map (\<lambda>j. lcs_length (a # al) (drop j bl)) [0..<Suc (length bl)]" by (simp only: t)
  have hd: "hd (map (\<lambda>j. lcs_length (a # al) (drop j bl)) [0..<Suc (length bl)]) = lcs_length (a # al) bl"
    by (simp add: upt_conv_Cons del: upt_Suc)
  show ?case
    unfolding row t split by (simp add: rest hd Let_def comp_def max_def del: upt_Suc)
qed

lemma lcs_table_hd:
  "hd (lcs_table al bl) = map (\<lambda>j. lcs_length al (drop j bl)) [0..<Suc (length bl)]"
proof (induction al)
  case Nil
  show ?case by (simp add: map_replicate_const del: replicate.simps upt_Suc)
next
  case (Cons a al)
  show ?case by (simp add: Let_def lcs_row_table [OF Cons.IH] del: upt_Suc)
qed

lemma lcs_table_drop: "i \<le> length al \<Longrightarrow> drop i (lcs_table al bl) = lcs_table (drop i al) bl"
proof (induction al arbitrary: i)
  case (Cons a al)
  then show ?case by (cases i) (auto simp: Let_def)
qed simp

lemma lcs_table_nth:
  assumes "i \<le> length al" and "j \<le> length bl"
  shows "lcs_table al bl ! i ! j = lcs_length (drop i al) (drop j bl)"
proof -
  have len: "length (lcs_table al bl) = Suc (length al)" for al by (induction al) (auto simp: Let_def)
  have "lcs_table al bl ! i = hd (drop i (lcs_table al bl))"
    using assms(1) len [of al] by (simp add: hd_drop_conv_nth)
  also have "\<dots> = map (\<lambda>j. lcs_length (drop i al) (drop j bl)) [0..<Suc (length bl)]"
    using assms(1) by (simp add: lcs_table_drop lcs_table_hd)
  finally show ?thesis using assms(2) by (simp del: upt_Suc)
qed

section \<open>What the walk yields\<close>

fun old_line :: "diff_line \<Rightarrow> gostring list" where
  "old_line (Added l) = []" | "old_line (Same l) = [l]" | "old_line (Removed l) = [l]"

fun new_line :: "diff_line \<Rightarrow> gostring list" where
  "new_line (Removed l) = []" | "new_line (Same l) = [l]" | "new_line (Added l) = [l]"

fun same_line :: "diff_line \<Rightarrow> gostring list" where
  "same_line (Same l) = [l]" | "same_line (Removed l) = []" | "same_line (Added l) = []"

lemma old_lines_const [simp]: "concat (map (old_line \<circ> Removed) xs) = xs" "concat (map (old_line \<circ> Added) xs) = []"
  by (induction xs) auto

lemma new_lines_const [simp]: "concat (map (new_line \<circ> Removed) xs) = []" "concat (map (new_line \<circ> Added) xs) = xs"
  by (induction xs) auto

lemma same_lines_const [simp]: "concat (map (same_line \<circ> Removed) xs) = []" "concat (map (same_line \<circ> Added) xs) = []"
  by (induction xs) auto

lemma diff_walk_step:
  assumes "i < length al \<and> j < length bl"
  shows "diff_walk al bl t i j =
    (if al ! i = bl ! j then Same (al ! i) # diff_walk al bl t (i + 1) (j + 1)
     else if t ! (i + 1) ! j \<ge> t ! i ! (j + 1) then Removed (al ! i) # diff_walk al bl t (i + 1) j
     else Added (bl ! j) # diff_walk al bl t i (j + 1))"
  by (subst diff_walk.simps, rule if_P [OF assms])

lemma diff_walk_end:
  assumes "\<not> (i < length al \<and> j < length bl)"
  shows "diff_walk al bl t i j = map Removed (drop i al) @ map Added (drop j bl)"
  by (subst diff_walk.simps, rule if_not_P [OF assms])

lemma diff_walk_sides:
  assumes "i \<le> length al" and "j \<le> length bl"
  shows "concat (map old_line (diff_walk al bl t i j)) = drop i al \<and>
     concat (map new_line (diff_walk al bl t i j)) = drop j bl"
  using assms
proof (induction al bl t i j rule: diff_walk.induct)
  case (1 al bl t i j)
  show ?case
  proof (cases "i < length al \<and> j < length bl")
    case True
    then have d: "drop i al = al ! i # drop (Suc i) al" "drop j bl = bl ! j # drop (Suc j) bl"
      by (simp_all add: Cons_nth_drop_Suc)
    show ?thesis using True 1 d unfolding diff_walk_step [OF True] by auto
  next
    case False
    show ?thesis unfolding diff_walk_end [OF False] by simp
  qed
qed

lemma diff_walk_common:
  assumes "i \<le> length al" and "j \<le> length bl" and "t = lcs_table al bl"
  shows "length (concat (map same_line (diff_walk al bl t i j))) = lcs_length (drop i al) (drop j bl)"
  using assms
proof (induction al bl t i j rule: diff_walk.induct)
  case (1 al bl t i j)
  show ?case
  proof (cases "i < length al \<and> j < length bl")
    case True
    then have d: "drop i al = al ! i # drop (Suc i) al" "drop j bl = bl ! j # drop (Suc j) bl"
      by (simp_all add: Cons_nth_drop_Suc)
    have t: "t ! (i + 1) ! j = lcs_length (drop (Suc i) al) (drop j bl)"
      "t ! i ! (j + 1) = lcs_length (drop i al) (drop (Suc j) bl)"
      using True 1(6) by (simp_all add: lcs_table_nth)
    show ?thesis
      using True 1 t d unfolding diff_walk_step [OF True] by (auto simp: max_def)
  next
    case False
    then have "drop i al = [] \<or> drop j bl = []" by auto
    then show ?thesis unfolding diff_walk_end [OF False] by auto
  qed
qed

lemma same_line_sides: "subseq (concat (map same_line ds)) (concat (map old_line ds))"
  "subseq (concat (map same_line ds)) (concat (map new_line ds))"
proof -
  have "subseq (same_line d) (old_line d) \<and> subseq (same_line d) (new_line d)" for d by (cases d) auto
  then show "subseq (concat (map same_line ds)) (concat (map old_line ds))"
    "subseq (concat (map same_line ds)) (concat (map new_line ds))"
    by (induction ds) (auto intro: list_emb_append_mono)
qed

section \<open>Reading a diff\<close>

definition marked_lines :: "gostring list \<Rightarrow> gostring \<Rightarrow> gostring list" where
  "marked_lines marks t = map (drop 2) (filter (\<lambda>l. take 2 l \<in> set marks) (splitLines t))"

lemma split_lines_no_NL:
  "NL \<notin> set acc \<Longrightarrow> l \<in> set (split_lines_from acc s) \<Longrightarrow> NL \<notin> set l"
  by (induction acc s rule: split_lines_from.induct) (auto split: if_splits)

lemma split_lines_line:
  "NL \<notin> set l \<Longrightarrow> split_lines_from acc (l @ NL # s) = (rev acc @ l) # split_lines_from [] s"
  by (induction l arbitrary: acc) auto

lemma split_diff_text:
  "list_all (\<lambda>d. NL \<notin> set (butlast (diff_line_text d))) ds \<Longrightarrow>
     splitLines (concat (map diff_line_text ds)) = map (\<lambda>d. butlast (diff_line_text d)) ds"
proof (induction ds)
  case (Cons d ds)
  have "diff_line_text d = butlast (diff_line_text d) @ [NL]" by (cases d) simp_all
  with Cons show ?case
    using split_lines_line [of "butlast (diff_line_text d)" "[]" "concat (map diff_line_text ds)"]
    by (simp add: splitLines_def) (metis append.assoc append_Cons append_Nil)
qed (simp add: splitLines_def)

lemma diff_walk_lines:
  "d \<in> set (diff_walk al bl t i j) \<Longrightarrow> set (old_line d @ new_line d) \<subseteq> set al \<union> set bl"
proof (induction al bl t i j rule: diff_walk.induct)
  case (1 al bl t i j)
  show ?case
  proof (cases "i < length al \<and> j < length bl")
    case True
    with 1 show ?thesis unfolding diff_walk_step [OF True] by (auto split: if_splits)
  next
    case False
    with 1(4) show ?thesis unfolding diff_walk_end [OF False] by (auto dest: in_set_dropD)
  qed
qed

lemma marked_diff:
  assumes "list_all (\<lambda>d. NL \<notin> set (butlast (diff_line_text d))) ds"
  shows "marked_lines [''  '', ''- ''] (concat (map diff_line_text ds)) = concat (map old_line ds)"
    "marked_lines [''  '', ''+ ''] (concat (map diff_line_text ds)) = concat (map new_line ds)"
    "marked_lines [''  ''] (concat (map diff_line_text ds)) = concat (map same_line ds)"
proof -
  have take: "take 2 (butlast (diff_line_text d)) = (case d of Same l \<Rightarrow> ''  '' | Removed l \<Rightarrow> ''- '' | Added l \<Rightarrow> ''+ '')"
    "drop 2 (butlast (diff_line_text d)) = (case d of Same l \<Rightarrow> l | Removed l \<Rightarrow> l | Added l \<Rightarrow> l)" for d
    by (cases d; simp add: butlast_append)+
  have "map (drop 2) (filter (\<lambda>l. take 2 l \<in> set marks) (map (\<lambda>d. butlast (diff_line_text d)) ds)) =
      concat (map (\<lambda>d. if take 2 (butlast (diff_line_text d)) \<in> set marks
                       then [case d of Same l \<Rightarrow> l | Removed l \<Rightarrow> l | Added l \<Rightarrow> l] else []) ds)" for marks
    by (induction ds) (simp_all add: take(2))
  then have marked: "marked_lines marks (concat (map diff_line_text ds)) =
      concat (map (\<lambda>d. if take 2 (butlast (diff_line_text d)) \<in> set marks
                       then [case d of Same l \<Rightarrow> l | Removed l \<Rightarrow> l | Added l \<Rightarrow> l] else []) ds)" for marks
    by (simp add: marked_lines_def split_diff_text [OF assms])
  have sides: "(if take 2 (butlast (diff_line_text d)) \<in> set [''  '', ''- ''] then [case d of Same l \<Rightarrow> l | Removed l \<Rightarrow> l | Added l \<Rightarrow> l] else []) = old_line d"
    "(if take 2 (butlast (diff_line_text d)) \<in> set [''  '', ''+ ''] then [case d of Same l \<Rightarrow> l | Removed l \<Rightarrow> l | Added l \<Rightarrow> l] else []) = new_line d"
    "(if take 2 (butlast (diff_line_text d)) \<in> set [''  ''] then [case d of Same l \<Rightarrow> l | Removed l \<Rightarrow> l | Added l \<Rightarrow> l] else []) = same_line d" for d
    unfolding take by (cases d; simp)+
  show "marked_lines [''  '', ''- ''] (concat (map diff_line_text ds)) = concat (map old_line ds)"
    "marked_lines [''  '', ''+ ''] (concat (map diff_line_text ds)) = concat (map new_line ds)"
    "marked_lines [''  ''] (concat (map diff_line_text ds)) = concat (map same_line ds)"
    unfolding marked sides by simp_all
qed

text \<open>
  C35. A diff shows exactly the edit, and no more of it than needed: its unmarked and removed lines are
  the lines of the old text, its unmarked and added lines those of the new one, and no common
  subsequence of the two is longer than what it leaves unmarked.
\<close>

theorem diff_exact_and_minimal:
  "marked_lines [''  '', ''- ''] (unifiedish a b) = splitLines a \<and>
   marked_lines [''  '', ''+ ''] (unifiedish a b) = splitLines b \<and>
   (\<nexists>xs. subseq xs (splitLines a) \<and> subseq xs (splitLines b) \<and>
      length (marked_lines [''  ''] (unifiedish a b)) < length xs)"
proof -
  let ?al = "splitLines a" and ?bl = "splitLines b"
  let ?ds = "diff_walk ?al ?bl (lcs_table ?al ?bl) 0 0"
  have lines: "NL \<notin> set l" if "l \<in> set ?al \<union> set ?bl" for l
    using that split_lines_no_NL [of "[]" l] by (auto simp: splitLines_def)
  have "NL \<notin> set (butlast (diff_line_text d))" if "d \<in> set ?ds" for d
    using diff_walk_lines [OF that] lines by (cases d) (auto simp: butlast_append)
  then have ok: "list_all (\<lambda>d. NL \<notin> set (butlast (diff_line_text d))) ?ds" by (simp add: list_all_iff)
  have "length xs \<le> length (concat (map same_line ?ds))" if "subseq xs ?al" "subseq xs ?bl" for xs
    using lcs_length_bound [OF that] diff_walk_common [of 0 ?al 0 ?bl] by simp
  then show ?thesis
    unfolding unifiedish_def Let_def marked_diff [OF ok]
    using diff_walk_sides [of 0 ?al 0 ?bl "lcs_table ?al ?bl"] by (auto simp: not_less)
qed

lemma splitLines_forgets_last_newline: "splitLines (''a'' @ [NL]) = splitLines ''a'' \<and> unifiedish ''a'' (''a'' @ [NL]) = ''  a'' @ [NL]"
  by code_simp

end
