(* ===== verification/CuratorApi.thy ===== *)
theory CuratorApi
  imports DocEdit LineDiff Specs GoPath
begin

text \<open>
  The API the spec-chat agent works through (internal/adapters/curatorapi/curatorapi.go): reading an
  area or a doc-spec, editing a doc-spec file in place, proposing an entry, and previewing an edit.
  What the server is given (the readers, the writer, the previewer, the file system, the YAML library
  and the decoder of doc-specs) are the fields of \<open>server\<close>; a request is its method and what decoding
  its body gave.
\<close>

section \<open>Requests and responses\<close>

record edit_dto =
  ed_Op :: gostring
  ed_Ref :: gostring
  ed_Section :: gostring
  ed_Value :: gostring
  ed_Source :: gostring
  ed_Sources :: "gostring list"

record preview_verdict =
  pvd_Section :: gostring
  pvd_Pass :: bool
  pvd_Reason :: gostring

text \<open>The field for the cost, which nothing sets, is left out.\<close>

record preview_result =
  pv_Pages :: "(gostring \<times> gostring) list"
  pv_AllPass :: bool
  pv_Verdicts :: "preview_verdict list"
  pv_UngroundedClaims :: "gostring list"

record 'w server =
  sv_kb :: "'w \<Rightarrow> snapshot res \<times> 'w"
  sv_specs :: "'w \<Rightarrow> doc_file list res \<times> 'w"
  specsDir :: gostring
  sv_kbw :: "(gostring \<Rightarrow> gostring \<Rightarrow> gostring \<Rightarrow> gostring \<Rightarrow> gostring \<Rightarrow> 'w \<Rightarrow> gostring res \<times> 'w) option"
  sv_prev :: "(gostring \<Rightarrow> 'w \<Rightarrow> preview_result res \<times> 'w) option"
  sv_read :: "gostring \<Rightarrow> 'w \<Rightarrow> gostring res \<times> 'w"
  sv_write :: "gostring \<Rightarrow> gostring \<Rightarrow> 'w \<Rightarrow> gomsg option \<times> 'w"
  sv_yaml :: yaml_parse
  sv_docspec :: "gostring \<Rightarrow> doc_yaml res"

text \<open>\<open>Aborted\<close>: the handler panicked, and the connection is closed without an answer.\<close>

datatype 'b http_response = Fail nat gomsg | OK 'b | Aborted

record 'b http_request =
  rq_Method :: gostring
  rq_Body :: "'b res"

definition decodePOST :: "'a http_request \<Rightarrow> (nat \<times> gomsg) + 'a" where
  "decodePOST r =
     (if rq_Method r \<noteq> ''POST'' then Inl (405, errorf ''POST required'' [])
      else (case rq_Body r of Inl e \<Rightarrow> Inl (400, wrapf ''bad json body: %s'' [] e) | Inr b \<Rightarrow> Inr b))"

section \<open>Edits\<close>

definition pageRef :: "gostring \<Rightarrow> page_ref" where
  "pageRef ref =
     (if ref = ''parent'' then \<lparr>pr_parent = True, pr_page = []\<rparr> else \<lparr>pr_parent = False, pr_page = ref\<rparr>)"

fun itoa_digits :: "nat \<Rightarrow> gostring \<Rightarrow> gostring" where
  "itoa_digits i b = (if i > 0 then itoa_digits (i div 10) (char_of (48 + i mod 10) # b) else b)"

declare itoa_digits.simps [simp del]

definition itoa :: "nat \<Rightarrow> gostring" where
  "itoa i = (if i = 0 then ''0'' else itoa_digits i [])"

definition apply_edit :: "yaml_parse \<Rightarrow> edit_dto \<Rightarrow> document \<Rightarrow> edit_error option \<times> document" where
  "apply_edit yaml e d =
     (if ed_Op e = ''set_page_intent'' then SetPageIntent yaml (pageRef (ed_Ref e)) (ed_Value e) d
      else if ed_Op e = ''set_section_intent'' then SetSectionIntent yaml (pageRef (ed_Ref e)) (ed_Section e) (ed_Value e) d
      else if ed_Op e = ''set_section_sources'' then SetSectionSources yaml (pageRef (ed_Ref e)) (ed_Section e) (ed_Sources e) d
      else if ed_Op e = ''add_section_source'' then AddSectionSource yaml (pageRef (ed_Ref e)) (ed_Section e) (ed_Source e) d
      else (Some (EditError (errorf (''unknown op '' @ ed_Op e) [])), d))"

text \<open>\<open>editError\<close>, with the index of the edit.\<close>

definition edit_error_text :: "nat \<Rightarrow> edit_error \<Rightarrow> edit_error" where
  "edit_error_text i e =
     (case e of EditPanic \<Rightarrow> EditPanic | EditError m \<Rightarrow> EditError (wrapf ''edit[%s]: %s'' [itoa i] m))"

fun applyEdits :: "yaml_parse \<Rightarrow> nat \<Rightarrow> edit_dto list \<Rightarrow> document \<Rightarrow> edit_error option \<times> document" where
  "applyEdits yaml i [] d = (None, d)"
| "applyEdits yaml i (e # es) d =
     (case apply_edit yaml e d of
        (Some err, d) \<Rightarrow> (Some (edit_error_text i err), d)
      | (None, d) \<Rightarrow> applyEdits yaml (Suc i) es d)"

section \<open>Handlers that read\<close>

record entry_dto =
  dto_ID :: gostring
  dto_Type :: gostring
  dto_Text :: gostring
  dto_Zone :: gostring
  dto_Source :: gostring
  dto_Status :: gostring
  dto_Why :: gostring
  dto_URL :: gostring

record area_dto =
  ar_ID :: gostring
  ar_Name :: gostring
  ar_Summary :: gostring
  ar_Entries :: "entry_dto list"

definition entry_to_dto :: "entry \<Rightarrow> entry_dto" where
  "entry_to_dto e =
     \<lparr>dto_ID = e_ID e, dto_Type = e_Type e, dto_Text = e_Text e, dto_Zone = e_Zone e,
      dto_Source = ep_Source (e_Provenance e), dto_Status = Status (e_Provenance e),
      dto_Why = e_Why e, dto_URL = e_URL e\<rparr>"

definition handleKBArea :: "'w server \<Rightarrow> gostring http_request \<Rightarrow> 'w \<Rightarrow> area_dto http_response \<times> 'w" where
  "handleKBArea s r w =
     (case decodePOST r of
        Inl (c, m) \<Rightarrow> (Fail c m, w)
      | Inr ident \<Rightarrow>
          if ident = [] then (Fail 400 (errorf ''area required'' []), w)
          else (case sv_kb s w of
                  (Inl e, w) \<Rightarrow> (Fail 502 (wrapf ''kb pull: %s'' [] e), w)
                | (Inr snap, w) \<Rightarrow>
                    (case Area snap ident of
                       None \<Rightarrow> (Fail 404 (errorf (''area not found: '' @ ident) []), w)
                     | Some a \<Rightarrow>
                         (OK \<lparr>ar_ID = a_ID a, ar_Name = a_Name a, ar_Summary = a_Summary a,
                              ar_Entries = map entry_to_dto (a_Entries a)\<rparr>, w))))"

record section_dto =
  sd_Title :: gostring
  sd_Intent :: gostring
  sd_Render :: gostring
  sd_Sources :: "gostring list"

record page_dto =
  pd_Ref :: gostring
  pd_Page :: gostring
  pd_Kind :: gostring
  pd_Intent :: gostring
  pd_Sections :: "section_dto list"

record doc_spec_dto =
  dd_ID :: gostring
  dd_Topic :: gostring
  dd_YAML :: gostring
  dd_Pages :: "page_dto list"

definition pageToDTO :: "gostring \<Rightarrow> doc_page \<Rightarrow> page_dto" where
  "pageToDTO ref p =
     \<lparr>pd_Ref = ref, pd_Page = dp_Page p, pd_Kind = dp_Kind p, pd_Intent = dp_Intent p,
      pd_Sections = map (\<lambda>s. \<lparr>sd_Title = ds_Title s, sd_Intent = ds_Intent s, sd_Render = Render s,
                              sd_Sources = map Raw (ds_Sources s)\<rparr>) (dp_Sections p)\<rparr>"

definition handleDocSpecGet :: "'w server \<Rightarrow> gostring http_request \<Rightarrow> 'w \<Rightarrow> doc_spec_dto http_response \<times> 'w" where
  "handleDocSpecGet s r w =
     (case decodePOST r of
        Inl (c, m) \<Rightarrow> (Fail c m, w)
      | Inr ident \<Rightarrow>
          if ident = [] then (Fail 400 (errorf ''id required'' []), w)
          else (case sv_specs s w of
                  (Inl e, w) \<Rightarrow> (Fail 502 (wrapf ''docspec pull: %s'' [] e), w)
                | (Inr files, w) \<Rightarrow>
                    (case List.find (\<lambda>f. df_ID f = ident) files of
                       None \<Rightarrow> (Fail 404 (errorf (''doc-spec not found: '' @ ident) []), w)
                     | Some f \<Rightarrow>
                         (case sv_read s (path_Join [specsDir s, ident]) w of
                            (Inl e, w) \<Rightarrow> (Fail 500 (wrapf ''read spec file: %s'' [] e), w)
                          | (Inr raw, w) \<Rightarrow>
                              (OK \<lparr>dd_ID = df_ID f, dd_Topic = Topic (df_Spec f), dd_YAML = raw,
                                   dd_Pages = pageToDTO ''parent'' (ParentPage (df_Spec f)) #
                                     map (\<lambda>c. pageToDTO (dp_Page c) c) (Children (df_Spec f))\<rparr>, w)))))"

section \<open>Handlers that write\<close>

definition safeSpecPath :: "gostring \<Rightarrow> gostring \<Rightarrow> gostring option" where
  "safeSpecPath dir ident =
     (if ident = [] then None
      else
        (let p = path_Join [dir, ident] in
         case Rel dir p of
           Inl e \<Rightarrow> None
         | Inr rel \<Rightarrow>
             if rel = ''..'' \<or> rooted rel \<or> length rel \<ge> 3 \<and> take 3 rel = ''../'' then None else Some p))"

record put_request =
  put_ID :: gostring
  put_Edits :: "edit_dto list"

record put_response =
  resp_ID :: gostring
  resp_YAML :: gostring
  resp_Diff :: gostring

definition edited_spec :: "'w server \<Rightarrow> gostring \<Rightarrow> edit_dto list \<Rightarrow> gostring http_response" where
  "edited_spec s orig edits =
     (case docedit_Parse (sv_yaml s) orig of
        Inl e \<Rightarrow> Fail 422 (wrapf ''parse spec: %s'' [] e)
      | Inr d \<Rightarrow>
          (case applyEdits (sv_yaml s) 0 edits d of
             (Some EditPanic, d) \<Rightarrow> Aborted
           | (Some (EditError e), d) \<Rightarrow> Fail 422 e
           | (None, d) \<Rightarrow> OK (doc_src d)))"

definition handleDocSpecPut :: "'w server \<Rightarrow> put_request http_request \<Rightarrow> 'w \<Rightarrow> put_response http_response \<times> 'w" where
  "handleDocSpecPut s r w =
     (case decodePOST r of
        Inl (c, m) \<Rightarrow> (Fail c m, w)
      | Inr req \<Rightarrow>
          (case safeSpecPath (specsDir s) (put_ID req) of
             None \<Rightarrow> (Fail 400 (errorf ''invalid id'' []), w)
           | Some p \<Rightarrow>
               (case sv_read s p w of
                  (Inl e, w) \<Rightarrow> (Fail 404 (wrapf ''read spec: %s'' [] e), w)
                | (Inr orig, w) \<Rightarrow>
                    (case edited_spec s orig (put_Edits req) of
                       Fail c m \<Rightarrow> (Fail c m, w)
                     | Aborted \<Rightarrow> (Aborted, w)
                     | OK out \<Rightarrow>
                         (case docspec_Parse (sv_docspec s out) of
                            Inl e \<Rightarrow> (Fail 422 (wrapf ''edited spec invalid: %s'' [] e), w)
                          | Inr _ \<Rightarrow>
                              (case sv_write s p out w of
                                 (Some e, w) \<Rightarrow> (Fail 500 (wrapf ''write spec: %s'' [] e), w)
                               | (None, w) \<Rightarrow>
                                   (OK \<lparr>resp_ID = put_ID req, resp_YAML = out, resp_Diff = unifiedish orig out\<rparr>, w)))))))"

record propose_request =
  pq_Area :: gostring
  pq_Type :: gostring
  pq_Text :: gostring
  pq_Source :: gostring
  pq_Why :: gostring

record propose_response =
  ps_EntryID :: gostring
  ps_Area :: gostring
  ps_Zone :: gostring

definition knownEntryTypes :: "gostring list" where
  "knownEntryTypes = [''fact'', ''decision'', ''gotcha'', ''pattern'']"

definition handleProposeEntry :: "'w server \<Rightarrow> propose_request http_request \<Rightarrow> 'w \<Rightarrow> propose_response http_response \<times> 'w" where
  "handleProposeEntry s r w =
     (case decodePOST r of
        Inl (c, m) \<Rightarrow> (Fail c m, w)
      | Inr q \<Rightarrow>
          (case sv_kbw s of
             None \<Rightarrow> (Fail 501 (errorf ''kb writer not wired'' []), w)
           | Some addEntry \<Rightarrow>
               if pq_Area q = [] then (Fail 400 (errorf ''area required'' []), w)
               else if pq_Type q \<notin> set knownEntryTypes
               then (Fail 400 (errorf ''type must be fact|decision|gotcha|pattern'' []), w)
               else if pq_Text q = [] then (Fail 400 (errorf ''text required'' []), w)
               else if pq_Source q = []
               then (Fail 400 (errorf ''source required (provenance is mandatory)'' []), w)
               else (case addEntry (pq_Area q) (pq_Type q) (pq_Text q) (pq_Source q) (pq_Why q) w of
                       (Inl e, w) \<Rightarrow> (Fail 502 (wrapf ''kb add: %s'' [] e), w)
                     | (Inr ident, w) \<Rightarrow>
                         (OK \<lparr>ps_EntryID = ident, ps_Area = pq_Area q, ps_Zone = ''incoming''\<rparr>, w))))"

definition handlePreview :: "'w server \<Rightarrow> put_request http_request \<Rightarrow> 'w \<Rightarrow> preview_result http_response \<times> 'w" where
  "handlePreview s r w =
     (case decodePOST r of
        Inl (c, m) \<Rightarrow> (Fail c m, w)
      | Inr req \<Rightarrow>
          (case sv_prev s of
             None \<Rightarrow> (Fail 501 (errorf ''previewer not wired'' []), w)
           | Some preview \<Rightarrow>
               (case safeSpecPath (specsDir s) (put_ID req) of
                  None \<Rightarrow> (Fail 400 (errorf ''invalid id'' []), w)
                | Some p \<Rightarrow>
                    (case sv_read s p w of
                       (Inl e, w) \<Rightarrow> (Fail 404 (wrapf ''read spec: %s'' [] e), w)
                     | (Inr orig, w) \<Rightarrow>
                         (case (if put_Edits req = [] then OK orig else edited_spec s orig (put_Edits req)) of
                            Fail c m \<Rightarrow> (Fail c m, w)
                          | Aborted \<Rightarrow> (Aborted, w)
                          | OK candidate \<Rightarrow>
                              (case preview candidate w of
                                 (Inl e, w) \<Rightarrow> (Fail 502 (wrapf ''preview: %s'' [] e), w)
                               | (Inr res, w) \<Rightarrow> (OK res, w)))))))"

section \<open>Numbers\<close>

lemma itoa_digits_dec: "i > 0 \<Longrightarrow> itoa_digits i b = nat_dec i @ b"
proof (induction i b rule: itoa_digits.induct)
  case (1 i b)
  show ?case
  proof (cases "i < 10")
    case True
    then have "itoa_digits (i div 10) (char_of (48 + i mod 10) # b) = char_of (48 + i) # b"
      by (subst itoa_digits.simps) simp
    with 1(2) True show ?thesis by (subst itoa_digits.simps, subst nat_dec.simps) simp
  next
    case False
    then have "itoa_digits (i div 10) (char_of (48 + i mod 10) # b) = nat_dec (i div 10) @ char_of (48 + i mod 10) # b"
      using 1 by simp
    with 1(2) False show ?thesis by (subst itoa_digits.simps, subst nat_dec.simps [of i]) simp
  qed
qed

lemma itoa_dec: "itoa i = nat_dec i"
proof (cases "i = 0")
  case True
  have "CHR ''0'' = char_of (48 :: nat)" by code_simp
  with True show ?thesis by (simp add: itoa_def) (subst nat_dec.simps, simp)
qed (simp add: itoa_def itoa_digits_dec)

section \<open>Paths\<close>

lemma rooted_Clean: "rooted (Clean p) = rooted p"
proof (cases "rooted p \<or> path_elems p = []")
  case True
  then show ?thesis by (auto simp: Clean_def elems_text_def rooted_def)
next
  case False
  then obtain e es where es: "path_elems p = e # es" by (cases "path_elems p") auto
  have "e \<noteq> []" "SLASH \<notin> set e" using clean_elems_path [of p] es by (auto simp: clean_elems_def)
  with False es show ?thesis by (cases es; cases e) (auto simp: Clean_def elems_text_def rooted_def)
qed

lemma Clean_same: "Clean p = Clean q \<Longrightarrow> path_elems p = path_elems q"
proof -
  assume eq: "Clean p = Clean q"
  then have r: "rooted p = rooted q" using rooted_Clean by metis
  have ok: "list_all (\<lambda>e. SLASH \<notin> set e) (path_elems p)" "''.'' \<notin> set (path_elems p)" "[] \<notin> set (path_elems p)" for p
    using clean_elems_path [of p] by (auto simp: clean_elems_def list_all_iff)
  have inj: "Join [SLASH] (path_elems p) = Join [SLASH] (path_elems q) \<Longrightarrow> path_elems p \<noteq> [] \<Longrightarrow> path_elems q \<noteq> [] \<Longrightarrow>
      path_elems p = path_elems q" using Split_Join ok(1) by metis
  have nil: "Join [SLASH] (path_elems p) = [] \<longleftrightarrow> path_elems p = []" for p
    using ok(3) [of p] by (cases "path_elems p" rule: remdups_adj.cases) auto
  have dot: "path_elems p = []" if "Join [SLASH] (path_elems p) = ''.''" for p
  proof (rule ccontr)
    assume "path_elems p \<noteq> []"
    with Split_Join [OF _ ok(1), of p] that have "path_elems p = Split SLASH ''.''" by simp
    with ok(2) [of p] show False by simp
  qed
  have "elems_text (rooted p) (path_elems p) = elems_text (rooted p) (path_elems q)"
    using eq r by (simp add: Clean_def)
  with inj nil [of p] nil [of q] dot [of p] dot [of q] show ?thesis
    by (cases "path_elems p = []"; cases "path_elems q = []") (auto simp: elems_text_def split: if_splits)
qed

text \<open>\<open>below dir p\<close>: the path is the directory followed by elements, none of which goes up.\<close>

definition below :: "gostring \<Rightarrow> gostring \<Rightarrow> bool" where
  "below dir p =
     (rooted p = rooted dir \<and> prefix (path_elems dir) (path_elems p) \<and>
      ''..'' \<notin> set (drop (length (path_elems dir)) (path_elems p)))"

lemma Join_up: "Join [SLASH] (''..'' # es) = ''..'' \<or> take 3 (Join [SLASH] (''..'' # es)) = ''../''"
  by (cases es) auto

lemma Rel_below:
  assumes "Rel dir p = Inr rel" and "rel \<noteq> ''..''" and "take 3 rel \<noteq> ''../''"
  shows "below dir p"
proof (cases "Clean p = Clean dir")
  case True
  then have "rooted p = rooted dir" using rooted_Clean by metis
  with Clean_same [OF True] show ?thesis by (simp add: below_def)
next
  case False
  then have r: "rooted p = rooted dir" using assms(1) by (auto simp: Rel_def Let_def rooted_Clean split: if_splits)
  let ?t = "if Clean p = ''.'' then [''.''] else path_elems p"
  obtain bs ts where st: "strip_common (path_elems dir) ?t = (bs, ts)" by fastforce
  from assms(1) False r st have rel: "rel = Join [SLASH] (replicate (length bs) ''..'' @ ts)"
    by (auto simp: Rel_def Let_def rooted_Clean split: if_splits)
  have bs: "bs = []"
  proof (rule ccontr)
    assume "bs \<noteq> []"
    then have "rel = Join [SLASH] (''..'' # replicate (length bs - 1) ''..'' @ ts)"
      unfolding rel by (cases bs) auto
    with Join_up assms(2,3) show False by metis
  qed
  with strip_common_append [OF st] have t: "?t = path_elems dir @ ts" by auto
  have dots: "''.'' \<notin> set (path_elems dir)" using clean_elems_path [of dir] by (auto simp: clean_elems_def list_all_iff)
  show ?thesis
  proof (cases "Clean p = ''.''")
    case True
    with t dots have "path_elems dir = []" by (cases "path_elems dir") auto
    then have "Clean dir = ''.'' \<or> rooted dir" by (auto simp: Clean_def elems_text_def)
    with True False r rooted_Clean [of p] show ?thesis by (auto simp: rooted_def)
  next
    case False
    with t have p: "path_elems p = path_elems dir @ ts" by simp
    have "ts = [] \<or> hd ts \<noteq> ''..''" using assms(2,3) rel bs Join_up [of "tl ts"] by (cases ts) auto
    moreover have "''..'' \<notin> set (dropWhile (\<lambda>e. e = ''..'') (path_elems dir @ ts))"
      using clean_elems_path [of p] p by (auto simp: clean_elems_def dest: set_dropWhileD split: if_splits)
    moreover have "set ts \<subseteq> set (dropWhile (\<lambda>e. e = ''..'') (path_elems dir @ ts))" if "ts \<noteq> []" "hd ts \<noteq> ''..''"
      using that by (induction "path_elems dir") (auto simp: dropWhile_append neq_Nil_conv)
    ultimately have "''..'' \<notin> set ts" by (cases "ts = []") auto
    with p r show ?thesis by (auto simp: below_def)
  qed
qed

text \<open>
  The identifier of a request never leads out of the spec directory: a path is refused, or it is
  the directory followed by elements none of which goes up.
\<close>

theorem spec_path_below:
  "case safeSpecPath dir ident of None \<Rightarrow> True | Some p \<Rightarrow> p = path_Join [dir, ident] \<and> below dir p"
proof (cases "safeSpecPath dir ident")
  case (Some p)
  then obtain rel where "Rel dir p = Inr rel" "p = path_Join [dir, ident]" "rel \<noteq> ''..''"
    "\<not> (length rel \<ge> 3 \<and> take 3 rel = ''../'')"
    by (auto simp: safeSpecPath_def Let_def split: if_splits sum.splits)
  moreover from this have "take 3 rel \<noteq> ''../''" by (metis length_take min.absorb_iff2 nat_le_linear take_all_iff length_Cons list.size(3) numeral_3_eq_3)
  ultimately show ?thesis using Some Rel_below by simp
qed simp

section \<open>What is written\<close>

text \<open>A file system that takes nothing but valid doc-specs below the spec directory.\<close>

definition careful_write :: "'w server \<Rightarrow> gostring \<Rightarrow> gostring \<Rightarrow> 'w \<Rightarrow> gomsg option \<times> 'w" where
  "careful_write s p out w =
     (if below (specsDir s) p \<and> (case docspec_Parse (sv_docspec s out) of Inl e \<Rightarrow> False | Inr d \<Rightarrow> valid_doc d)
      then sv_write s p out w else (Some (errorf ''refused'' []), w))"

lemma edited_spec_write [simp]: "edited_spec (s\<lparr>sv_write := f\<rparr>) orig edits = edited_spec s orig edits"
  by (simp add: edited_spec_def split: sum.split)

text \<open>
  C11. The server writes nothing but valid doc-specs, and only below the spec directory: with a file
  system that refuses every other write, a put has the same response and leaves the same world.
\<close>

theorem put_writes_valid:
  "handleDocSpecPut (s\<lparr>sv_write := careful_write s\<rparr>) r w = handleDocSpecPut s r w"
proof -
  have "careful_write s p out w = sv_write s p out w"
    if "safeSpecPath (specsDir s) ident = Some p" "docspec_Parse (sv_docspec s out) = Inr d" for ident p out d w
    using that spec_path_below [of "specsDir s" ident] docspec_Parse_Inr [OF that(2)] by (auto simp: careful_write_def)
  then show ?thesis
    by (auto simp: handleDocSpecPut_def split: sum.split option.split prod.split http_response.split)
qed

text \<open>A writer that takes nothing but complete entries of a known type with a source.\<close>

definition careful_add ::
  "(gostring \<Rightarrow> gostring \<Rightarrow> gostring \<Rightarrow> gostring \<Rightarrow> gostring \<Rightarrow> 'w \<Rightarrow> gostring res \<times> 'w) \<Rightarrow>
   gostring \<Rightarrow> gostring \<Rightarrow> gostring \<Rightarrow> gostring \<Rightarrow> gostring \<Rightarrow> 'w \<Rightarrow> gostring res \<times> 'w" where
  "careful_add addEntry a t text src why w =
     (if a \<noteq> [] \<and> t \<in> set knownEntryTypes \<and> text \<noteq> [] \<and> src \<noteq> [] then addEntry a t text src why w
      else (Inl (errorf ''refused'' []), w))"

lemma propose_careful:
  "handleProposeEntry (s\<lparr>sv_kbw := map_option careful_add (sv_kbw s)\<rparr>) r w = handleProposeEntry s r w"
  by (auto simp: handleProposeEntry_def careful_add_def split: sum.split option.split prod.split)

end
