(* ===== verification/SpecChat.thy ===== *)
theory SpecChat
  imports CuratorApi Orchestrator Backends Deployment
begin

text \<open>
  What stands behind the API of the spec-chat agent (internal/specchat/specchat.go): the previewer,
  which renders a candidate doc-spec and has it judged, and the writer, which proposes an entry by the
  \<open>kb\<close> command.  Rendering a page, judging it and decoding YAML are parameters, as in a run.
\<close>

section \<open>The previewer\<close>

record 'w previewer =
  pw_kb :: "'w \<Rightarrow> snapshot res \<times> 'w"
  pw_cluster :: "'w renderer"
  pw_judge :: "'w reviewer"
  pw_decode :: "gostring \<Rightarrow> doc_yaml res"

definition preview_grounding :: "doc_page \<Rightarrow> snapshot \<Rightarrow> gostring \<Rightarrow> gostring" where
  "preview_grounding dp snap =
     fold (\<lambda>sec m. m(ds_Title sec := SectionGrounding snap sec)) (dp_Sections dp) (\<lambda>_. [])"

definition preview_verdict_of :: "verdict \<Rightarrow> preview_verdict" where
  "preview_verdict_of v = \<lparr>pvd_Section = v_Section v, pvd_Pass = Pass v, pvd_Reason = v_Reason v\<rparr>"

text \<open>The loop over the rendered pages; the pages of the spec run out no earlier than those.\<close>

fun preview_pages ::
  "'w reviewer \<Rightarrow> snapshot \<Rightarrow> rendered_page list \<Rightarrow> doc_page list \<Rightarrow> preview_result \<Rightarrow> 'w \<Rightarrow> preview_result res \<times> 'w" where
  "preview_pages review snap [] dps out w = (Inr out, w)"
| "preview_pages review snap (rp # rps) dps out w =
     (let out = out\<lparr>pv_Pages := pv_Pages out @ [(rp_Page rp, md_Render (rp_Doc rp))]\<rparr> in
      case dps of
        [] \<Rightarrow> preview_pages review snap rps [] out w
      | dp # dps \<Rightarrow>
          (case review dp (rp_Doc rp) (preview_grounding dp snap) w of
             (Inl e, w) \<Rightarrow> (Inl (wrapf ''judge %q: %w'' [rp_Page rp] e), w)
           | (Inr rep, w) \<Rightarrow>
               preview_pages review snap rps dps
                 (out\<lparr>pv_Verdicts := pv_Verdicts out @ map preview_verdict_of (Verdicts rep),
                      pv_UngroundedClaims := pv_UngroundedClaims out @ concat (map v_Ungrounded (Verdicts rep)),
                      pv_AllPass := pv_AllPass out \<and> AllPass rep\<rparr>) w))"

definition Preview :: "'w previewer \<Rightarrow> gostring \<Rightarrow> 'w \<Rightarrow> preview_result res \<times> 'w" where
  "Preview p candidate w =
     (case docspec_Parse (pw_decode p candidate) of
        Inl e \<Rightarrow> (Inl (wrapf ''parse candidate: %w'' [] e), w)
      | Inr spec \<Rightarrow>
          (case pw_kb p w of
             (Inl e, w) \<Rightarrow> (Inl (wrapf ''kb pull: %w'' [] e), w)
           | (Inr snap, w) \<Rightarrow>
               (case cluster_Render (pw_cluster p) spec snap w of
                  (Inl e, w) \<Rightarrow> (Inl (wrapf ''render: %w'' [] e), w)
                | (Inr rendered, w) \<Rightarrow>
                    preview_pages (pw_judge p) snap rendered (spec_pages spec)
                      \<lparr>pv_Pages = [], pv_AllPass = True, pv_Verdicts = [], pv_UngroundedClaims = []\<rparr> w)))"

section \<open>The writer\<close>

record shell_writer =
  sw_Bin :: gostring
  MYKBDir :: gostring

text \<open>Starting a process: the binary, its arguments, and \<open>MYKB_DIR\<close> when it is set.\<close>

type_synonym 'w exec =
  "gostring \<Rightarrow> gostring list \<Rightarrow> gostring option \<Rightarrow> 'w \<Rightarrow> ((gomsg \<times> gostring) + gostring) \<times> 'w"

definition isIDish :: "gostring \<Rightarrow> bool" where
  "isIDish s =
     list_all (\<lambda>c. list_ex (\<lambda>(lo, hi). lo \<le> c \<and> c \<le> hi)
         [(CHR ''a'', CHR ''z''), (CHR ''A'', CHR ''Z''), (CHR ''0'', CHR ''9''), (CHR ''-'', CHR ''-''), (CHR ''_'', CHR ''_'')]) s"

definition id_cutset :: gostring where
  "id_cutset = ''[]()'' @ [APOS, QUOT] @ ''.,''"

fun entry_id_in :: "gostring list \<Rightarrow> gostring" where
  "entry_id_in [] = []"
| "entry_id_in (f # fs) =
     (let t = TrimLeft (TrimRight f id_cutset) id_cutset in
      if HasPrefix f ''id:'' then TrimPrefix f ''id:''
      else if 6 \<le> length t \<and> length t \<le> 16 \<and> isIDish t then t
      else entry_id_in fs)"

definition parseEntryID :: "gostring \<Rightarrow> gostring" where
  "parseEntryID out = entry_id_in (Fields out)"

definition kb_args :: "gostring \<Rightarrow> gostring \<Rightarrow> gostring \<Rightarrow> gostring \<Rightarrow> gostring \<Rightarrow> gostring list" where
  "kb_args area typ text src why =
     [''add'', typ, area, text, ''--source'', src, ''--zone'', ''incoming''] @
     (if why \<noteq> [] then [''--why'', why] else [])"

definition AddEntry ::
  "'w exec \<Rightarrow> shell_writer \<Rightarrow> gostring \<Rightarrow> gostring \<Rightarrow> gostring \<Rightarrow> gostring \<Rightarrow> gostring \<Rightarrow> 'w \<Rightarrow> gostring res \<times> 'w" where
  "AddEntry exec s area typ text src why w =
     (case exec (if sw_Bin s = [] then ''kb'' else sw_Bin s) (kb_args area typ text src why)
             (if MYKBDir s \<noteq> [] then Some (MYKBDir s) else None) w of
        (Inl (e, stderr), w) \<Rightarrow> (Inl (wrapf ''kb add: %v: %s'' [TrimSpace stderr] e), w)
      | (Inr stdout, w) \<Rightarrow> (Inr (parseEntryID stdout), w))"

section \<open>Proposed entries\<close>

text \<open>A system that starts nothing but additions of complete entries, with a source, to the incoming zone.\<close>

definition quarantine_args :: "gostring list \<Rightarrow> bool" where
  "quarantine_args args =
     (length args \<ge> 8 \<and> args ! 0 = ''add'' \<and> args ! 1 \<in> set knownEntryTypes \<and> args ! 2 \<noteq> [] \<and> args ! 3 \<noteq> [] \<and>
      args ! 4 = ''--source'' \<and> args ! 5 \<noteq> [] \<and> args ! 6 = ''--zone'' \<and> args ! 7 = ''incoming'' \<and>
      (length args = 8 \<or> length args = 10 \<and> args ! 8 = ''--why''))"

definition quarantined :: "'w exec \<Rightarrow> 'w exec" where
  "quarantined exec bin args env w =
     (if quarantine_args args then exec bin args env w else (Inl (errorf ''refused'' [], []), w))"

text \<open>
  C12. Whatever the agent proposes, the only command that is started is the addition of an entry of a
  known type, with a text and a source, to the incoming zone: a system that refuses to start anything
  else gives the same response and the same world.
\<close>

theorem proposals_quarantined:
  "handleProposeEntry (s\<lparr>sv_kbw := Some (AddEntry (quarantined exec) sw)\<rparr>) r w =
   handleProposeEntry (s\<lparr>sv_kbw := Some (AddEntry exec sw)\<rparr>) r w"
proof -
  have "careful_add (AddEntry (quarantined exec) sw) = careful_add (AddEntry exec sw)"
    by (intro ext) (simp add: careful_add_def AddEntry_def quarantined_def quarantine_args_def kb_args_def)
  then show ?thesis
    using propose_careful [of "s\<lparr>sv_kbw := Some (AddEntry (quarantined exec) sw)\<rparr>" r w]
      propose_careful [of "s\<lparr>sv_kbw := Some (AddEntry exec sw)\<rparr>" r w] by simp
qed

lemma first_word_taken_for_id: "parseEntryID (''Created [k3Yx9QpA]'' @ [NL]) = ''Created''"
  by code_simp

section \<open>A preview judges as a run does\<close>

lemma grounding_cong:
  "(\<And>s. s \<in> set secs \<Longrightarrow> judged s \<Longrightarrow> TrimSpace (g (ds_Title s)) = TrimSpace (h (ds_Title s))) \<Longrightarrow>
     review_sections decode llm model page bodies g secs w = review_sections decode llm model page bodies h secs w"
proof (induction secs arbitrary: w)
  case (Cons s secs)
  then have IH: "review_sections decode llm model page bodies g secs w = review_sections decode llm model page bodies h secs w" for w
    by simp
  show ?case
  proof (cases "judged s")
    case True
    with Cons.prems [of s] have "judge_composePrompt page s body (g (ds_Title s)) = judge_composePrompt page s body (h (ds_Title s))" for body
      by (simp add: judge_composePrompt_def)
    with IH show ?thesis by (simp add: Let_def split: prod.split sum.split)
  qed (simp add: IH)
qed simp

lemma fold_upd_other:
  "k \<notin> ds_Title ` set secs \<Longrightarrow> fold (\<lambda>sec m. if P sec then m else m(ds_Title sec := f sec)) secs m k = m k"
  by (induction secs arbitrary: m) auto

lemma fold_upd_own:
  "distinct (map ds_Title secs) \<Longrightarrow> s \<in> set secs \<Longrightarrow>
     fold (\<lambda>sec m. if P sec then m else m(ds_Title sec := f sec)) secs m (ds_Title s) =
       (if P s then m (ds_Title s) else f s)"
  by (induction secs arbitrary: m) (auto simp: fold_upd_other rev_image_eqI)

lemma preview_grounding_run:
  assumes "distinct (map ds_Title (dp_Sections dp))" and "s \<in> set (dp_Sections dp)" and "judged s"
  shows "preview_grounding dp snap (ds_Title s) = clusterGrounding dp snap (ds_Title s)"
proof -
  have p: "preview_grounding dp snap =
      fold (\<lambda>sec m. if False then m else m(ds_Title sec := SectionGrounding snap sec)) (dp_Sections dp) (\<lambda>_. [])"
    by (simp add: preview_grounding_def)
  have c: "clusterGrounding dp snap =
      fold (\<lambda>sec m. if (Render sec \<noteq> [] \<or> TrimSpace (ds_Intent sec) = []) \<or> SectionGrounding snap sec = [] then m
                    else m(ds_Title sec := SectionGrounding snap sec)) (dp_Sections dp) (\<lambda>_. [])"
    unfolding clusterGrounding_def by (intro arg_cong [of _ _ "\<lambda>f. fold f (dp_Sections dp) (\<lambda>_. [])"] ext) auto
  show ?thesis using assms(3) unfolding p c fold_upd_own [OF assms(1,2)] by (simp add: judged_def)
qed

lemma review_cong:
  assumes "distinct (map ds_Title (dp_Sections dp))" and "proseByHeading doc = proseByHeading doc'"
  shows "Review decode llm model dp doc (preview_grounding dp snap) w =
     Review decode llm model dp doc' (clusterGrounding dp snap) w"
proof -
  have "review_sections decode llm model dp (proseByHeading doc') (preview_grounding dp snap) (dp_Sections dp) w =
      review_sections decode llm model dp (proseByHeading doc') (clusterGrounding dp snap) (dp_Sections dp) w"
    by (intro grounding_cong) (simp add: preview_grounding_run [OF assms(1)])
  then show ?thesis by (simp add: Review_def assms(2))
qed

text \<open>
  What the run of the orchestrator has its pages judged as: the closed loop with no round of revisions, on the page the
  run looks up by its title, after the passes, with the grounding of the run.  On an error, the page and the error.
\<close>

fun judge_pages ::
  "'w refine_loop \<Rightarrow> 'w pass list option \<Rightarrow> doc_spec \<Rightarrow> snapshot \<Rightarrow> rendered_page list \<Rightarrow> 'w \<Rightarrow>
   (gostring \<times> gomsg + report list) \<times> 'w" where
  "judge_pages rf pp sp snap [] w = (Inr [], w)"
| "judge_pages rf pp sp snap (rp # rps) w =
     (let dp = docPagesByTitle sp (rp_Page rp) in
      case refine_Run (rf\<lparr>maxIters := 0\<rparr>) dp (rp_Doc rp) snap (clusterGrounding dp snap) (map_option pipeline_Apply pp) w of
        (Inl e, w) \<Rightarrow> (Inl (rp_Page rp, e), w)
      | (Inr r, w) \<Rightarrow>
          (case judge_pages rf pp sp snap rps w of
             (Inl e, w) \<Rightarrow> (Inl e, w)
           | (Inr reps, w) \<Rightarrow> (Inr (rr_Report r # reps), w)))"

text \<open>When nothing fails, the loop of a run returns that very report, whatever its budget of revisions.\<close>

lemma refine_keeps_pass:
  assumes "refine_Run (rf\<lparr>maxIters := 0\<rparr>) dp doc snap g p w = (Inr r, w')" and "AllPass (rr_Report r)"
  shows "refine_Run rf dp doc snap g p w = (Inr r, w')"
proof -
  have pass: "AllPass rep \<Longrightarrow> refine_rounds rf dp snap g p work applied rep n iters v =
      (Inr \<lparr>rr_Doc = applied, rr_Report = rep, Iterations = iters\<rparr>, v)" for work applied rep n iters v
    by (subst refine_rounds.simps) simp
  show ?thesis using assms by (auto simp: refine_Run_def pass split: prod.splits option.splits sum.splits)
qed

text \<open>The passes go through on a page, change nothing outside of it, and leave its prose as it was.\<close>

definition keeps_prose :: "'w pass list option \<Rightarrow> ir_document \<Rightarrow> bool" where
  "keeps_prose pp doc \<longleftrightarrow>
     (\<forall>w. \<exists>doc'. apply_pipeline pp doc w = (Inr doc', w) \<and> proseByHeading doc' = proseByHeading doc)"

lemma refine_Run_reviews:
  assumes "apply_pipeline pp doc w = (Inr doc', w')"
  shows "refine_Run (rf\<lparr>maxIters := 0\<rparr>) dp doc snap g (map_option pipeline_Apply pp) w =
     (case reviewer rf dp doc' g w' of
        (Inl e, w) \<Rightarrow> (Inl e, w)
      | (Inr rep, w) \<Rightarrow> (Inr \<lparr>rr_Doc = doc', rr_Report = rep, Iterations = 0\<rparr>, w))"
  using assms
  by (cases pp) (auto simp: refine_Run_def apply_passes_def apply_pipeline_def split: prod.splits option.splits sum.splits)

lemma page_by_title: "distinct (map dp_Page (spec_pages sp)) \<Longrightarrow> dp \<in> set (spec_pages sp) \<Longrightarrow> docPagesByTitle sp (dp_Page dp) = dp"
proof -
  assume *: "distinct (map dp_Page (spec_pages sp))" "dp \<in> set (spec_pages sp)"
  then have "find (\<lambda>p. dp_Page p = dp_Page dp) (rev (spec_pages sp)) = Some q \<Longrightarrow> q = dp" for q
    by (auto simp: find_Some_iff rev_nth distinct_map inj_on_def dest: nth_mem)
  moreover have "find (\<lambda>p. dp_Page p = dp_Page dp) (rev (spec_pages sp)) \<noteq> None"
    using *(2) by (auto simp: find_None_iff)
  ultimately show ?thesis by (auto simp: docPagesByTitle_def)
qed

text \<open>The answer to a preview, of the reports on its pages.\<close>

definition preview_of :: "preview_result \<Rightarrow> rendered_page list \<Rightarrow> report list \<Rightarrow> preview_result" where
  "preview_of out rps reps =
     \<lparr>pv_Pages = pv_Pages out @ map (\<lambda>rp. (rp_Page rp, md_Render (rp_Doc rp))) rps,
      pv_AllPass = (pv_AllPass out \<and> list_all AllPass reps),
      pv_Verdicts = pv_Verdicts out @ concat (map (\<lambda>rep. map preview_verdict_of (Verdicts rep)) reps),
      pv_UngroundedClaims = pv_UngroundedClaims out @ concat (map (\<lambda>rep. concat (map v_Ungrounded (Verdicts rep))) reps)\<rparr>"

lemma preview_pages_judge:
  assumes "list_all2 (\<lambda>rp dp. rp_Page rp = dp_Page dp) rps dps"
    and "\<forall>dp \<in> set dps. docPagesByTitle sp (dp_Page dp) = dp \<and> distinct (map ds_Title (dp_Sections dp))"
    and "\<forall>rp \<in> set rps. keeps_prose pp (rp_Doc rp)"
    and "reviewer rf = Review decode llm model"
  shows "preview_pages (Review decode llm model) snap rps dps out w =
     (case judge_pages rf pp sp snap rps w of
        (Inl (page, e), w) \<Rightarrow> (Inl (wrapf ''judge %q: %w'' [page] e), w)
      | (Inr reps, w) \<Rightarrow> (Inr (preview_of out rps reps), w))"
  using assms(1-3)
proof (induction rps dps arbitrary: out w rule: list_all2_induct)
  case Nil
  then show ?case by (simp add: preview_of_def)
next
  case (Cons rp rps dp dps)
  have "keeps_prose pp (rp_Doc rp)" using Cons.prems(2) by simp
  then obtain doc' where run: "apply_pipeline pp (rp_Doc rp) w = (Inr doc', w)"
    and prose: "proseByHeading doc' = proseByHeading (rp_Doc rp)"
    unfolding keeps_prose_def by blast
  obtain rr w1 where review: "Review decode llm model dp doc' (clusterGrounding dp snap) w = (rr, w1)" by fastforce
  with Cons.prems(1) prose have preview: "Review decode llm model dp (rp_Doc rp) (preview_grounding dp snap) w = (rr, w1)"
    by (simp add: review_cong [of dp "rp_Doc rp" doc'])
  have page: "docPagesByTitle sp (rp_Page rp) = dp" using Cons.hyps Cons.prems(1) by simp
  show ?case
  proof (cases rr)
    case (Inl e)
    then show ?thesis using page review preview
      by (simp add: refine_Run_reviews [OF run] assms(4) Let_def)
  next
    case (Inr rep)
    show ?thesis using page review preview Cons.IH [of _ w1] Cons.prems(1,2) Inr
      by (auto simp: refine_Run_reviews [OF run] assms(4) Let_def preview_of_def split: sum.split prod.split)
  qed
qed

text \<open>
  C36. A preview judges the pages of a candidate as a run does: where the sections of every page have titles of
  their own and the passes of the run leave the prose of the rendered pages as it is, the preview answers with the
  render of every page and with the verdicts, the ungrounded claims and the overall verdict of the reports that the
  closed loop of a run starts from, on the document after the passes, with the grounding of the run and on the page
  found by its title; and it fails when that judge fails, naming the page.
\<close>

theorem preview_judges_like_run:
  assumes "docspec_Parse (pw_decode p candidate) = Inr spec"
    and "pw_kb p w = (Inr snap, w1)" and "cluster_Render (pw_cluster p) spec snap w1 = (Inr rendered, w2)"
    and "pw_judge p = Review decode llm model" and "reviewer rf = Review decode llm model"
    and "\<forall>dp \<in> set (spec_pages spec). distinct (map ds_Title (dp_Sections dp))"
    and "\<forall>rp \<in> set rendered. keeps_prose pp (rp_Doc rp)"
  shows "Preview p candidate w =
     (case judge_pages rf pp spec snap rendered w2 of
        (Inl (page, e), w) \<Rightarrow> (Inl (wrapf ''judge %q: %w'' [page] e), w)
      | (Inr reps, w) \<Rightarrow>
          (Inr \<lparr>pv_Pages = map (\<lambda>rp. (rp_Page rp, md_Render (rp_Doc rp))) rendered, pv_AllPass = list_all AllPass reps,
                pv_Verdicts = concat (map (\<lambda>rep. map preview_verdict_of (Verdicts rep)) reps),
                pv_UngroundedClaims = concat (map (\<lambda>rep. concat (map v_Ungrounded (Verdicts rep))) reps)\<rparr>, w))"
proof -
  have titles: "list_all2 (\<lambda>rp dp. rp_Page rp = dp_Page dp) rendered (spec_pages spec)"
    using render_pages_ok [OF assms(3) [unfolded cluster_Render_def]]
    by (auto simp: list_all2_conv_all_nth)
  have "distinct (map dp_Page (spec_pages spec))" using docspec_Parse_Inr [OF assms(1)] by (simp add: valid_doc_def)
  then have pages: "\<forall>dp \<in> set (spec_pages spec). docPagesByTitle spec (dp_Page dp) = dp \<and> distinct (map ds_Title (dp_Sections dp))"
    using page_by_title assms(6) by blast
  show ?thesis
    using preview_pages_judge [OF titles pages assms(7,5)] assms(1-4)
    by (simp add: Preview_def preview_of_def split: sum.split prod.split)
qed

definition two_titles :: "gostring \<Rightarrow> doc_page" where
  "two_titles second =
     \<lparr>dp_Page = ''P'', dp_Kind = ''reference'', Audience = [], dp_Intent = ''all'',
      dp_Sections =
        [\<lparr>ds_Title = ''A'', ds_Intent = ''explain'', Render = [],
           ds_Sources = [\<lparr>Scheme = ''kb'', src_Spec = ''area=vault'', Raw = ''kb:area=vault''\<rparr>]\<rparr>,
         \<lparr>ds_Title = second, ds_Intent = [], Render = ''table'', ds_Sources = []\<rparr>],
      dp_Sources = [], Related = [], Categories = [], dp_Nav = no_placement, Supersedes = []\<rparr>"

text \<open>A model that answers with an error holding the whole prompt, and a page with one section.\<close>

definition repeat_prompt :: "unit llm_client" where
  "repeat_prompt r w = (Inl (errorf ''%s'' [Prompt r]), w)"

definition page_about :: "gostring \<Rightarrow> ir_document" where
  "page_about title =
     (new_document ''P'' [] [])\<lparr>Sections := [\<lparr>Heading = title, Blocks = [ProseBlock ''All about it.'' no_prov]\<rparr>]\<rparr>"

abbreviation chat_review :: "doc_page \<Rightarrow> (gostring \<Rightarrow> gostring) \<Rightarrow> report res \<times> unit" where
  "chat_review page grounding \<equiv>
     Review (\<lambda>_. Inl (errorf ''no json'' [])) repeat_prompt ''m'' page (page_about ''A'') grounding ()"

text \<open>Wrapping blocks in markers leaves the prose.\<close>

lemma prose_text_content: "prose_text bs = prose_text (filter (\<lambda>b. \<not> is_marker b) bs)"
  unfolding prose_text_def by (induction bs) (auto simp: is_marker_def split: block.split)

lemma wrapped_prose: "proseByHeading (wrap_doc doc) = proseByHeading doc"
proof -
  have same: "prose_text (wrapBlocks bs n) = prose_text bs" for bs n
    using prose_text_content [of "wrapBlocks bs n"] prose_text_content [of bs] by (simp add: wrapBlocks_content)
  have "fold (\<lambda>s m. let t = TrimSpace (prose_text (Blocks s)) in if t \<noteq> [] then m(Heading s := t) else m)
          (map (\<lambda>(i, s). s\<lparr>Blocks := wrapBlocks (Blocks s) i\<rparr>) (List.enumerate n ss)) m =
        fold (\<lambda>s m. let t = TrimSpace (prose_text (Blocks s)) in if t \<noteq> [] then m(Heading s := t) else m) ss m" for n ss m
    by (induction ss arbitrary: n m) (simp_all add: same Let_def)
  then show ?thesis by (simp add: proseByHeading_def wrap_doc_def)
qed

text \<open>
  A candidate with the page \<open>two_titles ''B''\<close>, a model that approves of everything, and the passes of a deployment
  with nothing configured.
\<close>

definition chat_yaml :: doc_yaml where
  "chat_yaml =
     \<lparr>dy_Topic = ''T'',
      dy_Parent =
        \<lparr>py_Page = ''P'', py_Kind = ''reference'', py_Audience = [], py_Intent = ''all'',
         py_Sections =
           [\<lparr>sy_Title = ''A'', sy_Intent = ''explain'', sy_Render = [], sy_Sources = [''kb:area=vault'']\<rparr>,
            \<lparr>sy_Title = ''B'', sy_Intent = [], sy_Render = ''table'', sy_Sources = []\<rparr>],
         py_Sources = [], py_Related = [], py_Categories = [], py_Nav = no_placement, py_Supersedes = []\<rparr>,
      dy_Children = []\<rparr>"

definition approving :: "unit llm_client" where
  "approving r w = (Inr \<lparr>Text = ''{}'', TokensIn = 0, TokensOut = 0, CacheHit = False\<rparr>, w)"

definition approve_all :: "gostring \<Rightarrow> verdict_json res" where "approve_all obj = Inr (True, ''ok'', [])"

definition chat_judge :: "unit reviewer" where
  "chat_judge = Review approve_all approving ''m''"

definition chat_previewer :: "unit previewer" where
  "chat_previewer =
     \<lparr>pw_kb = (\<lambda>w. (Inr (vault_snapshot []), w)), pw_cluster = (\<lambda>p sn w. (Inr (page_about ''A''), w)),
      pw_judge = chat_judge, pw_decode = (\<lambda>_. Inr chat_yaml)\<rparr>"

definition chat_loop :: "unit refine_loop" where
  "chat_loop = \<lparr>reviser = (\<lambda>p s sn f w. (Inl no_msg, w)), reviewer = chat_judge, maxIters = 3\<rparr>"

definition chat_passes :: "(gostring \<times> gostring) list \<Rightarrow> unit pass list" where
  "chat_passes terms =
     composePassPipeline \<lparr>uni_lower = id, uni_upper = id, uni_letter = (\<lambda>r. False)\<rparr> \<lparr>Terminology = terms, HeadingCase = []\<rparr>
       \<lparr>dg_Render = (\<lambda>l s w. (RenderFailed no_msg, w)), dg_Upload = (\<lambda>n d t u w. (Inl no_msg, w)), dg_Repair = None,
        dg_message = (\<lambda>e. [])\<rparr> [''P''] (vault_snapshot [])"

lemma chat_passes_quiet: "keeps_prose (Some (chat_passes [])) (page_about ''A'')"
proof -
  have "apply_pipeline (Some (chat_passes [])) (page_about ''A'') () = (Inr (wrap_doc (page_about ''A'')), ())" by code_simp
  then show ?thesis using wrapped_prose unfolding keeps_prose_def by fastforce
qed

theorem preview_judges_like_run_witness:
  "Preview chat_previewer [] () =
     (Inr \<lparr>pv_Pages = [(''P'', md_Render (page_about ''A''))], pv_AllPass = True,
           pv_Verdicts = [\<lparr>pvd_Section = ''A'', pvd_Pass = True, pvd_Reason = ''ok''\<rparr>], pv_UngroundedClaims = []\<rparr>, ())"
proof -
  let ?spec = "\<lparr>Topic = ''T'', ParentPage = two_titles ''B'', Children = []\<rparr>"
  let ?rps = "[\<lparr>rp_Page = ''P'', rp_Kind = ''reference'', rp_Doc = page_about ''A''\<rparr>]"
  have parsed: "docspec_Parse (pw_decode chat_previewer []) = Inr ?spec" by code_simp
  have pulled: "pw_kb chat_previewer () = (Inr (vault_snapshot []), ())" by (simp add: chat_previewer_def)
  have rendered: "cluster_Render (pw_cluster chat_previewer) ?spec (vault_snapshot []) () = (Inr ?rps, ())" by code_simp
  have judge: "pw_judge chat_previewer = Review approve_all approving ''m''" "reviewer chat_loop = Review approve_all approving ''m''"
    by (simp_all add: chat_previewer_def chat_loop_def chat_judge_def)
  have distinct: "\<forall>dp \<in> set (spec_pages ?spec). distinct (map ds_Title (dp_Sections dp))"
    by (simp add: spec_pages_def two_titles_def)
  have quiet: "\<forall>rp \<in> set ?rps. keeps_prose (Some (chat_passes [])) (rp_Doc rp)" using chat_passes_quiet by simp
  have "judge_pages chat_loop (Some (chat_passes [])) ?spec (vault_snapshot []) ?rps () =
      (Inr [\<lparr>r_Page = ''P'', Verdicts = [\<lparr>v_Section = ''A'', Pass = True, Inconclusive = False, v_Reason = ''ok'',
                                           v_Ungrounded = []\<rparr>]\<rparr>], ())" by code_simp
  with preview_judges_like_run [OF parsed pulled rendered judge distinct quiet] show ?thesis
    by (simp add: AllPass_def preview_verdict_of_def)
qed

text \<open>With two sections of one title, the preview judges the first against the sources of the second.\<close>

lemma preview_judges_twins_otherwise:
  "chat_review (two_titles ''A'') (preview_grounding (two_titles ''A'') (vault_snapshot [])) \<noteq>
   chat_review (two_titles ''A'') (clusterGrounding (two_titles ''A'') (vault_snapshot []))"
  by code_simp

text \<open>
  A terminology rule is a pass that changes prose: the run judges the text with the preferred term, and the preview,
  which is a run without passes, the text as it was rendered.
\<close>

lemma preview_judges_before_passes:
  "proseByHeading (page_about ''A'') ''A'' = ''All about it.''"
  "(case apply_pipeline (Some (chat_passes [(''it'', ''IT'')])) (page_about ''A'') () of
      (Inl e, w) \<Rightarrow> []
    | (Inr doc, w) \<Rightarrow> proseByHeading doc ''A'') = ''All about IT.''"
  by code_simp+

end
