(* ===== verification/ApiRoutes.thy ===== *)
theory ApiRoutes
  imports CuratorApi
begin

text \<open>
  The server around the handlers of CuratorApi (internal/adapters/curatorapi/curatorapi.go): which path leads
  to which handler, and the JSON requests and answers on the wire.
\<close>

section \<open>Requests and answers on the wire\<close>

record api_call =
  ca_Method :: gostring
  ca_Path :: gostring
  ca_Body :: gostring

text \<open>The JSON of the requests, the answers and the errors.\<close>

record api_wire =
  read_area :: "gostring \<Rightarrow> gostring res"
  read_get :: "gostring \<Rightarrow> gostring res"
  read_put :: "gostring \<Rightarrow> put_request res"
  read_propose :: "gostring \<Rightarrow> propose_request res"
  read_preview :: "gostring \<Rightarrow> put_request res"
  json_area :: "area_dto \<Rightarrow> gostring"
  json_spec :: "doc_spec_dto \<Rightarrow> gostring"
  json_put :: "put_response \<Rightarrow> gostring"
  json_propose :: "propose_response \<Rightarrow> gostring"
  json_preview :: "preview_result \<Rightarrow> gostring"
  json_error :: "gomsg \<Rightarrow> gostring"

text \<open>Status, content type and body; or the connection is closed because the handler panicked.\<close>

datatype api_answer = Reply nat gostring gostring | Hangup

definition writeJSON :: "(gomsg \<Rightarrow> gostring) \<Rightarrow> ('b \<Rightarrow> gostring) \<Rightarrow> 'b http_response \<Rightarrow> api_answer" where
  "writeJSON err encode r =
     (case r of
        Fail code m \<Rightarrow> Reply code ''application/json'' (err m @ [NL])
      | OK b \<Rightarrow> Reply 200 ''application/json'' (encode b @ [NL])
      | Aborted \<Rightarrow> Hangup)"

definition with_body :: "(gostring \<Rightarrow> 'b res) \<Rightarrow> api_call \<Rightarrow> 'b http_request" where
  "with_body decode call = \<lparr>rq_Method = ca_Method call, rq_Body = decode (ca_Body call)\<rparr>"

section \<open>Routing\<close>

text \<open>The routes of \<open>New\<close>; \<open>mux\<close> is what \<open>http.ServeMux\<close> answers by itself to a path it has no handler for.\<close>

datatype route = KBArea | DocSpecGet | DocSpecPut | ProposeEntry | PreviewSpec

definition routes :: "(gostring \<times> route) list" where
  "routes =
     [(''/v1/kb/area'', KBArea), (''/v1/doc-spec/get'', DocSpecGet), (''/v1/doc-spec/put'', DocSpecPut),
      (''/v1/kb/propose-entry'', ProposeEntry), (''/v1/preview'', PreviewSpec)]"

definition handle :: "'w server \<Rightarrow> api_wire \<Rightarrow> route \<Rightarrow> api_call \<Rightarrow> 'w \<Rightarrow> api_answer \<times> 'w" where
  "handle s J rt call w =
     (case rt of
        KBArea \<Rightarrow> map_prod (writeJSON (json_error J) (json_area J)) id (handleKBArea s (with_body (read_area J) call) w)
      | DocSpecGet \<Rightarrow> map_prod (writeJSON (json_error J) (json_spec J)) id (handleDocSpecGet s (with_body (read_get J) call) w)
      | DocSpecPut \<Rightarrow> map_prod (writeJSON (json_error J) (json_put J)) id (handleDocSpecPut s (with_body (read_put J) call) w)
      | ProposeEntry \<Rightarrow>
          map_prod (writeJSON (json_error J) (json_propose J)) id (handleProposeEntry s (with_body (read_propose J) call) w)
      | PreviewSpec \<Rightarrow>
          map_prod (writeJSON (json_error J) (json_preview J)) id (handlePreview s (with_body (read_preview J) call) w))"

definition ServeHTTP :: "'w server \<Rightarrow> api_wire \<Rightarrow> (api_call \<Rightarrow> api_answer) \<Rightarrow> api_call \<Rightarrow> 'w \<Rightarrow> api_answer \<times> 'w" where
  "ServeHTTP s J mux call w =
     (case map_of routes (ca_Path call) of None \<Rightarrow> (mux call, w) | Some rt \<Rightarrow> handle s J rt call w)"

section \<open>What a request can reach\<close>

text \<open>Whether the body of a request decodes on its route.\<close>

definition decodes :: "api_wire \<Rightarrow> route \<Rightarrow> gostring \<Rightarrow> bool" where
  "decodes J rt body =
     (case rt of
        KBArea \<Rightarrow> \<not> isl (read_area J body) | DocSpecGet \<Rightarrow> \<not> isl (read_get J body) | DocSpecPut \<Rightarrow> \<not> isl (read_put J body)
      | ProposeEntry \<Rightarrow> \<not> isl (read_propose J body) | PreviewSpec \<Rightarrow> \<not> isl (read_preview J body))"

text \<open>The server with everything a route has no use for replaced by that of another server.\<close>

definition restricted :: "route \<Rightarrow> 'w server \<Rightarrow> 'w server \<Rightarrow> 'w server" where
  "restricted rt s other =
     s\<lparr>sv_kb := if rt = KBArea then sv_kb s else sv_kb other,
       sv_specs := if rt = DocSpecGet then sv_specs s else sv_specs other,
       sv_kbw := if rt = ProposeEntry then sv_kbw s else sv_kbw other,
       sv_prev := if rt = PreviewSpec then sv_prev s else sv_prev other,
       sv_read := if rt \<in> {DocSpecGet, DocSpecPut, PreviewSpec} then sv_read s else sv_read other,
       sv_write := if rt = DocSpecPut then sv_write s else sv_write other\<rparr>"

lemma restricted_simps [simp]:
  "sv_kb (restricted rt s other) = (if rt = KBArea then sv_kb s else sv_kb other)"
  "sv_specs (restricted rt s other) = (if rt = DocSpecGet then sv_specs s else sv_specs other)"
  "sv_kbw (restricted rt s other) = (if rt = ProposeEntry then sv_kbw s else sv_kbw other)"
  "sv_prev (restricted rt s other) = (if rt = PreviewSpec then sv_prev s else sv_prev other)"
  "sv_read (restricted rt s other) = (if rt \<in> {DocSpecGet, DocSpecPut, PreviewSpec} then sv_read s else sv_read other)"
  "sv_write (restricted rt s other) = (if rt = DocSpecPut then sv_write s else sv_write other)"
  "specsDir (restricted rt s other) = specsDir s" "sv_yaml (restricted rt s other) = sv_yaml s"
  "sv_docspec (restricted rt s other) = sv_docspec s"
  by (simp_all add: restricted_def)

lemma edited_restricted [simp]: "edited_spec (restricted rt s other) orig edits = edited_spec s orig edits"
  by (simp add: edited_spec_def cong: sum.case_cong)

lemmas handler_defs =
  handleKBArea_def handleDocSpecGet_def handleDocSpecPut_def handleProposeEntry_def handlePreview_def

lemma handlers_restricted:
  "handleKBArea (restricted KBArea s other) r w = handleKBArea s r w"
  "handleDocSpecGet (restricted DocSpecGet s other) r w = handleDocSpecGet s r w"
  "handleDocSpecPut (restricted DocSpecPut s other) q w = handleDocSpecPut s q w"
  "handleProposeEntry (restricted ProposeEntry s other) p w = handleProposeEntry s p w"
  "handlePreview (restricted PreviewSpec s other) q w = handlePreview s q w"
  by (simp_all add: handler_defs cong: sum.case_cong option.case_cong prod.case_cong http_response.case_cong if_cong)

lemma handle_restricted: "handle (restricted rt s other) J rt call w = handle s J rt call w"
  by (cases rt) (simp_all add: handle_def handlers_restricted)

text \<open>A request that is not accepted leaves the world alone and gets one of three answers.\<close>

definition turned_away :: "api_wire \<Rightarrow> api_call \<Rightarrow> api_answer \<Rightarrow> bool" where
  "turned_away J call a =
     (if ca_Method call \<noteq> ''POST'' then a = Reply 405 ''application/json'' (json_error J (errorf ''POST required'' []) @ [NL])
      else (\<exists>e. a = Reply 400 ''application/json'' (json_error J (wrapf ''bad json body: %s'' [] e) @ [NL])))"

lemma handlers_refuse:
  "decodePOST r = Inl (c, m) \<Longrightarrow> handleKBArea s r w = (Fail c m, w)"
  "decodePOST r = Inl (c, m) \<Longrightarrow> handleDocSpecGet s r w = (Fail c m, w)"
  "decodePOST q = Inl (c, m) \<Longrightarrow> handleDocSpecPut s q w = (Fail c m, w)"
  "decodePOST p = Inl (c, m) \<Longrightarrow> handleProposeEntry s p w = (Fail c m, w)"
  "decodePOST q = Inl (c, m) \<Longrightarrow> handlePreview s q w = (Fail c m, w)"
  by (simp_all add: handler_defs)

lemma route_refused:
  assumes "ca_Method call = ''POST'' \<longrightarrow> isl (decode (ca_Body call))"
    and "\<And>r c m. decodePOST r = Inl (c, m) \<Longrightarrow> handler r w = (Fail c m, w)"
  shows "snd (map_prod (writeJSON (json_error J) encode) id (handler (with_body decode call) w)) = w"
    and "turned_away J call (fst (map_prod (writeJSON (json_error J) encode) id (handler (with_body decode call) w)))"
proof -
  obtain c m where "decodePOST (with_body decode call) = Inl (c, m)" and "turned_away J call (writeJSON (json_error J) encode (Fail c m))"
  proof (cases "ca_Method call = ''POST''")
    case True
    with assms(1) obtain e where "decode (ca_Body call) = Inl e" by (cases "decode (ca_Body call)") auto
    with True show ?thesis
      by (intro that [of 400 "wrapf ''bad json body: %s'' [] e"])
         (simp_all add: decodePOST_def with_body_def turned_away_def writeJSON_def, blast)
  next
    case False
    then show ?thesis
      by (intro that [of 405 "errorf ''POST required'' []"]) (simp_all add: decodePOST_def with_body_def turned_away_def writeJSON_def)
  qed
  with assms(2) show "snd (map_prod (writeJSON (json_error J) encode) id (handler (with_body decode call) w)) = w"
    and "turned_away J call (fst (map_prod (writeJSON (json_error J) encode) id (handler (with_body decode call) w)))"
    by auto
qed

lemma handle_refused:
  assumes "\<not> (ca_Method call = ''POST'' \<and> decodes J rt (ca_Body call))"
  shows "snd (handle s J rt call w) = w" and "turned_away J call (fst (handle s J rt call w))"
proof -
  note refused = route_refused [where handler = "handleKBArea s" and decode = "read_area J", OF _ handlers_refuse(1)]
    route_refused [where handler = "handleDocSpecGet s" and decode = "read_get J", OF _ handlers_refuse(2)]
    route_refused [where handler = "handleDocSpecPut s" and decode = "read_put J", OF _ handlers_refuse(3)]
    route_refused [where handler = "handleProposeEntry s" and decode = "read_propose J", OF _ handlers_refuse(4)]
    route_refused [where handler = "handlePreview s" and decode = "read_preview J", OF _ handlers_refuse(5)]
  show "snd (handle s J rt call w) = w" and "turned_away J call (fst (handle s J rt call w))"
    using assms by (cases rt; simp add: handle_def decodes_def refused del: fst_map_prod snd_map_prod)+
qed

text \<open>
  C39. The path of a request decides what it can reach: only \<open>put\<close> writes files, only a proposal reaches the
  knowledge base's writer, only a preview the previewer, and reading an area or a spec reaches the readers only;
  a request with another method, another path or a body that does not decode leaves the world alone, and is
  told so.
\<close>

theorem api_capabilities:
  "case map_of routes (ca_Path call) of
     None \<Rightarrow> ServeHTTP s J mux call w = (mux call, w)
   | Some rt \<Rightarrow>
       ServeHTTP s J mux call w = ServeHTTP (restricted rt s other) J mux call w \<and>
       (if ca_Method call = ''POST'' \<and> decodes J rt (ca_Body call) then True
        else snd (ServeHTTP s J mux call w) = w \<and> turned_away J call (fst (ServeHTTP s J mux call w)))"
  by (simp add: ServeHTTP_def handle_restricted handle_refused split: option.split)

end
