(* ===== verification/Serve.thy ===== *)
theory Serve
  imports Command SpecChat ApiRoutes
begin

text \<open>
  The command \<open>serve\<close> (cmd/mykb-curator/main.go): the API of the spec-chat agent, composed from the
  parts a run is composed from.
\<close>

section \<open>The composed server\<close>

text \<open>What the server takes from the operating system and from third-party packages beyond a run.\<close>

record 'w serving =
  sg_read :: "gostring \<Rightarrow> 'w \<Rightarrow> gostring res \<times> 'w"
  sg_write :: "gostring \<Rightarrow> gostring \<Rightarrow> 'w \<Rightarrow> gomsg option \<times> 'w"
  sg_yaml :: yaml_parse
  sg_docspec :: "gostring \<Rightarrow> doc_yaml res"
  sg_exec :: "'w exec"

definition composePreviewer :: "'w process \<Rightarrow> 'w serving \<Rightarrow> config \<Rightarrow> kb_choice \<Rightarrow> 'w llm_client \<Rightarrow> 'w previewer" where
  "composePreviewer P S c kb client =
     \<lparr>pw_kb = ps_kb P kb, pw_cluster = arch_Render (ps_quote P) (arch_of P c client),
      pw_judge = Review (ps_verdict P) client (lc_Model (cf_LLM c)), pw_decode = sg_docspec S\<rparr>"

definition composeServer :: "'w process \<Rightarrow> 'w serving \<Rightarrow> config \<Rightarrow> 'w server res" where
  "composeServer P S c =
     (if SpecStore_Type c \<noteq> ''local'' \<or> SpecStore_Repo c = []
      then Inl (errorf ''serve requires spec_store.type=local with a repo path'' [])
      else (case composeKBSource (ps_env P) c of
              Inl e \<Rightarrow> Inl e
            | Inr kb \<Rightarrow>
                (case composeLLMClient (ps_env P) c of
                   Inl e \<Rightarrow> Inl e
                 | Inr None \<Rightarrow> Inl (errorf ''serve requires an LLM (llm.provider != none) for preview render+judge'' [])
                 | Inr (Some llm) \<Rightarrow>
                     Inr \<lparr>sv_kb = ps_kb P kb, sv_specs = ps_docspecs P (SpecStore_Repo c), specsDir = SpecStore_Repo c,
                          sv_kbw = Some (AddEntry (sg_exec S) \<lparr>sw_Bin = ''kb'', MYKBDir = []\<rparr>),
                          sv_prev = Some (Preview (composePreviewer P S c kb (open_llm (ps_net P) llm))),
                          sv_read = sg_read S, sv_write = sg_write S, sv_yaml = sg_yaml S, sv_docspec = sg_docspec S\<rparr>)))"

definition serve_command ::
  "'w process \<Rightarrow> 'w serving \<Rightarrow> (gostring \<Rightarrow> gostring res) \<Rightarrow> (gostring \<Rightarrow> config res) \<Rightarrow> gostring \<Rightarrow> gostring \<Rightarrow> 'w server res" where
  "serve_command P S read decode wiki configPath =
     (if wiki = [] then Inl (errorf ''--wiki is required'' [])
      else (let path = config_path (ps_env P) wiki configPath in
            case config_Load path (read path) decode of Inl e \<Rightarrow> Inl e | Inr c \<Rightarrow> composeServer P S c))"

section \<open>The server and the runs\<close>

text \<open>
  C40. The server works with what a run works with: when it starts, the configuration names a knowledge base,
  a spec directory and a model, and every run of the configuration with these reads the same knowledge
  base and the same doc-specs as the server, and renders and judges with the renderer and the reviewer of the
  server's previewer.
\<close>

theorem server_shares_run:
  "case composeServer P S c of
     Inl e \<Rightarrow> True
   | Inr s \<Rightarrow>
       (case (composeSpecStore c, composeKBSource (ps_env P) c, composeLLMClient (ps_env P) c) of
          (Inr dir, Inr kb, Inr (Some llm)) \<Rightarrow>
            (let client = open_llm (ps_net P) llm;
                 p = composePreviewer P S c kb client;
                 d = composeDeps c (collaborators_of P c (op\<lparr>op_kb := kb, op_specs := dir, op_llm := Some client\<rparr>)) sink in
             KB_Pull d = sv_kb s \<and> DocSpecs d = Some (sv_specs s) \<and> specsDir s = dir \<and> sv_prev s = Some (Preview p) \<and>
             pw_kb p = KB_Pull d \<and> o_Cluster d = Some (pw_cluster p) \<and> o_Judge d = Some (pw_judge p))
        | _ \<Rightarrow> False)"
proof (cases "composeServer P S c")
  case (Inr s)
  then obtain kb llm where local: "SpecStore_Type c = ''local''" "SpecStore_Repo c \<noteq> []"
    and kb: "composeKBSource (ps_env P) c = Inr kb" and llm: "composeLLMClient (ps_env P) c = Inr (Some llm)"
    by (auto simp: composeServer_def split: if_splits sum.splits option.splits)
  have "composeSpecStore c = Inr (SpecStore_Repo c)" using local by (simp add: composeSpecStore_def)
  with Inr local kb llm show ?thesis
    by (auto simp: composeServer_def composeDeps_def collaborators_of_def docspecs_wired_def composePreviewer_def Let_def)
qed simp

end
