(* ===== verification/RunLock.thy ===== *)
theory RunLock
  imports Deployment
begin

text \<open>
  Runs of one machine that compete for the locks of their wikis (internal/lock/lock.go): what \<open>flock\<close> is
  documented to do, as operations on the table of open descriptors, and the runs as a step relation
  whose steps are the acquisition and the release of the code, or the end of a process that releases nothing.
\<close>

section \<open>The kernel\<close>

text \<open>Open descriptors with their files, and the descriptor that holds the lock of a file.\<close>

record machine =
  fds :: "nat \<rightharpoonup> gostring"
  holder :: "gostring \<rightharpoonup> nat"
  next_fd :: nat

definition k_open :: "gostring \<Rightarrow> machine \<Rightarrow> nat res \<times> machine" where
  "k_open p m = (Inr (next_fd m), m\<lparr>fds := (fds m)(next_fd m \<mapsto> p), next_fd := Suc (next_fd m)\<rparr>)"

definition EBADF :: gomsg where "EBADF = errorf ''bad file descriptor'' []"

definition k_lock :: "nat \<Rightarrow> machine \<Rightarrow> (bool \<times> gomsg) option \<times> machine" where
  "k_lock fd m =
     (case fds m fd of
        None \<Rightarrow> (Some (False, EBADF), m)
      | Some p \<Rightarrow>
          (case holder m p of
             None \<Rightarrow> (None, m\<lparr>holder := (holder m)(p \<mapsto> fd)\<rparr>)
           | Some h \<Rightarrow> if h = fd then (None, m) else (Some (True, errorf ''resource temporarily unavailable'' []), m)))"

definition drop_lock :: "nat \<Rightarrow> machine \<Rightarrow> machine" where
  "drop_lock fd m = m\<lparr>holder := (\<lambda>p. if holder m p = Some fd then None else holder m p)\<rparr>"

definition k_unlock :: "nat \<Rightarrow> machine \<Rightarrow> gomsg option \<times> machine" where
  "k_unlock fd m = (case fds m fd of None \<Rightarrow> (Some EBADF, m) | Some p \<Rightarrow> (None, drop_lock fd m))"

definition k_close :: "nat \<Rightarrow> machine \<Rightarrow> gomsg option \<times> machine" where
  "k_close fd m =
     (case fds m fd of None \<Rightarrow> (Some EBADF, m) | Some p \<Rightarrow> (None, (drop_lock fd m)\<lparr>fds := (fds m)(fd := None)\<rparr>))"

definition kernel :: "machine flock_sys" where
  "kernel = \<lparr>fl_open = k_open, fl_lock = k_lock, fl_unlock = k_unlock, fl_close = k_close\<rparr>"

definition idle_machine :: machine where
  "idle_machine = \<lparr>fds = Map.empty, holder = Map.empty, next_fd = 3\<rparr>"

lemmas kernel_defs =
  kernel_def k_open_def k_lock_def k_unlock_def k_close_def drop_lock_def

section \<open>Runs\<close>

type_synonym runs = "nat \<rightharpoonup> file_lock"

inductive lock_step :: "machine \<times> runs \<Rightarrow> machine \<times> runs \<Rightarrow> bool" where
  start: "R pid = None \<Longrightarrow> Acquire kernel path m = (Inr l, m') \<Longrightarrow> lock_step (m, R) (m', R(pid \<mapsto> l))"
| refused: "Acquire kernel path m = (Inl e, m') \<Longrightarrow> lock_step (m, R) (m', R)"
| finish: "R pid = Some l \<Longrightarrow> Release kernel l m = (res, m') \<Longrightarrow> lock_step (m, R) (m', R(pid := None))"
| crash: "R pid = Some l \<Longrightarrow> lk_file l = Some fd \<Longrightarrow> k_close fd m = (res, m') \<Longrightarrow> lock_step (m, R) (m', R(pid := None))"

definition lock_inv :: "machine \<Rightarrow> runs \<Rightarrow> bool" where
  "lock_inv m R =
     ((\<forall>pid l. R pid = Some l \<longrightarrow>
         (\<exists>fd. lk_file l = Some fd \<and> fds m fd = Some (lk_path l) \<and> holder m (lk_path l) = Some fd)) \<and>
      (\<forall>p fd. holder m p = Some fd \<longrightarrow> (\<exists>pid l. R pid = Some l \<and> lk_file l = Some fd \<and> lk_path l = p)) \<and>
      (\<forall>pid pid' l l'. R pid = Some l \<longrightarrow> R pid' = Some l' \<longrightarrow> lk_file l = lk_file l' \<longrightarrow> pid = pid') \<and>
      (\<forall>fd. fds m fd \<noteq> None \<longrightarrow> fd < next_fd m))"

lemma lock_invD:
  assumes "lock_inv m R"
  shows "R pid = Some l \<Longrightarrow> \<exists>fd. lk_file l = Some fd \<and> fds m fd = Some (lk_path l) \<and> holder m (lk_path l) = Some fd"
    and "holder m p = Some fd \<Longrightarrow> \<exists>pid l. R pid = Some l \<and> lk_file l = Some fd \<and> lk_path l = p"
    and "R pid = Some l \<Longrightarrow> R pid' = Some l' \<Longrightarrow> lk_file l = lk_file l' \<Longrightarrow> pid = pid'"
    and "fds m fd \<noteq> None \<Longrightarrow> fd < next_fd m"
  using assms unfolding lock_inv_def by blast+

lemma lock_invI:
  assumes "\<And>pid l. R pid = Some l \<Longrightarrow> \<exists>fd. lk_file l = Some fd \<and> fds m fd = Some (lk_path l) \<and> holder m (lk_path l) = Some fd"
    and "\<And>p fd. holder m p = Some fd \<Longrightarrow> \<exists>pid l. R pid = Some l \<and> lk_file l = Some fd \<and> lk_path l = p"
    and "\<And>pid pid' l l'. R pid = Some l \<Longrightarrow> R pid' = Some l' \<Longrightarrow> lk_file l = lk_file l' \<Longrightarrow> pid = pid'"
    and "\<And>fd p. fds m fd = Some p \<Longrightarrow> fd < next_fd m"
  shows "lock_inv m R"
  using assms unfolding lock_inv_def by auto

text \<open>What an acquisition does on this kernel.\<close>

lemma Acquire_kernel:
  assumes "lock_inv m R"
  shows "Acquire kernel path m =
     (if holder m path = None
      then (Inr \<lparr>lk_path = path, lk_file = Some (next_fd m)\<rparr>,
            m\<lparr>fds := (fds m)(next_fd m \<mapsto> path), holder := (holder m)(path \<mapsto> next_fd m), next_fd := Suc (next_fd m)\<rparr>)
      else (Inl (Locked path), m\<lparr>next_fd := Suc (next_fd m)\<rparr>))"
proof -
  have fresh: "fds m (next_fd m) = None" using lock_invD(4) [OF assms] by (metis less_irrefl)
  have unheld: "holder m p \<noteq> Some (next_fd m)" for p
    using lock_invD(1,2) [OF assms] fresh by (metis option.distinct(1) option.inject)
  have "fds m = (fds m)(next_fd m := None)" using fresh by (simp add: fun_upd_idem)
  with unheld show ?thesis
    by (auto simp: Acquire_def kernel_defs Let_def fun_eq_iff split: option.split)
qed

text \<open>What the end of a run does, by the release of the code or by the kernel.\<close>

lemma ended_kernel:
  assumes "lock_inv m R" and "R pid = Some l"
  obtains fd where "lk_file l = Some fd"
    and "snd (k_close fd m) = m\<lparr>holder := (holder m)(lk_path l := None), fds := (fds m)(fd := None)\<rparr>"
    and "snd (Release kernel l m) = m\<lparr>holder := (holder m)(lk_path l := None), fds := (fds m)(fd := None)\<rparr>"
proof -
  from lock_invD(1) [OF assms] obtain fd where fd: "lk_file l = Some fd" "fds m fd = Some (lk_path l)" "holder m (lk_path l) = Some fd"
    by blast
  have other: "holder m p \<noteq> Some fd" if "p \<noteq> lk_path l" for p
    using lock_invD(2,3) [OF assms(1)] assms(2) fd(1) that by (metis option.inject)
  let ?h = "(holder m)(lk_path l := None)"
  have "drop_lock fd m = m\<lparr>holder := ?h\<rparr>" "drop_lock fd (m\<lparr>holder := ?h\<rparr>) = m\<lparr>holder := ?h\<rparr>"
    using fd(3) other by (cases m; auto simp: drop_lock_def fun_eq_iff)+
  with fd show ?thesis
    by (intro that [OF fd(1)]) (simp_all add: Release_def kernel_def k_unlock_def k_close_def)
qed

lemma lock_inv_start:
  assumes inv: "lock_inv m R" and "R pid = None" and "holder m path = None"
  shows "lock_inv (m\<lparr>fds := (fds m)(next_fd m \<mapsto> path), holder := (holder m)(path \<mapsto> next_fd m), next_fd := Suc (next_fd m)\<rparr>)
           (R(pid \<mapsto> \<lparr>lk_path = path, lk_file = Some (next_fd m)\<rparr>))"
proof -
  have fresh: "fds m (next_fd m) = None" using lock_invD(4) [OF inv] by (metis less_irrefl)
  have old: "lk_path l \<noteq> path" "lk_file l \<noteq> Some (next_fd m)" if "R i = Some l" for i l
    using lock_invD(1) [OF inv that] assms(3) fresh by auto
  have own: "R i = Some l \<Longrightarrow> i \<noteq> pid" for i l using assms(2) by auto
  let ?m = "m\<lparr>fds := (fds m)(next_fd m \<mapsto> path), holder := (holder m)(path \<mapsto> next_fd m), next_fd := Suc (next_fd m)\<rparr>"
  let ?l = "\<lparr>lk_path = path, lk_file = Some (next_fd m)\<rparr>"
  show ?thesis
  proof (rule lock_invI)
    fix i l assume i: "(R(pid \<mapsto> ?l)) i = Some l"
    show "\<exists>fd. lk_file l = Some fd \<and> fds ?m fd = Some (lk_path l) \<and> holder ?m (lk_path l) = Some fd"
    proof (cases "i = pid")
      case False
      with i have "R i = Some l" by simp
      with lock_invD(1) [OF inv this] old [OF this] show ?thesis by fastforce
    qed (use i in auto)
  next
    fix p fd assume h: "holder ?m p = Some fd"
    show "\<exists>i l. (R(pid \<mapsto> ?l)) i = Some l \<and> lk_file l = Some fd \<and> lk_path l = p"
    proof (cases "p = path")
      case False
      with h lock_invD(2) [OF inv, of p fd] obtain i l where "R i = Some l" "lk_file l = Some fd" "lk_path l = p" by auto
      with own [of i l] show ?thesis by (intro exI [of _ i] exI [of _ l]) simp
    qed (use h in auto)
  next
    fix i j l l' assume "(R(pid \<mapsto> ?l)) i = Some l" "(R(pid \<mapsto> ?l)) j = Some l'" "lk_file l = lk_file l'"
    then show "i = j" using lock_invD(3) [OF inv, of i l j l'] old [of i l] old [of j l'] by (auto split: if_splits)
  next
    fix fd p assume "fds ?m fd = Some p"
    then show "fd < next_fd ?m" using lock_invD(4) [OF inv, of fd] by (auto split: if_splits)
  qed
qed

lemma lock_inv_end:
  assumes inv: "lock_inv m R" and l: "R pid = Some l" "lk_file l = Some fd"
  shows "lock_inv (m\<lparr>holder := (holder m)(lk_path l := None), fds := (fds m)(fd := None)\<rparr>) (R(pid := None))"
proof -
  from lock_invD(1) [OF inv l(1)] l(2) have held: "holder m (lk_path l) = Some fd" by auto
  have other: "lk_path l' \<noteq> lk_path l" "lk_file l' \<noteq> Some fd" if "R i = Some l'" "i \<noteq> pid" for i l'
    using lock_invD(1) [OF inv that(1)] lock_invD(3) [OF inv that(1) l(1)] that(2) l(2) held by auto
  let ?m = "m\<lparr>holder := (holder m)(lk_path l := None), fds := (fds m)(fd := None)\<rparr>"
  show ?thesis
  proof (rule lock_invI)
    fix i l' assume "(R(pid := None)) i = Some l'"
    then have i: "R i = Some l'" "i \<noteq> pid" by (auto split: if_splits)
    from lock_invD(1) [OF inv i(1)] other [OF i]
    show "\<exists>fd. lk_file l' = Some fd \<and> fds ?m fd = Some (lk_path l') \<and> holder ?m (lk_path l') = Some fd" by fastforce
  next
    fix p fd' assume "holder ?m p = Some fd'"
    then have p: "holder m p = Some fd'" "p \<noteq> lk_path l" by (auto split: if_splits)
    from lock_invD(2) [OF inv p(1)] obtain i l' where "R i = Some l'" "lk_file l' = Some fd'" "lk_path l' = p" by blast
    with p(2) l(1) show "\<exists>i l'. (R(pid := None)) i = Some l' \<and> lk_file l' = Some fd' \<and> lk_path l' = p"
      by (intro exI [of _ i] exI [of _ l']) auto
  next
    fix i j l1 l2 assume "(R(pid := None)) i = Some l1" "(R(pid := None)) j = Some l2" "lk_file l1 = lk_file l2"
    then show "i = j" using lock_invD(3) [OF inv, of i l1 j l2] by (auto split: if_splits)
  next
    fix fd' p assume "fds ?m fd' = Some p"
    then show "fd' < next_fd ?m" using lock_invD(4) [OF inv, of fd'] by (auto split: if_splits)
  qed
qed

lemma lock_inv_step:
  assumes "lock_inv m R" and "lock_step (m, R) (m', R')"
  shows "lock_inv m' R'"
  using assms(2)
proof (cases rule: lock_step.cases)
  case (start pid path l)
  with lock_inv_start [OF assms(1)] show ?thesis
    by (auto simp: Acquire_kernel [OF assms(1)] split: if_splits)
next
  case (refused path e)
  with assms(1) show ?thesis
    by (auto simp: Acquire_kernel [OF assms(1)] lock_inv_def less_Suc_eq split: if_splits)
next
  case (finish pid l res)
  from ended_kernel [OF assms(1) finish(2)] obtain fd where "lk_file l = Some fd"
    "m' = m\<lparr>holder := (holder m)(lk_path l := None), fds := (fds m)(fd := None)\<rparr>"
    using finish(3) by (metis snd_conv)
  with lock_inv_end [OF assms(1) finish(2)] finish(1) show ?thesis by simp
next
  case (crash pid l fd res)
  from ended_kernel [OF assms(1) crash(2)] crash(3,4) have
    "m' = m\<lparr>holder := (holder m)(lk_path l := None), fds := (fds m)(fd := None)\<rparr>"
    by (metis option.inject snd_conv)
  with lock_inv_end [OF assms(1) crash(2,3)] crash(1) show ?thesis by simp
qed

text \<open>
  C8. Runs of a wiki exclude each other and leave no lock behind: whatever runs start, end or are killed
  on a machine, no two running ones have the same lock file; and a run that asks for a lock gets it exactly
  when no running one has it, and is otherwise told that it is locked.
\<close>

theorem runs_exclusive:
  assumes "lock_step\<^sup>*\<^sup>* (idle_machine, Map.empty) (m, R)"
  shows "inj_on (\<lambda>pid. lk_path (the (R pid))) (dom R) \<and>
     (case fst (Acquire kernel path m) of
        Inr l \<Rightarrow> lk_path l = path \<and> path \<notin> lk_path ` ran R
      | Inl e \<Rightarrow> e = Locked path \<and> path \<in> lk_path ` ran R)"
proof -
  have inv: "lock_inv m R"
    using assms
  proof (induction "(m, R)" arbitrary: m R rule: rtranclp_induct)
    case base
    then show ?case by (simp add: lock_inv_def idle_machine_def)
  next
    case (step s)
    then show ?case by (cases s) (blast intro: lock_inv_step)
  qed
  have "inj_on (\<lambda>pid. lk_path (the (R pid))) (dom R)"
  proof (rule inj_onI)
    fix pid pid' assume "pid \<in> dom R" "pid' \<in> dom R" "lk_path (the (R pid)) = lk_path (the (R pid'))"
    then obtain l l' where "R pid = Some l" "R pid' = Some l'" "lk_path l = lk_path l'" by auto
    with lock_invD(1,3) [OF inv] show "pid = pid'" by (metis option.inject)
  qed
  moreover have "holder m path = None \<longleftrightarrow> path \<notin> lk_path ` ran R"
  proof
    show "path \<notin> lk_path ` ran R" if "holder m path = None" using lock_invD(1) [OF inv] that by (force simp: ran_def)
    show "holder m path = None" if "path \<notin> lk_path ` ran R"
      using lock_invD(2) [OF inv, of path] that by (cases "holder m path") (auto intro: ranI)
  qed
  ultimately show ?thesis by (simp add: Acquire_kernel [OF inv])
qed

text \<open>The first of two runs is killed, and its wiki can be locked again while the other runs.\<close>

theorem runs_exclusive_witness:
  "\<exists>m R. lock_step\<^sup>*\<^sup>* (idle_machine, Map.empty) (m, R) \<and> dom R = {2} \<and>
     (case fst (Acquire kernel ''a/curator.lock'' m) of Inr l \<Rightarrow> True | Inl e \<Rightarrow> False) \<and>
     fst (Acquire kernel ''b/curator.lock'' m) = Inl (Locked ''b/curator.lock'')"
proof -
  let ?s1 = "Acquire kernel ''a/curator.lock'' idle_machine"
  let ?l1 = "\<lparr>lk_path = ''a/curator.lock'', lk_file = Some 3\<rparr>" and ?l2 = "\<lparr>lk_path = ''b/curator.lock'', lk_file = Some 4\<rparr>"
  have one: "lock_step (idle_machine, Map.empty) (snd ?s1, [1 \<mapsto> ?l1])"
    by (rule lock_step.start [where path = "''a/curator.lock''"]) (simp_all add: Acquire_def kernel_defs idle_machine_def Let_def)
  let ?s2 = "Acquire kernel ''b/curator.lock'' (snd ?s1)"
  have two: "lock_step (snd ?s1, [1 \<mapsto> ?l1]) (snd ?s2, [1 \<mapsto> ?l1, 2 \<mapsto> ?l2])"
    by (rule lock_step.start [where path = "''b/curator.lock''"]) (simp_all add: Acquire_def kernel_defs idle_machine_def Let_def)
  let ?m = "snd (k_close 3 (snd ?s2))" and ?R = "[2 \<mapsto> ?l2] :: runs"
  have "[1 \<mapsto> ?l1, 2 \<mapsto> ?l2] (1 := None) = ?R" by (auto simp: fun_eq_iff)
  with lock_step.crash [of "[1 \<mapsto> ?l1, 2 \<mapsto> ?l2]" 1 ?l1 3 "snd ?s2" "fst (k_close 3 (snd ?s2))" ?m]
  have three: "lock_step (snd ?s2, [1 \<mapsto> ?l1, 2 \<mapsto> ?l2]) (?m, ?R)" by simp
  have reach: "lock_step\<^sup>*\<^sup>* (idle_machine, Map.empty) (?m, ?R)"
    using one two three by (meson converse_rtranclp_into_rtranclp rtranclp.rtrancl_refl)
  have "''a/curator.lock'' \<notin> lk_path ` ran ?R" "''b/curator.lock'' \<in> lk_path ` ran ?R" by auto
  with runs_exclusive [OF reach, of "''a/curator.lock''"] runs_exclusive [OF reach, of "''b/curator.lock''"]
  have "case fst (Acquire kernel ''a/curator.lock'' ?m) of Inr l \<Rightarrow> True | Inl e \<Rightarrow> False"
    "fst (Acquire kernel ''b/curator.lock'' ?m) = Inl (Locked ''b/curator.lock'')"
    by (auto split: sum.splits)
  with reach show ?thesis by (intro exI [of _ ?m] exI [of _ ?R]) simp
qed

end
