(* ===== verification/Keeping.thy ===== *)
theory Keeping
  imports RunFrame Maintenance Diagrams GitSource Mermaid
begin

text \<open>
  What the collaborators of a run keep: an operation of a component keeps a predicate of the world when
  the operations it is given do.  With RunFrame, a predicate that all of them keep survives the run.
\<close>

section \<open>Synthesis\<close>

definition llm_keeps :: "('w \<Rightarrow> bool) \<Rightarrow> 'w llm_client \<Rightarrow> bool" where
  "llm_keeps P client = (\<forall>req. keeps P (client req))"

definition arch_keeps :: "('w \<Rightarrow> bool) \<Rightarrow> 'w arch_frontend \<Rightarrow> bool" where
  "arch_keeps P f = (llm_keeps P (fe_llm f) \<and> (\<forall>scheme r s. resolvers f scheme = Some r \<longrightarrow> keeps P (r s)))"

lemma llm_keepsD: "llm_keeps P client \<Longrightarrow> client req w = (r, w') \<Longrightarrow> P w \<Longrightarrow> P w'"
  unfolding llm_keeps_def using keepsD by fast

lemma arch_llm: "arch_keeps P f \<Longrightarrow> fe_llm f req w = (r, w') \<Longrightarrow> P w \<Longrightarrow> P w'"
  by (auto simp: arch_keeps_def dest: llm_keepsD)

lemma keeps_resolveNonKB: "arch_keeps P f \<Longrightarrow> keeps P (resolveNonKB f s)"
  by (rule keepsI) (auto simp: resolveNonKB_def arch_keeps_def split: option.splits dest: keepsD)

lemma resolveSources_keeps: "arch_keeps P f \<Longrightarrow> resolveSources f snap ss w = (r, w') \<Longrightarrow> P w \<Longrightarrow> P w'"
proof (induction ss arbitrary: w r w')
  case (Cons s ss)
  obtain e w1 where e: "resolveNonKB f s w = (e, w1)" by fastforce
  have w1: "P w1" by (rule keepsD [OF keeps_resolveNonKB [OF Cons.prems(1)] e Cons.prems(3)])
  obtain e2 w2 where e2: "resolveSources f snap ss w1 = (e2, w2)" by fastforce
  obtain e3 w3 where e3: "resolveSources f snap ss w = (e3, w3)" by fastforce
  from Cons.IH [OF Cons.prems(1) e2 w1] Cons.IH [OF Cons.prems(1) e3 Cons.prems(3)] Cons.prems(2) e e2 e3 w1 show ?case
    by (cases e; cases e2; cases e3) (auto split: if_splits option.splits)
qed simp

lemma table_rows_keeps: "arch_keeps P f \<Longrightarrow> table_rows f snap ss rows w = (r, w') \<Longrightarrow> P w \<Longrightarrow> P w'"
proof (induction ss arbitrary: rows w r w')
  case (Cons s ss)
  obtain e w1 where e: "resolveNonKB f s w = (e, w1)" by fastforce
  have w1: "P w1" by (rule keepsD [OF keeps_resolveNonKB [OF Cons.prems(1)] e Cons.prems(3)])
  from Cons.IH [OF Cons.prems(1)] Cons.prems e w1 show ?case
    by (cases e) (auto split: if_splits option.splits)
qed simp

lemma keeps_synthProse: "arch_keeps P f \<Longrightarrow> keeps P (synthProse quote f page sec snap sys h fb)"
  by (rule keepsI)
    (auto simp: synthProse_def Let_def split: prod.splits sum.splits option.splits
      dest: resolveSources_keeps arch_llm)

lemma keeps_render_section: "arch_keeps P f \<Longrightarrow> keeps P (render_section quote f page sec snap)"
  by (rule keepsI)
    (auto simp: render_section_def tableFromSources_def split: prod.splits sum.splits if_splits
      dest: table_rows_keeps keepsD [OF keeps_synthProse])

lemma render_sections_keeps: "arch_keeps P f \<Longrightarrow> render_sections quote f page snap secs w = (r, w') \<Longrightarrow> P w \<Longrightarrow> P w'"
proof (induction secs arbitrary: w r w')
  case (Cons sec secs)
  obtain e w1 where e: "render_section quote f page sec snap w = (e, w1)" by fastforce
  have w1: "P w1" by (rule keepsD [OF keeps_render_section [OF Cons.prems(1)] e Cons.prems(3)])
  obtain e2 w2 where e2: "render_sections quote f page snap secs w1 = (e2, w2)" by fastforce
  from Cons.IH [OF Cons.prems(1) e2 w1] Cons.prems(2) e e2 w1 show ?case by (cases e; cases e2) auto
qed simp

lemma keeps_arch_Render: "arch_keeps P f \<Longrightarrow> keeps P (arch_Render quote f page snap)"
  by (rule keepsI) (auto simp: arch_Render_def split: prod.splits sum.splits dest: render_sections_keeps)

lemma keeps_ReviseSection: "arch_keeps P f \<Longrightarrow> keeps P (ReviseSection quote f page sec snap fb)"
  by (rule keepsI) (auto simp: ReviseSection_def dest: keepsD [OF keeps_synthProse])

lemma keeps_editorial: "llm_keeps P client \<Longrightarrow> keeps P (editorial_Build client model s snap)"
  by (rule keepsI) (auto simp: editorial_Build_def split: prod.splits sum.splits if_splits dest: llm_keepsD)

lemma review_sections_keeps:
  "llm_keeps P client \<Longrightarrow> review_sections decode client model page bodies g secs w = (r, w') \<Longrightarrow> P w \<Longrightarrow> P w'"
proof (induction secs arbitrary: w r w')
  case (Cons sec secs)
  let ?ask = "ask model judge_systemPrompt (judge_composePrompt page sec (TrimSpace (bodies (ds_Title sec))) (g (ds_Title sec))) 1024"
  obtain e w1 where e: "client ?ask w = (e, w1)" by fastforce
  have w1: "P w1" by (rule llm_keepsD [OF Cons.prems(1) e Cons.prems(3)])
  obtain e2 w2 where e2: "review_sections decode client model page bodies g secs w1 = (e2, w2)" by fastforce
  obtain e3 w3 where e3: "review_sections decode client model page bodies g secs w = (e3, w3)" by fastforce
  from Cons.IH [OF Cons.prems(1) e2 w1] Cons.IH [OF Cons.prems(1) e3 Cons.prems(3)] Cons.prems(2) e e2 e3 w1 show ?case
    by (cases e; cases e2; cases e3) (auto simp: Let_def split: if_splits)
qed simp

lemma keeps_Review: "llm_keeps P client \<Longrightarrow> keeps P (Review decode client model page doc g)"
  by (rule keepsI) (auto simp: Review_def split: prod.splits sum.splits dest: review_sections_keeps)

section \<open>Git sources\<close>

lemma keeps_git_out: "(\<And>args. keeps P (git args)) \<Longrightarrow> keeps P (git_out git dir args)"
  by (rule keepsI) (auto simp: git_out_def split: prod.splits sum.splits dest: keepsD)

lemma curated_files_keeps:
  assumes "\<And>args. keeps P (git args)"
  shows "curated_files git dir repo ref commit fs w = (r, w') \<Longrightarrow> P w \<Longrightarrow> P w'"
proof (induction fs arbitrary: w r w')
  case (Cons f fs)
  obtain e w1 where e: "git_out git dir [''show'', ref @ '':'' @ f] w = (e, w1)" by fastforce
  have w1: "P w1" by (rule keepsD [OF keeps_git_out [OF assms] e Cons.prems(2)])
  with Cons.IH [OF _ w1] Cons.prems(1) e show ?case by (cases e) (auto split: prod.splits)
qed simp

lemma keeps_git_Resolve:
  assumes "\<And>args. keeps P (git args)"
  shows "keeps P (git_Resolve U r git s)"
proof -
  note out = keepsD [OF keeps_git_out [OF assms]]
  have resolve_file: "keeps P (resolveFile git dir repo ref commit path)" for dir repo ref commit path
    by (rule keepsI) (auto simp: resolveFile_def Let_def split: if_splits prod.splits sum.splits dest: out)
  have resolve_repo: "keeps P (resolveRepo U git dir repo ref commit)" for dir repo ref commit
    by (rule keepsI)
      (auto simp: resolveRepo_def Let_def split: prod.splits sum.splits dest: out curated_files_keeps [OF assms])
  show ?thesis
    by (rule keepsI)
      (auto simp: git_Resolve_def Let_def split: if_splits prod.splits sum.splits option.splits
        dest: out keepsD [OF resolve_file] keepsD [OF resolve_repo])
qed

section \<open>Diagrams\<close>

definition tool_keeps :: "('w \<Rightarrow> bool) \<Rightarrow> 'w tool \<Rightarrow> bool" where
  "tool_keeps P T =
     (keeps P (tl_mkdirTemp T) \<and> (\<forall>p t. keeps P (tl_write T p t)) \<and> (\<forall>bin args. keeps P (tl_run T bin args)) \<and>
      (\<forall>p. keeps P (tl_read T p)) \<and> (\<forall>p w. P w \<longrightarrow> P (tl_removeAll T p w)))"

lemma tool_keepsD:
  assumes "tool_keeps P T"
  shows "tl_mkdirTemp T w = (a, w') \<Longrightarrow> P w \<Longrightarrow> P w'" and "tl_write T p t w = (b, w') \<Longrightarrow> P w \<Longrightarrow> P w'"
    and "tl_run T bin args w = (c, w') \<Longrightarrow> P w \<Longrightarrow> P w'" and "tl_read T p w = (e, w') \<Longrightarrow> P w \<Longrightarrow> P w'"
    and "P w \<Longrightarrow> P (tl_removeAll T p w)"
  using assms unfolding tool_keeps_def by (blast dest: keepsD)+

lemma keeps_mermaid:
  assumes "tool_keeps P T"
  shows "keeps P (mermaid_Render T bin puppeteer lang source)"
proof -
  have in_dir: "keeps P (mermaid_in_dir T b puppeteer source dir)" for b dir
    by (rule keepsI)
      (auto simp: mermaid_in_dir_def Let_def split: prod.splits sum.splits option.splits dest: tool_keepsD(1-4) [OF assms])
  show ?thesis
    by (rule keepsI)
      (auto simp: mermaid_Render_def split: prod.splits sum.splits if_splits intro!: tool_keepsD(5) [OF assms]
        dest: tool_keepsD(1) [OF assms] keepsD [OF in_dir])
qed

lemma keeps_llm_Repair: "llm_keeps P client \<Longrightarrow> keeps P (llm_Repair client model lang source err)"
  by (rule keepsI) (auto simp: llm_Repair_def split: prod.splits sum.splits dest: llm_keepsD)

definition diagrams_keep :: "('w \<Rightarrow> bool) \<Rightarrow> 'w diagrams \<Rightarrow> bool" where
  "diagrams_keep P D =
     ((\<forall>l s. keeps P (dg_Render D l s)) \<and> (\<forall>n i t m. keeps P (dg_Upload D n i t m)) \<and>
      (\<forall>rp l s e. dg_Repair D = Some rp \<longrightarrow> keeps P (rp l s e)))"

lemma repair_loop_keeps:
  assumes "diagrams_keep P D" and "dg_Repair D = Some rp"
  shows "repair_loop D rp lang n cur e w = (r, w') \<Longrightarrow> P w \<Longrightarrow> P w'"
proof (induction n arbitrary: cur e w)
  case (Suc n)
  obtain e1 w1 where q: "rp lang cur e w = (e1, w1)" by fastforce
  have w1: "P w1" using assms Suc.prems(2) q unfolding diagrams_keep_def by (metis keepsD)
  obtain e2 w2 where q2: "dg_Render D lang (projr e1) w1 = (e2, w2)" by fastforce
  have w2: "P w2" using assms(1) w1 q2 unfolding diagrams_keep_def by (metis keepsD)
  from Suc.IH [OF _ w2] Suc.prems(1) q q2 w1 w2 show ?case by (cases e1; cases e2) (auto split: if_splits)
qed simp

lemma keeps_renderOne:
  assumes "diagrams_keep P D"
  shows "keeps P (renderOne D lang source asset prov)"
proof -
  have render: "dg_Render D l s w = (r, w') \<Longrightarrow> P w \<Longrightarrow> P w'" and upload: "dg_Upload D n i t m w = (r', w') \<Longrightarrow> P w \<Longrightarrow> P w'"
    for l s w r w' n i t m r' using assms unfolding diagrams_keep_def by (metis keepsD)+
  have up: "keeps P (upload_image D lang source prov i t)" for i t
    by (rule keepsI) (auto simp: upload_image_def Let_def split: prod.splits sum.splits dest: upload)
  show ?thesis
    by (rule keepsI)
      (auto simp: renderOne_def split: if_splits prod.splits option.splits render_result.splits
        dest: render keepsD [OF up] repair_loop_keeps [OF assms])
qed

lemma render_blocks_keeps: "diagrams_keep P D \<Longrightarrow> render_blocks D bs w = (r, w') \<Longrightarrow> P w \<Longrightarrow> P w'"
proof (induction bs arbitrary: w r w')
  case (Cons b bs)
  obtain e w1 where e: "(case b of DiagramBlock lang source asset prov \<Rightarrow> renderOne D lang source asset prov w | _ \<Rightarrow> (Inr b, w)) = (e, w1)"
    by fastforce
  have w1: "P w1" using e Cons.prems(3) by (auto split: block.splits dest: keepsD [OF keeps_renderOne [OF Cons.prems(1)]])
  obtain x w2 where x: "render_blocks D bs w1 = (x, w2)" by fastforce
  from Cons.prems(2) have "(case (e, w1) of (Inl er, w) \<Rightarrow> ((b # bs, Some er), w)
      | (Inr b', w) \<Rightarrow> (case render_blocks D bs w of ((bs', r), w) \<Rightarrow> ((b' # bs', r), w))) = (r, w')"
    by (simp only: render_blocks.simps e)
  with Cons.IH [OF Cons.prems(1) x w1] x w1 show ?case by (cases e; cases x) auto
qed simp

lemma diagram_sections_keeps: "diagrams_keep P D \<Longrightarrow> diagram_sections D ss w = (r, w') \<Longrightarrow> P w \<Longrightarrow> P w'"
proof (induction ss arbitrary: w r w')
  case (Cons s ss)
  obtain bs e w1 where e: "render_blocks D (Blocks s) w = ((bs, e), w1)" by (metis prod.collapse)
  have w1: "P w1" by (rule render_blocks_keeps [OF Cons.prems(1) e Cons.prems(3)])
  obtain x w2 where x: "diagram_sections D ss w1 = (x, w2)" by fastforce
  from Cons.IH [OF Cons.prems(1) x w1] Cons.prems(2) e x w1 show ?case by (cases e; cases x) auto
qed simp

lemma keeps_RenderDiagrams: "diagrams_keep P D \<Longrightarrow> keeps P (pass_Apply (RenderDiagrams D) doc)"
  by (rule keepsI) (auto simp: RenderDiagrams_def split: prod.splits dest: diagram_sections_keeps)

section \<open>Maintenance\<close>

lemma scan_entries_keeps:
  assumes "\<And>a e. keeps P (f a e)"
  shows "scan_entries f es w = (r, w') \<Longrightarrow> P w \<Longrightarrow> P w'"
proof (induction es arbitrary: w r w')
  case (Cons ae es)
  obtain a en where ae: "ae = (a, en)" by fastforce
  obtain e w1 where e: "f a en w = (e, w1)" by fastforce
  have w1: "P w1" by (rule keepsD [OF assms e Cons.prems(2)])
  obtain x w2 where x: "scan_entries f es w1 = (x, w2)" by fastforce
  from Cons.IH [OF x w1] Cons.prems(1) ae e x w1 show ?case by (cases e; cases x) auto
qed simp

lemma keeps_stale: "keeps P (st_now c) \<Longrightarrow> keeps P (stale_Run parse c snap)"
proof -
  assume now: "keeps P (st_now c)"
  have check: "keeps P (stale_check parse c cutoff a e)" for cutoff a e
    by (rule keepsI) (auto simp: stale_check_def split: if_splits option.splits prod.splits dest: keepsD [OF now])
  show ?thesis
    by (rule keepsI) (auto simp: stale_Run_def split: prod.splits dest: scan_entries_keeps [OF check] keepsD [OF now])
qed

lemma keeps_linkrot: "(\<And>url. keeps P (head url)) \<Longrightarrow> keeps P (linkrot_Run head snap)"
proof -
  assume head: "\<And>url. keeps P (head url)"
  have check: "keeps P (linkrot_check head a e)" for a e
    by (rule keepsI)
      (auto simp: linkrot_check_def probe_def split: if_splits prod.splits probe_result.splits dest: keepsD [OF head])
  show ?thesis by (rule keepsI) (auto simp: linkrot_Run_def dest: scan_entries_keeps [OF check])
qed

lemma keeps_truth:
  assumes "llm_keeps P (tc_llm c)" and "\<And>q. keeps P (Search c q)" and "keeps P (tc_now c)"
  shows "keeps P (truth_Run c snap)"
proof -
  have "keeps P (checkFact c a e)" for a e
    by (rule keepsI)
      (auto simp: checkFact_def Let_def split: prod.splits sum.splits list.splits
        dest: keepsD [OF assms(2)] llm_keepsD [OF assms(1)] keepsD [OF assms(3)])
  then have check: "keeps P (truth_entry c a e)" for a e
    by (intro keepsI) (auto simp: truth_entry_def split: if_splits dest: keepsD)
  show ?thesis by (rule keepsI) (auto simp: truth_Run_def split: if_splits dest: scan_entries_keeps [OF check])
qed

definition repo_keeps :: "('w \<Rightarrow> bool) \<Rightarrow> 'w pr_repo \<Rightarrow> bool" where
  "repo_keeps P g =
     (keeps P (OpenWorktree g) \<and> (\<forall>r. keeps P (ResolveRevision g r)) \<and> (\<forall>r h. keeps P (SetReference g r h)) \<and>
      (\<forall>b w. P w \<longrightarrow> P (CreateBranch g b w)) \<and> (\<forall>b. keeps P (Checkout g b)) \<and> (\<forall>p t. keeps P (WriteSummary g p t)) \<and>
      (\<forall>p. keeps P (git_Add g p)) \<and> (\<forall>m a. keeps P (git_Commit g m a)))"

lemma keeps_Submit:
  assumes "repo_keeps P g"
  shows "keeps P (Submit g today inp)"
proof -
  note ops = assms [unfolded repo_keeps_def]
  have ops': "OpenWorktree g w = (a, w') \<Longrightarrow> P w \<Longrightarrow> P w'" "ResolveRevision g r w = (b, w') \<Longrightarrow> P w \<Longrightarrow> P w'"
    "SetReference g r h w = (a, w') \<Longrightarrow> P w \<Longrightarrow> P w'" "Checkout g br w = (a, w') \<Longrightarrow> P w \<Longrightarrow> P w'"
    "WriteSummary g p t w = (a, w') \<Longrightarrow> P w \<Longrightarrow> P w'" "git_Add g p w = (a, w') \<Longrightarrow> P w \<Longrightarrow> P w'"
    "git_Commit g m au w = (b, w') \<Longrightarrow> P w \<Longrightarrow> P w'" "P w \<Longrightarrow> P (CreateBranch g br w)" for w w' a b r h br p t m au
    using ops by (blast dest: keepsD)+
  show ?thesis
    by (rule keepsI)
      (auto simp: Submit_def checked_def Let_def split: if_splits prod.splits option.splits sum.splits dest!: ops'(1-7) intro: ops'(8))
qed

end
