(* ===== verification/RunRelease.thy ===== *)
theory RunRelease
  imports Keeping Command
begin

text \<open>
  A run closes what it opens (cmd/mykb-curator/main.go): the lock file and the run-state database are closed on
  every way out of a run, whatever fails.  The parts of the process are assumed to leave the open files of
  others alone; that a run of the whole program then does follows from what its components keep.
\<close>

section \<open>The deployed collaborators\<close>

definition wiki_keeps :: "('w \<Rightarrow> bool) \<Rightarrow> 'w wiki_target \<Rightarrow> bool" where
  "wiki_keeps P T =
     ((\<forall>t. keeps P (GetPage T t)) \<and> (\<forall>t c s. keeps P (UpsertPage T t c s)) \<and> (\<forall>t s. keeps P (History T t s)) \<and>
      (\<forall>t r. keeps P (HumanEditsSinceBot T t r)) \<and> (\<forall>n i t s. keeps P (UploadFile T n i t s)))"

definition store_keeps :: "('w \<Rightarrow> bool) \<Rightarrow> ('v, 'w) store \<Rightarrow> bool" where
  "store_keeps P st = ((\<forall>k. keeps P (st_Get st k)) \<and> (\<forall>k v. keeps P (st_Set st k v)))"

definition collaborators_keep :: "('w \<Rightarrow> bool) \<Rightarrow> 'w collaborators \<Rightarrow> bool" where
  "collaborators_keep P co =
     (keeps P (co_KB_Pull co) \<and> (\<forall>c. keeps P (co_KB_DiffSince co c)) \<and> keeps P (co_Specs_Pull co) \<and>
      keeps P (co_DocSpecs_Pull co) \<and> wiki_keeps P (co_Wiki co) \<and> (\<forall>client. co_LLM co = Some client \<longrightarrow> llm_keeps P client) \<and>
      (\<forall>p s. keeps P (co_Cluster co p s)) \<and> (\<forall>p d g. keeps P (co_Reviewer co p d g)) \<and>
      (\<forall>p sec s fb. keeps P (co_Reviser co p sec s fb)) \<and> (\<forall>l s. keeps P (co_Render co l s)) \<and>
      store_keeps P (co_RunState co) \<and> store_keeps P (co_IRCache co) \<and> store_keeps P (co_ClusterCache co) \<and>
      keeps P (man_Load (co_Manifest co)) \<and> (\<forall>ts. keeps P (man_Save (co_Manifest co) ts)) \<and>
      (\<forall>cs ck s. co_Maintenance co = Some cs \<longrightarrow> ck \<in> set cs \<longrightarrow> keeps P (ck_Run ck s)) \<and>
      (\<forall>h ps. co_OnMaintenance co = Some h \<longrightarrow> keeps P (h ps)) \<and> keeps P (co_Clock co) \<and> keeps P (co_RandomID co))"

lemma keeps_frontend:
  assumes "\<And>client. llm = Some client \<Longrightarrow> llm_keeps P client"
    and "composeFrontends c llm = Some reg" and "reg k = Some fe"
  shows "keeps P (fe_Build fe s snap)"
proof -
  have "fe = projection_frontend \<or> fe = hub_frontend \<or> (\<exists>client. llm = Some client \<and> fe = editorial_frontend client (lc_Model (cf_LLM c)))"
    using assms(2,3)
    by (cases llm) (auto simp: composeFrontends_def Register_def Let_def split: if_splits option.splits)
  with assms(1) show ?thesis
    by (auto simp: keeps_def projection_frontend_def hub_frontend_def editorial_frontend_def intro: keeps_snd [OF keeps_editorial])
qed

lemma keeps_pipeline_pass:
  assumes "collaborators_keep P co" and "p \<in> set (composePassPipeline U st (composeDiagrams c co) known snap)"
  shows "keeps P (pass_Apply p doc)"
proof -
  have "diagrams_keep P (composeDiagrams c co)"
    using assms(1) by (auto simp: diagrams_keep_def composeDiagrams_def collaborators_keep_def wiki_keeps_def intro: keeps_llm_Repair)
  note diagrams = keeps_RenderDiagrams [OF this]
  from assms(2) consider "p = RenderDiagrams (composeDiagrams c co)"
    | "\<And>w. snd (pass_Apply p doc w) = w"
    by (auto simp: composePassPipeline_def ResolveKBRefs_def ApplyStyleRules_def ApplyZoneMarkers_def ValidateLinks_def)
  then show ?thesis
  proof cases
    case 1
    with diagrams show ?thesis by simp
  qed (simp add: keeps_def)
qed

lemma keeps_deployed_run:
  assumes co: "collaborators_keep P co" and sink: "\<And>f i b d. sink = Some f \<Longrightarrow> keeps P (f i b d)"
  shows "keeps P (Run (composeDeps c co sink))"
proof -
  note ops = co [unfolded collaborators_keep_def]
  have "run_frame (composeDeps c co sink) P UNIV UNIV"
  proof (unfold_locales, goal_cases)
    case (10 reg k fe s snap)
    with ops show ?case by (intro keeps_frontend [of "co_LLM co" P c reg k fe]) auto
  next
    case (11 snap ps p doc)
    with keeps_pipeline_pass [OF co] show ?case by (auto simp: composeDeps_def Let_def)
  qed (use ops sink in \<open>auto simp: composeDeps_def Let_def wiki_keeps_def store_keeps_def split: if_splits\<close>)
  from run_frame.keeps_run [OF this] show ?thesis .
qed

section \<open>What is opened\<close>

lemma keeps_anthropic: "(\<And>r. keeps P (web_do http r)) \<Longrightarrow> llm_keeps P (anthropic_Complete encode decode http c)"
  unfolding llm_keeps_def
  by (intro allI keepsI)
    (auto simp: anthropic_Complete_def Let_def split: prod.splits sum.splits option.splits if_splits dest: keepsD)

lemma keeps_pi: "(\<And>r. keeps P (web_do http r)) \<Longrightarrow> llm_keeps P (pi_Complete J http endpoint)"
  unfolding llm_keeps_def
  by (intro allI keepsI) (auto simp: pi_Complete_def Let_def split: prod.splits sum.splits option.splits if_splits dest: keepsD)

lemma keeps_cached:
  assumes "llm_keeps P inner" and "\<And>fs w. P w \<Longrightarrow> P (cn_set_files K dir fs w)"
  shows "llm_keeps P (cached_client K dir inner)"
  unfolding llm_keeps_def
proof (intro allI keepsI)
  fix req w r w' assume run: "cached_client K dir inner req w = (r, w')" and w: "P w"
  obtain a fs v where c: "cache_Complete (cn_codec K) inner (cn_fault K dir w) req (cn_files K dir w, w) = (a, (fs, v))"
    by (metis prod.collapse)
  then have "P v"
    using w by (auto simp: cache_Complete_def split: option.splits prod.splits sum.splits dest: llm_keepsD [OF assms(1)])
  with run c assms(2) show "P w'" by (auto simp: cached_client_def)
qed

definition mw_keeps :: "('w \<Rightarrow> bool) \<Rightarrow> 'w mw_client \<Rightarrow> bool" where
  "mw_keeps P cl =
     ((\<forall>u p. keeps P (Login cl u p)) \<and> (\<forall>q. keeps P (GetRaw cl q)) \<and> (\<forall>w. P w \<longrightarrow> P (drop_csrf cl w)) \<and>
      (\<forall>q. keeps P (Edit cl q)) \<and> (\<forall>t. keeps P (GetToken cl t)) \<and> (\<forall>q n b. keeps P (Post cl q n b)) \<and>
      (\<forall>q. keeps P (Get_revisions cl q)))"

lemma keeps_mediawiki:
  assumes "mw_keeps P cl"
  shows "wiki_keeps P (mediawiki_target cl cfg)"
proof -
  have ops: "Login cl u p w = (a, w') \<Longrightarrow> P w \<Longrightarrow> P w'" "GetRaw cl q w = (b, w') \<Longrightarrow> P w \<Longrightarrow> P w'"
    "P w \<Longrightarrow> P (drop_csrf cl w)" "Edit cl q w = (e, w') \<Longrightarrow> P w \<Longrightarrow> P w'" "GetToken cl t w = (b, w') \<Longrightarrow> P w \<Longrightarrow> P w'"
    "Post cl q n bd w = (b, w') \<Longrightarrow> P w \<Longrightarrow> P w'" "Get_revisions cl q w = (h, w') \<Longrightarrow> P w \<Longrightarrow> P w'"
    for u p w a w' q b e t n bd h using assms unfolding mw_keeps_def by (blast dest: keepsD)+
  have auth: "keeps P (ensureAuth cl cfg)"
    by (rule keepsI) (auto simp: ensureAuth_def split: if_splits prod.splits login_result.splits dest: ops(1))
  have history: "keeps P (mw_History cl cfg t s)" for t s
    by (rule keepsI) (auto simp: mw_History_def split: prod.splits sum.splits option.splits dest: keepsD [OF auth] ops(7))
  have "keeps P (mw_HumanEditsSinceBot cl cfg t r)" for t r
    by (rule keepsI) (auto simp: mw_HumanEditsSinceBot_def split: prod.splits sum.splits dest: keepsD [OF history])
  moreover have "keeps P (mw_GetPage cl cfg t)" for t
    by (rule keepsI)
      (auto simp: mw_GetPage_def split: prod.splits sum.splits option.splits if_splits dest: keepsD [OF auth] ops(2))
  moreover have "keeps P (mw_UpsertPage cl cfg t c s)" for t c s
    by (rule keepsI)
      (auto simp: mw_UpsertPage_def Let_def split: prod.splits option.splits edit_result.splits
        dest!: keepsD [OF auth] ops(4) intro: ops(3))
  moreover have "keeps P (mw_UploadFile cl cfg n c t s)" for n c t s
    by (rule keepsI)
      (auto simp: mw_UploadFile_def split: prod.splits sum.splits option.splits if_splits
        dest!: keepsD [OF auth] ops(5,6) intro: ops(3))
  ultimately show ?thesis using history by (simp add: wiki_keeps_def mediawiki_target_def)
qed

definition connections_keep :: "('w \<Rightarrow> bool) \<Rightarrow> 'w connections \<Rightarrow> bool" where
  "connections_keep P K =
     ((\<forall>r. keeps P (web_do (cn_http K) r)) \<and> (\<forall>dir fs w. P w \<longrightarrow> P (cn_set_files K dir fs w)) \<and>
      (\<forall>url agent b cl. cn_mw K url agent b = Inr cl \<longrightarrow> mw_keeps P cl) \<and>
      (\<forall>u. keeps P (cn_memory K u)) \<and> (\<forall>u w. wiki_keeps P (fst (cn_memory K u w))) \<and>
      (\<forall>db b. keeps P (bolt_CreateBucket (cn_bolt K) db b)) \<and> (\<forall>db k. keeps P (bolt_Get (cn_bolt K) db k)) \<and>
      (\<forall>db k v. keeps P (bolt_Put (cn_bolt K) db k v)))"

lemma keeps_reading: "llm_keeps P (\<lambda>req w. (f req w, w))"
  by (simp add: llm_keeps_def keeps_def)

lemma keeps_open_llm: "connections_keep P K \<Longrightarrow> llm_keeps P (open_llm K choice)"
  by (auto simp: open_llm_def live_client_def connections_keep_def keeps_reading split: llm_choice.split
      intro!: keeps_cached keeps_anthropic keeps_pi)

lemma keeps_open_wiki: "connections_keep P K \<Longrightarrow> keeps P (open_wiki K choice)"
  by (rule keepsI)
    (auto simp: open_wiki_def connections_keep_def split: wiki_choice.splits prod.splits dest: keepsD)

lemma open_wiki_keeps:
  assumes "connections_keep P K" and "open_wiki K choice w = (Inr T, w')"
  shows "wiki_keeps P T"
proof -
  have "cn_memory K u w = (T, w') \<Longrightarrow> wiki_keeps P T" for u
    using assms(1) unfolding connections_keep_def by (metis fst_conv)
  with assms show ?thesis
    by (auto simp: open_wiki_def mw_New_def connections_keep_def split: wiki_choice.splits prod.splits sum.splits
        intro!: keeps_mediawiki)
qed

lemma keeps_runstate:
  assumes "connections_keep P K"
  shows "store_keeps P (runstate_cache (cn_bolt K) db)"
proof -
  have "bolt_Get (cn_bolt K) db k w = (r, w') \<Longrightarrow> P w \<Longrightarrow> P w'" "bolt_Put (cn_bolt K) db k v w = (r', w') \<Longrightarrow> P w \<Longrightarrow> P w'"
    for k v w r r' w' using assms unfolding connections_keep_def by (blast dest: keepsD)+
  then show ?thesis
    by (auto simp: store_keeps_def runstate_cache_def runstate_Get_def runstate_Set_def intro!: keepsI
        split: prod.splits bolt_read.splits bolt_write.splits option.splits sum.splits)
qed

section \<open>The process\<close>

text \<open>The parts of a process, apart from the lock and from opening and closing the database.\<close>

definition process_keeps :: "('w \<Rightarrow> bool) \<Rightarrow> 'w process \<Rightarrow> bool" where
  "process_keeps P p =
     (connections_keep P (ps_net p) \<and> tool_keeps P (ps_tool p) \<and>
      (\<forall>d. keeps P (ps_mkdir p d)) \<and> (\<forall>f t. keeps P (ps_write p f t)) \<and> (\<forall>kb. keeps P (ps_kb p kb)) \<and>
      (\<forall>kb c. keeps P (ps_kb_diff p kb c)) \<and> (\<forall>d. keeps P (ps_specs p d)) \<and> (\<forall>d. keeps P (ps_docspecs p d)) \<and>
      (\<forall>args. keeps P (ps_git p args)) \<and> (\<forall>d. store_keeps P (ps_ir p d)) \<and> (\<forall>d. store_keeps P (ps_clusters p d)) \<and>
      (\<forall>d. keeps P (man_Load (ps_manifest p d))) \<and> (\<forall>d ts. keeps P (man_Save (ps_manifest p d) ts)) \<and>
      keeps P (ps_now p) \<and> (\<forall>url. keeps P (ps_head p url)) \<and> (\<forall>d. repo_keeps P (ps_pr p d)) \<and>
      keeps P (ps_clock p) \<and> keeps P (ps_random p) \<and> (\<forall>r. keeps P (web_do (ps_web p) r)) \<and>
      (\<forall>a au f t m. keeps P (ps_mail p a au f t m)) \<and> (\<forall>b args. keeps P (ps_run_kb p b args)) \<and>
      (\<forall>d w. P w \<longrightarrow> P (ps_set_disk p d w)))"

lemma collaborators_of_keep:
  assumes p: "process_keeps P p" and op: "wiki_keeps P (op_wiki op)" "store_keeps P (op_runstate op)"
    "store_keeps P (op_ir op)" "store_keeps P (op_clusters op)" "\<And>client. op_llm op = Some client \<Longrightarrow> llm_keeps P client"
  shows "collaborators_keep P (collaborators_of p c op)"
proof -
  note ops = p [unfolded process_keeps_def]
  let ?client = "case op_llm op of None \<Rightarrow> no_client | Some client \<Rightarrow> client"
  have client: "llm_keeps P ?client"
    using op(5) by (auto simp: no_client_def [abs_def] keeps_reading split: option.split)
  have arch: "arch_keeps P (arch_of p c ?client)"
    using client ops by (auto simp: arch_keeps_def arch_of_def split: if_splits intro!: keeps_git_Resolve)
  have checks: "keeps P (ck_Run ck s)"
    if "composeMaintenance (ps_time p) (ps_now p) (ps_head p) c (op_opted op) (op_llm op) = Some cs" "ck \<in> set cs" for cs ck s
    using that ops op(5)
    by (auto simp: composeMaintenance_def keeps_def [of P "noop_search _"] noop_search_def split: if_splits option.splits
        intro!: keeps_stale keeps_linkrot keeps_truth)
  have handler: "keeps P (h props)" if "composeOnMaintenance p c = Some h" for h props
  proof -
    have submit: "keeps P (Submit (ps_pr p d) today inp)" for d today inp using ops by (intro keeps_Submit) auto
    have random: "keeps P (ps_random p)" using ops by simp
    from that show ?thesis
      by (intro keepsI)
        (auto simp: composeOnMaintenance_def split: if_splits prod.splits sum.splits dest!: keepsD [OF random] keepsD [OF submit])
  qed
  show ?thesis
    using ops op client arch checks handler
    by (auto simp: collaborators_keep_def collaborators_of_def Let_def orphanManifest_def split: option.splits if_splits
        intro!: keeps_arch_Render keeps_ReviseSection keeps_Review keeps_mermaid)
qed

lemma keeps_upsert_sink:
  assumes "wiki_keeps P T"
  shows "keeps P (makeWikiUpsertSink T i b doc)"
proof -
  have "keeps P (UpsertPage T t c s)" for t c s using assms by (simp add: wiki_keeps_def)
  note keepsD [OF this]
  then show ?thesis
    by (intro keepsI) (auto simp: makeWikiUpsertSink_def Let_def split: if_splits prod.splits sum.splits)
qed

lemma keeps_sink:
  assumes "\<And>f t. keeps P (wr f t)" and "wiki_keeps P T" and "composeOnRenderedSink mkdir wr c T outDir w = (Some f, w')"
  shows "keeps P (f i b doc)"
proof -
  have "keeps P (makeDiskSink wr outDir i b doc)"
    using assms(1) by (auto simp: makeDiskSink_def keeps_def Let_def)
  with keeps_upsert_sink [OF assms(2)] assms(3) show ?thesis
    by (auto simp: composeOnRenderedSink_def split: if_splits prod.splits option.splits)
qed

lemma keeps_composeOnRenderedSink: "(\<And>d. keeps P (mkdir d)) \<Longrightarrow> keeps P (composeOnRenderedSink mkdir wr c T outDir)"
  by (rule keepsI) (auto simp: composeOnRenderedSink_def split: if_splits prod.splits option.splits dest: keepsD)

lemma keeps_slack: "(\<And>r. keeps P (web_do http r)) \<Longrightarrow> keeps P (slack_Publish encode message http url r)"
  by (rule keepsI) (auto simp: slack_Publish_def split: option.splits prod.splits sum.splits if_splits dest: keepsD)

lemma keeps_email:
  assumes "\<And>a au f t m. keeps P (send a au f t m)"
  shows "keeps P (email_Publish env message send e r)"
proof -
  have "keeps P (smtp_Send env send e f t su b)" for f t su b
    using assms by (simp add: keeps_def smtp_Send_def)
  note keepsD [OF this]
  then show ?thesis
    by (intro keepsI) (auto simp: email_Publish_def split: option.splits prod.splits)
qed

lemma keeps_journal: "(\<And>b args. keeps P (run b args)) \<Longrightarrow> keeps P (journal_Publish message run r)"
  by (rule keepsI) (auto simp: journal_Publish_def split: option.splits prod.splits dest: keepsD)

lemma multi_Publish_keeps:
  assumes "\<And>s. s \<in> set ss \<Longrightarrow> keeps P (Publish s r)"
  shows "multi_Publish ss r w = (es, w') \<Longrightarrow> P w \<Longrightarrow> P w'"
  using assms
proof (induction ss arbitrary: w es w')
  case (Cons s ss)
  obtain e w1 where e: "Publish s r w = (e, w1)" by fastforce
  have w1: "P w1" by (rule keepsD [OF Cons.prems(3) e Cons.prems(2)]) simp
  obtain x w2 where x: "multi_Publish ss r w1 = (x, w2)" by fastforce
  from Cons.IH [OF x w1] Cons.prems e x show ?case by (cases e) auto
qed simp

lemma reports_keep:
  assumes p: "process_keeps P p" and "P w"
  shows "P (publishReport p c r (persistReport p r reportDir w))"
proof -
  note ops = p [unfolded process_keeps_def]
  have "P (persistReport p r reportDir w)"
    using ops assms(2) by (auto simp: persistReport_def split: prod.split)
  moreover have "keeps P (Publish s r)" if "s \<in> set (composeReportSinks p c)" for s
    using that ops by (auto simp: composeReportSinks_def Let_def split: if_splits intro!: keeps_slack keeps_email keeps_journal)
  ultimately show ?thesis
    unfolding publishReport_def by (metis multi_Publish_keeps prod.collapse)
qed

lemma keeps_run_and_report:
  assumes "process_keeps P p" and "collaborators_keep P (collaborators_of p c op)"
    and "\<And>f i b d. sink = Some f \<Longrightarrow> keeps P (f i b d)"
  shows "keeps P (run_and_report p c reportDir sink op)"
proof (rule keepsI)
  fix w r w' assume "run_and_report p c reportDir sink op w = (r, w')" and "P w"
  moreover have "keeps P (Run (composeDeps c (collaborators_of p c op) sink))"
    using assms(2,3) by (rule keeps_deployed_run)
  note keepsD [OF this]
  ultimately show "P w'"
    by (auto simp: run_and_report_def split: prod.splits intro!: reports_keep [OF assms(1)])
qed

lemma keeps_with_caches:
  assumes p: "process_keeps P p" and T: "wiki_keeps P T" and st: "store_keeps P st"
    and client: "\<And>cl. client = Some cl \<Longrightarrow> llm_keeps P cl" and sink: "\<And>f i b d. sink = Some f \<Longrightarrow> keeps P (f i b d)"
  shows "keeps P (with_caches p c reportDir sink kb specDir T client st)"
proof -
  note ops = p [unfolded process_keeps_def]
  have ir: "composeIRCache p c w = (r, w') \<Longrightarrow> P w \<Longrightarrow> P w' \<and> (\<forall>s. r = Inr s \<longrightarrow> store_keeps P s)" for w r w'
    using ops by (auto simp: composeIRCache_def ircache_Open_def split: prod.splits option.splits dest: keepsD)
  have cl: "composeClusterCache p c w = (r, w') \<Longrightarrow> P w \<Longrightarrow> P w' \<and> (\<forall>s. r = Inr s \<longrightarrow> store_keeps P s)" for w r w'
    using ops by (auto simp: composeClusterCache_def clustercache_Open_def split: prod.splits option.splits dest: keepsD)
  have opted: "keeps P (opted_areas p c specDir)"
    using ops by (intro keepsI) (auto simp: opted_areas_def split: if_splits prod.splits dest: keepsD)
  have run: "keeps P (run_and_report p c reportDir sink
      \<lparr>op_kb = kb, op_specs = specDir, op_wiki = T, op_llm = client, op_runstate = st, op_ir = i, op_clusters = k, op_opted = a\<rparr>)"
    if "store_keeps P i" "store_keeps P k" for i k a
    using assms that by (intro keeps_run_and_report collaborators_of_keep) auto
  show ?thesis
  proof (rule keepsI)
    fix w r w' assume go: "with_caches p c reportDir sink kb specDir T client st w = (r, w')" and w: "P w"
    obtain i w1 where i: "composeIRCache p c w = (i, w1)" by fastforce
    obtain k w2 where k: "composeClusterCache p c w1 = (k, w2)" by fastforce
    obtain a w3 where a: "opted_areas p c specDir w2 = (a, w3)" by fastforce
    note i' = ir [OF i w] then have w1: "P w1" ..
    note k' = cl [OF k w1] then have w2: "P w2" ..
    have w3: "P w3" by (rule keepsD [OF opted a w2])
    show "P w'"
    proof (cases i; cases k)
      fix si sk assume s: "i = Inr si" "k = Inr sk"
      with i' k' have "store_keeps P si" "store_keeps P sk" by auto
      from keepsD [OF run [OF this] _ w3, of a r w'] go i k a s show ?thesis by (simp add: with_caches_def)
    qed (use go i k w1 w2 in \<open>auto simp: with_caches_def\<close>)
  qed
qed

section \<open>Files and databases\<close>

text \<open>
  \<open>files\<close> and \<open>dbs\<close> are the open lock files and databases of the process: opening gives a new one,
  closing ends it even when it fails, and nothing else touches them.
\<close>

definition tracks_files :: "('w \<Rightarrow> nat set) \<Rightarrow> ('w \<Rightarrow> nat set) \<Rightarrow> 'w flock_sys \<Rightarrow> bool" where
  "tracks_files files dbs S =
     ((\<forall>path w. case fl_open S path w of
         (Inl e, w') \<Rightarrow> files w' = files w \<and> dbs w' = dbs w
       | (Inr fd, w') \<Rightarrow> fd \<notin> files w \<and> files w' = insert fd (files w) \<and> dbs w' = dbs w) \<and>
      (\<forall>fd w. files (snd (fl_lock S fd w)) = files w \<and> dbs (snd (fl_lock S fd w)) = dbs w) \<and>
      (\<forall>fd w. files (snd (fl_unlock S fd w)) = files w \<and> dbs (snd (fl_unlock S fd w)) = dbs w) \<and>
      (\<forall>fd w. files (snd (fl_close S fd w)) = files w - {fd} \<and> dbs (snd (fl_close S fd w)) = dbs w))"

definition tracks_dbs :: "('w \<Rightarrow> nat set) \<Rightarrow> ('w \<Rightarrow> nat set) \<Rightarrow> 'w bolt_lib \<Rightarrow> bool" where
  "tracks_dbs files dbs B =
     ((\<forall>path w. case bolt_Open B path w of
         (Inl e, w') \<Rightarrow> files w' = files w \<and> dbs w' = dbs w
       | (Inr db, w') \<Rightarrow> db \<notin> dbs w \<and> dbs w' = insert db (dbs w) \<and> files w' = files w) \<and>
      (\<forall>db w. dbs (snd (bolt_Close B db w)) = dbs w - {db} \<and> files (snd (bolt_Close B db w)) = files w))"

definition leaves :: "('w \<Rightarrow> nat set) \<Rightarrow> ('w \<Rightarrow> nat set) \<Rightarrow> 'w process \<Rightarrow> bool" where
  "leaves files dbs p = (\<forall>x y. process_keeps (\<lambda>w. files w = x \<and> dbs w = y) p)"

lemma Acquire_tracked:
  assumes "tracks_files files dbs S" and "Acquire S path w = (r, w')"
  shows "dbs w' = dbs w" and "r = Inl e \<Longrightarrow> files w' = files w"
    and "r = Inr l \<Longrightarrow> \<exists>fd. lk_file l = Some fd \<and> fd \<notin> files w \<and> files w' = insert fd (files w)"
proof -
  obtain a w1 where a: "fl_open S path w = (a, w1)" by fastforce
  note tracks = assms(1) [unfolded tracks_files_def]
  have op: "case fl_open S path w of (Inl e, w') \<Rightarrow> files w' = files w \<and> dbs w' = dbs w
       | (Inr fd, w') \<Rightarrow> fd \<notin> files w \<and> files w' = insert fd (files w) \<and> dbs w' = dbs w"
    by (rule tracks [THEN conjunct1, rule_format])
  have lk: "fl_lock S fd w = (x, v) \<Longrightarrow> files v = files w \<and> dbs v = dbs w" for fd w x v
    using tracks [THEN conjunct2, THEN conjunct1, rule_format, of fd w] by simp
  have cl: "files (snd (fl_close S fd w)) = files w - {fd} \<and> dbs (snd (fl_close S fd w)) = dbs w" for fd w
    by (rule tracks [THEN conjunct2, THEN conjunct2, THEN conjunct2, rule_format])
  have "dbs w' = dbs w \<and> (case r of
      Inl e \<Rightarrow> files w' = files w
    | Inr l \<Rightarrow> \<exists>fd. lk_file l = Some fd \<and> fd \<notin> files w \<and> files w' = insert fd (files w))"
  proof (cases a)
    case (Inl e)
    with a op assms(2) show ?thesis by (auto simp: Acquire_def)
  next
    case (Inr fd)
    obtain x v where x: "fl_lock S fd w1 = (x, v)" by fastforce
    from lk [OF x] cl [of fd v] op a Inr assms(2) x show ?thesis
      by (cases x) (auto simp: Acquire_def Let_def)
  qed
  then show "dbs w' = dbs w" and "r = Inl e \<Longrightarrow> files w' = files w"
    and "r = Inr l \<Longrightarrow> \<exists>fd. lk_file l = Some fd \<and> fd \<notin> files w \<and> files w' = insert fd (files w)" by auto
qed

lemma Release_tracked:
  assumes "tracks_files files dbs S" and "lk_file l = Some fd"
  shows "files (snd (Release S l w)) = files w - {fd}" and "dbs (snd (Release S l w)) = dbs w"
  using assms by (simp_all add: Release_def tracks_files_def split_beta)

text \<open>The body of a run opens at most one database, and closes it.\<close>

lemma run_body_tracked:
  assumes leaves: "leaves files dbs p" and tracks: "tracks_dbs files dbs (cn_bolt (ps_net p))"
    and run: "run_body p c outDir reportDir w = (r, w')"
  shows "files w' = files w \<and> dbs w' = dbs w"
proof -
  let ?P = "\<lambda>y v. files v = files w \<and> dbs v = y" and ?B = "cn_bolt (ps_net p)"
  have keep: "process_keeps (?P y) p" for y using leaves by (simp add: leaves_def)
  note ops = keep [unfolded process_keeps_def]
  have net: "connections_keep (?P y) (ps_net p)" for y by (rule ops [THEN conjunct1])
  have mkdir: "keeps (?P y) (ps_mkdir p d)" for y d
    by (rule ops [THEN conjunct2, THEN conjunct2, THEN conjunct1, rule_format])
  have wr: "keeps (?P y) (ps_write p f t)" for y f t
    by (rule ops [THEN conjunct2, THEN conjunct2, THEN conjunct2, THEN conjunct1, rule_format])
  have close: "files (snd (bolt_Close ?B db v)) = files v" "dbs (snd (bolt_Close ?B db v)) = dbs v - {db}" for db v
    using tracks by (simp_all add: tracks_dbs_def)
  have opened: "case composeRunStateCache p c v of
      (Inl e, v') \<Rightarrow> ?P (dbs w) v'
    | (Inr db, v') \<Rightarrow> db \<notin> dbs w \<and> ?P (insert db (dbs w)) v'" if v: "?P (dbs w) v" for v
  proof -
    obtain x v1 where x: "ps_mkdir p (cacheBase (ps_env p) c) v = (x, v1)" by fastforce
    from keepsD [OF mkdir x v] have v1: "?P (dbs w) v1" .
    let ?path = "path_Join [cacheBase (ps_env p) c, ''runstate.bolt'']"
    obtain y v2 where y: "bolt_Open ?B ?path v1 = (y, v2)" by fastforce
    have op: "case bolt_Open ?B ?path v1 of (Inl e, w') \<Rightarrow> files w' = files v1 \<and> dbs w' = dbs v1
       | (Inr db, w') \<Rightarrow> db \<notin> dbs v1 \<and> dbs w' = insert db (dbs v1) \<and> files w' = files v1"
      by (rule tracks [unfolded tracks_dbs_def, THEN conjunct1, rule_format])
    show ?thesis
    proof (cases "x = None \<and> (\<exists>db. y = Inr db)")
      case False
      with v1 x y op show ?thesis
        by (cases x; cases y) (auto simp: composeRunStateCache_def runstate_Open_def Let_def)
    next
      case True
      then obtain db where db: "x = None" "y = Inr db" by blast
      obtain z v3 where z: "bolt_CreateBucket ?B db ''spec-state'' v2 = (z, v3)" by fastforce
      have v2: "?P (insert db (dbs w)) v2" using op db v1 y by simp
      have "keeps (?P (insert db (dbs w))) (bolt_CreateBucket ?B db ''spec-state'')"
        using net [unfolded connections_keep_def] by blast
      from keepsD [OF this z v2] have "?P (insert db (dbs w)) v3" .
      with op db x y z v1 close show ?thesis
        by (cases z) (auto simp: composeRunStateCache_def runstate_Open_def Let_def)
    qed
  qed
  show ?thesis
  proof (cases "composeSpecStore c"; cases "composeKBSource (ps_env p) c"; cases "composeWikiTarget (ps_env p) c")
    fix specDir kb choice
    assume inputs: "composeSpecStore c = Inr specDir" "composeKBSource (ps_env p) c = Inr kb" "composeWikiTarget (ps_env p) c = Inr choice"
    obtain t w1 where t: "open_wiki (ps_net p) choice w = (t, w1)" by fastforce
    have w1: "?P (dbs w) w1" by (rule keepsD [OF keeps_open_wiki [OF net] t]) simp
    show ?thesis
    proof (cases t; cases "composeLLMClient (ps_env p) c")
      fix T llm assume opened': "t = Inr T" "composeLLMClient (ps_env p) c = Inr llm"
      have T: "wiki_keeps (?P y) T" for y using open_wiki_keeps [OF net] t opened' by blast
      obtain sink w2 where sink: "composeOnRenderedSink (ps_mkdir p) (ps_write p) c T outDir w1 = (sink, w2)" by fastforce
      have w2: "?P (dbs w) w2" by (rule keepsD [OF keeps_composeOnRenderedSink [OF mkdir] sink w1])
      obtain x w3 where x: "composeRunStateCache p c w2 = (x, w3)" by fastforce
      show ?thesis
      proof (cases x)
        case (Inl e)
        with inputs t opened' sink x run opened [OF w2] show ?thesis by (auto simp: run_body_def)
      next
        case (Inr db)
        let ?run = "with_caches p c reportDir sink kb specDir T (map_option (open_llm (ps_net p)) llm) (runstate_cache ?B db)"
        have db: "db \<notin> dbs w" "?P (insert db (dbs w)) w3" using opened [OF w2] x Inr by auto
        have "keeps (?P (insert db (dbs w))) ?run"
        proof (rule keeps_with_caches [OF keep T keeps_runstate [OF net]])
          show "map_option (open_llm (ps_net p)) llm = Some cl \<Longrightarrow> llm_keeps (?P (insert db (dbs w))) cl" for cl
            using keeps_open_llm [OF net] by auto
          show "sink = Some f \<Longrightarrow> keeps (?P (insert db (dbs w))) (f i b d)" for f i b d
            using keeps_sink [where wr = "ps_write p", OF wr T] sink by blast
        qed
        moreover obtain e w4 where w4: "?run w3 = (e, w4)" by fastforce
        ultimately have "?P (insert db (dbs w)) w4" using db(2) by (rule keepsD)
        with db(1) inputs t opened' sink x run Inr w4 close show ?thesis by (auto simp: run_body_def)
      qed
    qed (use inputs t run w1 in \<open>auto simp: run_body_def\<close>)
  qed (use run in \<open>auto simp: run_body_def\<close>)
qed

lemma keeps_lockPath:
  assumes "\<And>d. keeps P (mkdir d)"
  shows "keeps P (wikiLockPath env tmp mkdir c)"
proof (rule keepsI)
  fix w r w' assume "wikiLockPath env tmp mkdir c w = (r, w')" and "P w"
  with keepsD [OF assms] keeps_snd [OF assms] show "P w'"
    by (auto simp: wikiLockPath_def Let_def split: prod.splits option.splits)
qed

text \<open>
  C10. A run closes what it opens: however it ends, whether the lock is taken or not, a store or a cache cannot be
  opened, or the run fails, the process has the lock files and the databases open afterwards that it had before.
\<close>

theorem run_closes_what_it_opens:
  assumes "leaves files dbs p" and "tracks_files files dbs (ps_flock p)"
    and "tracks_dbs files dbs (cn_bolt (ps_net p))"
  shows "files (snd (runFromConfig p c outDir reportDir w)) = files w \<and>
    dbs (snd (runFromConfig p c outDir reportDir w)) = dbs w"
proof -
  obtain path w1 where path: "wikiLockPath (ps_env p) (ps_temp p) (ps_mkdir p) c w = (path, w1)" by fastforce
  have "process_keeps (\<lambda>v. files v = files w \<and> dbs v = dbs w) p" using assms(1) by (simp add: leaves_def)
  then have "keeps (\<lambda>v. files v = files w \<and> dbs v = dbs w) (ps_mkdir p d)" for d by (simp add: process_keeps_def)
  then have "keeps (\<lambda>v. files v = files w \<and> dbs v = dbs w) (wikiLockPath (ps_env p) (ps_temp p) (ps_mkdir p) c)"
    by (rule keeps_lockPath)
  from keepsD [OF this path] have w1: "files w1 = files w \<and> dbs w1 = dbs w" by simp
  obtain l w2 where l: "Acquire (ps_flock p) path w1 = (l, w2)" by fastforce
  note lock = Acquire_tracked [OF assms(2) l]
  show ?thesis
  proof (cases l)
    case (Inl e)
    with lock w1 path l show ?thesis by (cases e) (auto simp: runFromConfig_def)
  next
    case (Inr l')
    with lock(3) obtain fd where fd: "lk_file l' = Some fd" "fd \<notin> files w1" "files w2 = insert fd (files w1)" by auto
    obtain err w3 where body: "run_body p c outDir reportDir w2 = (err, w3)" by fastforce
    from run_body_tracked [OF assms(1,3) body] Release_tracked [OF assms(2) fd(1), of w3] fd lock(1) w1 path l Inr body
    show ?thesis by (auto simp: runFromConfig_def)
  qed
qed

section \<open>A process\<close>

text \<open>
  A process that only has handles: the open files and databases, and all that were ever opened.  The directory
  of the document cache cannot be made.
\<close>

record handles =
  open_files :: "nat list"
  open_dbs :: "nat list"
  opened :: "gostring list"

definition fresh :: "nat list \<Rightarrow> nat" where "fresh l = Suc (foldr max l 0)"

lemma fresh: "fresh l \<notin> set l"
proof -
  have "x \<in> set l \<Longrightarrow> x \<le> foldr max l 0" for x by (induction l) auto
  then show ?thesis unfolding fresh_def by (metis Suc_n_not_le_n)
qed

definition fine :: "'w \<Rightarrow> 'e option \<times> 'w" where "fine w = (None, w)"
definition fails :: "'w \<Rightarrow> 'a res \<times> 'w" where "fails w = (Inl (errorf ''unavailable'' []), w)"

lemma keeps_fine [simp]: "keeps P fine" "keeps P fails" "keeps P (\<lambda>w. (x, w))"
  by (simp_all add: keeps_def fine_def fails_def)

definition handle_files :: "handles flock_sys" where
  "handle_files =
     \<lparr>fl_open = (\<lambda>path w. (Inr (fresh (open_files w)),
                   w\<lparr>open_files := fresh (open_files w) # open_files w, opened := path # opened w\<rparr>)),
      fl_lock = (\<lambda>fd. fine), fl_unlock = (\<lambda>fd. fine),
      fl_close = (\<lambda>fd w. (Some (errorf ''EIO'' []), w\<lparr>open_files := removeAll fd (open_files w)\<rparr>))\<rparr>"

definition handle_dbs :: "handles bolt_lib" where
  "handle_dbs =
     \<lparr>bolt_Open = (\<lambda>path w. (Inr (fresh (open_dbs w)),
                     w\<lparr>open_dbs := fresh (open_dbs w) # open_dbs w, opened := path # opened w\<rparr>)),
      bolt_CreateBucket = (\<lambda>db name. fine),
      bolt_Close = (\<lambda>db w. (Some (errorf ''EIO'' []), w\<lparr>open_dbs := removeAll db (open_dbs w)\<rparr>)),
      bolt_Get = (\<lambda>db k w. (ReadValue None, w)), bolt_Put = (\<lambda>db k v w. (Written, w))\<rparr>"

definition dead_web :: "'w web" where "dead_web = \<lparr>web_check = Map.empty, web_do = (\<lambda>r. fails)\<rparr>"

definition handle_net :: "handles connections" where
  "handle_net =
     \<lparr>cn_http = dead_web, cn_messages = (\<lambda>m. []), cn_reply = (\<lambda>body. Inl (errorf ''no reply'' [])), cn_pi = plain_wire,
      cn_codec = plain_codec, cn_files = (\<lambda>dir w. \<lparr>stored = Map.empty, unreadable = Map.empty\<rparr>),
      cn_set_files = (\<lambda>dir fs w. w), cn_fault = (\<lambda>dir w. None), cn_mw = (\<lambda>url agent b. Inl (errorf ''no wiki'' [])),
      cn_memory = (\<lambda>u w. (mediawiki_target no_mw \<lparr>BotUser = u, BotPass = []\<rparr>, w)), cn_bolt = handle_dbs\<rparr>"

definition empty_store :: "('v, 'w) store" where
  "empty_store = \<lparr>st_Get = (\<lambda>k w. (Inr None, w)), st_Set = (\<lambda>k v. fine)\<rparr>"

definition handle_process :: "handles process" where
  "handle_process =
     \<lparr>ps_env = (\<lambda>v. ''x''), ps_temp = ''/tmp'', ps_mkdir = (\<lambda>d w. (if d = ''/cache/ir'' then Some (errorf ''EACCES'' []) else None, w)),
      ps_write = (\<lambda>f t. fine), ps_flock = handle_files, ps_kb = (\<lambda>kb. fails), ps_kb_diff = (\<lambda>kb c w. (DiffNotSupported, w)),
      ps_specs = (\<lambda>d. fails), ps_docspecs = (\<lambda>d. fails), ps_net = handle_net, ps_quote = id,
      ps_verdict = (\<lambda>t. Inl (errorf ''no verdict'' [])), ps_git = (\<lambda>args w. (Inl (errorf ''exit'' [], []), w)),
      ps_tool = \<lparr>tl_mkdirTemp = fails, tl_write = (\<lambda>p t. fine), tl_run = (\<lambda>b args w. (None, w)), tl_read = (\<lambda>p. fails),
                 tl_removeAll = (\<lambda>p w. w)\<rparr>,
      ps_puppeteer = [], ps_message = (\<lambda>m. []), ps_unicode = \<lparr>uni_lower = id, uni_upper = id, uni_letter = (\<lambda>r. False)\<rparr>,
      ps_known = [], ps_ir = (\<lambda>d. empty_store), ps_clusters = (\<lambda>d. empty_store),
      ps_manifest = (\<lambda>d. \<lparr>man_Load = fails, man_Save = (\<lambda>ts. fine)\<rparr>), ps_time = (\<lambda>t. None), ps_now = (\<lambda>w. (0, w)),
      ps_head = (\<lambda>url w. (HTTPStatus 200, w)),
      ps_pr = (\<lambda>d. \<lparr>OpenWorktree = fine, ResolveRevision = (\<lambda>r. fails), SetReference = (\<lambda>r h. fine), CreateBranch = (\<lambda>b w. w),
                    Checkout = (\<lambda>b. fine), WriteSummary = (\<lambda>p t. fine), git_Add = (\<lambda>p. fine), git_Commit = (\<lambda>m a. fails)\<rparr>),
      ps_today = [], ps_clock = (\<lambda>w. (zero_time, w)), ps_random = (\<lambda>w. (''r'', w)), ps_exe = Inl (errorf ''no exe'' []),
      ps_read_exe = (\<lambda>f. Inl (errorf ''no exe'' [])), ps_build_info = None, ps_web = dead_web, ps_slack_json = id,
      ps_mail = (\<lambda>a au f t m. fine), ps_run_kb = (\<lambda>b args. fine), ps_marshal = marshal_id,
      ps_disk = (\<lambda>w. (no_rename, Map.empty)), ps_set_disk = (\<lambda>d w. w)\<rparr>"

lemma handle_leaves: "leaves (set \<circ> open_files) (set \<circ> open_dbs) handle_process"
proof -
  have mem: "wiki_keeps P (mediawiki_target no_mw cfg)" for P :: "handles \<Rightarrow> bool" and cfg
    by (rule keeps_mediawiki) (simp add: mw_keeps_def no_mw_def Let_def)
  have "connections_keep P handle_net" for P
    by (simp add: connections_keep_def handle_net_def handle_dbs_def dead_web_def mem)
  then show ?thesis
    by (simp add: leaves_def process_keeps_def handle_process_def tool_keeps_def store_keeps_def empty_store_def repo_keeps_def dead_web_def)
qed

text \<open>The lock and the database were opened, and closed again on the way out, with one older file left open.\<close>

theorem run_closes_what_it_opens_witness:
  "\<exists>w. snd (runFromConfig handle_process live_config [] [] \<lparr>open_files = [7], open_dbs = [], opened = []\<rparr>) = w \<and>
     opened w = [''/cache/runstate.bolt'', ''/cache/curator.lock''] \<and> set (open_files w) = {7} \<and> set (open_dbs w) = {}"
proof -
  let ?w = "snd (runFromConfig handle_process live_config [] [] \<lparr>open_files = [7], open_dbs = [], opened = []\<rparr>)"
  have "tracks_files (set \<circ> open_files) (set \<circ> open_dbs) (ps_flock handle_process)"
    "tracks_dbs (set \<circ> open_files) (set \<circ> open_dbs) (cn_bolt (ps_net handle_process))"
    using fresh by (auto simp: tracks_files_def tracks_dbs_def handle_process_def handle_net_def handle_files_def handle_dbs_def fine_def)
  from run_closes_what_it_opens [OF handle_leaves this, of live_config "[]" "[]" "\<lparr>open_files = [7], open_dbs = [], opened = []\<rparr>"]
  have "set (open_files ?w) = {7} \<and> set (open_dbs ?w) = {}" by simp
  moreover have "opened ?w = [''/cache/runstate.bolt'', ''/cache/curator.lock'']"
    by code_simp
  ultimately show ?thesis by blast
qed

end
