(* ===== verification/Spec2Isabelle.thy ===== *)
theory Spec2Isabelle
  imports CuratorSteps RenderParse GitRun Mermaid DeployProps Serve RunLock RunRelease
begin

text \<open>
  A verification development of mykb-curator, the tool that keeps a wiki as a curated projection of
  a knowledge base.

  \<^bold>\<open>The program.\<close>  A run (internal/orchestrator) pulls a snapshot of the knowledge base and the
  page specs of one wiki.  For every spec it builds an intermediate representation with the frontend
  of the spec's kind, applies the passes, renders it with a backend, merges the text with what is on
  the wiki (the reconciler) and pushes it; it remembers the revision it wrote, and the next run skips
  specs whose knowledge did not change and treats newer revisions by others as human edits.  Doc-specs
  describe clusters of pages, whose prose an LLM writes section by section; a judge reviews them and a
  bounded loop revises the sections that fail.  Pages that no spec produces any more are redirected.
  At the end maintenance checks propose changes of the knowledge base, and a report is published.
  Beside the runs there is a server for an agent that talks with the authors of doc-specs: it edits
  specs, shows previews and passes facts on to the knowledge base.

  \<^bold>\<open>Representation.\<close>  Go strings and byte slices are \<open>gostring\<close>, lists of bytes, so a literal of the
  source is the same literal here.  A function that returns a value and an error returns \<open>'a res\<close>, an
  error or a value; an error or another formatted text is a \<open>gomsg\<close>, its format and arguments, because
  nothing depends on how the verbs print.  Records are structs, datatypes are the closed interfaces and
  the string enumerations, maps with a relevant order are association lists.  Effects are explicit:
  an operation takes the state of the world \<open>'w\<close> and returns it; an interface of the code is a record of
  such operations, and what the program calls outside its own source (the LLM, HTTP, YAML and JSON
  decoding, the file system, git, the clock, random bytes) is a parameter of that form.  Slices that
  the code updates in place are values; where a caller observes the aliasing (the sections that a
  refinement shares with its predecessor) the model keeps what the caller sees.

  \<^bold>\<open>The theories\<close>, in the order the data flows.

  \<^item> Prelude, GoText, \<open>Go_Regexp\<close>, GoPath, Sha256: the standard library the components share: strings
    (trimming, splitting, prefixes, fields, decimal numbers), regular expressions in Go's leftmost-first
    semantics, paths, and SHA-256.  The matcher is total: a star stops at an empty match.
  \<^item> KB, KBSources (adapters/kb, kb/local, kb/git), Nav (nav), Specs (adapters/specs, docspecs,
    specs/docspec), SpecParser (specs/parser), GitSource (sources/git): the inputs of a run: snapshots,
    append-only entry files, the git clone and its diff, navigation, page specs with their frontmatter,
    doc-specs with their parser and validation, and the files of a repository a section is written from.
  \<^item> IR (rendering/ir), Frontends (hub, projection), Mdir (mdir), Llm and LlmTransport (llm, cmd/pi-wrapper),
    Architecture (architecture, editorial), Cluster, CacheKeys (cluster, ircache): from specs to documents.
    LlmTransport has both ends of the connection to the pi command and the stream of events in between.
  \<^item> Passes, ZoneMarkers, TextPasses, Diagrams, Mermaid (rendering/passes): the passes.
  \<^item> Backends (markdown, mediawiki), WikiParse, Merge, Reconciler, WikiTarget (wiki, wiki/memory,
    wiki/mediawiki), RenderParse: from documents to the wiki and back.
  \<^item> Judge, Refine: review and revision.  Stores (runstate, ircache, clustercache, manifest), Reporter and
    ReportFiles (reporter), Maintenance: what a run leaves behind.
  \<^item> Orchestrator: the run loop.  RunFrame: what a run leaves alone, for any collaborators.  RunProps:
    reports and skipping.  CuratorWorld, CuratorSteps: a wired deployment and its reachable states.
    GitRun: the same with a git clone.
  \<^item> DocEdit (docspec/docedit), LineDiff, CuratorApi and ApiRoutes (adapters/curatorapi), SpecChat
    (specchat): the surgical edits of a doc-spec, the diff that is shown of them, and the server's handlers and routes.
  \<^item> Deployment, Connections, DeployProps, Command, Serve (config, lock, reporter/sinks, cmd/mykb-curator): the
    composition root: which implementation each collaborator is, what the deployment as wired does to a
    page, and the commands \<open>run\<close> and \<open>serve\<close>, from the lock to the report.  RunLock: the locks of several
    runs on one machine, with the kernel's advisory locks as the world.  Keeping and RunRelease: what each
    collaborator keeps of the world when its own parts do, and that a whole run of the command closes what it opens.

  \<^bold>\<open>Interfaces.\<close>  The locale \<open>wiki_contract\<close> states what the reconciler may rely on at the wiki, \<open>kv_store\<close>
  what the caches promise, \<open>run_steps\<close> and \<open>run_frame\<close> what the collaborators of a run have to keep for
  the run to keep it, \<open>section_reviser\<close> what the refinement loop needs of a reviser, \<open>marked_backend\<close> what a
  backend has to write for the parser to read its blocks.  Each is interpreted on the definitions of
  the component that provides it: the in-memory wiki and the deployed one, the gob stores and the bbolt
  bucket, the wired deployment, the architecture frontend, and both backends.

  \<^bold>\<open>What is proved.\<close>  About whole runs: a run touches no page it does not own, reports every spec, and
  in every reachable world the revision on record is one the bot made, so a push reports exactly the
  human edits since; pruning acts only on pages that bear the curator's signs, retiring a leaf
  with a revision on record spares what humans edited since (without one it does not, which
  \<open>unrecorded_leaf_overwritten\<close> shows); a skip justified by a truthful diff loses nothing for projections; the
  deployment for a wiki pushes every page twice, the second time without the merge.  Runs of one wiki exclude each other even when
  they are killed, a run closes its lock and its database however it ends, no failure to report a run changes its outcome, and \<open>latest.yaml\<close> always leads to a
  report.  About pages: render, merge and parse
  fit together, so human text in an editorial block survives; marking is idempotent; the passes of the
  deployment resolve, style, mark and validate.  About the LLM paths: caches and recordings are
  transparent, the cache of a live wiki replays its sessions, the judge asks the model about every section that has a text and passes what the answers pass, refinement is bounded and touches failing
  sections only, diagram repair is bounded and degrades; client and shim of pi together are one
  model client, which reads the answer the contract of the harness names from a stream in the documented order.  About inputs: page specs are parsed exactly when they are valid, with their fields as written,
  doc-specs are valid, entry files yield the latest versions, the git diff names every changed area when
  directories are named like their areas, and git is only asked to read for a revision that is not an option.  About the
  server: an edit changes the lines of the entry it names and is written only when the result
  parses, its diff is exact and minimal, proposals go to the quarantine of the knowledge base, and a preview
  gives the verdicts a run starts from when the passes leave the prose alone; the path of a request decides what it can reach.

  \<^bold>\<open>Bounds.\<close>  All definitions are total; loops are structural or have a measure.  The refinement loop
  recurses on its remaining budget and \<open>refine_bounded_and_judged\<close> shows that the budget is what stops it.
  The repair of a diagram has the code's bound \<open>maxRepairAttempts\<close>.  The reachability results of
  CuratorSteps hold while the number of revisions is at most the number \<open>n\<close> of random draws assumed
  distinct (\<open>tracked\<close>); the code draws eight random bytes for each identifier and relies on the same.

  \<^bold>\<open>Not modelled.\<close>  Flag parsing (cobra), output to the terminal, the commands that only print or refuse, the
  listening HTTP servers, and what the libraries for HTTP, mail, MediaWiki, git, YAML and
  JSON do on the wire: these are parameters.  Concurrency inside a process: a run is sequential, the
  server's handlers are single operations, and the lock of RunLock is the only interleaving.  Contexts and time
  limits: cancellation is one of the errors a collaborator may return.
\<close>

end
